(* ===== verification/Prelude.thy ===== *)
theory Prelude
  imports Main "HOL-Library.Product_Lexorder" "HOL-Library.List_Lexorder" "HOL-Library.Char_ord" "HOL-Library.Code_Target_Nat"
begin

text \<open>What every component shares: the process environment (clock, faults, id generator), stateful
  programs that may fail, the two proof styles for them (inversion of a successful run, and
  preservation of an invariant by every run), signed 64-bit arithmetic, and decimal text.\<close>

named_theorems prog_simps "inversion of a successful or failed run of a program"
named_theorems keeps_intros "preservation of an invariant by every run of a program"

section \<open>Programs that may fail\<close>

text \<open>A Go call that reads and writes state and returns \<open>(value, error)\<close>: the error on the left.\<close>

type_synonym ('s, 'e, 'a) prog = "'s \<Rightarrow> ('e + 'a) \<times> 's"

definition ok :: "'a \<Rightarrow> ('s, 'e, 'a) prog" where
  "ok x = (\<lambda>s. (Inr x, s))"

definition fail :: "'e \<Rightarrow> ('s, 'e, 'a) prog" where
  "fail e = (\<lambda>s. (Inl e, s))"

text \<open>\<open>x, err := m(); if err != nil { return err }; ...\<close>\<close>

definition on_ok :: "('s, 'e, 'a) prog \<Rightarrow> ('a \<Rightarrow> ('s, 'e, 'b) prog) \<Rightarrow> ('s, 'e, 'b) prog" where
  "on_ok m f = (\<lambda>s. case m s of (Inl e, t) \<Rightarrow> (Inl e, t) | (Inr x, t) \<Rightarrow> f x t)"

text \<open>Translating the error of a call, as the repositories do with driver errors.\<close>

definition map_err :: "('e \<Rightarrow> 'f) \<Rightarrow> ('s, 'e, 'a) prog \<Rightarrow> ('s, 'f, 'a) prog" where
  "map_err h m = (\<lambda>s. case m s of (Inl e, t) \<Rightarrow> (Inl (h e), t) | (Inr x, t) \<Rightarrow> (Inr x, t))"

text \<open>A computation on values that may fail, inside a program.\<close>

definition lift_result :: "'e + 'a \<Rightarrow> ('s, 'e, 'a) prog" where
  "lift_result r = (\<lambda>s. (r, s))"

definition guard :: "bool \<Rightarrow> 'e \<Rightarrow> ('s, 'e, unit) prog" where
  "guard b e = (if b then ok () else fail e)"

lemma ok_run [prog_simps, simp]: "ok x s = (r, t) \<longleftrightarrow> r = Inr x \<and> t = s"
  by (auto simp: ok_def)

lemma fail_run [prog_simps, simp]: "fail e s = (r, t) \<longleftrightarrow> r = Inl e \<and> t = s"
  by (auto simp: fail_def)

lemma lift_result_run [prog_simps, simp]: "lift_result q s = (r, t) \<longleftrightarrow> r = q \<and> t = s"
  by (auto simp: lift_result_def)

lemma guard_ok [prog_simps, simp]: "guard b e s = (Inr u, t) \<longleftrightarrow> b \<and> t = s"
  by (auto simp: guard_def)

lemma guard_err [prog_simps, simp]: "guard b e s = (Inl e', t) \<longleftrightarrow> \<not> b \<and> e' = e \<and> t = s"
  by (auto simp: guard_def)

lemma on_ok_Inr [prog_simps]:
  "on_ok m f s = (Inr y, u) \<longleftrightarrow> (\<exists>x t. m s = (Inr x, t) \<and> f x t = (Inr y, u))"
  by (auto simp: on_ok_def split: prod.splits sum.splits)

lemma on_ok_Inl [prog_simps]:
  "on_ok m f s = (Inl e, u) \<longleftrightarrow>
     m s = (Inl e, u) \<or> (\<exists>x t. m s = (Inr x, t) \<and> f x t = (Inl e, u))"
  by (auto simp: on_ok_def split: prod.splits sum.splits)

lemma map_err_Inr [prog_simps, simp]: "map_err h m s = (Inr x, t) \<longleftrightarrow> m s = (Inr x, t)"
  by (auto simp: map_err_def split: prod.splits sum.splits)

lemma map_err_Inl [prog_simps]: "map_err h m s = (Inl e, t) \<longleftrightarrow> (\<exists>d. m s = (Inl d, t) \<and> e = h d)"
  by (auto simp: map_err_def split: prod.splits sum.splits)

lemma on_ok_eval:
  "m s = (Inr x, t) \<Longrightarrow> on_ok m f s = f x t" "m s = (Inl e, t) \<Longrightarrow> on_ok m f s = (Inl e, t)"
  by (simp_all add: on_ok_def)

section \<open>Invariants of programs\<close>

text \<open>Every run of \<open>m\<close>, successful or not, keeps \<open>I\<close>.\<close>

definition keeps :: "('s \<Rightarrow> bool) \<Rightarrow> ('s, 'e, 'a) prog \<Rightarrow> bool" where
  "keeps I m \<longleftrightarrow> (\<forall>s. I s \<longrightarrow> I (snd (m s)))"

lemma keepsI: "(\<And>s r t. I s \<Longrightarrow> m s = (r, t) \<Longrightarrow> I t) \<Longrightarrow> keeps I m"
  by (simp add: keeps_def) (metis surjective_pairing)

lemma keepsD: "keeps I m \<Longrightarrow> m s = (r, t) \<Longrightarrow> I s \<Longrightarrow> I t"
  by (metis keeps_def snd_conv)

lemma keeps_snd: "keeps I m \<Longrightarrow> I s \<Longrightarrow> I (snd (m s))"
  by (simp add: keeps_def)

lemma keeps_ok [keeps_intros]: "keeps I (ok x)"
  by (simp add: keeps_def ok_def)

lemma keeps_fail [keeps_intros]: "keeps I (fail e)"
  by (simp add: keeps_def fail_def)

lemma keeps_lift_result [keeps_intros]: "keeps I (lift_result r)"
  by (simp add: keeps_def lift_result_def)

lemma keeps_guard [keeps_intros]: "keeps I (guard b e)"
  by (simp add: keeps_def guard_def ok_def fail_def)

lemma keeps_on_ok [keeps_intros]:
  "keeps I m \<Longrightarrow> (\<And>x. keeps I (f x)) \<Longrightarrow> keeps I (on_ok m f)"
  by (auto simp: keeps_def on_ok_def split: prod.splits sum.splits)

lemma keeps_map_err [keeps_intros]: "keeps I m \<Longrightarrow> keeps I (map_err h m)"
  by (auto simp: keeps_def map_err_def split: prod.splits sum.splits)

lemma keeps_If [keeps_intros]: "keeps I m \<Longrightarrow> keeps I n \<Longrightarrow> keeps I (if b then m else n)"
  by simp

lemma keeps_Let [keeps_intros]: "(\<And>x. keeps I (f x)) \<Longrightarrow> keeps I (let x = v in f x)"
  by (simp add: Let_def)

lemma keeps_option [keeps_intros]:
  "keeps I m \<Longrightarrow> (\<And>x. keeps I (f x)) \<Longrightarrow> keeps I (case opt of None \<Rightarrow> m | Some x \<Rightarrow> f x)"
  by (cases opt) auto

lemma keeps_sum [keeps_intros]:
  "(\<And>x. keeps I (f x)) \<Longrightarrow> (\<And>x. keeps I (g x)) \<Longrightarrow>
     keeps I (case r of Inl x \<Rightarrow> f x | Inr x \<Rightarrow> g x)"
  by (cases r) auto

lemma keeps_list [keeps_intros]:
  "keeps I m \<Longrightarrow> (\<And>x xs. keeps I (f x xs)) \<Longrightarrow>
     keeps I (case l of [] \<Rightarrow> m | x # xs \<Rightarrow> f x xs)"
  by (cases l) auto

lemma keeps_prod [keeps_intros]:
  "(\<And>x y. keeps I (f x y)) \<Longrightarrow> keeps I (case p of (x, y) \<Rightarrow> f x y)"
  by (cases p) auto

section \<open>The environment\<close>

text \<open>Every clock reading, generated id and SQL statement takes one tick, so the values the outside
  world supplies are functions of the tick. \<open>fault\<close> says which statements the database driver fails
  (a lost connection, a timeout, a constraint the code does not distinguish), \<open>collation\<close> is the
  database's collation key for ORDER BY on text, \<open>db_time\<close> what a timestamptz column keeps of
  an instant, and \<open>broker\<close> what becomes of a message sent at that tick.\<close>

record world =
  tick :: nat

datatype db_error =
    DriverError string
  | UniqueViolation string
  | ForeignKeyViolation string
  | ExclusionViolation string
  | CheckViolation string
  | RangeError

text \<open>What becomes of one Kafka send: acknowledged, refused, or written by the broker although the
  acknowledgement was lost.\<close>

datatype delivery = Acked | Refused string | LostAck string

record env =
  clock :: "nat \<Rightarrow> int"
  fault :: "nat \<Rightarrow> string option"
  uuid_at :: "nat \<Rightarrow> string"
  collation :: "string \<Rightarrow> string"
  db_time :: "int \<Rightarrow> int"
  broker :: "nat \<Rightarrow> delivery"

definition step_tick :: "'z world_scheme \<Rightarrow> 'z world_scheme" where
  "step_tick s = s\<lparr>tick := Suc (tick s)\<rparr>"

text \<open>\<open>time.Now()\<close> and \<open>uuid.NewString()\<close>.\<close>

definition now :: "env \<Rightarrow> ('z world_scheme, 'e, int) prog" where
  "now E = (\<lambda>s. (Inr (clock E (tick s)), step_tick s))"

definition new_uuid :: "env \<Rightarrow> ('z world_scheme, 'e, string) prog" where
  "new_uuid E = (\<lambda>s. (Inr (uuid_at E (tick s)), step_tick s))"

text \<open>One SQL statement: the driver may fail it, otherwise it takes effect.\<close>

definition sql :: "env \<Rightarrow> ('z world_scheme, db_error, 'a) prog \<Rightarrow> ('z world_scheme, db_error, 'a) prog" where
  "sql E q = (\<lambda>s. case fault E (tick s) of
       Some msg \<Rightarrow> (Inl (DriverError msg), step_tick s)
     | None \<Rightarrow> q (step_tick s))"

text \<open>A query only reads.\<close>

definition query :: "env \<Rightarrow> ('z world_scheme \<Rightarrow> 'a) \<Rightarrow> ('z world_scheme, db_error, 'a) prog" where
  "query E f = sql E (\<lambda>s. (Inr (f s), s))"

lemma now_run [prog_simps]: "now E s = (r, t) \<longleftrightarrow> r = Inr (clock E (tick s)) \<and> t = step_tick s"
  by (auto simp: now_def)

lemma new_uuid_run [prog_simps]:
  "new_uuid E s = (r, t) \<longleftrightarrow> r = Inr (uuid_at E (tick s)) \<and> t = step_tick s"
  by (auto simp: new_uuid_def)

lemma sql_Inr [prog_simps]:
  "sql E q s = (Inr x, t) \<longleftrightarrow> fault E (tick s) = None \<and> q (step_tick s) = (Inr x, t)"
  by (auto simp: sql_def split: option.splits)

lemma sql_Inl [prog_simps]:
  "sql E q s = (Inl e, t) \<longleftrightarrow>
     (\<exists>msg. fault E (tick s) = Some msg \<and> e = DriverError msg \<and> t = step_tick s) \<or>
     fault E (tick s) = None \<and> q (step_tick s) = (Inl e, t)"
  by (auto simp: sql_def split: option.splits)

lemma query_Inr [prog_simps]:
  "query E f s = (Inr x, t) \<longleftrightarrow> fault E (tick s) = None \<and> x = f (step_tick s) \<and> t = step_tick s"
  by (auto simp: query_def prog_simps)

lemma query_Inl [prog_simps]:
  "query E f s = (Inl e, t) \<longleftrightarrow>
     (\<exists>msg. fault E (tick s) = Some msg \<and> e = DriverError msg \<and> t = step_tick s)"
  by (auto simp: query_def prog_simps)

text \<open>Invariants that do not read the tick, which is all of them.\<close>

definition tick_free :: "('z world_scheme \<Rightarrow> bool) \<Rightarrow> bool" where
  "tick_free I \<longleftrightarrow> (\<forall>s n. I (s\<lparr>tick := n\<rparr>) = I s)"

lemma tick_free_step [simp]: "tick_free I \<Longrightarrow> I (step_tick s) = I s"
  by (simp add: tick_free_def step_tick_def)

lemma keeps_now [keeps_intros]: "tick_free I \<Longrightarrow> keeps I (now E)"
  by (auto simp: keeps_def now_def)

lemma keeps_new_uuid [keeps_intros]: "tick_free I \<Longrightarrow> keeps I (new_uuid E)"
  by (auto simp: keeps_def new_uuid_def)

lemma keeps_sql [keeps_intros]: "tick_free I \<Longrightarrow> keeps I q \<Longrightarrow> keeps I (sql E q)"
  by (auto simp: keeps_def sql_def split: option.splits)

lemma keeps_query [keeps_intros]: "tick_free I \<Longrightarrow> keeps I (query E f)"
  by (auto simp: keeps_def query_def sql_def split: option.splits)

text \<open>A call that only lets time pass, such as a request to another service.\<close>

definition reads_only :: "('z world_scheme, 'e, 'a) prog \<Rightarrow> bool" where
  "reads_only m \<longleftrightarrow> (\<forall>s. \<exists>n. snd (m s) = s\<lparr>tick := n\<rparr>)"

lemma reads_onlyD: "reads_only m \<Longrightarrow> m s = (r, t) \<Longrightarrow> \<exists>n. t = s\<lparr>tick := n\<rparr>"
  unfolding reads_only_def by (metis snd_conv)

lemma keeps_reads_only: "tick_free I \<Longrightarrow> reads_only m \<Longrightarrow> keeps I m"
  unfolding keeps_def reads_only_def tick_free_def by metis

lemma step_tick_set: "\<exists>n. step_tick s = s\<lparr>tick := n\<rparr>"
  by (auto simp: step_tick_def)

lemma reads_only_now [keeps_intros]: "reads_only (now E)"
  by (simp add: reads_only_def now_def step_tick_set)

lemma same_tick: "\<exists>n. s = s\<lparr>tick := n\<rparr>"
  by (rule exI [of _ "tick s"]) simp

lemma reads_only_ok [keeps_intros]: "reads_only (ok x)" "reads_only (fail e)" "reads_only (lift_result r)"
  by (simp_all add: reads_only_def ok_def fail_def lift_result_def same_tick)

lemma reads_only_query [keeps_intros]: "reads_only (query E f)"
  by (auto simp: reads_only_def query_def sql_def step_tick_set split: option.splits)

lemma reads_only_on_ok [keeps_intros]:
  assumes "reads_only m" "\<And>x. reads_only (f x)"
  shows "reads_only (on_ok m f)"
  unfolding reads_only_def
proof
  fix s
  obtain r t where m: "m s = (r, t)" by fastforce
  obtain n where n: "t = s\<lparr>tick := n\<rparr>" using reads_onlyD [OF assms(1) m] by blast
  show "\<exists>n. snd (on_ok m f s) = s\<lparr>tick := n\<rparr>"
  proof (cases r)
    case (Inr x)
    obtain k where "snd (f x t) = t\<lparr>tick := k\<rparr>" using assms(2) unfolding reads_only_def by blast
    then show ?thesis using m n Inr by (auto simp: on_ok_def)
  qed (use m n in \<open>auto simp: on_ok_def\<close>)
qed

lemma reads_only_map_err [keeps_intros]: "reads_only m \<Longrightarrow> reads_only (map_err h m)"
  by (auto simp: reads_only_def map_err_def split: prod.splits sum.splits) (metis snd_conv)+

lemma reads_only_cases [keeps_intros]:
  "reads_only m \<Longrightarrow> reads_only n \<Longrightarrow> reads_only (if b then m else n)"
  "reads_only m \<Longrightarrow> (\<And>x. reads_only (f x)) \<Longrightarrow> reads_only (case opt of None \<Rightarrow> m | Some x \<Rightarrow> f x)"
  "reads_only m \<Longrightarrow> (\<And>x xs. reads_only (g x xs)) \<Longrightarrow> reads_only (case l of [] \<Rightarrow> m | x # xs \<Rightarrow> g x xs)"
  by (simp_all split: option.splits list.splits)

section \<open>Transactions\<close>

text \<open>gorm's \<open>Transaction\<close>: BEGIN, the body, then COMMIT, or ROLLBACK when the body (or the commit)
  fails. \<open>restore s t\<close> puts the tables of \<open>s\<close> back into \<open>t\<close>; the tick and the id sequences are not
  rolled back, as in PostgreSQL.\<close>

definition run_in_tx ::
    "env \<Rightarrow> (db_error \<Rightarrow> 'e) \<Rightarrow> ('z world_scheme \<Rightarrow> 'z world_scheme \<Rightarrow> 'z world_scheme) \<Rightarrow>
     ('z world_scheme, 'e, 'a) prog \<Rightarrow> ('z world_scheme, 'e, 'a) prog" where
  "run_in_tx E h restore body = (\<lambda>s.
     case fault E (tick s) of
       Some msg \<Rightarrow> (Inl (h (DriverError msg)), step_tick s)
     | None \<Rightarrow>
         (case body (step_tick s) of
            (Inl e, t) \<Rightarrow> (Inl e, restore s (step_tick t))
          | (Inr x, t) \<Rightarrow>
              (case fault E (tick t) of
                 Some msg \<Rightarrow> (Inl (h (DriverError msg)), restore s (step_tick t))
               | None \<Rightarrow> (Inr x, step_tick t))))"

lemma run_in_tx_Inr [prog_simps]:
  "run_in_tx E h restore body s = (Inr x, u) \<longleftrightarrow>
     fault E (tick s) = None \<and>
     (\<exists>t. body (step_tick s) = (Inr x, t) \<and> fault E (tick t) = None \<and> u = step_tick t)"
  by (auto simp: run_in_tx_def split: option.splits prod.splits sum.splits)

lemma run_in_tx_Inl:
  "run_in_tx E h restore body s = (Inl e, u) \<Longrightarrow>
     u = step_tick s \<or> (\<exists>r t. body (step_tick s) = (r, t) \<and> u = restore s (step_tick t))"
  by (auto simp: run_in_tx_def split: option.splits prod.splits sum.splits)

text \<open>A transaction keeps what its successful body keeps, if rolling back keeps it: the body may
  break the invariant on the way.\<close>

lemma keeps_run_in_tx:
  assumes "tick_free I"
    and "\<And>s r t. I s \<Longrightarrow> body (step_tick s) = (r, t) \<Longrightarrow> I (restore s (step_tick t))"
    and "\<And>s x t. I s \<Longrightarrow> body s = (Inr x, t) \<Longrightarrow> I t"
  shows "keeps I (run_in_tx E h restore body)"
proof (rule keepsI)
  fix s r u
  assume I: "I s" and run: "run_in_tx E h restore body s = (r, u)"
  have I': "I (step_tick s)" using I assms(1) by simp
  show "I u"
  proof (cases r)
    case (Inl e)
    then show ?thesis using run_in_tx_Inl [of E h restore body s e u] run I I' assms(2) by auto
  next
    case (Inr x)
    then show ?thesis using run assms(1) assms(3) [OF I'] by (auto simp: run_in_tx_Inr)
  qed
qed

section \<open>Lists and text\<close>

text \<open>Loops that may fail at each element.\<close>

fun map_result :: "('a \<Rightarrow> 'e + 'b) \<Rightarrow> 'a list \<Rightarrow> 'e + 'b list" where
  "map_result f [] = Inr []"
| "map_result f (x # xs) = (case f x of
     Inl e \<Rightarrow> Inl e
   | Inr y \<Rightarrow> (case map_result f xs of Inl e \<Rightarrow> Inl e | Inr ys \<Rightarrow> Inr (y # ys)))"

lemma map_result_Inr:
  "map_result f xs = Inr ys \<longleftrightarrow> list_all2 (\<lambda>x y. f x = Inr y) xs ys"
proof (induction xs arbitrary: ys)
  case (Cons x xs)
  then show ?case by (cases ys; cases "f x"; cases "map_result f xs") auto
qed auto

text \<open>Rows with distinct keys, and replacing the row of one key.\<close>

lemma distinct_replaced:
  assumes "distinct (map k rows)" "distinct (filter P (map f rows))"
    and "P (f r') \<Longrightarrow> f r' \<notin> f ` set (filter (\<lambda>q. k q \<noteq> i) rows)"
  shows "distinct (filter P (map f (map (\<lambda>q. if k q = i then r' else q) rows)))"
  using assms
proof (induction rows)
  case (Cons q rows)
  let ?new = "filter P (map f (map (\<lambda>q. if k q = i then r' else q) rows))"
  have d: "distinct (map k rows)" "distinct (filter P (map f rows))" and q: "P (f q) \<longrightarrow> f q \<notin> f ` set rows"
    using Cons(2,3) by (auto split: if_splits)
  have n: "P (f r') \<Longrightarrow> f r' \<notin> f ` set (filter (\<lambda>q. k q \<noteq> i) rows)" using Cons(4) by (auto split: if_splits)
  have ih: "distinct ?new" by (rule Cons(1) [OF d n])
  have sub: "set ?new \<subseteq> insert (f r') (f ` set (filter (\<lambda>q. k q \<noteq> i) rows))" by auto
  show ?case
  proof (cases "k q = i")
    case True
    then have other: "\<forall>x \<in> set rows. k x \<noteq> i" using Cons(2) by (auto simp: image_iff)
    then have "map (\<lambda>q. if k q = i then r' else q) rows = rows" "filter (\<lambda>q. k q \<noteq> i) rows = rows"
      by (simp_all add: map_idI filter_id_conv)
    then show ?thesis using True d(2) n by simp
  next
    case False
    then have "P (f r') \<longrightarrow> f r' \<noteq> f q" using Cons(4) by auto
    then have "P (f q) \<longrightarrow> f q \<notin> set ?new" using q sub by auto
    then show ?thesis using False ih by (simp del: map_map)
  qed
qed simp

lemma once_distinct:
  "\<exists>x \<in> set xs. f x = a \<Longrightarrow> distinct (map f xs) \<Longrightarrow> length (filter (\<lambda>x. f x = a) xs) = 1"
proof (induction xs)
  case (Cons x xs)
  show ?case
  proof (cases "f x = a")
    case True
    then have "filter (\<lambda>x. f x = a) xs = []" using Cons(3) by (auto simp: filter_empty_conv image_iff)
    then show ?thesis using True by simp
  qed (use Cons in simp)
qed simp

section \<open>Signed 64-bit integers\<close>

text \<open>Go's \<open>int64\<close> (and \<open>int\<close> on the 64-bit platforms the services are built for): arithmetic wraps,
  division truncates towards zero.\<close>

definition wrap64 :: "int \<Rightarrow> int" where
  "wrap64 n = (n + 2 ^ 63) mod 2 ^ 64 - 2 ^ 63"

definition min_int64 :: int where "min_int64 = - (2 ^ 63)"
definition max_int64 :: int where "max_int64 = 2 ^ 63 - 1"

definition in_int64 :: "int \<Rightarrow> bool" where
  "in_int64 n \<longleftrightarrow> min_int64 \<le> n \<and> n \<le> max_int64"

lemma wrap64_in [simp]: "in_int64 (wrap64 n)"
proof -
  have "0 \<le> (n + 2 ^ 63) mod 2 ^ 64" "(n + 2 ^ 63) mod 2 ^ 64 < (2::int) ^ 64" by simp_all
  then show ?thesis by (simp add: in_int64_def wrap64_def min_int64_def max_int64_def)
qed

lemma wrap64_id: "in_int64 n \<Longrightarrow> wrap64 n = n"
  by (simp add: in_int64_def wrap64_def min_int64_def max_int64_def)

text \<open>The quotient and remainder of Go, which truncate.\<close>

definition quot :: "int \<Rightarrow> int \<Rightarrow> int" where
  "quot a b = (if (0 \<le> a) = (0 < b) then \<bar>a\<bar> div \<bar>b\<bar> else - (\<bar>a\<bar> div \<bar>b\<bar>))"

definition rem :: "int \<Rightarrow> int \<Rightarrow> int" where
  "rem a b = a - b * quot a b"

lemma quot_nonneg: "0 \<le> a \<Longrightarrow> 0 < b \<Longrightarrow> quot a b = a div b"
  by (simp add: quot_def)

lemma rem_nonneg: "0 \<le> a \<Longrightarrow> 0 < b \<Longrightarrow> rem a b = a mod b"
  by (simp add: rem_def quot_nonneg minus_mult_div_eq_mod)

end
