(* ===== verification/GoText.thy ===== *)
theory GoText
  imports Prelude
begin

text \<open>The text functions of Go's standard library the services use: \<open>strconv.FormatInt\<close> and
  \<open>ParseInt\<close> in base 10, zero-padded numbers, \<open>strings.ToUpper\<close>, \<open>ToLower\<close>, \<open>TrimSpace\<close>, \<open>TrimRight\<close>,
  \<open>Cut\<close> and \<open>EqualFold\<close>, hex and base64. A string is the list of its bytes; case mapping and white space are those
  of the ASCII range, which is all the codes, plates and headers the services compare may contain (of an email, what is
  beyond it is left as it is).\<close>

section \<open>Numbers\<close>

definition digit_char :: "nat \<Rightarrow> char" where
  "digit_char n = char_of (48 + n)"

definition digit_of :: "char \<Rightarrow> nat option" where
  "digit_of c = (let n = of_char c in if 48 \<le> n \<and> n \<le> 57 then Some (n - 48) else None)"

lemma digit_of_char [simp]: "n < 10 \<Longrightarrow> digit_of (digit_char n) = Some n"
  by (simp add: digit_of_def digit_char_def)

fun digits :: "nat \<Rightarrow> string" where
  "digits n = (if n < 10 then [digit_char n] else digits (n div 10) @ [digit_char (n mod 10)])"

declare digits.simps [simp del]

fun parse_nat_acc :: "nat \<Rightarrow> string \<Rightarrow> nat option" where
  "parse_nat_acc a [] = Some a"
| "parse_nat_acc a (c # cs) =
     (case digit_of c of None \<Rightarrow> None | Some d \<Rightarrow> parse_nat_acc (10 * a + d) cs)"

lemma parse_nat_acc_append:
  "parse_nat_acc a (xs @ ys) = Option.bind (parse_nat_acc a xs) (\<lambda>b. parse_nat_acc b ys)"
  by (induction xs arbitrary: a) (auto split: option.splits)

lemma parse_digits: "parse_nat_acc a (digits n) = Some (a * 10 ^ length (digits n) + n)"
proof (induction n arbitrary: a rule: digits.induct)
  case (1 n)
  show ?case
  proof (cases "n < 10")
    case True
    then show ?thesis by (simp add: digits.simps [of n])
  next
    case False
    have "n = 10 * (n div 10) + n mod 10" by simp
    then have "10 * (a * 10 ^ length (digits (n div 10)) + n div 10) + n mod 10 =
        a * 10 ^ Suc (length (digits (n div 10))) + n" by simp
    then show ?thesis
      using False 1 by (simp add: digits.simps [of n] parse_nat_acc_append)
  qed
qed

lemma digits_ne [simp]: "digits n \<noteq> []"
  by (subst digits.simps) simp

lemma hd_digits: "\<exists>d < 10. hd (digits n) = digit_char d"
proof (induction n rule: digits.induct)
  case (1 n)
  then show ?case by (cases "n < 10") (auto simp: digits.simps [of n])
qed

definition format_int :: "int \<Rightarrow> string" where
  "format_int n = (if n < 0 then CHR ''-'' # digits (nat (- n)) else digits (nat n))"

text \<open>\<open>strconv.Quote\<close>, which \<open>%q\<close> prints; runes past ASCII are taken as printable.\<close>

definition hex_digit :: "nat \<Rightarrow> char" where
  "hex_digit n = (if n < 10 then char_of (48 + n) else char_of (87 + n))"

definition quote_char :: "char \<Rightarrow> string" where
  "quote_char c =
     (let n = of_char c :: nat
      in if n = 34 \<or> n = 92 then [char_of (92::nat), c]
         else if 7 \<le> n \<and> n \<le> 13 then [char_of (92::nat), ''abtnvfr'' ! (n - 7)]
         else if n < 32 \<or> n = 127 then [char_of (92::nat), CHR ''x'', hex_digit (n div 16), hex_digit (n mod 16)]
         else [c])"

definition quote :: "string \<Rightarrow> string" where
  "quote s = CHR 0x22 # concat (map quote_char s) @ [CHR 0x22]"

text \<open>\<open>strconv.ParseInt(s, 10, 64)\<close>: an optional sign, at least one digit, only digits, in range.\<close>

definition parse_int64 :: "string \<Rightarrow> int option" where
  "parse_int64 s =
     (let (neg, body) = (case s of
            [] \<Rightarrow> (False, [])
          | c # cs \<Rightarrow> if c = CHR ''-'' then (True, cs) else if c = CHR ''+'' then (False, cs) else (False, s))
      in if body = [] then None
         else case parse_nat_acc 0 body of
                None \<Rightarrow> None
              | Some n \<Rightarrow> (let v = (if neg then - int n else int n) in if in_int64 v then Some v else None))"

lemma digit_char_not_sign: "n < 10 \<Longrightarrow> digit_char n \<noteq> CHR ''-'' \<and> digit_char n \<noteq> CHR ''+''"
proof -
  assume "n < 10"
  then have "digit_of (digit_char n) = Some n" by simp
  moreover have "digit_of (CHR ''-'') = None" "digit_of (CHR ''+'') = None" by (simp_all add: digit_of_def)
  ultimately show ?thesis by auto
qed

lemma parse_format_int: "in_int64 n \<Longrightarrow> parse_int64 (format_int n) = Some n"
proof -
  assume n: "in_int64 n"
  obtain d where d: "d < 10" "hd (digits (nat n)) = digit_char d" using hd_digits by blast
  obtain c cs where cs: "digits (nat n) = c # cs" by (cases "digits (nat n)") auto
  have "c \<noteq> CHR ''-''" "c \<noteq> CHR ''+''" using d cs digit_char_not_sign by auto
  moreover have "parse_nat_acc 0 (c # cs) = Some (nat n)" using parse_digits [of 0 "nat n"] cs by simp
  moreover have "parse_nat_acc 0 (digits (nat (- n))) = Some (nat (- n))" using parse_digits [of 0] by simp
  ultimately show ?thesis using n cs by (auto simp: parse_int64_def format_int_def Let_def)
qed

lemma parse_int64_range: "parse_int64 s = Some n \<Longrightarrow> in_int64 n"
  by (auto simp: parse_int64_def Let_def split: prod.splits if_splits option.splits)

lemma format_int_inj: "in_int64 m \<Longrightarrow> in_int64 n \<Longrightarrow> format_int m = format_int n \<Longrightarrow> m = n"
  by (metis option.inject parse_format_int)

lemma digits_inj: "digits m = digits n \<Longrightarrow> m = n"
proof -
  assume e: "digits m = digits n"
  have p: "parse_nat_acc 0 (digits k) = Some k" for k using parse_digits [of 0 k] by simp
  show ?thesis using p [of m] p [of n] unfolding e by simp
qed

lemma digits_not_minus: "digits n = c # cs \<Longrightarrow> c \<noteq> CHR ''-''"
proof -
  assume e: "digits n = c # cs"
  obtain d where d: "d < 10" "hd (digits n) = digit_char d" using hd_digits by blast
  have "c = digit_char d" using d(2) unfolding e list.sel(1) .
  then show ?thesis using digit_char_not_sign [OF d(1)] by simp
qed

lemma format_int_neg: "format_int n = CHR ''-'' # cs \<longleftrightarrow> n < 0 \<and> cs = digits (nat (- n))"
  using digits_not_minus [of "nat n" "CHR ''-''" cs] by (auto simp: format_int_def)

lemma format_int_eq_iff [simp]: "format_int m = format_int n \<longleftrightarrow> m = n"
proof
  assume e: "format_int m = format_int n"
  show "m = n"
  proof (cases "m < 0")
    case True
    then have "format_int n = CHR ''-'' # digits (nat (- m))" using e by (simp add: format_int_def)
    then have "n < 0" "digits (nat (- m)) = digits (nat (- n))" unfolding format_int_neg by simp_all
    then show ?thesis using True digits_inj [of "nat (- m)" "nat (- n)"] by simp
  next
    case False
    then have "\<not> n < 0" using e format_int_neg [of m "digits (nat (- n))"] by (auto simp: format_int_def)
    then show ?thesis using e False digits_inj [of "nat m" "nat n"] by (simp add: format_int_def)
  qed
qed simp

text \<open>At least \<open>k\<close> digits, padded with zeros.\<close>

definition pad :: "nat \<Rightarrow> nat \<Rightarrow> string" where
  "pad k n = replicate (k - length (digits n)) (CHR ''0'') @ digits n"

lemma digits_small: "n < 10 \<Longrightarrow> digits n = [digit_char n]"
  by (simp add: digits.simps)

lemma digits_two: "10 \<le> n \<Longrightarrow> n < 100 \<Longrightarrow> digits n = [digit_char (n div 10), digit_char (n mod 10)]"
  by (simp add: digits.simps [of n] digits_small)

lemma digits_three:
  "100 \<le> n \<Longrightarrow> n < 1000 \<Longrightarrow>
     digits n = [digit_char (n div 100), digit_char (n div 10 mod 10), digit_char (n mod 10)]"
  by (simp add: digits.simps [of n] digits_two div_mult2_eq [symmetric])

lemma digits_four:
  "1000 \<le> n \<Longrightarrow> n < 10000 \<Longrightarrow>
     digits n = [digit_char (n div 1000), digit_char (n div 100 mod 10), digit_char (n div 10 mod 10),
                 digit_char (n mod 10)]"
  by (simp add: digits.simps [of n] digits_three div_mult2_eq [symmetric])

lemma zero_char: "CHR ''0'' = digit_char 0"
  unfolding digit_char_def by code_simp

lemma pad_two: "n < 100 \<Longrightarrow> pad 2 n = [digit_char (n div 10), digit_char (n mod 10)]"
  by (cases "n < 10") (simp_all add: pad_def digits_small digits_two zero_char)

lemma pad_three:
  "n < 1000 \<Longrightarrow>
     pad 3 n = [digit_char (n div 100), digit_char (n div 10 mod 10), digit_char (n mod 10)]"
  by (cases "n < 10"; cases "n < 100")
    (simp_all add: pad_def digits_small digits_two digits_three zero_char numeral_2_eq_2)

lemma pad_four:
  "n < 10000 \<Longrightarrow>
     pad 4 n = [digit_char (n div 1000), digit_char (n div 100 mod 10), digit_char (n div 10 mod 10),
                digit_char (n mod 10)]"
  by (cases "n < 10"; cases "n < 100"; cases "n < 1000")
    (simp_all add: pad_def digits_small digits_two digits_three digits_four zero_char
       numeral_2_eq_2 numeral_3_eq_3)

section \<open>Case, spaces and separators\<close>

definition to_upper_char :: "char \<Rightarrow> char" where
  "to_upper_char c =
     (let n = of_char c :: nat in if 97 \<le> n \<and> n \<le> 122 then char_of (n - 32) else c)"

definition to_upper :: "string \<Rightarrow> string" where
  "to_upper s = map to_upper_char s"

definition to_lower_char :: "char \<Rightarrow> char" where
  "to_lower_char c =
     (let n = of_char c :: nat in if 65 \<le> n \<and> n \<le> 90 then char_of (n + 32) else c)"

definition to_lower :: "string \<Rightarrow> string" where
  "to_lower s = map to_lower_char s"

definition equal_fold :: "string \<Rightarrow> string \<Rightarrow> bool" where
  "equal_fold s t = (to_upper s = to_upper t)"

lemma to_upper_char_idem [simp]: "to_upper_char (to_upper_char c) = to_upper_char c"
  by (auto simp: to_upper_char_def Let_def)

lemma to_upper_idem [simp]: "to_upper (to_upper s) = to_upper s"
  by (simp add: to_upper_def)

lemma to_upper_append [simp]: "to_upper (s @ t) = to_upper s @ to_upper t"
  by (simp add: to_upper_def)

lemma to_lower_char_idem [simp]: "to_lower_char (to_lower_char c) = to_lower_char c"
  by (auto simp: to_lower_char_def Let_def)

lemma to_lower_idem [simp]: "to_lower (to_lower s) = to_lower s"
  by (simp add: to_lower_def)

text \<open>Tab, newline, vertical tab, form feed, carriage return, space.\<close>

definition is_space :: "char \<Rightarrow> bool" where
  "is_space c = (let n = of_char c :: nat in n = 32 \<or> (9 \<le> n \<and> n \<le> 13))"

definition trim_space :: "string \<Rightarrow> string" where
  "trim_space s = rev (dropWhile is_space (rev (dropWhile is_space s)))"

definition trim_right :: "char \<Rightarrow> string \<Rightarrow> string" where
  "trim_right c s = rev (dropWhile (\<lambda>x. x = c) (rev s))"

text \<open>Lower case keeps white space, so trimming and lowering commute.\<close>

lemma is_space_lower [simp]: "is_space (to_lower_char c) = is_space c"
  by (auto simp: is_space_def to_lower_char_def Let_def)

lemma to_lower_trim: "to_lower (trim_space s) = trim_space (to_lower s)"
  by (simp add: to_lower_def trim_space_def rev_map dropWhile_map o_def)

lemma trim_space_idem [simp]: "trim_space (trim_space s) = trim_space s"
proof -
  define u where "u = dropWhile is_space s"
  define v where "v = rev (dropWhile is_space (rev u))"
  have "trim_space s = v" by (simp add: trim_space_def u_def v_def)
  obtain w where w: "u = v @ w" using takeWhile_dropWhile_id [of is_space "rev u"] unfolding v_def by (metis rev_append rev_rev_ident)
  have "dropWhile is_space v = v"
  proof (cases v)
    case (Cons c v')
    then have "dropWhile is_space s = c # v' @ w" using w by (simp add: u_def)
    then have "\<not> is_space c" by (simp add: dropWhile_eq_Cons_conv)
    then show ?thesis by (simp add: Cons)
  qed simp
  moreover have "dropWhile is_space (rev v) = rev v" by (simp only: v_def rev_rev_ident dropWhile_idem)
  ultimately show ?thesis unfolding \<open>trim_space s = v\<close> by (simp add: trim_space_def)
qed

text \<open>\<open>hex.EncodeToString\<close>.\<close>

definition hex_encode :: "string \<Rightarrow> string" where
  "hex_encode s = concat (map (\<lambda>c. [hex_digit (of_char c div 16), hex_digit (of_char c mod 16)]) s)"

lemma hex_digit_inj: "a < 16 \<Longrightarrow> b < 16 \<Longrightarrow> hex_digit a = hex_digit b \<Longrightarrow> a = b"
proof -
  assume a: "a < 16" "b < 16" "hex_digit a = hex_digit b"
  have c: "(of_char (hex_digit n) :: nat) = (if n < 10 then 48 + n else 87 + n)" if "n < 16" for n
    using that by (simp add: hex_digit_def)
  have "(if a < 10 then 48 + a else 87 + a) = (if b < 10 then 48 + b else 87 + b)"
    using c [OF a(1)] c [OF a(2)] by (simp only: a(3))
  then show "a = b" by (cases "a < 10"; cases "b < 10") simp_all
qed

lemma hex_encode_inj: "hex_encode s = hex_encode t \<Longrightarrow> s = t"
proof (induction s arbitrary: t)
  case Nil
  then show ?case by (cases t) (simp_all add: hex_encode_def)
next
  case (Cons c s)
  then obtain d u where t: "t = d # u" by (cases t) (simp_all add: hex_encode_def)
  have e: "hex_digit (of_char c div 16) = hex_digit (of_char d div 16)" "hex_digit (of_char c mod 16) = hex_digit (of_char d mod 16)"
    "hex_encode s = hex_encode u" using Cons(2) by (simp_all add: t hex_encode_def)
  have "(of_char c :: nat) div 16 = of_char d div 16" "(of_char c :: nat) mod 16 = of_char d mod 16"
    using hex_digit_inj [OF _ _ e(1)] hex_digit_inj [OF _ _ e(2)] by (simp_all add: less_mult_imp_div_less)
  then have "(of_char c :: nat) = of_char d" by (metis div_mult_mod_eq)
  then have "c = d" by (metis char_of_char)
  then show ?case using Cons(1) [OF e(3)] by (simp add: t)
qed

text \<open>\<open>base64.RawURLEncoding.EncodeToString\<close>.\<close>

definition base64_char :: "nat \<Rightarrow> char" where
  "base64_char n = (if n < 26 then char_of (65 + n) else if n < 52 then char_of (71 + n) else if n < 62 then char_of (n - 4)
     else if n = 62 then CHR ''-'' else CHR ''_'')"

fun base64_raw_url :: "nat list \<Rightarrow> string" where
  "base64_raw_url (a # b # c # rest) =
     base64_char (a div 4) # base64_char (a mod 4 * 16 + b div 16) # base64_char (b mod 16 * 4 + c div 64)
       # base64_char (c mod 64) # base64_raw_url rest"
| "base64_raw_url [a, b] = [base64_char (a div 4), base64_char (a mod 4 * 16 + b div 16), base64_char (b mod 16 * 4)]"
| "base64_raw_url [a] = [base64_char (a div 4), base64_char (a mod 4 * 16)]"
| "base64_raw_url [] = []"

text \<open>\<open>utf8.RuneCountInString\<close> of a valid string: its bytes that do not continue a rune.\<close>

definition rune_count :: "string \<Rightarrow> nat" where
  "rune_count s = length (filter (\<lambda>c. (of_char c :: nat) < 128 \<or> 192 \<le> (of_char c :: nat)) s)"

text \<open>\<open>strings.Cut(s, sep)\<close> for a one-byte separator: the parts around the first one.\<close>

fun cut_at :: "char \<Rightarrow> string \<Rightarrow> (string \<times> string) option" where
  "cut_at c [] = None"
| "cut_at c (x # xs) =
     (if x = c then Some ([], xs)
      else case cut_at c xs of None \<Rightarrow> None | Some (a, b) \<Rightarrow> Some (x # a, b))"

lemma cut_at_Some: "cut_at c s = Some (a, b) \<longleftrightarrow> s = a @ c # b \<and> c \<notin> set a"
proof (induction s arbitrary: a b)
  case (Cons x xs)
  show ?case
  proof (cases "cut_at c xs")
    case None
    then have "\<And>a b. xs \<noteq> a @ c # b \<or> c \<in> set a" using Cons by auto
    then show ?thesis using None by (cases a) auto
  next
    case (Some p)
    then have "\<And>a b. xs = a @ c # b \<and> c \<notin> set a \<longleftrightarrow> p = (a, b)" using Cons by auto
    then show ?thesis using Some by (cases a; cases p) auto
  qed
qed simp

end
