(* ===== verification/GoTime.thy ===== *)
theory GoTime
  imports GoText
begin

text \<open>The part of Go's \<open>time\<close> package the services use. An instant is its number of nanoseconds since
  1970-01-01T00:00:00Z, a duration a signed 64-bit number of nanoseconds. Calendar dates are
  proleptic Gregorian. A location is its name and its zone table: what \<open>lookup\<close> answers for a second
  (the offset then in use and the half-open span of seconds it is used for); the tables themselves
  are the tz database's, so \<open>time.LoadLocation\<close> is an argument of whatever uses it.\<close>

section \<open>Calendar\<close>

definition leap :: "int \<Rightarrow> bool" where
  "leap y \<longleftrightarrow> y mod 4 = 0 \<and> (y mod 100 \<noteq> 0 \<or> y mod 400 = 0)"

text \<open>Days from 1970-01-01 to January 1st of year \<open>y\<close>.\<close>

definition days_before_year :: "int \<Rightarrow> int" where
  "days_before_year y = (let p = y - 1 in 365 * p + p div 4 - p div 100 + p div 400 - 719162)"

definition month_lengths :: "int \<Rightarrow> int list" where
  "month_lengths y = [31, if leap y then 29 else 28, 31, 30, 31, 30, 31, 31, 30, 31, 30, 31]"

definition days_in_month :: "int \<Rightarrow> int \<Rightarrow> int" where
  "days_in_month y m = month_lengths y ! nat (m - 1)"

definition days_before_month :: "int \<Rightarrow> int \<Rightarrow> int" where
  "days_before_month y m = sum_list (take (nat (m - 1)) (month_lengths y))"

type_synonym civil = "int \<times> int \<times> int"

definition valid_date :: "int \<Rightarrow> int \<Rightarrow> int \<Rightarrow> bool" where
  "valid_date y m d \<longleftrightarrow> 1 \<le> m \<and> m \<le> 12 \<and> 1 \<le> d \<and> d \<le> days_in_month y m"

text \<open>Day number of a date whose month is in range; the day may run over, as \<open>time.Date\<close> allows.\<close>

definition days_of_civil :: "int \<Rightarrow> int \<Rightarrow> int \<Rightarrow> int" where
  "days_of_civil y m d = days_before_year y + days_before_month y m + (d - 1)"

definition year_of_days :: "int \<Rightarrow> int" where
  "year_of_days n =
     (let y = (n + 719162) * 400 div 146097 + 1
      in if n < days_before_year y then y - 1
         else if days_before_year (y + 1) \<le> n then y + 1 else y)"

fun month_day :: "int \<Rightarrow> int list \<Rightarrow> int \<Rightarrow> int \<times> int" where
  "month_day m [] d = (m, d + 1)"
| "month_day m (l # ls) d = (if d < l then (m, d + 1) else month_day (m + 1) ls (d - l))"

definition civil_of_days :: "int \<Rightarrow> civil" where
  "civil_of_days n = (let y = year_of_days n in (y, month_day 1 (month_lengths y) (n - days_before_year y)))"

lemma div_pred: "0 < k \<Longrightarrow> (y::int) div k = (y - 1) div k + (if y mod k = 0 then 1 else 0)"
proof -
  assume k: "0 < k"
  define q r where "q = y div k" and "r = y mod k"
  have y: "y = k * q + r" "0 \<le> r" "r < k" using k by (simp_all add: q_def r_def)
  show ?thesis
  proof (cases "r = 0")
    case True
    then have "y - 1 = k * (q - 1) + (k - 1)" using y by (simp add: algebra_simps)
    then have "(y - 1) div k = q - 1" using k by (intro int_div_pos_eq [of _ _ _ "k - 1"]) auto
    then show ?thesis using True q_def r_def by simp
  next
    case False
    then have "(y - 1) div k = q"
      using y by (intro int_div_pos_eq [of _ _ _ "r - 1"]) auto
    then show ?thesis using False q_def r_def by simp
  qed
qed

lemma year_length: "days_before_year (y + 1) = days_before_year y + (if leap y then 366 else 365)"
proof -
  define A B C where "A \<longleftrightarrow> 4 dvd y" and "B \<longleftrightarrow> 100 dvd y" and "C \<longleftrightarrow> 400 dvd y"
  have BA: "B \<Longrightarrow> A" unfolding A_def B_def by (rule dvd_trans [of 4 100]) simp_all
  have CB: "C \<Longrightarrow> B" unfolding C_def B_def by (rule dvd_trans [of 100 400]) simp_all
  define a b c where "a = (y - 1) div 4" and "b = (y - 1) div 100" and "c = (y - 1) div 400"
  have d: "y div 4 = a + (if A then 1 else 0)" "y div 100 = b + (if B then 1 else 0)"
      "y div 400 = c + (if C then 1 else 0)"
    using div_pred [of 4 y] div_pred [of 100 y] div_pred [of 400 y]
    by (simp_all only: A_def B_def C_def a_def b_def c_def zero_less_numeral dvd_eq_mod_eq_0)
  have l: "leap y \<longleftrightarrow> A \<and> (\<not> B \<or> C)"
    by (simp only: leap_def A_def B_def C_def dvd_eq_mod_eq_0)
  have n: "days_before_year (y + 1) = 365 * y + y div 4 - y div 100 + y div 400 - 719162"
    by (simp only: days_before_year_def Let_def add_diff_cancel_right')
  have p: "days_before_year y = 365 * y - 365 + a - b + c - 719162"
    by (simp only: days_before_year_def Let_def a_def b_def c_def right_diff_distrib mult_1_right)
  show ?thesis unfolding n p l d using BA CB by (cases A; cases B; cases C) simp_all
qed

lemma sum_month_lengths: "sum_list (month_lengths y) = (if leap y then 366 else 365)"
  by (simp add: month_lengths_def)

lemma days_before_year_mono: "x \<le> y \<Longrightarrow> days_before_year x + 365 * (y - x) \<le> days_before_year y"
proof (induction "nat (y - x)" arbitrary: y)
  case (Suc k)
  then have "days_before_year x + 365 * (y - 1 - x) \<le> days_before_year (y - 1)"
    using Suc.hyps(1) [of "y - 1"] by linarith
  moreover have "days_before_year (y - 1) + 365 \<le> days_before_year y" using year_length [of "y - 1"] by auto
  ultimately show ?case by simp
qed simp

lemma days_before_year_linear:
  "400 * days_before_year y \<le> 146097 * y - 287810497"
  "146097 * y - 287811697 < 400 * days_before_year y"
proof -
  define q a b c where "q = y - 1" and "a = q div 4" and "b = q div 100" and "c = q div 400"
  have "4 * a \<le> q" "q < 4 * a + 4" "100 * b \<le> q" "q < 100 * b + 100" "400 * c \<le> q" "q < 400 * c + 400"
    unfolding a_def b_def c_def by linarith+
  moreover have "days_before_year y = 365 * q + a - b + c - 719162"
    by (simp only: days_before_year_def q_def a_def b_def c_def Let_def)
  moreover have "y = q + 1" by (simp add: q_def)
  ultimately show "400 * days_before_year y \<le> 146097 * y - 287810497"
    "146097 * y - 287811697 < 400 * days_before_year y"
    by linarith+
qed

lemma year_of_days_bounds:
  "days_before_year (year_of_days n) \<le> n \<and> n < days_before_year (year_of_days n + 1)"
proof -
  define p where "p = (n + 719162) * 400 div 146097"
  have p: "146097 * p \<le> 400 * n + 287664800" "400 * n + 287664800 < 146097 * p + 146097"
  proof -
    define r where "r = (n + 719162) * 400 mod 146097"
    have "146097 * p + r = (n + 719162) * 400" unfolding p_def r_def by (rule mult_div_mod_eq)
    then have "146097 * p + r = 400 * n + 287664800" by (simp add: algebra_simps)
    moreover have "0 \<le> r" "r < 146097" unfolding r_def by simp_all
    ultimately show "146097 * p \<le> 400 * n + 287664800" "400 * n + 287664800 < 146097 * p + 146097"
      by linarith+
  qed
  have lo: "days_before_year p \<le> n"
    using days_before_year_linear(1) [of p] p by linarith
  have hi: "n < days_before_year (p + 3)"
    using days_before_year_linear(2) [of "p + 3"] p by (simp add: distrib_left)
  have "year_of_days n = (if n < days_before_year (p + 1) then p
      else if days_before_year (p + 2) \<le> n then p + 2 else p + 1)"
    by (simp add: year_of_days_def p_def Let_def add.assoc)
  then show ?thesis using lo hi by (auto simp: add.assoc)
qed

lemma year_of_days_unique:
  assumes "days_before_year y \<le> n" "n < days_before_year (y + 1)"
  shows "year_of_days n = y"
proof -
  have b: "days_before_year (year_of_days n) \<le> n" "n < days_before_year (year_of_days n + 1)"
    using year_of_days_bounds [of n] by simp_all
  have "\<not> y < year_of_days n"
    using days_before_year_mono [of "y + 1" "year_of_days n"] b assms by force
  moreover have "\<not> year_of_days n < y"
    using days_before_year_mono [of "year_of_days n + 1" y] b assms by force
  ultimately show ?thesis by simp
qed

lemma month_day_prefix:
  assumes "i < length ls" "0 \<le> d" "d < ls ! i" "\<And>l. l \<in> set ls \<Longrightarrow> 0 < l"
  shows "month_day m ls (sum_list (take i ls) + d) = (m + int i, d + 1)"
  using assms
proof (induction ls arbitrary: m i)
  case (Cons l ls)
  then show ?case
  proof (cases i)
    case (Suc j)
    have "0 \<le> sum_list (take j ls)" using Cons.prems(4)
      by (intro sum_list_nonneg) (auto dest: in_set_takeD less_imp_le)
    then show ?thesis using Suc Cons by simp
  qed simp
qed simp

lemma month_lengths_pos: "l \<in> set (month_lengths y) \<Longrightarrow> 0 < l"
  by (auto simp: month_lengths_def split: if_splits)

lemma length_month_lengths [simp]: "length (month_lengths y) = 12"
  by (simp add: month_lengths_def)

lemma sum_take_month_lt:
  assumes "i < 12" "d < month_lengths y ! i"
  shows "sum_list (take i (month_lengths y)) + d < sum_list (month_lengths y)"
proof -
  have "sum_list (month_lengths y) =
      sum_list (take i (month_lengths y)) + (month_lengths y ! i + sum_list (drop (Suc i) (month_lengths y)))"
    using assms(1) by (metis Cons_nth_drop_Suc append_take_drop_id length_month_lengths sum_list.Cons sum_list_append)
  moreover have "0 \<le> sum_list (drop (Suc i) (month_lengths y))"
    by (intro sum_list_nonneg) (metis in_set_dropD month_lengths_pos less_imp_le)
  ultimately show ?thesis using assms(2) by linarith
qed

text \<open>Every date is recovered from its day number, and every day number from its date.\<close>

lemma civil_of_days_of_civil:
  assumes "valid_date y m d"
  shows "civil_of_days (days_of_civil y m d) = (y, m, d)"
proof -
  let ?i = "nat (m - 1)"
  have i: "?i < 12" "0 \<le> d - 1" "d - 1 < month_lengths y ! ?i"
    using assms by (auto simp: valid_date_def days_in_month_def)
  have pos: "0 \<le> sum_list (take ?i (month_lengths y))"
    by (intro sum_list_nonneg) (metis in_set_takeD month_lengths_pos less_imp_le)
  have "days_before_month y m + (d - 1) < (if leap y then 366 else 365)"
    using sum_take_month_lt [OF i(1,3)] by (simp add: days_before_month_def sum_month_lengths)
  then have "year_of_days (days_of_civil y m d) = y"
    using pos i(2) year_length [of y]
    by (intro year_of_days_unique) (auto simp: days_of_civil_def days_before_month_def)
  moreover have "month_day 1 (month_lengths y) (days_before_month y m + (d - 1)) = (m, d)"
    using month_day_prefix [of ?i "month_lengths y" "d - 1" 1] i month_lengths_pos assms
    by (simp add: days_before_month_def valid_date_def)
  ultimately show ?thesis by (simp add: civil_of_days_def days_of_civil_def Let_def)
qed

lemma month_day_split:
  fixes d :: int
  assumes "0 \<le> d" "d < sum_list ls"
  shows "\<exists>i. i < length ls \<and> 0 \<le> d - sum_list (take i ls) \<and> d - sum_list (take i ls) < ls ! i"
  using assms
proof (induction ls arbitrary: d)
  case (Cons l ls)
  show ?case
  proof (cases "d < l")
    case True
    then have "0 < length (l # ls) \<and> 0 \<le> d - sum_list (take 0 (l # ls)) \<and> d - sum_list (take 0 (l # ls)) < (l # ls) ! 0"
      using Cons.prems by simp
    then show ?thesis by blast
  next
    case False
    then obtain i where "i < length ls" "0 \<le> d - l - sum_list (take i ls)" "d - l - sum_list (take i ls) < ls ! i"
      using Cons.IH [of "d - l"] Cons.prems by auto
    then show ?thesis by (intro exI [of _ "Suc i"]) (simp add: algebra_simps)
  qed
qed simp

lemma days_of_civil_of_days:
  assumes "civil_of_days n = (y, m, d)"
  shows "days_of_civil y m d = n \<and> valid_date y m d"
proof -
  let ?k = "n - days_before_year (year_of_days n)"
  have b: "0 \<le> ?k" "?k < sum_list (month_lengths (year_of_days n))"
    using year_of_days_bounds [of n] year_length [of "year_of_days n"] by (auto simp: sum_month_lengths)
  obtain i where i: "i < 12" "0 \<le> ?k - sum_list (take i (month_lengths (year_of_days n)))"
      "?k - sum_list (take i (month_lengths (year_of_days n))) < month_lengths (year_of_days n) ! i"
    using month_day_split [OF b] by auto
  have "month_day 1 (month_lengths (year_of_days n)) ?k =
      (1 + int i, ?k - sum_list (take i (month_lengths (year_of_days n))) + 1)"
    using month_day_prefix [of i "month_lengths (year_of_days n)"
        "?k - sum_list (take i (month_lengths (year_of_days n)))" 1] i
    by (simp add: month_lengths_pos)
  then have "y = year_of_days n" "m = 1 + int i" "d = ?k - sum_list (take i (month_lengths (year_of_days n))) + 1"
    using assms by (auto simp: civil_of_days_def Let_def)
  then show ?thesis using i
    by (auto simp: days_of_civil_def days_before_month_def valid_date_def days_in_month_def)
qed

section \<open>Instants and durations\<close>

definition millisecond :: int where "millisecond = 1000000"
definition second_ns :: int where "second_ns = 1000000000"
definition minute_ns :: int where "minute_ns = 60 * second_ns"
definition hour_ns :: int where "hour_ns = 60 * minute_ns"

lemmas duration_units = millisecond_def second_ns_def minute_ns_def hour_ns_def

text \<open>The zero \<open>time.Time\<close>: January 1, year 1, 00:00 UTC.\<close>

definition zero_time :: int where
  "zero_time = days_of_civil 1 1 1 * 86400 * second_ns"

text \<open>\<open>t.Sub(u)\<close> saturates.\<close>

definition time_sub :: "int \<Rightarrow> int \<Rightarrow> int" where
  "time_sub t u = max min_int64 (min max_int64 (t - u))"

text \<open>\<open>t.Truncate(d)\<close> for a unit that divides a second: down to a multiple since the zero time,
  which is a whole number of seconds before the epoch.\<close>

definition truncate_time :: "int \<Rightarrow> int \<Rightarrow> int" where
  "truncate_time d t = t - t mod d"

section \<open>Locations\<close>

record zone_span =
  zs_offset :: int
  zs_start :: int
  zs_end :: int

record location =
  loc_name :: string
  loc_lookup :: "int \<Rightarrow> zone_span"

definition fixed_zone :: "string \<Rightarrow> int \<Rightarrow> location" where
  "fixed_zone name off =
     \<lparr>loc_name = name, loc_lookup = (\<lambda>_. \<lparr>zs_offset = off, zs_start = min_int64, zs_end = max_int64\<rparr>)\<rparr>"

definition UTC :: location where
  "UTC = fixed_zone ''UTC'' 0"

text \<open>The wall clock of an instant in a location: its date and the nanoseconds since local midnight.\<close>

definition unix_seconds :: "int \<Rightarrow> int" where
  "unix_seconds t = t div second_ns"

definition offset_at :: "location \<Rightarrow> int \<Rightarrow> int" where
  "offset_at loc sec = zs_offset (loc_lookup loc sec)"

definition local_seconds :: "location \<Rightarrow> int \<Rightarrow> int" where
  "local_seconds loc t = unix_seconds t + offset_at loc (unix_seconds t)"

definition date_in :: "location \<Rightarrow> int \<Rightarrow> civil" where
  "date_in loc t = civil_of_days (local_seconds loc t div 86400)"

definition second_of_day :: "location \<Rightarrow> int \<Rightarrow> int" where
  "second_of_day loc t = local_seconds loc t mod 86400"

text \<open>\<open>time.Date\<close>: out-of-range months, days and clock fields carry over; the offset is the one in use
  at the instant the wall clock would name in UTC, looked up again when that offset does not apply
  at the resulting instant.\<close>

definition zone_adjust :: "location \<Rightarrow> int \<Rightarrow> int" where
  "zone_adjust loc u =
     (let span = loc_lookup loc u; off = zs_offset span
      in if off = 0 then u
         else let utc = u - off
              in if utc < zs_start span \<or> zs_end span \<le> utc then u - offset_at loc utc else utc)"

definition time_date :: "int \<Rightarrow> int \<Rightarrow> int \<Rightarrow> int \<Rightarrow> int \<Rightarrow> int \<Rightarrow> int \<Rightarrow> location \<Rightarrow> int" where
  "time_date y m d h mi s ns loc =
     (let y' = y + (m - 1) div 12; m' = (m - 1) mod 12 + 1;
          u = days_of_civil y' m' d * 86400 + h * 3600 + mi * 60 + s + ns div second_ns
      in zone_adjust loc u * second_ns + ns mod second_ns)"

text \<open>\<open>t.AddDate(years, months, days)\<close> in the location of \<open>t\<close>.\<close>

definition add_date :: "location \<Rightarrow> int \<Rightarrow> int \<Rightarrow> int \<Rightarrow> int \<Rightarrow> int" where
  "add_date loc t years months days =
     (let (y, m, d) = date_in loc t; sod = second_of_day loc t
      in time_date (y + years) (m + months) (d + days) (sod div 3600) (sod mod 3600 div 60) (sod mod 60)
           (t mod second_ns) loc)"

section \<open>Layouts\<close>

definition format_clock :: "location \<Rightarrow> int \<Rightarrow> string" where
  "format_clock loc t =
     (let sod = nat (second_of_day loc t)
      in pad 2 (sod div 3600) @ '':'' @ pad 2 (sod mod 3600 div 60))"

definition format_year :: "int \<Rightarrow> string" where
  "format_year y = (if y < 0 then CHR ''-'' # pad 4 (nat (- y)) else pad 4 (nat y))"

text \<open>\<open>time.DateOnly\<close>, \<open>2006-01-02\<close>.\<close>

definition format_date :: "civil \<Rightarrow> string" where
  "format_date = (\<lambda>(y, m, d). format_year y @ ''-'' @ pad 2 (nat m) @ ''-'' @ pad 2 (nat d))"

text \<open>\<open>2006-01-02T15:04:05.000Z07:00\<close> in UTC.\<close>

definition format_wire :: "int \<Rightarrow> string" where
  "format_wire t =
     (let sod = nat (second_of_day UTC t)
      in format_date (date_in UTC t) @ ''T'' @ pad 2 (sod div 3600) @ '':'' @ pad 2 (sod mod 3600 div 60) @ '':''
           @ pad 2 (sod mod 60) @ ''.'' @ pad 3 (nat (t mod second_ns div millisecond)) @ ''Z'')"

text \<open>The parser's fields: \<open>getnum\<close> reads one or two digits (exactly two when \<open>fixed\<close>).\<close>

fun getnum :: "bool \<Rightarrow> string \<Rightarrow> (int \<times> string) option" where
  "getnum fixed [] = None"
| "getnum fixed (c # cs) =
     (case digit_of c of
        None \<Rightarrow> None
      | Some a \<Rightarrow>
          (case cs of
             [] \<Rightarrow> if fixed then None else Some (int a, [])
           | d # ds \<Rightarrow>
               (case digit_of d of
                  None \<Rightarrow> if fixed then None else Some (int a, cs)
                | Some b \<Rightarrow> Some (int (10 * a + b), ds))))"

definition get_year :: "string \<Rightarrow> (int \<times> string) option" where
  "get_year s =
     (if length s < 4 then None
      else case parse_nat_acc 0 (take 4 s) of None \<Rightarrow> None | Some y \<Rightarrow> Some (int y, drop 4 s))"

definition expect :: "char \<Rightarrow> string \<Rightarrow> string option" where
  "expect c s = (case s of [] \<Rightarrow> None | x # xs \<Rightarrow> if x = c then Some xs else None)"

definition get_date :: "string \<Rightarrow> (civil \<times> string) option" where
  "get_date s =
     Option.bind (get_year s) (\<lambda>(y, s).
     Option.bind (expect CHR ''-'' s) (\<lambda>s.
     Option.bind (getnum True s) (\<lambda>(m, s).
     Option.bind (expect CHR ''-'' s) (\<lambda>s.
     Option.bind (getnum True s) (\<lambda>(d, s).
       if valid_date y m d then Some ((y, m, d), s) else None)))))"

text \<open>\<open>time.ParseInLocation(time.DateOnly, s, loc)\<close>.\<close>

definition parse_date :: "string \<Rightarrow> civil option" where
  "parse_date s = (case get_date s of Some (c, []) \<Rightarrow> Some c | _ \<Rightarrow> None)"

definition parse_date_in :: "location \<Rightarrow> string \<Rightarrow> int option" where
  "parse_date_in loc s = map_option (\<lambda>(y, m, d). time_date y m d 0 0 0 0 loc) (parse_date s)"

text \<open>\<open>time.Parse("15:04", s)\<close>: the hour and the minute.\<close>

definition get_clock :: "string \<Rightarrow> ((int \<times> int) \<times> string) option" where
  "get_clock s =
     Option.bind (getnum False s) (\<lambda>(h, s).
     Option.bind (expect CHR '':'' s) (\<lambda>s.
     Option.bind (getnum True s) (\<lambda>(m, s).
       if h < 24 \<and> m < 60 then Some ((h, m), s) else None)))"

definition parse_clock :: "string \<Rightarrow> (int \<times> int) option" where
  "parse_clock s = (case get_clock s of Some (c, []) \<Rightarrow> Some c | _ \<Rightarrow> None)"

text \<open>The fraction of a second: any number of digits after \<open>.\<close> or \<open>,\<close>, the first nine of which count.\<close>

definition get_fraction :: "string \<Rightarrow> int \<times> string" where
  "get_fraction s =
     (case s of
        p # d # ds \<Rightarrow>
          if (p = CHR ''.'' \<or> p = CHR '','') \<and> digit_of d \<noteq> None
          then let f = takeWhile (\<lambda>c. digit_of c \<noteq> None) (d # ds); f9 = take 9 f
               in (int (the (parse_nat_acc 0 f9)) * 10 ^ (9 - length f9), drop (length f) (d # ds))
          else (0, s)
      | _ \<Rightarrow> (0, s))"

definition get_zone :: "string \<Rightarrow> (int \<times> string) option" where
  "get_zone s =
     (case s of
        [] \<Rightarrow> None
      | c # rest \<Rightarrow>
          if c = CHR ''Z'' then Some (0, rest)
          else Option.bind (getnum True rest) (\<lambda>(h, s).
               Option.bind (expect CHR '':'' s) (\<lambda>s.
               Option.bind (getnum True s) (\<lambda>(m, s).
                 if 24 < h \<or> 60 < m then None
                 else if c = CHR ''+'' then Some ((h * 60 + m) * 60, s)
                 else if c = CHR ''-'' then Some (- ((h * 60 + m) * 60), s)
                 else None))))"

text \<open>\<open>time.Parse\<close> with \<open>time.RFC3339Nano\<close>: the instant, and the offset it was written with.\<close>

definition parse_zoned :: "string \<Rightarrow> (int \<times> int) option" where
  "parse_zoned s =
     Option.bind (get_date s) (\<lambda>((y, mo, d), s).
     Option.bind (expect CHR ''T'' s) (\<lambda>s.
     Option.bind (get_clock s) (\<lambda>((h, mi), s).
     Option.bind (expect CHR '':'' s) (\<lambda>s.
     Option.bind (getnum True s) (\<lambda>(sec, s).
       if 60 \<le> sec then None
       else let (ns, s) = get_fraction s
            in Option.bind (get_zone s) (\<lambda>(off, s).
                 if s = [] then Some (time_date y mo d h mi sec ns UTC - off * second_ns, off) else None))))))"

definition parse_rfc3339 :: "string \<Rightarrow> int option" where
  "parse_rfc3339 s = map_option fst (parse_zoned s)"

section \<open>Wall clocks\<close>

text \<open>What the tz database's tables satisfy: a span holds the second it was looked up for, all of a span
  has one answer, offsets are below a day, and spans are longer than three days.\<close>

definition zone_bound :: int where "zone_bound = 2 ^ 62"

definition zone_table :: "location \<Rightarrow> bool" where
  "zone_table loc \<longleftrightarrow>
     (\<forall>u. \<bar>u\<bar> \<le> zone_bound \<longrightarrow>
        zs_start (loc_lookup loc u) \<le> u \<and> u < zs_end (loc_lookup loc u) \<and>
        \<bar>offset_at loc u\<bar> < 86400 \<and>
        zs_start (loc_lookup loc u) + 259200 < zs_end (loc_lookup loc u)) \<and>
     (\<forall>u v. \<bar>u\<bar> \<le> zone_bound \<longrightarrow> zs_start (loc_lookup loc u) \<le> v \<longrightarrow> v < zs_end (loc_lookup loc u) \<longrightarrow>
        loc_lookup loc v = loc_lookup loc u)"

lemma zone_tableD:
  assumes "zone_table loc" "\<bar>u\<bar> \<le> zone_bound"
  shows "zs_start (loc_lookup loc u) \<le> u" "u < zs_end (loc_lookup loc u)" "\<bar>offset_at loc u\<bar> < 86400"
    "zs_start (loc_lookup loc u) + 259200 < zs_end (loc_lookup loc u)"
    "zs_start (loc_lookup loc u) \<le> v \<Longrightarrow> v < zs_end (loc_lookup loc u) \<Longrightarrow> loc_lookup loc v = loc_lookup loc u"
  using assms unfolding zone_table_def by blast+

text \<open>Seconds within a day of each other lie in the same span or in two adjacent ones, and the nearer of
  the two spans decides.\<close>

lemma span_after:
  assumes t: "zone_table loc" and u: "\<bar>u\<bar> \<le> zone_bound" and v: "\<bar>v\<bar> \<le> zone_bound"
    and e: "zs_end (loc_lookup loc u) \<le> v" and w: "zs_end (loc_lookup loc u) \<le> w"
    and vu: "v \<le> u + 86400" and wu: "w \<le> u + 86400"
  shows "loc_lookup loc w = loc_lookup loc v"
proof -
  let ?e = "zs_end (loc_lookup loc u)"
  note ut = zone_tableD [OF t u]
  have eb: "\<bar>?e\<bar> \<le> zone_bound" using ut(2) e u v by linarith
  note et = zone_tableD [OF t eb]
  have "\<not> zs_start (loc_lookup loc ?e) < ?e"
  proof
    assume "zs_start (loc_lookup loc ?e) < ?e"
    then have "loc_lookup loc (?e - 1) = loc_lookup loc ?e" using et(2) by (intro et(5)) linarith+
    moreover have "loc_lookup loc (?e - 1) = loc_lookup loc u" using ut by (intro ut(5)) linarith+
    ultimately show False using et(2) by simp
  qed
  then have len: "?e + 259200 < zs_end (loc_lookup loc ?e)" "zs_start (loc_lookup loc ?e) = ?e"
    using et(1,4) by simp_all
  have "loc_lookup loc v = loc_lookup loc ?e" "loc_lookup loc w = loc_lookup loc ?e"
    using len e w vu wu ut(2) by (auto intro!: et(5))
  then show ?thesis by simp
qed

lemma span_before:
  assumes t: "zone_table loc" and u: "\<bar>u\<bar> \<le> zone_bound" and v: "\<bar>v\<bar> \<le> zone_bound"
    and e: "v < zs_start (loc_lookup loc u)" and w: "w < zs_start (loc_lookup loc u)"
    and vu: "u - 86400 \<le> v" and wu: "u - 86400 \<le> w"
  shows "loc_lookup loc w = loc_lookup loc v"
proof -
  let ?s = "zs_start (loc_lookup loc u)"
  let ?p = "?s - 1"
  note ut = zone_tableD [OF t u]
  have pb: "\<bar>?p\<bar> \<le> zone_bound" using ut(1) e u v by linarith
  note pt = zone_tableD [OF t pb]
  have "\<not> ?s < zs_end (loc_lookup loc ?p)"
  proof
    assume "?s < zs_end (loc_lookup loc ?p)"
    then have "loc_lookup loc ?s = loc_lookup loc ?p" using pt(1) by (intro pt(5)) linarith+
    moreover have "loc_lookup loc ?s = loc_lookup loc u" using ut by (intro ut(5)) linarith+
    ultimately show False using pt(1) by simp
  qed
  then have len: "zs_start (loc_lookup loc ?p) + 259200 < ?s" "zs_end (loc_lookup loc ?p) = ?s"
    using pt(2,4) by simp_all
  have "loc_lookup loc v = loc_lookup loc ?p" "loc_lookup loc w = loc_lookup loc ?p"
    using len e w vu wu ut(1) by (auto intro!: pt(5))
  then show ?thesis by simp
qed

text \<open>When the wall clock \<open>u\<close> is shown at some second \<open>v\<close> of the location, \<open>time.Date\<close> finds a second at
  which it is shown: only a wall clock skipped by a transition is moved.\<close>

lemma zone_adjust_wall_clock:
  assumes t: "zone_table loc" and ub: "\<bar>u\<bar> \<le> zone_bound" and vb: "\<bar>v\<bar> \<le> zone_bound"
    and wall: "v + offset_at loc v = u"
  shows "zone_adjust loc u + offset_at loc (zone_adjust loc u) = u"
proof -
  define a s e where "a = offset_at loc u" and "s = zs_start (loc_lookup loc u)" and "e = zs_end (loc_lookup loc u)"
  note ut = zone_tableD [OF t ub, folded a_def s_def e_def]
  have vo: "\<bar>offset_at loc v\<bar> < 86400" using zone_tableD(3) [OF t vb] .
  have adj: "zone_adjust loc u = (if u - a < s \<or> e \<le> u - a then u - offset_at loc (u - a) else u - a)"
    using ut(1,2) by (auto simp: zone_adjust_def Let_def a_def s_def e_def offset_at_def)
  show ?thesis
  proof (cases "s \<le> u - a \<and> u - a < e")
    case True
    then have "offset_at loc (u - a) = a"
      using ut(5) [of "u - a"] by (simp add: offset_at_def a_def)
    then show ?thesis using True adj by auto
  next
    case outside: False
    have "loc_lookup loc (u - a) = loc_lookup loc v"
    proof (cases "u - a < s")
      case True
      have "v < s"
      proof (rule ccontr)
        assume "\<not> v < s"
        moreover from this have "\<not> v < e"
          using outside True ut(5) [of v] wall by (auto simp: offset_at_def a_def)
        ultimately show False using True ut(3,4) vo wall by linarith
      qed
      then show ?thesis using True ut(3) vo wall unfolding s_def
        by (intro span_before [OF t ub vb]) linarith+
    next
      case False
      then have e: "e \<le> u - a" using outside by simp
      have "e \<le> v"
      proof (rule ccontr)
        assume "\<not> e \<le> v"
        moreover from this have "\<not> s \<le> v"
          using e ut(5) [of v] wall by (auto simp: offset_at_def a_def)
        ultimately show False using e ut(3,4) vo wall by linarith
      qed
      then show ?thesis using e ut(3) vo wall unfolding e_def
        by (intro span_after [OF t ub vb]) linarith+
    qed
    then have "offset_at loc (u - a) = offset_at loc v" by (simp add: offset_at_def)
    then show ?thesis using outside adj wall by auto
  qed
qed

lemma time_date_in:
  assumes "valid_date y m d" "0 \<le> h" "h < 24" "0 \<le> mi" "mi < 60"
    and z: "zone_adjust loc u + offset_at loc (zone_adjust loc u) = u"
    and u: "u = days_of_civil y m d * 86400 + h * 3600 + mi * 60"
  shows "date_in loc (time_date y m d h mi 0 0 loc) = (y, m, d)"
    "second_of_day loc (time_date y m d h mi 0 0 loc) = h * 3600 + mi * 60"
proof -
  have m: "(m - 1) div 12 = 0" "(m - 1) mod 12 = m - 1" using assms(1) by (auto simp: valid_date_def)
  have "time_date y m d h mi 0 0 loc = zone_adjust loc u * second_ns"
    by (simp add: time_date_def m u Let_def)
  then have l: "local_seconds loc (time_date y m d h mi 0 0 loc) = u"
    using z by (simp add: local_seconds_def unix_seconds_def second_ns_def)
  have "u div 86400 = days_of_civil y m d" "u mod 86400 = h * 3600 + mi * 60"
  proof -
    have "u = (h * 3600 + mi * 60) + days_of_civil y m d * 86400" by (simp add: u)
    moreover have "0 \<le> h * 3600 + mi * 60" "h * 3600 + mi * 60 < 86400" using assms(2-5) by linarith+
    ultimately show "u div 86400 = days_of_civil y m d" "u mod 86400 = h * 3600 + mi * 60"
      by simp_all
  qed
  then show "date_in loc (time_date y m d h mi 0 0 loc) = (y, m, d)"
    "second_of_day loc (time_date y m d h mi 0 0 loc) = h * 3600 + mi * 60"
    using l civil_of_days_of_civil [OF assms(1)] by (simp_all add: date_in_def second_of_day_def)
qed

end
