(* ===== verification/WireTime.thy ===== *)
theory WireTime
  imports GoTime
begin

text \<open>Timestamps on the wire (\<open>pkg/times/json.go\<close> of every service): UTC with millisecond precision,
  \<open>null\<close> for the zero time; input in any RFC3339 form. A JSON value is given by its raw text here.\<close>

definition new_time :: "int \<Rightarrow> int" where
  "new_time t = truncate_time millisecond t"

definition marshal_time :: "int \<Rightarrow> string" where
  "marshal_time t = (if t = zero_time then ''null'' else CHR ''\"'' # format_wire t @ [CHR ''\"''])"

definition quoted :: "string \<Rightarrow> string option" where
  "quoted s =
     (if 2 \<le> length s \<and> hd s = CHR ''\"'' \<and> last s = CHR ''\"'' then Some (butlast (tl s)) else None)"

definition unmarshal_time :: "string \<Rightarrow> int option" where
  "unmarshal_time b =
     (if b = ''null'' then Some zero_time
      else map_option new_time (Option.bind (quoted b) parse_rfc3339))"

section \<open>Reading back what was written\<close>

lemma expect_Cons [simp]: "expect c (c # s) = Some s"
  by (simp add: expect_def)

lemma getnum_pad [simp]: "n < 100 \<Longrightarrow> getnum b (pad 2 n @ s) = Some (int n, s)"
  by (simp add: pad_two)

lemma get_year_pad [simp]:
  assumes "n < 10000"
  shows "get_year (pad 4 n @ s) = Some (int n, s)"
proof -
  have "length (pad 4 n) = 4" using assms by (simp add: pad_four)
  moreover have "parse_nat_acc 0 (pad 4 n) = Some n"
  proof -
    have "parse_nat_acc 0 (replicate k (CHR ''0'') @ digits n) = Some n" for k
      using parse_digits [of 0 n] by (induction k) (simp_all add: zero_char)
    then show ?thesis by (simp add: pad_def)
  qed
  ultimately show ?thesis by (simp add: get_year_def)
qed

lemma days_in_month_le: "1 \<le> m \<Longrightarrow> m \<le> 12 \<Longrightarrow> days_in_month y m \<le> 31"
proof -
  assume "1 \<le> m" "m \<le> 12"
  then have "month_lengths y ! nat (m - 1) \<in> set (month_lengths y)" by (intro nth_mem) simp
  then show ?thesis by (auto simp: days_in_month_def month_lengths_def split: if_splits)
qed

lemma valid_date_bounds: "valid_date y m d \<Longrightarrow> 1 \<le> m \<and> m \<le> 12 \<and> 1 \<le> d \<and> d \<le> 31"
  using days_in_month_le [of m y] by (auto simp: valid_date_def)

lemma get_date_format:
  assumes "valid_date y m d" "0 \<le> y" "y \<le> 9999"
  shows "get_date (format_date (y, m, d) @ s) = Some ((y, m, d), s)"
proof -
  have "nat m < 100" "nat d < 100" using valid_date_bounds [OF assms(1)] by auto
  then show ?thesis
    using assms valid_date_bounds [OF assms(1)]
    by (simp add: get_date_def format_date_def format_year_def nat_less_iff)
qed

lemma parse_date_format:
  assumes "valid_date y m d" "0 \<le> y" "y \<le> 9999"
  shows "parse_date (format_date (y, m, d)) = Some (y, m, d)"
  using get_date_format [OF assms, of "[]"] by (simp add: parse_date_def)

lemma get_clock_format:
  "h < 24 \<Longrightarrow> m < 60 \<Longrightarrow> get_clock (pad 2 h @ CHR '':'' # pad 2 m @ s) = Some ((int h, int m), s)"
  by (simp add: get_clock_def)

lemma parse_clock_format: "h < 24 \<Longrightarrow> m < 60 \<Longrightarrow> parse_clock (pad 2 h @ CHR '':'' # pad 2 m) = Some (int h, int m)"
  using get_clock_format [of h m "[]"] by (simp add: parse_clock_def)

lemma get_fraction_pad:
  assumes "n < 1000"
  shows "get_fraction (CHR ''.'' # pad 3 n @ CHR ''Z'' # s) = (int n * 1000000, CHR ''Z'' # s)"
proof -
  have z: "digit_of (CHR ''Z'') = None" by (simp add: digit_of_def)
  have "10 * (n div 10) + n mod 10 = n" "10 * (n div 100) + n div 10 mod 10 = n div 10"
    using mult_div_mod_eq [of 10 n] mult_div_mod_eq [of 10 "n div 10"] by (simp_all add: div_mult2_eq [symmetric])
  then have "10 * (10 * (n div 100) + n div 10 mod 10) + n mod 10 = n" by simp
  moreover have "n div 100 < 10" using assms by simp
  ultimately show ?thesis using assms z by (simp add: pad_three get_fraction_def Let_def)
qed

lemma time_date_utc:
  assumes "valid_date y m d"
  shows "time_date y m d h mi s ns UTC =
    (days_of_civil y m d * 86400 + h * 3600 + mi * 60 + s) * second_ns + ns"
proof -
  have "(m - 1) div 12 = 0" "(m - 1) mod 12 = m - 1" using assms by (auto simp: valid_date_def)
  moreover have "\<And>u. zone_adjust UTC u = u" by (simp add: zone_adjust_def UTC_def fixed_zone_def Let_def)
  ultimately show ?thesis
    by (simp add: time_date_def Let_def second_ns_def distrib_right)
qed

lemma utc_fields:
  "local_seconds UTC t = t div second_ns"
  by (simp add: local_seconds_def unix_seconds_def offset_at_def UTC_def fixed_zone_def)

lemma truncate_ms: "t - t mod millisecond = t div second_ns * second_ns + t mod second_ns div millisecond * millisecond"
proof -
  have "t mod second_ns mod millisecond = t mod millisecond"
    by (rule mod_mod_cancel) (simp add: duration_units)
  moreover have "t mod second_ns = t mod second_ns div millisecond * millisecond + t mod second_ns mod millisecond"
    by (rule div_mult_mod_eq [symmetric])
  moreover have "t = t div second_ns * second_ns + t mod second_ns" by (rule div_mult_mod_eq [symmetric])
  ultimately show ?thesis by linarith
qed

lemma clock_fields:
  assumes "n < 86400"
  shows "n div 3600 < 24" "n mod 3600 div 60 < 60" "n mod 60 < (60::nat)"
    "n div 3600 * 3600 + n mod 3600 div 60 * 60 + n mod 60 = n"
proof -
  show "n div 3600 < 24" using assms by (simp add: less_mult_imp_div_less)
  have "n mod 3600 < 60 * 60" by simp
  then show "n mod 3600 div 60 < 60" by (rule less_mult_imp_div_less)
  have "n mod 3600 mod 60 = n mod 60" by (rule mod_mod_cancel) simp
  then have "n mod 3600 div 60 * 60 + n mod 60 = n mod 3600" by (metis div_mult_mod_eq)
  then show "n div 3600 * 3600 + n mod 3600 div 60 * 60 + n mod 60 = n"
    by (metis add.assoc div_mult_mod_eq)
qed simp

lemma parse_format_wire:
  assumes d: "date_in UTC t = (y, m, d)" and y: "0 \<le> y" "y \<le> 9999"
  shows "parse_rfc3339 (format_wire t) = Some (new_time t)"
proof -
  define L where "L = t div second_ns"
  define sod where "sod = nat (L mod 86400)"
  define ms where "ms = nat (t mod second_ns div millisecond)"
  have civ: "days_of_civil y m d = L div 86400" "valid_date y m d"
    using days_of_civil_of_days [of "L div 86400" y m d] d by (simp_all add: date_in_def utc_fields L_def)
  have sod: "sod < 86400" "second_of_day UTC t = int sod"
    by (simp_all add: sod_def second_of_day_def utc_fields L_def)
  have ms: "ms < 1000" "int ms = t mod second_ns div millisecond"
  proof -
    have "0 \<le> t mod second_ns" "t mod second_ns < 1000 * millisecond" by (simp_all add: duration_units)
    then have "0 \<le> t mod second_ns div millisecond" "t mod second_ns div millisecond < 1000"
      by (simp_all add: millisecond_def div_int_pos_iff)
    then show "ms < 1000" "int ms = t mod second_ns div millisecond" by (simp_all add: ms_def)
  qed
  note h = clock_fields [OF sod(1)]
  have w: "format_wire t = format_date (y, m, d) @ CHR ''T'' # pad 2 (sod div 3600) @ CHR '':'' # pad 2 (sod mod 3600 div 60)
      @ CHR '':'' # pad 2 (sod mod 60) @ CHR ''.'' # pad 3 ms @ CHR ''Z'' # []"
    by (simp add: format_wire_def d sod ms_def Let_def)
  have "int (sod div 3600) * 3600 + int (sod mod 3600 div 60) * 60 + int (sod mod 60) = int sod"
    using arg_cong [OF h(4), of int] by simp
  then have "days_of_civil y m d * 86400 + int (sod div 3600) * 3600 + int (sod mod 3600 div 60) * 60 + int (sod mod 60)
      = days_of_civil y m d * 86400 + int sod" by linarith
  then have "time_date y m d (int (sod div 3600)) (int (sod mod 3600 div 60)) (int (sod mod 60)) (int ms * 1000000) UTC
      = (days_of_civil y m d * 86400 + int sod) * second_ns + int ms * 1000000"
    by (simp only: time_date_utc [OF civ(2)])
  also have "days_of_civil y m d * 86400 + int sod = L" by (simp add: civ(1) sod_def)
  also have "L * second_ns + int ms * 1000000 = new_time t"
    using truncate_ms [of t] by (simp add: new_time_def truncate_time_def ms(2) L_def millisecond_def)
  finally have res: "time_date y m d (int (sod div 3600)) (int (sod mod 3600 div 60)) (int (sod mod 60))
      (int ms * 1000000) UTC = new_time t" .
  obtain sc where sc: "sod mod 60 = sc" "sc < 60" using h(3) by blast
  show ?thesis
    unfolding w parse_rfc3339_def parse_zoned_def
    using h(1,2) sc(2) y civ(2) ms(1) res unfolding sc(1)
    by (simp add: get_date_format get_clock_format get_fraction_pad get_zone_def)
qed

lemma new_time_idem [simp]: "new_time (new_time t) = new_time t"
  by (simp add: new_time_def truncate_time_def millisecond_def mod_diff_left_eq [symmetric])

lemma new_time_seconds: "new_time t div second_ns = t div second_ns"
proof -
  let ?r = "t mod second_ns div millisecond * millisecond"
  have s: "0 < second_ns" "0 < millisecond" by (simp_all add: duration_units)
  have "0 \<le> t mod second_ns" "t mod second_ns < second_ns" using s by simp_all
  moreover have "?r \<le> t mod second_ns" using s(2) by (metis div_mult_mod_eq add_increasing2 pos_mod_sign order_refl)
  moreover have "0 \<le> t mod second_ns div millisecond" using calculation(1) s(2) by (simp add: pos_imp_zdiv_nonneg_iff)
  then have "0 \<le> ?r" using s(2) by simp
  ultimately have "?r div second_ns = 0" by simp
  moreover have "new_time t = t div second_ns * second_ns + ?r"
    using truncate_ms [of t] by (simp add: new_time_def truncate_time_def)
  ultimately show ?thesis using s(1) by simp
qed

lemma date_in_new_time [simp]: "date_in UTC (new_time t) = date_in UTC t"
  by (simp add: date_in_def utc_fields new_time_seconds)

lemma quoted_quote [simp]: "quoted (CHR ''\"'' # s @ [CHR ''\"'']) = Some s"
  by (simp add: quoted_def)

lemma unmarshal_marshal_time:
  assumes "date_in UTC t = (y, m, d)" "0 \<le> y" "y \<le> 9999"
  shows "unmarshal_time (marshal_time t) = Some (new_time t)"
proof (cases "t = zero_time")
  case True
  have "zero_time mod millisecond = 0" by (code_simp)
  then show ?thesis using True by (simp add: marshal_time_def unmarshal_time_def new_time_def truncate_time_def)
next
  case False
  then show ?thesis using parse_format_wire [OF assms]
    by (simp add: marshal_time_def unmarshal_time_def)
qed

end
