(* ===== verification/Json.thy ===== *)
theory Json
  imports WireTime
begin

text \<open>JSON values, for event payloads and HTTP bodies. Encoding a Go struct gives an object with the
  fields of its tags in order; decoding takes the first object member of that name and leaves the zero
  value where there is none.\<close>

datatype json =
    JNull
  | JBool bool
  | JInt int
  | JStr string
  | JArr "json list"
  | JObj "(string \<times> json) list"

definition time_json :: "int \<Rightarrow> json" where
  "time_json t = (if t = zero_time then JNull else JStr (format_wire t))"

fun field :: "string \<Rightarrow> json \<Rightarrow> json option" where
  "field k (JObj fs) = map_of fs k"
| "field k _ = None"

text \<open>Decoding one field into a Go value of the type: absent and \<open>null\<close> leave the zero value, a value
  of another JSON type is an error.\<close>

definition int_field :: "string \<Rightarrow> json \<Rightarrow> int option" where
  "int_field k j = (case field k j of
       None \<Rightarrow> Some 0
     | Some JNull \<Rightarrow> Some 0
     | Some (JInt n) \<Rightarrow> if in_int64 n then Some n else None
     | Some _ \<Rightarrow> None)"

definition string_field :: "string \<Rightarrow> json \<Rightarrow> string option" where
  "string_field k j = (case field k j of
       None \<Rightarrow> Some ''''
     | Some JNull \<Rightarrow> Some ''''
     | Some (JStr s) \<Rightarrow> Some s
     | Some _ \<Rightarrow> None)"

definition time_field :: "string \<Rightarrow> json \<Rightarrow> int option" where
  "time_field k j = (case field k j of
       None \<Rightarrow> Some zero_time
     | Some JNull \<Rightarrow> Some zero_time
     | Some (JStr s) \<Rightarrow> map_option new_time (parse_rfc3339 s)
     | Some _ \<Rightarrow> None)"

text \<open>What decodes into a struct: an object, or \<open>null\<close>, which leaves the zero value.\<close>

definition is_object :: "json \<Rightarrow> bool" where
  "is_object j = (case j of JObj _ \<Rightarrow> True | JNull \<Rightarrow> True | _ \<Rightarrow> False)"

definition array_field :: "string \<Rightarrow> json \<Rightarrow> json list option" where
  "array_field k j = (case field k j of
       None \<Rightarrow> Some []
     | Some JNull \<Rightarrow> Some []
     | Some (JArr js) \<Rightarrow> Some js
     | Some _ \<Rightarrow> None)"

lemma field_Cons: "field k (JObj ((k', v) # fs)) = (if k = k' then Some v else field k (JObj fs))"
  by simp

lemma time_field_json:
  assumes "field k j = Some (time_json t)" "date_in UTC t = (y, m, d)" "0 \<le> y" "y \<le> 9999"
  shows "time_field k j = Some (new_time t)"
proof (cases "t = zero_time")
  case True
  have "new_time zero_time = zero_time" by code_simp
  then show ?thesis using True assms(1) by (simp add: time_field_def time_json_def)
next
  case False
  then show ?thesis
    using assms(1) parse_format_wire [OF assms(2-4)] by (simp add: time_field_def time_json_def)
qed

end
