(* ===== verification/Outbox.thy ===== *)
theory Outbox
  imports Json
begin

text \<open>The transactional outbox, the same in every service (mapped here to scheduler-service's copy):
  the table and its repository (\<open>repository/outbox-repository.go\<close>), the Kafka producer
  (\<open>kafka/producer.go\<close>) and the relay that drains the table (\<open>kafka/outbox-relay.go\<close>). The relay is
  proved against the port it is written to (\<open>outbox_port\<close>), which the repository then meets.\<close>

section \<open>The table\<close>

text \<open>\<open>entity.OutboxMessage\<close>, and \<open>models.OutboxMessage\<close> (a row).\<close>

record outbox_message =
  om_id :: int
  om_topic :: string
  om_key :: string
  om_payload :: json
  om_created :: int
  om_published :: "int option"

record outbox_row =
  ob_id :: int
  ob_topic :: string
  ob_key :: string
  ob_payload :: json
  ob_created :: int
  ob_published :: "int option"

text \<open>A service's database is an extension of this record; \<open>kafka_log\<close> is what the broker has
  written, in order.\<close>

record outbox_db = world +
  outbox_rows :: "outbox_row list"
  outbox_seq :: int
  kafka_log :: "outbox_message list"

definition new_message :: "string \<Rightarrow> string \<Rightarrow> json \<Rightarrow> outbox_message" where
  "new_message topic key payload =
     \<lparr>om_id = 0, om_topic = topic, om_key = key, om_payload = payload, om_created = zero_time, om_published = None\<rparr>"

definition outbox_create :: "env \<Rightarrow> outbox_message \<Rightarrow> ('z outbox_db_scheme, db_error, unit) prog" where
  "outbox_create E message =
     on_ok (now E) (\<lambda>t.
     sql E (\<lambda>s.
       (Inr (), s\<lparr>outbox_seq := outbox_seq s + 1,
                  outbox_rows := outbox_rows s @
                    [\<lparr>ob_id = outbox_seq s, ob_topic = om_topic message, ob_key = om_key message,
                      ob_payload = om_payload message, ob_created = db_time E t, ob_published = None\<rparr>]\<rparr>)))"

definition to_message :: "outbox_row \<Rightarrow> outbox_message" where
  "to_message row =
     \<lparr>om_id = ob_id row, om_topic = ob_topic row, om_key = ob_key row, om_payload = ob_payload row,
      om_created = ob_created row, om_published = ob_published row\<rparr>"

definition fetch_unpublished :: "env \<Rightarrow> nat \<Rightarrow> ('z outbox_db_scheme, db_error, outbox_message list) prog" where
  "fetch_unpublished E limit =
     query E (\<lambda>s. map to_message (take limit (sort_key ob_id
       (filter (\<lambda>row. ob_published row = None) (outbox_rows s)))))"

definition mark_published :: "env \<Rightarrow> int list \<Rightarrow> ('z outbox_db_scheme, db_error, unit) prog" where
  "mark_published E ids =
     (if ids = [] then ok ()
      else on_ok (now E) (\<lambda>t.
           sql E (\<lambda>s. (Inr (), s\<lparr>outbox_rows := map (\<lambda>row.
             if ob_id row \<in> set ids then row\<lparr>ob_published := Some (db_time E t)\<rparr> else row) (outbox_rows s)\<rparr>))))"

section \<open>The producer and the relay\<close>

definition publish :: "env \<Rightarrow> outbox_message \<Rightarrow> ('z outbox_db_scheme, string, unit) prog" where
  "publish E m = (\<lambda>s. case broker E (tick s) of
       Acked \<Rightarrow> (Inr (), step_tick (s\<lparr>kafka_log := kafka_log s @ [m]\<rparr>))
     | Refused msg \<Rightarrow> (Inl msg, step_tick s)
     | LostAck msg \<Rightarrow> (Inl msg, step_tick (s\<lparr>kafka_log := kafka_log s @ [m]\<rparr>)))"

definition outbox_relay_batch_size :: nat where
  "outbox_relay_batch_size = 100"

text \<open>The loop over one batch: the ids acknowledged, stopping at the first failure.\<close>

fun publish_batch :: "(outbox_message \<Rightarrow> ('s, string, unit) prog) \<Rightarrow> outbox_message list \<Rightarrow> 's \<Rightarrow> int list \<times> 's" where
  "publish_batch pub [] s = ([], s)"
| "publish_batch pub (m # ms) s =
     (case pub m s of
        (Inl e, t) \<Rightarrow> ([], t)
      | (Inr _, t) \<Rightarrow> (let (ids, u) = publish_batch pub ms t in (om_id m # ids, u)))"

text \<open>\<open>relayOnce\<close>, over the ports it is built from. Errors are logged and left to the next poll.\<close>

definition relay_once ::
    "(nat \<Rightarrow> ('s, 'e, outbox_message list) prog) \<Rightarrow> (int list \<Rightarrow> ('s, 'e, unit) prog) \<Rightarrow>
     (outbox_message \<Rightarrow> ('s, string, unit) prog) \<Rightarrow> 's \<Rightarrow> 's" where
  "relay_once fetch mark pub s =
     (case fetch outbox_relay_batch_size s of
        (Inl e, t) \<Rightarrow> t
      | (Inr messages, t) \<Rightarrow>
          (let (published, u) = publish_batch pub messages t
           in if published = [] then u else snd (mark published u)))"

text \<open>\<open>Start\<close>: one relay per tick of the ticker, until the context is cancelled (after \<open>n\<close> ticks).\<close>

fun relay_start ::
    "(nat \<Rightarrow> ('s, 'e, outbox_message list) prog) \<Rightarrow> (int list \<Rightarrow> ('s, 'e, unit) prog) \<Rightarrow>
     (outbox_message \<Rightarrow> ('s, string, unit) prog) \<Rightarrow> nat \<Rightarrow> 's \<Rightarrow> 's" where
  "relay_start fetch mark pub 0 s = s"
| "relay_start fetch mark pub (Suc n) s = relay_start fetch mark pub n (relay_once fetch mark pub s)"

section \<open>The port\<close>

text \<open>What makes two messages the same to a consumer.\<close>

definition wire :: "outbox_message \<Rightarrow> int \<times> string \<times> string \<times> json" where
  "wire m = (om_id m, om_topic m, om_key m, om_payload m)"

lemma wire_id: "wire a = wire b \<Longrightarrow> om_id a = om_id b"
  by (simp add: wire_def)

locale outbox_port =
  fixes rows :: "'s \<Rightarrow> outbox_message list" and sent :: "'s \<Rightarrow> outbox_message list"
    and valid :: "'s \<Rightarrow> bool"
    and create :: "outbox_message \<Rightarrow> ('s, 'e, unit) prog"
    and fetch :: "nat \<Rightarrow> ('s, 'e, outbox_message list) prog"
    and mark :: "int list \<Rightarrow> ('s, 'e, unit) prog"
    and pub :: "outbox_message \<Rightarrow> ('s, string, unit) prog"
  assumes ids_ascend: "valid s \<Longrightarrow> sorted_wrt (<) (map om_id (rows s))"
    and create_ok: "valid s \<Longrightarrow> create m s = (Inr (), t) \<Longrightarrow>
      valid t \<and> sent t = sent s \<and> (\<exists>r. rows t = rows s @ [r] \<and> om_published r = None \<and>
        om_topic r = om_topic m \<and> om_key r = om_key m \<and> om_payload r = om_payload m \<and>
        (\<forall>x \<in> set (sent s). om_id x < om_id r))"
    and create_err: "valid s \<Longrightarrow> create m s = (Inl e, t) \<Longrightarrow> valid t \<and> sent t = sent s \<and> rows t = rows s"
    and fetch_any: "valid s \<Longrightarrow> fetch n s = (r, t) \<Longrightarrow> valid t \<and> sent t = sent s \<and> rows t = rows s"
    and fetch_ok: "valid s \<Longrightarrow> fetch n s = (Inr ms, t) \<Longrightarrow>
      ms = take n (filter (\<lambda>m. om_published m = None) (rows s))"
    and mark_ok: "valid s \<Longrightarrow> mark ids s = (Inr (), t) \<Longrightarrow>
      valid t \<and> sent t = sent s \<and> (\<exists>\<tau>. rows t =
        map (\<lambda>m. if om_id m \<in> set ids then m\<lparr>om_published := Some \<tau>\<rparr> else m) (rows s))"
    and mark_err: "valid s \<Longrightarrow> mark ids s = (Inl e, t) \<Longrightarrow> valid t \<and> sent t = sent s \<and> rows t = rows s"
    and pub_any: "valid s \<Longrightarrow> m \<in> set (rows s) \<Longrightarrow> pub m s = (q, t) \<Longrightarrow> valid t \<and> rows t = rows s \<and>
      (sent t = sent s @ [m] \<or> sent t = sent s \<and> (\<exists>d. q = Inl d))"
begin

text \<open>At least once: a row marked published has reached the broker. In order: when a row reaches the
  broker, every row with a smaller id already has.\<close>

definition delivered :: "'s \<Rightarrow> bool" where
  "delivered s \<longleftrightarrow>
     (\<forall>m \<in> set (rows s). om_published m \<noteq> None \<longrightarrow> wire m \<in> wire ` set (sent s)) \<and>
     (\<forall>i < length (sent s). \<forall>m \<in> set (rows s). om_id m < om_id (sent s ! i) \<longrightarrow>
        wire m \<in> wire ` set (take i (sent s)))"

definition in_order :: "outbox_message list \<Rightarrow> outbox_message list \<Rightarrow> bool" where
  "in_order rs ls \<longleftrightarrow>
     (\<forall>i < length ls. \<forall>m \<in> set rs. om_id m < om_id (ls ! i) \<longrightarrow> wire m \<in> wire ` set (take i ls))"

lemma in_order_snoc:
  "in_order rs (ls @ [x]) \<longleftrightarrow>
     in_order rs ls \<and> (\<forall>m \<in> set rs. om_id m < om_id x \<longrightarrow> wire m \<in> wire ` set ls)"
  by (auto simp: in_order_def nth_append less_Suc_eq)

lemma publish_batch_run:
  assumes "valid s" "set ms \<subseteq> set (rows s)" "publish_batch pub ms s = (ids, t)"
  shows "valid t \<and> rows t = rows s \<and> (\<exists>k j. k \<le> j \<and> j \<le> Suc k \<and> j \<le> length ms \<and>
    ids = map om_id (take k ms) \<and> sent t = sent s @ take j ms)"
  using assms
proof (induction ms arbitrary: s ids)
  case (Cons m ms)
  obtain r u where p: "pub m s = (r, u)" by fastforce
  have u: "valid u" "rows u = rows s" "sent u = sent s @ [m] \<or> sent u = sent s \<and> (\<exists>e. r = Inl e)"
    using pub_any [OF Cons.prems(1) _ p] Cons.prems(2) by auto
  show ?case
  proof (cases r)
    case (Inl e)
    then have t: "ids = []" "t = u" using p Cons.prems(3) by simp_all
    show ?thesis
    proof (cases "sent u = sent s @ [m]")
      case True
      then show ?thesis using u t by (intro conjI exI [of _ 0] exI [of _ 1]) simp_all
    next
      case False
      then show ?thesis using u t by (intro conjI exI [of _ 0]) simp_all
    qed
  next
    case (Inr x)
    then obtain ids' where b: "publish_batch pub ms u = (ids', t)" "ids = om_id m # ids'"
      using p Cons.prems(3) by (auto split: prod.splits)
    then obtain k j where "valid t" "rows t = rows u" "k \<le> j" "j \<le> Suc k" "j \<le> length ms"
        "ids' = map om_id (take k ms)" "sent t = sent u @ take j ms"
      using Cons.IH [OF u(1) _ b(1)] Cons.prems(2) u(2) by auto
    then show ?thesis
      using u b Inr by (intro conjI exI [of _ "Suc k"] exI [of _ "Suc j"]) auto
  qed
qed auto

lemma delivered_alt:
  "delivered s \<longleftrightarrow> (\<forall>m \<in> set (rows s). om_published m \<noteq> None \<longrightarrow> wire m \<in> wire ` set (sent s)) \<and>
     in_order (rows s) (sent s)"
  by (simp add: delivered_def in_order_def)

text \<open>Sending a prefix of the unpublished rows, oldest first, keeps the order.\<close>

lemma in_order_prefix:
  assumes d: "\<forall>m \<in> set rs. om_published m \<noteq> None \<longrightarrow> wire m \<in> wire ` set ls" and o: "in_order rs ls"
    and s: "sorted_wrt (<) (map om_id rs)"
  shows "in_order rs (ls @ take j (filter (\<lambda>m. om_published m = None) rs))"
proof (induction j)
  case (Suc j)
  let ?p = "filter (\<lambda>m. om_published m = None) rs"
  show ?case
  proof (cases "j < length ?p")
    case True
    have sp: "sorted_wrt (<) (map om_id ?p)"
      using sorted_wrt_filter [of "\<lambda>a b. om_id a < om_id b" rs] s by (simp add: sorted_wrt_map)
    have "wire m \<in> wire ` set (ls @ take j ?p)" if m: "m \<in> set rs" "om_id m < om_id (?p ! j)" for m
    proof (cases "om_published m")
      case None
      then have "m \<in> set ?p" using m(1) by simp
      then obtain i where i: "i < length ?p" "?p ! i = m" by (auto simp only: in_set_conv_nth)
      have "\<not> j < i" using m(2) i sp sorted_wrt_nth_less [OF sp, of j i] by auto
      moreover have "i \<noteq> j" using m(2) i(2) by auto
      ultimately have ij: "i < j" by simp
      then have "take j ?p ! i = m" "i < length (take j ?p)" using i by simp_all
      then have "m \<in> set (take j ?p)" by (metis nth_mem)
      then show ?thesis by auto
    qed (use d m in auto)
    then show ?thesis using Suc True by (simp add: take_Suc_conv_app_nth in_order_snoc flip: append_assoc)
  qed (use Suc in simp)
qed (simp add: o)

lemma in_order_cong:
  assumes "wire ` set rs' \<subseteq> wire ` set rs" "in_order rs ls"
  shows "in_order rs' ls"
  unfolding in_order_def
proof (intro allI ballI impI)
  fix i m
  assume i: "i < length ls" and m: "m \<in> set rs'" "om_id m < om_id (ls ! i)"
  from m(1) have "wire m \<in> wire ` set rs" using assms(1) by blast
  then obtain m0 where m0: "m0 \<in> set rs" "wire m = wire m0" by blast
  then have "om_id m0 < om_id (ls ! i)" using m(2) wire_id [OF m0(2)] by simp
  then show "wire m \<in> wire ` set (take i ls)" using assms(2) i m0 by (simp add: in_order_def)
qed

lemma wire_marked: "wire (m\<lparr>om_published := p\<rparr>) = wire m"
  by (simp add: wire_def)

lemma mark_delivered:
  assumes v: "valid u" and d: "delivered u" and m: "mark ids u = (q, w)"
    and acked: "\<And>m. m \<in> set (rows u) \<Longrightarrow> om_id m \<in> set ids \<Longrightarrow> wire m \<in> wire ` set (sent u)"
  shows "valid w \<and> delivered w"
proof (cases q)
  case (Inl e)
  then show ?thesis using mark_err [OF v] m d by (auto simp: delivered_def)
next
  case (Inr x)
  then obtain \<tau> where w: "valid w" "sent w = sent u"
      "rows w = map (\<lambda>m. if om_id m \<in> set ids then m\<lparr>om_published := Some \<tau>\<rparr> else m) (rows u)"
    using mark_ok [OF v] m by auto
  have origin: "\<exists>m0 \<in> set (rows u). wire m = wire m0 \<and> (om_id m0 \<in> set ids \<or> om_published m = om_published m0)"
    if "m \<in> set (rows w)" for m
    using that unfolding w(3) by (auto simp: wire_marked)
  then have "wire ` set (rows w) \<subseteq> wire ` set (rows u)" by blast
  then have "in_order (rows w) (sent w)" using in_order_cong d w(2) by (simp add: delivered_alt)
  moreover have "wire m \<in> wire ` set (sent w)" if mw: "m \<in> set (rows w)" "om_published m \<noteq> None" for m
    using origin [OF mw(1)] acked d mw(2) w(2) unfolding delivered_def by metis
  ultimately show ?thesis using w(1) by (simp add: delivered_alt)
qed

lemma same_id: "valid s \<Longrightarrow> m \<in> set (rows s) \<Longrightarrow> n \<in> set (rows s) \<Longrightarrow> om_id m = om_id n \<Longrightarrow> m = n"
  using ids_ascend [of s] by (metis distinct_map inj_on_def strict_sorted_iff)

lemma relay_once_delivered:
  assumes v: "valid s" and d: "delivered s"
  shows "valid (relay_once fetch mark pub s) \<and> delivered (relay_once fetch mark pub s)"
proof -
  let ?p = "filter (\<lambda>m. om_published m = None) (rows s)"
  obtain r t where f: "fetch outbox_relay_batch_size s = (r, t)" by fastforce
  have t: "valid t" "sent t = sent s" "rows t = rows s" using fetch_any [OF v f] by auto
  have dd: "\<forall>m \<in> set (rows s). om_published m \<noteq> None \<longrightarrow> wire m \<in> wire ` set (sent s)" "in_order (rows s) (sent s)"
    using d by (simp_all add: delivered_alt)
  show ?thesis
  proof (cases r)
    case (Inl e)
    then show ?thesis using f t d by (simp add: relay_once_def delivered_def)
  next
    case (Inr ms)
    then have ms: "ms = take outbox_relay_batch_size ?p" using fetch_ok [OF v] f by simp
    obtain ids u where b: "publish_batch pub ms t = (ids, u)" by fastforce
    have sub: "set ms \<subseteq> set (rows t)" using ms t by (auto dest: in_set_takeD)
    obtain k j where u: "valid u" "rows u = rows s" "k \<le> j" "j \<le> length ms"
        "ids = map om_id (take k ms)" "sent u = sent s @ take j ms"
      using publish_batch_run [OF t(1) sub b] t by auto
    have "take j ms = take j ?p" using u(4) ms by simp
    then have o: "in_order (rows s) (sent u)"
      using in_order_prefix [OF dd ids_ascend [OF v], of j] u(6) by simp
    have du: "delivered u" using dd o u(2,6) by (auto simp: delivered_alt)
    have acked: "wire m \<in> wire ` set (sent u)" if m: "m \<in> set (rows u)" "om_id m \<in> set ids" for m
    proof -
      obtain m1 where m1: "m1 \<in> set (take k ms)" "om_id m1 = om_id m" using m(2) u(5) by auto
      then have "m1 \<in> set (rows u)" using sub t u(2) by (auto dest: in_set_takeD)
      then have "m1 = m" using same_id [OF u(1) _ m(1)] m1(2) by blast
      then have "m \<in> set (take j ms)" using m1(1) subsetD [OF set_take_subset_set_take [OF u(3)], of m ms] by simp
      then show ?thesis using u(6) by simp
    qed
    obtain q w where m: "mark ids u = (q, w)" by fastforce
    have "relay_once fetch mark pub s = (if ids = [] then u else w)"
      using f Inr b m by (simp add: relay_once_def)
    then show ?thesis using u(1) du mark_delivered [OF u(1) du m acked] by auto
  qed
qed

lemma relay_once_valid: "valid s \<Longrightarrow> valid (relay_once fetch mark pub s)"
proof -
  assume v: "valid s"
  obtain r t where f: "fetch outbox_relay_batch_size s = (r, t)" by fastforce
  have t: "valid t" "rows t = rows s" using fetch_any [OF v f] by auto
  show ?thesis
  proof (cases r)
    case (Inr ms)
    then have "ms = take outbox_relay_batch_size (filter (\<lambda>m. om_published m = None) (rows s))"
      using fetch_ok [OF v] f by simp
    then have "set ms \<subseteq> set (rows t)" using t by (auto dest: in_set_takeD)
    moreover obtain ids u where b: "publish_batch pub ms t = (ids, u)" by fastforce
    ultimately have u: "valid u" using publish_batch_run [OF t(1) _ b] by blast
    obtain q w where m: "mark ids u = (q, w)" by fastforce
    have "valid w" using mark_ok [OF u, of ids w] mark_err [OF u, of ids _ w] m by (cases q) auto
    then show ?thesis using f Inr b u m by (simp add: relay_once_def)
  qed (use f t in \<open>simp add: relay_once_def\<close>)
qed

lemma relay_start_delivered:
  "valid s \<Longrightarrow> delivered s \<Longrightarrow>
     valid (relay_start fetch mark pub n s) \<and> delivered (relay_start fetch mark pub n s)"
  by (induction n arbitrary: s) (use relay_once_delivered in auto)

lemma create_delivered:
  assumes "valid s" "delivered s" "create m s = (r, t)"
  shows "valid t \<and> delivered t"
proof (cases r)
  case (Inl e)
  then show ?thesis using create_err [of s m e t] assms by (auto simp: delivered_def)
next
  case (Inr x)
  then obtain q where q: "valid t" "sent t = sent s" "rows t = rows s @ [q]" "om_published q = None"
      "\<forall>x \<in> set (sent s). om_id x < om_id q"
    using create_ok [of s m t] assms by auto
  have "\<not> om_id q < om_id (sent s ! i)" if "i < length (sent s)" for i
    using q(5) that by (meson less_asym nth_mem)
  then show ?thesis using q assms(2) by (auto simp: delivered_def)
qed

end

section \<open>The repository meets the port\<close>

definition outbox_messages :: "'z outbox_db_scheme \<Rightarrow> outbox_message list" where
  "outbox_messages s = map to_message (outbox_rows s)"

text \<open>Row ids come from the identity sequence, so they ascend in insertion order.\<close>

definition outbox_valid :: "'z outbox_db_scheme \<Rightarrow> bool" where
  "outbox_valid s \<longleftrightarrow>
     sorted_wrt (<) (map ob_id (outbox_rows s)) \<and>
     (\<forall>r \<in> set (outbox_rows s). ob_id r < outbox_seq s) \<and>
     (\<forall>m \<in> set (kafka_log s). om_id m < outbox_seq s)"

lemma outbox_tick [simp]:
  "outbox_rows (step_tick s) = outbox_rows s" "outbox_seq (step_tick s) = outbox_seq s"
  "kafka_log (step_tick s) = kafka_log s"
  by (simp_all add: step_tick_def)

lemma outbox_valid_tick [simp]: "outbox_valid (step_tick s) = outbox_valid s"
  by (simp add: outbox_valid_def)

lemma to_message_sel [simp]:
  "om_id (to_message r) = ob_id r" "om_published (to_message r) = ob_published r"
  "om_topic (to_message r) = ob_topic r" "om_key (to_message r) = ob_key r"
  "om_payload (to_message r) = ob_payload r"
  by (simp_all add: to_message_def)

lemma outbox_create_Inr:
  "outbox_create E m s = (Inr u, t) \<longleftrightarrow>
     fault E (Suc (tick s)) = None \<and>
     t = (step_tick (step_tick s))\<lparr>outbox_seq := outbox_seq s + 1,
           outbox_rows := outbox_rows s @
             [\<lparr>ob_id = outbox_seq s, ob_topic = om_topic m, ob_key = om_key m, ob_payload = om_payload m,
               ob_created = db_time E (clock E (tick s)), ob_published = None\<rparr>]\<rparr>"
  by (auto simp: outbox_create_def prog_simps step_tick_def)

lemma outbox_create_Inl:
  "outbox_create E m s = (Inl e, t) \<Longrightarrow> t = step_tick (step_tick s)"
  by (auto simp: outbox_create_def prog_simps)

lemma sort_key_ascending: "sorted_wrt (<) (map f xs) \<Longrightarrow> sort_key f xs = (xs :: 'a list)"
  for f :: "'a \<Rightarrow> int"
  by (rule sort_key_id_if_sorted) (rule strict_sorted_imp_sorted)

interpretation outbox: outbox_port outbox_messages kafka_log outbox_valid
    "outbox_create E" "fetch_unpublished E" "mark_published E" "publish E" for E :: env
proof unfold_locales
  fix s t :: "'a outbox_db_scheme" and m :: outbox_message and e :: db_error
    and n :: nat and ids :: "int list" and ms :: "outbox_message list"
    and r :: "db_error + outbox_message list" and q :: "string + unit"
  assume v: "outbox_valid s"
  show "sorted_wrt (<) (map om_id (outbox_messages s))"
    using v by (simp add: outbox_valid_def outbox_messages_def comp_def)
  show "outbox_create E m s = (Inr (), t) \<Longrightarrow>
      outbox_valid t \<and> kafka_log t = kafka_log s \<and> (\<exists>r. outbox_messages t = outbox_messages s @ [r] \<and>
        om_published r = None \<and> om_topic r = om_topic m \<and> om_key r = om_key m \<and>
        om_payload r = om_payload m \<and> (\<forall>x \<in> set (kafka_log s). om_id x < om_id r))"
    using v by (auto simp: outbox_create_Inr outbox_valid_def outbox_messages_def sorted_wrt_append)
  show "outbox_create E m s = (Inl e, t) \<Longrightarrow>
      outbox_valid t \<and> kafka_log t = kafka_log s \<and> outbox_messages t = outbox_messages s"
    using v by (auto dest!: outbox_create_Inl simp: outbox_messages_def)
  show "fetch_unpublished E n s = (r, t) \<Longrightarrow>
      outbox_valid t \<and> kafka_log t = kafka_log s \<and> outbox_messages t = outbox_messages s"
    using v by (cases r) (auto simp: fetch_unpublished_def prog_simps outbox_messages_def)
  show "fetch_unpublished E n s = (Inr ms, t) \<Longrightarrow>
      ms = take n (filter (\<lambda>m. om_published m = None) (outbox_messages s))"
  proof -
    assume "fetch_unpublished E n s = (Inr ms, t)"
    moreover have "sorted_wrt (<) (map ob_id (filter (\<lambda>row. ob_published row = None) (outbox_rows s)))"
      using v by (simp add: outbox_valid_def sorted_wrt_map sorted_wrt_filter)
    ultimately show ?thesis
      by (simp add: fetch_unpublished_def prog_simps outbox_messages_def sort_key_ascending filter_map comp_def take_map)
  qed
  show "mark_published E ids s = (Inr (), t) \<Longrightarrow>
      outbox_valid t \<and> kafka_log t = kafka_log s \<and> (\<exists>\<tau>. outbox_messages t =
        map (\<lambda>m. if om_id m \<in> set ids then m\<lparr>om_published := Some \<tau>\<rparr> else m) (outbox_messages s))"
  proof (cases "ids = []")
    case False
    have k: "map ob_id (map (\<lambda>row. if ob_id row \<in> set ids then row\<lparr>ob_published := p\<rparr> else row) rs) = map ob_id rs"
      for p and rs :: "outbox_row list" by simp
    assume "mark_published E ids s = (Inr (), t)"
    then have t: "t = (step_tick (step_tick s))\<lparr>outbox_rows := map (\<lambda>row. if ob_id row \<in> set ids
        then row\<lparr>ob_published := Some (db_time E (clock E (tick s)))\<rparr> else row) (outbox_rows s)\<rparr>"
      using False by (auto simp: mark_published_def prog_simps)
    have "outbox_valid t" using v unfolding t outbox_valid_def by (auto simp: comp_def if_distrib cong: if_cong)
    moreover have "outbox_messages t = map (\<lambda>m. if om_id m \<in> set ids
        then m\<lparr>om_published := Some (db_time E (clock E (tick s)))\<rparr> else m) (outbox_messages s)"
      by (simp add: t outbox_messages_def to_message_def)
    ultimately show ?thesis by (auto simp: t)
  qed (use v in \<open>auto simp: mark_published_def outbox_messages_def intro!: exI [of _ 0]\<close>)
  show "mark_published E ids s = (Inl e, t) \<Longrightarrow>
      outbox_valid t \<and> kafka_log t = kafka_log s \<and> outbox_messages t = outbox_messages s"
    using v by (auto simp: mark_published_def prog_simps outbox_messages_def split: if_splits)
  show "m \<in> set (outbox_messages s) \<Longrightarrow> publish E m s = (q, t) \<Longrightarrow>
      outbox_valid t \<and> outbox_messages t = outbox_messages s \<and>
      (kafka_log t = kafka_log s @ [m] \<or> kafka_log t = kafka_log s \<and> (\<exists>d. q = Inl d))"
    using v by (auto simp: publish_def outbox_valid_def outbox_messages_def split: delivery.splits)
qed

text \<open>The state of the outbox every service keeps.\<close>

definition outbox_ok :: "'z outbox_db_scheme \<Rightarrow> bool" where
  "outbox_ok s \<longleftrightarrow> outbox_valid s \<and> outbox.delivered s"

lemma outbox_ok_cong:
  assumes "outbox_ok s" "outbox_rows t = outbox_rows s" "kafka_log t = kafka_log s" "outbox_seq s \<le> outbox_seq t"
  shows "outbox_ok t"
  using assms by (auto simp: outbox_ok_def outbox_valid_def outbox.delivered_def outbox_messages_def intro: order_less_le_trans)

lemma outbox_ok_tick [simp]: "outbox_ok (step_tick s) = outbox_ok s"
  by (simp add: outbox_ok_def outbox.delivered_def outbox_messages_def)

lemma outbox_ok_set_tick [simp]: "outbox_ok (s\<lparr>tick := n\<rparr>) = outbox_ok s"
  by (simp add: outbox_ok_def outbox.delivered_def outbox_messages_def outbox_valid_def)

lemma outbox_ok_append:
  assumes "outbox_ok s" "outbox_rows t = outbox_rows s @ [r]" "kafka_log t = kafka_log s" "ob_published r = None"
    "outbox_seq s \<le> ob_id r" "ob_id r < outbox_seq t"
  shows "outbox_ok t"
proof -
  have v: "outbox_valid s" and d: "outbox.delivered s" using assms(1) by (simp_all add: outbox_ok_def)
  have old: "ob_id q < ob_id r" if "q \<in> set (outbox_rows s)" for q
    using v that assms(5) by (force simp: outbox_valid_def)
  have "\<And>q. q \<in> set (outbox_rows s) \<Longrightarrow> ob_id q < outbox_seq t" using old assms(6) by (meson order_less_trans)
  moreover have sent: "om_id m < ob_id r" if "m \<in> set (kafka_log s)" for m
    using v that assms(5) by (force simp: outbox_valid_def)
  moreover have "\<And>m. m \<in> set (kafka_log s) \<Longrightarrow> om_id m < outbox_seq t" using sent assms(6) by (meson order_less_trans)
  ultimately have "outbox_valid t" using v old assms(2,3,6) by (auto simp: outbox_valid_def sorted_wrt_append)
  moreover have "\<not> ob_id r < om_id (kafka_log s ! i)" if "i < length (kafka_log s)" for i
    using sent [OF nth_mem [OF that]] by simp
  then have "outbox.delivered t"
    using d assms(2,3,4) by (auto simp: outbox.delivered_def outbox_messages_def)
  ultimately show ?thesis by (simp add: outbox_ok_def)
qed

lemma relay_once_ok:
  "outbox_ok s \<Longrightarrow> outbox_ok (relay_once (fetch_unpublished E) (mark_published E) (publish E) s)"
  using outbox.relay_once_delivered [of s E] by (simp add: outbox_ok_def)

text \<open>The relay touches nothing but the clock, the outbox and the broker.\<close>

definition outbox_frame :: "'z outbox_db_scheme \<Rightarrow> 'z outbox_db_scheme \<Rightarrow> bool" where
  "outbox_frame s t \<longleftrightarrow> outbox_seq t = outbox_seq s \<and> outbox_db.more t = outbox_db.more s"

lemma outbox_frame_trans: "outbox_frame s t \<Longrightarrow> outbox_frame t u \<Longrightarrow> outbox_frame s u"
  by (simp add: outbox_frame_def)

lemma outbox_frame_intros [simp]:
  "outbox_frame s s" "outbox_frame s (t\<lparr>tick := n\<rparr>) = outbox_frame s t" "outbox_frame s (t\<lparr>outbox_rows := rows\<rparr>) = outbox_frame s t"
  "outbox_frame s (t\<lparr>kafka_log := l\<rparr>) = outbox_frame s t" "outbox_frame s (step_tick t) = outbox_frame s t"
  by (simp_all add: outbox_frame_def step_tick_def)

lemma outbox_frame_update:
  "outbox_frame s t \<Longrightarrow> t = s\<lparr>tick := tick t, outbox_rows := outbox_rows t, kafka_log := kafka_log t\<rparr>"
  by (rule outbox_db.equality) (simp_all add: outbox_frame_def)

text \<open>Whatever the ports do to the state, one round of the relay does no more than a sequence of them.\<close>

lemma relay_once_related:
  assumes refl: "\<And>s. R s s" and trans: "\<And>s t u. R s t \<Longrightarrow> R t u \<Longrightarrow> R s u"
    and f: "\<And>n s r t. fetch n s = (r, t) \<Longrightarrow> R s t" and m: "\<And>ids s r t. mark ids s = (r, t) \<Longrightarrow> R s t"
    and p: "\<And>x s r t. pub x s = (r, t) \<Longrightarrow> R s t"
  shows "R s (relay_once fetch mark pub s)"
proof -
  obtain r t where ft: "fetch outbox_relay_batch_size s = (r, t)" by fastforce
  have st: "R s t" by (rule f [OF ft])
  have b: "R u w" if "publish_batch pub ms u = (ids, w)" for ms ids u w
    using that
  proof (induction ms arbitrary: u ids w)
    case (Cons x ms)
    obtain q v where v: "pub x u = (q, v)" by fastforce
    obtain ids' w' where b: "publish_batch pub ms v = (ids', w')" by fastforce
    have "R u v" by (rule p [OF v])
    moreover have "R v w'" by (rule Cons(1) [OF b])
    ultimately show ?case using Cons(2) v b trans by (cases q) auto
  qed (simp add: refl)
  show ?thesis
  proof (cases r)
    case (Inr ms)
    obtain ids u where pb: "publish_batch pub ms t = (ids, u)" by fastforce
    obtain q w where k: "mark ids u = (q, w)" by fastforce
    have "R s u" by (rule trans [OF st b [OF pb]])
    then show ?thesis using ft Inr pb k trans [OF _ m [OF k]] by (simp add: relay_once_def)
  qed (use ft st in \<open>simp add: relay_once_def\<close>)
qed

lemma relay_once_frame:
  fixes s :: "'z outbox_db_scheme"
  shows "outbox_frame s (relay_once (fetch_unpublished E) (mark_published E) (publish E) s)"
proof (rule relay_once_related [where R = outbox_frame])
  fix s t :: "'z outbox_db_scheme"
  show "fetch_unpublished E n s = (r, t) \<Longrightarrow> outbox_frame s t" for n r
    by (cases r) (auto simp: fetch_unpublished_def prog_simps)
  show "mark_published E ids s = (q, t) \<Longrightarrow> outbox_frame s t" for ids q
    by (cases q) (auto simp: mark_published_def prog_simps split: if_splits)
  show "publish E x s = (r, t) \<Longrightarrow> outbox_frame s t" for x r by (auto simp: publish_def split: delivery.splits)
qed (auto intro: outbox_frame_trans)

text \<open>What the events say, and to whom, never changes.\<close>

definition outbox_facts :: "'z outbox_db_scheme \<Rightarrow> (string \<times> string \<times> json) list" where
  "outbox_facts s = map (\<lambda>r. (ob_topic r, ob_key r, ob_payload r)) (outbox_rows s)"

lemma relay_once_facts:
  fixes s :: "'z outbox_db_scheme"
  shows "outbox_facts (relay_once (fetch_unpublished E) (mark_published E) (publish E) s) = outbox_facts s"
proof -
  have "outbox_facts s = outbox_facts (relay_once (fetch_unpublished E) (mark_published E) (publish E) s)"
  proof (rule relay_once_related [where R = "\<lambda>s t. outbox_facts s = outbox_facts t"])
    fix s t :: "'z outbox_db_scheme"
    show "fetch_unpublished E n s = (r, t) \<Longrightarrow> outbox_facts s = outbox_facts t" for n r
      by (cases r) (auto simp: fetch_unpublished_def prog_simps outbox_facts_def)
    show "mark_published E ids s = (q, t) \<Longrightarrow> outbox_facts s = outbox_facts t" for ids q
      by (cases q) (auto simp: mark_published_def prog_simps outbox_facts_def split: if_splits)
    show "publish E x s = (r, t) \<Longrightarrow> outbox_facts s = outbox_facts t" for x r
      by (auto simp: publish_def outbox_facts_def split: delivery.splits)
  qed simp_all
  then show ?thesis by simp
qed

end
