(* ===== verification/Decimal.thy ===== *)
theory Decimal
  imports GoText Complex_Main
begin

text \<open>The operations of the decimal library the services use. The library is not part of the
  repository, so they are an argument of the model; \<open>decimal_library\<close> states what its documentation
  promises about the number a decimal stands for. The (coefficient, exponent) decimals at the end
  meet the contract and serve to evaluate the model on concrete amounts.\<close>

record 'd decimal_ops =
  dec_zero :: 'd
  dec_add :: "'d \<Rightarrow> 'd \<Rightarrow> 'd"
  dec_shift :: "'d \<Rightarrow> int \<Rightarrow> 'd"
  dec_equal :: "'d \<Rightarrow> 'd \<Rightarrow> bool"
  dec_truncate :: "'d \<Rightarrow> int \<Rightarrow> 'd"
  dec_int_part :: "'d \<Rightarrow> int"
  dec_string :: "'d \<Rightarrow> string"
  dec_string_fixed :: "'d \<Rightarrow> int \<Rightarrow> string"

text \<open>Towards zero, to an integer.\<close>

definition rat_trunc :: "rat \<Rightarrow> int" where
  "rat_trunc q = (if 0 \<le> q then \<lfloor>q\<rfloor> else - \<lfloor>- q\<rfloor>)"

locale decimal_library =
  fixes D :: "'d decimal_ops" and dval :: "'d \<Rightarrow> rat"
  assumes val_zero: "dval (dec_zero D) = 0"
    and val_add: "dval (dec_add D x y) = dval x + dval y"
    and val_shift: "0 \<le> k \<Longrightarrow> dval (dec_shift D x k) = dval x * 10 ^ nat k"
    and equal_iff: "dec_equal D x y \<longleftrightarrow> dval x = dval y"
    and val_truncate: "dval (dec_truncate D x 0) = of_int (rat_trunc (dval x))"
    and int_part: "in_int64 (rat_trunc (dval x)) \<Longrightarrow> dec_int_part D x = rat_trunc (dval x)"
begin

lemma whole_iff: "dec_equal D x (dec_truncate D x 0) \<longleftrightarrow> dval x \<in> \<int>"
proof
  assume "dec_equal D x (dec_truncate D x 0)"
  then have "dval x = of_int (rat_trunc (dval x))" by (simp add: equal_iff val_truncate)
  then show "dval x \<in> \<int>" by (metis Ints_of_int)
next
  assume "dval x \<in> \<int>"
  then obtain n where "dval x = of_int n" by (auto elim: Ints_cases)
  then show "dec_equal D x (dec_truncate D x 0)"
    by (simp add: equal_iff val_truncate rat_trunc_def flip: of_int_minus)
qed

lemma val_sum: "dval (foldl (dec_add D) x ys) = dval x + sum_list (map dval ys)"
  by (induction ys arbitrary: x) (simp_all add: val_add)

end

section \<open>Coefficient and exponent\<close>

datatype dec = Dec int int

text \<open>\<open>Dec c e\<close> is \<open>c * 10 ^ e\<close>; rescaling to a larger exponent drops digits.\<close>

fun rescale :: "dec \<Rightarrow> int \<Rightarrow> dec" where
  "rescale (Dec c e) k = (if k \<le> e then Dec (c * 10 ^ nat (e - k)) k else Dec (quot c (10 ^ nat (k - e))) k)"

definition pow10 :: "int \<Rightarrow> rat" where
  "pow10 e = (if 0 \<le> e then 10 ^ nat e else 1 / 10 ^ nat (- e))"

fun dec_value :: "dec \<Rightarrow> rat" where
  "dec_value (Dec c e) = of_int c * pow10 e"

fun coef :: "dec \<Rightarrow> int" where
  "coef (Dec c e) = c"

fun dexp :: "dec \<Rightarrow> int" where
  "dexp (Dec c e) = e"

text \<open>Rounds half away from zero to \<open>p\<close> decimals, then prints exactly \<open>p\<close> of them (\<open>0 \<le> p\<close>).\<close>

definition round_dec :: "dec \<Rightarrow> int \<Rightarrow> int" where
  "round_dec x p =
     (let c = coef x; e = dexp x
      in if - p \<le> e then coef (rescale x (- p))
         else let m = 10 ^ nat (- p - e)
              in if 0 \<le> c then (2 * c + m) div (2 * m) else - ((2 * (- c) + m) div (2 * m)))"

definition point_text :: "int \<Rightarrow> nat \<Rightarrow> string" where
  "point_text n p =
     (let d = pad (p + 1) (nat \<bar>n\<bar>); k = length d - p
      in (if n < 0 then ''-'' else '''') @ take k d @ (if p = 0 then '''' else CHR ''.'' # drop k d))"

definition dec_fixed :: "dec \<Rightarrow> int \<Rightarrow> string" where
  "dec_fixed x p = point_text (round_dec x p) (nat p)"

text \<open>All digits, without trailing zeros after the point.\<close>

definition dec_text :: "dec \<Rightarrow> string" where
  "dec_text x =
     (if 0 \<le> dexp x then format_int (coef (rescale x 0))
      else let t = point_text (coef x) (nat (- dexp x))
           in trim_right CHR ''.'' (trim_right CHR ''0'' t))"

definition dec_ops :: "dec decimal_ops" where
  "dec_ops =
     \<lparr>dec_zero = Dec 0 1,
      dec_add = (\<lambda>x y. let e = min (dexp x) (dexp y) in Dec (coef (rescale x e) + coef (rescale y e)) e),
      dec_shift = (\<lambda>x k. Dec (coef x) (dexp x + k)),
      dec_equal = (\<lambda>x y. let e = min (dexp x) (dexp y) in coef (rescale x e) = coef (rescale y e)),
      dec_truncate = (\<lambda>x p. if 0 \<le> p \<and> dexp x < - p then rescale x (- p) else x),
      dec_int_part = (\<lambda>x. wrap64 (coef (rescale x 0))),
      dec_string = dec_text,
      dec_string_fixed = dec_fixed\<rparr>"

lemma pow10_pos: "0 < pow10 e"
  by (simp add: pow10_def)

lemma pow10_add: "0 \<le> k \<Longrightarrow> pow10 (e + k) = pow10 e * 10 ^ nat k"
proof -
  assume k: "0 \<le> k"
  consider "0 \<le> e" | "e < 0" "0 \<le> e + k" | "e < 0" "e + k < 0" by linarith
  then show ?thesis
  proof cases
    case 1
    then show ?thesis using k by (simp add: pow10_def nat_add_distrib power_add)
  next
    case 2
    then have "nat k = nat (e + k) + nat (- e)" by simp
    then have "(10::rat) ^ nat k = 10 ^ nat (e + k) * 10 ^ nat (- e)" by (simp only: power_add)
    then show ?thesis using 2 by (simp add: pow10_def)
  next
    case 3
    then have "nat (- e) = nat (- (e + k)) + nat k" using k by simp
    then have "(10::rat) ^ nat (- e) = 10 ^ nat (- (e + k)) * 10 ^ nat k" by (simp only: power_add)
    then show ?thesis using 3 by (simp add: pow10_def)
  qed
qed

lemma dec_value_rescale: "k \<le> dexp x \<Longrightarrow> of_int (coef (rescale x k)) * pow10 k = dec_value x"
  using pow10_add [of "dexp x - k" k] by (cases x) (simp add: mult.commute)

lemma dec_value_alt: "dec_value x = of_int (coef x) * pow10 (dexp x)"
  by (cases x) simp

lemma quot_rat: "0 < m \<Longrightarrow> quot c m = rat_trunc (of_int c / of_int m)"
proof -
  assume m: "0 < m"
  show ?thesis
  proof (cases "0 \<le> c")
    case True
    then show ?thesis using m by (simp add: quot_def rat_trunc_def floor_divide_of_int_eq)
  next
    case False
    have "- ((of_int c :: rat) / of_int m) = of_int (- c) / of_int m" by simp
    then have "\<lfloor>- ((of_int c :: rat) / of_int m)\<rfloor> = (- c) div m" by (simp only: floor_divide_of_int_eq)
    moreover have "\<not> (0::rat) \<le> of_int c / of_int m" using False m by (simp add: zero_le_divide_iff)
    ultimately show ?thesis using False m by (simp add: quot_def rat_trunc_def)
  qed
qed

lemma coef_rescale_trunc: "coef (rescale x 0) = rat_trunc (dec_value x)"
proof (cases "0 \<le> dexp x")
  case True
  then have "dec_value x = of_int (coef (rescale x 0))"
    using dec_value_rescale [of 0 x] by (simp add: pow10_def)
  then show ?thesis by (simp add: rat_trunc_def flip: of_int_minus)
next
  case False
  then have "dec_value x = of_int (coef x) / of_int (10 ^ nat (- dexp x))"
    by (simp add: dec_value_alt pow10_def)
  then show ?thesis using False quot_rat [of "10 ^ nat (- dexp x)" "coef x"] by (cases x) simp
qed

interpretation decimals: decimal_library dec_ops dec_value
proof unfold_locales
  fix x y :: dec and k :: int
  show "dec_value (dec_zero dec_ops) = 0" by (simp add: dec_ops_def)
  let ?e = "min (dexp x) (dexp y)"
  have x: "of_int (coef (rescale x ?e)) * pow10 ?e = dec_value x" by (rule dec_value_rescale) simp
  have y: "of_int (coef (rescale y ?e)) * pow10 ?e = dec_value y" by (rule dec_value_rescale) simp
  show "dec_value (dec_add dec_ops x y) = dec_value x + dec_value y"
    using x y by (simp add: dec_ops_def Let_def distrib_right)
  show "dec_equal dec_ops x y \<longleftrightarrow> dec_value x = dec_value y"
    using pow10_pos [of ?e] unfolding x [symmetric] y [symmetric] by (simp add: dec_ops_def Let_def)
  show "0 \<le> k \<Longrightarrow> dec_value (dec_shift dec_ops x k) = dec_value x * 10 ^ nat k"
    by (simp add: dec_ops_def dec_value_alt pow10_add)
  show "dec_value (dec_truncate dec_ops x 0) = of_int (rat_trunc (dec_value x))"
  proof (cases "dexp x < 0")
    case True
    then show ?thesis using coef_rescale_trunc [of x] by (cases x) (simp add: dec_ops_def pow10_def)
  next
    case False
    then show ?thesis
      using coef_rescale_trunc [of x] dec_value_rescale [of 0 x] by (simp add: dec_ops_def pow10_def)
  qed
  show "in_int64 (rat_trunc (dec_value x)) \<Longrightarrow> dec_int_part dec_ops x = rat_trunc (dec_value x)"
    by (simp add: dec_ops_def coef_rescale_trunc wrap64_id)
qed

end
