(* ===== verification/Money.thy ===== *)
theory Money
  imports Decimal
begin

text \<open>Fees in a currency's minor units (\<open>scheduler-service/pkg/money/money.go\<close>).\<close>

definition zero_decimal :: "string list" where
  "zero_decimal = [''BIF'', ''CLP'', ''DJF'', ''GNF'', ''JPY'', ''KMF'', ''KRW'', ''MGA'', ''PYG'', ''RWF'',
     ''UGX'', ''VND'', ''VUV'', ''XAF'', ''XOF'', ''XPF'']"

definition three_decimal :: "string list" where
  "three_decimal = [''BHD'', ''JOD'', ''KWD'', ''OMR'', ''TND'']"

definition decimals :: "string \<Rightarrow> int" where
  "decimals currency =
     (let code = to_upper currency
      in if code \<in> set zero_decimal then 0 else if code \<in> set three_decimal then 3 else 2)"

definition to_minor :: "'d decimal_ops \<Rightarrow> 'd \<Rightarrow> string \<Rightarrow> string + int" where
  "to_minor D amount currency =
     (let shifted = dec_shift D amount (decimals currency)
      in if \<not> dec_equal D shifted (dec_truncate D shifted 0)
         then Inl (dec_string D amount @ '' has more decimals than '' @ to_upper currency @ '' allows'')
         else Inr (dec_int_part D shifted))"

lemma decimals_nonneg: "0 \<le> decimals currency"
  by (simp add: decimals_def Let_def)

context decimal_library
begin

lemma to_minor_Inr:
  "in_int64 (rat_trunc (dval amount * 10 ^ nat (decimals cur))) \<Longrightarrow>
     to_minor D amount cur = Inr n \<longleftrightarrow> of_int n = dval amount * 10 ^ nat (decimals cur)"
proof -
  let ?s = "dec_shift D amount (decimals cur)" and ?v = "dval amount * 10 ^ nat (decimals cur)"
  assume r: "in_int64 (rat_trunc ?v)"
  have v: "dval ?s = ?v" by (rule val_shift [OF decimals_nonneg])
  have ip: "dec_int_part D ?s = rat_trunc ?v" using int_part [of ?s] r by (simp add: v)
  have t: "rat_trunc (of_int m) = m" for m by (simp add: rat_trunc_def flip: of_int_minus)
  show ?thesis
  proof (cases "?v \<in> \<int>")
    case True
    then obtain m where m: "?v = of_int m" by (auto elim: Ints_cases)
    have "dec_equal D ?s (dec_truncate D ?s 0)" using True by (simp add: whole_iff v)
    then show ?thesis using ip t [of m] by (auto simp: to_minor_def Let_def m)
  next
    case False
    then have "\<not> dec_equal D ?s (dec_truncate D ?s 0)" by (simp add: whole_iff v)
    then show ?thesis using False by (auto simp: to_minor_def Let_def) (metis Ints_of_int)
  qed
qed

end

end
