(* ===== verification/HttpAuth.thy ===== *)
theory HttpAuth
  imports Json
begin

text \<open>What every service's HTTP side shares (mapped to scheduler-service's copy): requests and responses, the
  caller (\<open>domain/entity/principal.go\<close>), the token verifier (\<open>adapters/security/jwt.go\<close>) and the
  middleware (\<open>http/middleware/auth.go\<close>). Parsing a signed token is code of the JWT library, so it is a field
  of \<open>auth_server\<close>.\<close>

section \<open>Requests and responses\<close>

record http_request =
  hq_method :: string
  hq_path :: "string list"
  hq_authorization :: string
  hq_query :: "(string \<times> string) list"
  hq_body :: string

record http_response =
  hs_status :: int
  hs_www_authenticate :: "string option"
  hs_location :: "string option"
  hs_body :: json

definition reply :: "int \<Rightarrow> json \<Rightarrow> http_response" where
  "reply status body = \<lparr>hs_status = status, hs_www_authenticate = None, hs_location = None, hs_body = body\<rparr>"

definition error_body :: "string \<Rightarrow> json" where
  "error_body msg = JObj [(''error'', JStr msg)]"

text \<open>gin's \<open>c.Query\<close> and \<open>c.DefaultQuery\<close>: the first value of the key.\<close>

definition query_default :: "string \<Rightarrow> string \<Rightarrow> http_request \<Rightarrow> string" where
  "query_default d k r = (case filter (\<lambda>(a, b). a = k) (hq_query r) of [] \<Rightarrow> d | (a, b) # _ \<Rightarrow> b)"

definition query_value :: "string \<Rightarrow> http_request \<Rightarrow> string" where
  "query_value k r = query_default '''' k r"

text \<open>The common end of every handler: an error response, or the result as JSON.\<close>

definition respond_with ::
    "('e \<Rightarrow> http_response) \<Rightarrow> int \<Rightarrow> ('a \<Rightarrow> json) \<Rightarrow> ('s, 'e, 'a) prog \<Rightarrow> 's \<Rightarrow> http_response \<times> 's" where
  "respond_with refuse status enc m s = (case m s of (Inl e, t) \<Rightarrow> (refuse e, t) | (Inr x, t) \<Rightarrow> (reply status (enc x), t))"

record principal =
  pr_user_id :: string
  pr_role :: string
  pr_token :: string

definition role_customer :: string where "role_customer = ''CUSTOMER''"
definition role_technician :: string where "role_technician = ''TECHNICIAN''"
definition role_manager :: string where "role_manager = ''MANAGER''"
definition role_admin :: string where "role_admin = ''ADMIN''"

definition staff_roles :: "string list" where
  "staff_roles = [role_technician, role_manager, role_admin]"

record access_claims =
  cl_subject :: string
  cl_role :: string

record auth_server =
  sv_secret :: string
  sv_issuer :: string
  sv_parse_claims :: "string \<Rightarrow> string \<Rightarrow> string \<Rightarrow> access_claims option"

section \<open>Authentication\<close>

definition min_secret_length :: nat where
  "min_secret_length = 32"

definition new_jwt_verifier :: "string \<Rightarrow> string \<Rightarrow> string + (string \<times> string)" where
  "new_jwt_verifier secret issuer =
     (if length secret < min_secret_length
      then Inl ''JWT_SECRET must be at least 32 bytes and match identity-service's''
      else Inr (secret, issuer))"

definition invalid_token :: string where
  "invalid_token = ''auth: invalid or expired token''"

definition parse_access_token :: "'z auth_server_scheme \<Rightarrow> string \<Rightarrow> string + principal" where
  "parse_access_token V token =
     (case sv_parse_claims V (sv_secret V) (sv_issuer V) token of
        None \<Rightarrow> Inl invalid_token
      | Some c \<Rightarrow> if cl_subject c = '''' then Inl invalid_token
                  else Inr \<lparr>pr_user_id = cl_subject c, pr_role = cl_role c, pr_token = ''''\<rparr>)"

definition unauthorized :: "string \<Rightarrow> string \<Rightarrow> http_response" where
  "unauthorized challenge msg =
     \<lparr>hs_status = 401, hs_www_authenticate = Some challenge, hs_location = None, hs_body = error_body msg\<rparr>"

definition require_auth :: "'z auth_server_scheme \<Rightarrow> http_request \<Rightarrow> http_response + principal" where
  "require_auth V r = (case cut_at CHR '' '' (hq_authorization r) of
       None \<Rightarrow> Inl (unauthorized ''Bearer'' ''missing bearer token'')
     | Some (scheme, token) \<Rightarrow>
         if \<not> equal_fold scheme ''Bearer'' \<or> token = ''''
         then Inl (unauthorized ''Bearer'' ''missing bearer token'')
         else (case parse_access_token V token of
             Inl msg \<Rightarrow> Inl (unauthorized ''Bearer error=\"invalid_token\"'' msg)
           | Inr p \<Rightarrow> Inr (p\<lparr>pr_token := token\<rparr>)))"

definition require_role :: "string list \<Rightarrow> principal \<Rightarrow> http_response option" where
  "require_role roles p =
     (if pr_role p \<notin> set roles then Some (reply 403 (error_body ''your role isn't allowed to do this'')) else None)"

lemma respond_with_state: "respond_with refuse status enc m s = (resp, t) \<Longrightarrow> t = snd (m s)"
  by (auto simp: respond_with_def split: prod.splits sum.splits)

lemma require_auth_Inr:
  assumes "require_auth V r = Inr p"
  shows "\<exists>scheme token c. hq_authorization r = scheme @ CHR '' '' # token \<and> equal_fold scheme ''Bearer'' \<and> token \<noteq> '''' \<and>
    sv_parse_claims V (sv_secret V) (sv_issuer V) token = Some c \<and> cl_subject c \<noteq> '''' \<and>
    p = \<lparr>pr_user_id = cl_subject c, pr_role = cl_role c, pr_token = token\<rparr>"
proof -
  obtain scheme token where c: "cut_at CHR '' '' (hq_authorization r) = Some (scheme, token)"
    using assms by (auto simp: require_auth_def split: option.splits)
  then have "hq_authorization r = scheme @ CHR '' '' # token" unfolding cut_at_Some by blast
  then show ?thesis
    using assms c by (auto simp: require_auth_def parse_access_token_def split: if_splits option.splits)
qed

end
