(* ===== verification/SchedData.thy ===== *)
theory SchedData
  imports Outbox Money HttpAuth
begin

text \<open>scheduler-service's data: the entities (\<open>internal/domain/entity\<close>), the rows of its tables
  (\<open>internal/adapters/database/models\<close> and \<open>migrations/*.sql\<close>), the database they live in, and the
  sentinel errors of \<open>internal/domain/ports/errors.go\<close>. \<open>'d\<close> is the decimal type.\<close>

section \<open>Status values\<close>

datatype appointment_status = Booked | CheckedIn | InProgress | Completed | Cancelled | NoShow

fun status_text :: "appointment_status \<Rightarrow> string" where
  "status_text Booked = ''BOOKED''"
| "status_text CheckedIn = ''CHECKED_IN''"
| "status_text InProgress = ''IN_PROGRESS''"
| "status_text Completed = ''COMPLETED''"
| "status_text Cancelled = ''CANCELLED''"
| "status_text NoShow = ''NO_SHOW''"

lemma status_text_inj: "status_text a = status_text b \<Longrightarrow> a = b"
  by (cases a; cases b) simp_all

text \<open>The CHECK constraints of \<open>appointment_bay\<close>, \<open>appointment_vehicle\<close> and \<open>appointment_service\<close>.\<close>

datatype bay_row_status = Reserved | Occupied | Released | BayCancelled
datatype vehicle_row_status = VehiclePending | Received | Returned
datatype service_row_status = Pending | ServiceInProgress | Done | ServiceCancelled

definition bay_available :: string where
  "bay_available = ''AVAILABLE''"

definition topic_appointment_booked :: string where
  "topic_appointment_booked = ''scheduler.appointment.booked.v1''"
definition topic_appointment_cancelled :: string where
  "topic_appointment_cancelled = ''scheduler.appointment.cancelled.v1''"
definition topic_service_completed :: string where
  "topic_service_completed = ''scheduler.appointment.service-completed.v1''"

section \<open>Entities\<close>

record 'd appointment_service =
  as_service_id :: int
  as_name :: string
  as_fee :: 'd

record 'd appointment =
  ap_id :: int
  ap_hub_id :: int
  ap_customer_id :: int
  ap_vehicle_id :: int
  ap_bay_id :: int
  ap_start :: int
  ap_end :: int
  ap_status :: appointment_status
  ap_total :: 'd
  ap_services :: "'d appointment_service list"
  ap_created :: int
  ap_updated :: int

text \<open>Opening hours are durations since local midnight.\<close>

record hub =
  hub_id :: int
  hub_name :: string
  hub_address :: string
  hub_open :: int
  hub_close :: int
  hub_timezone :: string
  hub_active :: bool
  hub_bay_count :: int

record bay =
  bay_id :: int
  bay_hub_id :: int
  bay_code :: string
  bay_status :: string

record 'd catalog_service =
  cs_id :: int
  cs_name :: string
  cs_type :: string
  cs_fee :: 'd
  cs_minutes :: int
  cs_active :: bool

record bay_reservation =
  res_bay_id :: int
  res_start :: int
  res_end :: int

record customer =
  cu_id :: int
  cu_name :: string
  cu_email :: string

record vehicle =
  ve_id :: int
  ve_vin :: string
  ve_plate :: string

section \<open>Rows\<close>

record 'd appointment_row =
  ar_id :: int
  ar_dealership_id :: int
  ar_customer_id :: int
  ar_start :: int
  ar_end :: int
  ar_status :: appointment_status
  ar_total :: 'd
  ar_created :: int
  ar_updated :: int

record appointment_bay_row =
  br_id :: int
  br_appointment_id :: int
  br_bay_id :: int
  br_start :: int
  br_end :: int
  br_status :: bay_row_status

record appointment_vehicle_row =
  vr_id :: int
  vr_appointment_id :: int
  vr_vehicle_id :: int
  vr_status :: vehicle_row_status

record 'd appointment_service_row =
  sr_id :: int
  sr_appointment_id :: int
  sr_service_id :: int
  sr_vehicle_row :: "int option"
  sr_bay_row :: "int option"
  sr_fee :: 'd
  sr_status :: service_row_status

text \<open>The \<open>time\<close> columns of \<open>hub\<close> hold microseconds since midnight.\<close>

record hub_row =
  hr_id :: int
  hr_name :: string
  hr_address :: string
  hr_open :: int
  hr_close :: int
  hr_timezone :: string
  hr_active :: bool
  hr_updated :: int

record hub_bay_row =
  hb_id :: int
  hb_hub_id :: int
  hb_code :: string
  hb_status :: string
  hb_updated :: int

record 'd catalog_row =
  cr_id :: int
  cr_name :: string
  cr_type :: string
  cr_fee :: 'd
  cr_minutes :: int
  cr_active :: bool
  cr_updated :: int

record 'd sched_db = outbox_db +
  hubs :: "hub_row list"
  hub_bays :: "hub_bay_row list"
  catalog :: "'d catalog_row list"
  appointments :: "'d appointment_row list"
  appt_bays :: "appointment_bay_row list"
  appt_vehicles :: "appointment_vehicle_row list"
  appt_services :: "'d appointment_service_row list"
  appt_seq :: int
  bay_seq :: int
  vehicle_seq :: int
  service_seq :: int

text \<open>ROLLBACK: every table as at BEGIN; the clock, the sequences and the broker keep what happened.\<close>

definition sched_restore :: "'d sched_db \<Rightarrow> 'd sched_db \<Rightarrow> 'd sched_db" where
  "sched_restore s t = t\<lparr>outbox_rows := outbox_rows s, hubs := hubs s, hub_bays := hub_bays s,
     catalog := catalog s, appointments := appointments s, appt_bays := appt_bays s,
     appt_vehicles := appt_vehicles s, appt_services := appt_services s\<rparr>"

section \<open>Errors\<close>

text \<open>The sentinels with the detail added by \<open>fmt.Errorf("%w: ...")\<close> (empty for the bare sentinel),
  an error of another kind by its text, and a database error.\<close>

datatype sched_error =
    ErrNotFound string
  | ErrConflict string
  | ErrInvalidInput string
  | ErrNoCustomerProfile
  | ErrUpstream string
  | ErrOther string
  | ErrDb db_error

definition with_detail :: "string \<Rightarrow> string \<Rightarrow> string" where
  "with_detail sentinel detail = (if detail = '''' then sentinel else sentinel @ '': '' @ detail)"

fun db_error_text :: "db_error \<Rightarrow> string" where
  "db_error_text (DriverError m) = m"
| "db_error_text (UniqueViolation c) = ''duplicate key value violates unique constraint '' @ c"
| "db_error_text (ForeignKeyViolation c) = ''violates foreign key constraint '' @ c"
| "db_error_text (ExclusionViolation c) = ''conflicting key value violates exclusion constraint '' @ c"
| "db_error_text (CheckViolation c) = ''violates check constraint '' @ c"
| "db_error_text RangeError = ''range lower bound must be less than or equal to range upper bound''"

fun error_text :: "sched_error \<Rightarrow> string" where
  "error_text (ErrNotFound d) = with_detail ''not found'' d"
| "error_text (ErrConflict d) = with_detail ''conflict'' d"
| "error_text (ErrInvalidInput d) = with_detail ''invalid input'' d"
| "error_text ErrNoCustomerProfile = ''no customer profile is linked to this account''"
| "error_text (ErrUpstream d) = with_detail ''upstream service unavailable'' d"
| "error_text (ErrOther m) = m"
| "error_text (ErrDb e) = db_error_text e"

text \<open>\<open>[a, b) && [c, d)\<close> of PostgreSQL: an empty range overlaps nothing.\<close>

definition overlaps :: "int \<Rightarrow> int \<Rightarrow> int \<Rightarrow> int \<Rightarrow> bool" where
  "overlaps a b c d \<longleftrightarrow> a < b \<and> c < d \<and> a < d \<and> c < b"

lemma overlaps_sym: "overlaps a b c d = overlaps c d a b"
  by (auto simp: overlaps_def)

lemma overlaps_iff_common: "overlaps a b c d \<longleftrightarrow> (\<exists>t. a \<le> t \<and> t < b \<and> c \<le> t \<and> t < d)"
proof
  assume "overlaps a b c d"
  then show "\<exists>t. a \<le> t \<and> t < b \<and> c \<le> t \<and> t < d"
    by (intro exI [of _ "max a c"]) (auto simp: overlaps_def)
qed (auto simp: overlaps_def)

lemma sched_tick [simp]:
  "hubs (step_tick s) = hubs s" "hub_bays (step_tick s) = hub_bays s" "catalog (step_tick s) = catalog s"
  "appointments (step_tick s) = appointments s" "appt_bays (step_tick s) = appt_bays s"
  "appt_vehicles (step_tick s) = appt_vehicles s" "appt_services (step_tick s) = appt_services s"
  "appt_seq (step_tick s) = appt_seq s" "bay_seq (step_tick s) = bay_seq s"
  "vehicle_seq (step_tick s) = vehicle_seq s" "service_seq (step_tick s) = service_seq s"
  by (simp_all add: step_tick_def)

lemma sched_restore_sel [simp]:
  "outbox_rows (sched_restore s t) = outbox_rows s" "hubs (sched_restore s t) = hubs s"
  "hub_bays (sched_restore s t) = hub_bays s" "catalog (sched_restore s t) = catalog s"
  "appointments (sched_restore s t) = appointments s" "appt_bays (sched_restore s t) = appt_bays s"
  "appt_vehicles (sched_restore s t) = appt_vehicles s" "appt_services (sched_restore s t) = appt_services s"
  "appt_seq (sched_restore s t) = appt_seq t" "bay_seq (sched_restore s t) = bay_seq t"
  "vehicle_seq (sched_restore s t) = vehicle_seq t" "service_seq (sched_restore s t) = service_seq t"
  "outbox_seq (sched_restore s t) = outbox_seq t" "kafka_log (sched_restore s t) = kafka_log t"
  "tick (sched_restore s t) = tick t"
  by (simp_all add: sched_restore_def)

end
