(* ===== verification/SchedCatalog.thy ===== *)
theory SchedCatalog
  imports SchedData
begin

text \<open>scheduler-service's catalog repository (\<open>repository/catalog-repository.go\<close>): hubs with their
  opening hours, bookable bays, and the active services. Each query is the SELECT of the source;
  ORDER BY on a text column sorts by the database's collation.\<close>

text \<open>\<open>models.Hub\<close>: a hub as selected by \<open>hubColumns\<close>, the opening hours as HH24:MI text.\<close>

record hub_model =
  hm_id :: int
  hm_name :: string
  hm_address :: string
  hm_open :: string
  hm_close :: string
  hm_timezone :: string
  hm_active :: bool
  hm_updated :: int
  hm_bay_count :: int

text \<open>\<open>to_char(t, 'HH24:MI')\<close> of a time of day in microseconds.\<close>

definition to_char_hhmm :: "int \<Rightarrow> string" where
  "to_char_hhmm us =
     (let s = nat us div 1000000 in pad 2 (s div 3600) @ '':'' @ pad 2 (s mod 3600 div 60))"

definition hub_columns :: "hub_row \<Rightarrow> hub_model" where
  "hub_columns h =
     \<lparr>hm_id = hr_id h, hm_name = hr_name h, hm_address = hr_address h, hm_open = to_char_hhmm (hr_open h),
      hm_close = to_char_hhmm (hr_close h), hm_timezone = hr_timezone h, hm_active = hr_active h,
      hm_updated = hr_updated h, hm_bay_count = 0\<rparr>"

text \<open>\<open>parseHour\<close>: "HH:MM" as an offset from midnight.\<close>

definition parse_hour :: "string \<Rightarrow> sched_error + int" where
  "parse_hour v = (case parse_clock v of
       None \<Rightarrow> Inl (ErrOther (''hub opening hour '' @ v))
     | Some (h, m) \<Rightarrow> Inr (h * hour_ns + m * minute_ns))"

definition to_hub :: "hub_model \<Rightarrow> sched_error + hub" where
  "to_hub row = (case parse_hour (hm_open row) of
       Inl e \<Rightarrow> Inl e
     | Inr op \<Rightarrow> (case parse_hour (hm_close row) of
         Inl e \<Rightarrow> Inl e
       | Inr cl \<Rightarrow> Inr \<lparr>hub_id = hm_id row, hub_name = hm_name row, hub_address = hm_address row,
           hub_open = op, hub_close = cl, hub_timezone = hm_timezone row, hub_active = hm_active row,
           hub_bay_count = hm_bay_count row\<rparr>))"

definition bay_count :: "'d sched_db \<Rightarrow> int \<Rightarrow> int" where
  "bay_count s hid = int (length (filter (\<lambda>b. hb_hub_id b = hid \<and> hb_status b = bay_available) (hub_bays s)))"

definition list_hubs :: "env \<Rightarrow> ('d sched_db, sched_error, hub list) prog" where
  "list_hubs E =
     on_ok (map_err ErrDb (query E (\<lambda>s.
       map (\<lambda>h. (hub_columns h)\<lparr>hm_bay_count := bay_count s (hr_id h)\<rparr>)
         (sort_key (\<lambda>h. collation E (hr_name h)) (filter hr_active (hubs s)))))) (\<lambda>rows.
     lift_result (map_result to_hub rows))"

definition get_hub :: "env \<Rightarrow> int \<Rightarrow> ('d sched_db, sched_error, hub) prog" where
  "get_hub E hid =
     on_ok (map_err ErrDb (query E (\<lambda>s.
       map hub_columns (take 1 (filter (\<lambda>h. hr_id h = hid \<and> hr_active h) (hubs s)))))) (\<lambda>rows.
     case rows of
       [] \<Rightarrow> fail (ErrNotFound (''hub '' @ format_int hid))
     | row # _ \<Rightarrow> lift_result (to_hub row))"

definition to_bay :: "hub_bay_row \<Rightarrow> bay" where
  "to_bay row = \<lparr>bay_id = hb_id row, bay_hub_id = hb_hub_id row, bay_code = hb_code row, bay_status = hb_status row\<rparr>"

definition bookable_rows :: "env \<Rightarrow> int \<Rightarrow> 'd sched_db \<Rightarrow> hub_bay_row list" where
  "bookable_rows E hid s =
     sort_key (\<lambda>b. collation E (hb_code b))
       (filter (\<lambda>b. hb_hub_id b = hid \<and> hb_status b = bay_available) (hub_bays s))"

definition list_bookable_bays :: "env \<Rightarrow> int \<Rightarrow> ('d sched_db, sched_error, bay list) prog" where
  "list_bookable_bays E hid = map_err ErrDb (query E (\<lambda>s. map to_bay (bookable_rows E hid s)))"

definition to_service :: "'d catalog_row \<Rightarrow> 'd catalog_service" where
  "to_service row = \<lparr>cs_id = cr_id row, cs_name = cr_name row, cs_type = cr_type row, cs_fee = cr_fee row,
     cs_minutes = cr_minutes row, cs_active = cr_active row\<rparr>"

definition active_services :: "env \<Rightarrow> 'd sched_db \<Rightarrow> 'd catalog_service list" where
  "active_services E s = map to_service
     (sort_key (\<lambda>r. (collation E (cr_type r), collation E (cr_name r))) (filter cr_active (catalog s)))"

definition list_services :: "env \<Rightarrow> ('d sched_db, sched_error, 'd catalog_service list) prog" where
  "list_services E = map_err ErrDb (query E (active_services E))"

section \<open>What the queries return\<close>

text \<open>\<open>parseHour\<close> reads back every time of day the column prints, to the minute; 24:00, which the type
  also allows, is refused.\<close>

lemma parse_hour_to_char:
  assumes "0 \<le> us" "us < 86400 * 1000000"
  shows "parse_hour (to_char_hhmm us) = Inr (us div 60000000 * minute_ns)"
proof -
  define s where "s = nat us div 1000000"
  have "us div 1000000 < 86400" using assms by linarith
  moreover have si: "int s = us div 1000000" using assms(1) by (simp add: s_def zdiv_int)
  ultimately have s: "s < 86400" by linarith
  note c = clock_fields [OF s]
  have "s div 3600 * 60 + s mod 3600 div 60 = s div 60"
  proof -
    have "s div 60 = (s div 3600 * 3600 + s mod 3600) div 60" by simp
    also have "\<dots> = (s div 3600 * 60 * 60 + s mod 3600) div 60" by simp
    also have "\<dots> = s div 3600 * 60 + s mod 3600 div 60" by (subst div_mult_self3) simp_all
    finally show ?thesis by simp
  qed
  then have "int (s div 3600) * 60 + int (s mod 3600 div 60) = int (s div 60)" by linarith
  also have "\<dots> = us div 1000000 div 60" by (simp add: zdiv_int si)
  also have "\<dots> = us div 60000000" using zdiv_zmult2_eq [of 60 us 1000000] by simp
  finally have "int (s div 3600) * 60 + int (s mod 3600 div 60) = us div 60000000" .
  note total = this
  have "int (s div 3600) * hour_ns + int (s mod 3600 div 60) * minute_ns =
      (int (s div 3600) * 60 + int (s mod 3600 div 60)) * minute_ns"
    by (simp add: hour_ns_def distrib_right)
  also have "\<dots> = us div 60000000 * minute_ns" by (simp only: total)
  finally have ns: "int (s div 3600) * hour_ns + int (s mod 3600 div 60) * minute_ns = us div 60000000 * minute_ns" .
  have "parse_hour (to_char_hhmm us) = Inr (int (s div 3600) * hour_ns + int (s mod 3600 div 60) * minute_ns)"
    using c by (simp add: to_char_hhmm_def parse_hour_def Let_def parse_clock_format s_def [symmetric])
  then show ?thesis by (simp only: ns)
qed

lemma get_hub_Inr:
  "get_hub E hid s = (Inr h, t) \<longleftrightarrow>
     fault E (tick s) = None \<and> t = step_tick s \<and>
     (\<exists>r rs. filter (\<lambda>h. hr_id h = hid \<and> hr_active h) (hubs s) = r # rs \<and> to_hub (hub_columns r) = Inr h)"
proof (cases "filter (\<lambda>h. hr_id h = hid \<and> hr_active h) (hubs s)")
  case (Cons r rs)
  then show ?thesis by (auto simp: get_hub_def on_ok_Inr query_Inr)
qed (auto simp: get_hub_def on_ok_Inr query_Inr)

lemma to_hub_id: "to_hub m = Inr h \<Longrightarrow> hub_id h = hm_id m \<and> hub_timezone h = hm_timezone m"
  by (auto simp: to_hub_def split: sum.splits)

lemma get_hub_row:
  assumes "get_hub E hid s = (Inr h, t)"
  shows "\<exists>r \<in> set (hubs s). hr_id r = hid \<and> hr_active r \<and> to_hub (hub_columns r) = Inr h"
proof -
  obtain r rs where r: "filter (\<lambda>h. hr_id h = hid \<and> hr_active h) (hubs s) = r # rs"
      "to_hub (hub_columns r) = Inr h"
    using assms by (auto simp: get_hub_Inr)
  have "r \<in> set (filter (\<lambda>h. hr_id h = hid \<and> hr_active h) (hubs s))" by (simp add: r(1))
  then show ?thesis using r(2) by auto
qed

lemma get_hub_id: "get_hub E hid s = (Inr h, t) \<Longrightarrow> hub_id h = hid"
  using get_hub_row [of E hid s h t] to_hub_id by (auto simp: hub_columns_def)

lemma list_services_Inr:
  "list_services E s = (Inr ss, t) \<longleftrightarrow> fault E (tick s) = None \<and> t = step_tick s \<and> ss = active_services E s"
  by (auto simp: list_services_def query_Inr active_services_def)

lemma list_bookable_bays_Inr:
  "list_bookable_bays E hid s = (Inr bs, t) \<longleftrightarrow>
     fault E (tick s) = None \<and> t = step_tick s \<and> bs = map to_bay (bookable_rows E hid s)"
  by (auto simp: list_bookable_bays_def query_Inr bookable_rows_def)

lemma keeps_catalog [keeps_intros]:
  assumes "tick_free I"
  shows "keeps I (list_hubs E)" "keeps I (get_hub E hid)" "keeps I (list_bookable_bays E hid)"
    "keeps I (list_services E)"
  unfolding list_hubs_def get_hub_def list_bookable_bays_def list_services_def
  by (intro keeps_intros assms)+

end
