(* ===== verification/SchedRepo.thy ===== *)
theory SchedRepo
  imports SchedCatalog
begin

text \<open>scheduler-service's appointment repository (\<open>repository/appointment-repository.go\<close>). Every method
  is the sequence of its SQL statements; a statement checks the constraints of
  \<open>migrations/00001_baseline.sql\<close> that it can violate. The last section says what a successful run
  of each does to the tables.\<close>

definition live_statuses :: "appointment_status list" where
  "live_statuses = [Booked, CheckedIn, InProgress]"

definition hub_day_limit :: nat where
  "hub_day_limit = 500"

section \<open>Statements of the booking transaction\<close>

text \<open>The advisory lock is held until the transaction ends; \<open>SchedConcurrency\<close> models what it excludes.\<close>

definition lock_vehicle :: "env \<Rightarrow> int \<Rightarrow> ('d sched_db, sched_error, unit) prog" where
  "lock_vehicle E vid = map_err ErrDb (query E (\<lambda>_. ()))"

text \<open>\<open>tstzrange(a, b)\<close> raises an error when \<open>b < a\<close>.\<close>

definition range_query :: "env \<Rightarrow> int \<Rightarrow> int \<Rightarrow> ('d sched_db \<Rightarrow> 'a) \<Rightarrow> ('d sched_db, sched_error, 'a) prog" where
  "range_query E a b f =
     map_err ErrDb (sql E (\<lambda>s. if db_time E b < db_time E a then (Inl RangeError, s) else (Inr (f s), s)))"

definition vehicle_taken :: "'d sched_db \<Rightarrow> int \<Rightarrow> int \<Rightarrow> int \<Rightarrow> bool" where
  "vehicle_taken s vid a b \<longleftrightarrow>
     (\<exists>ar \<in> set (appointments s). \<exists>vr \<in> set (appt_vehicles s).
        vr_appointment_id vr = ar_id ar \<and> vr_vehicle_id vr = vid \<and> ar_status ar \<in> set live_statuses \<and>
        overlaps (ar_start ar) (ar_end ar) a b)"

definition vehicle_busy :: "env \<Rightarrow> int \<Rightarrow> int \<Rightarrow> int \<Rightarrow> ('d sched_db, sched_error, bool) prog" where
  "vehicle_busy E vid start fin =
     range_query E start fin (\<lambda>s. vehicle_taken s vid (db_time E start) (db_time E fin))"

text \<open>A bay has a reservation that is not cancelled overlapping \<open>[a, b)\<close>.\<close>

definition bay_taken :: "'d sched_db \<Rightarrow> int \<Rightarrow> int \<Rightarrow> int \<Rightarrow> bool" where
  "bay_taken s bid a b \<longleftrightarrow>
     (\<exists>br \<in> set (appt_bays s). br_bay_id br = bid \<and> br_status br \<noteq> BayCancelled \<and>
        overlaps (br_start br) (br_end br) a b)"

definition free_bay :: "env \<Rightarrow> int \<Rightarrow> int \<Rightarrow> int \<Rightarrow> ('d sched_db, sched_error, int) prog" where
  "free_bay E hid start fin =
     on_ok (range_query E start fin (\<lambda>s.
       take 1 (map hb_id (sort_key (\<lambda>b. collation E (hb_code b))
         (filter (\<lambda>b. hb_hub_id b = hid \<and> hb_status b = bay_available \<and>
            \<not> bay_taken s (hb_id b) (db_time E start) (db_time E fin)) (hub_bays s)))))) (\<lambda>ids.
     case ids of
       [] \<Rightarrow> fail (ErrConflict ''no bay is free at that time'')
     | i # _ \<Rightarrow> ok i)"

definition reservations :: "env \<Rightarrow> int \<Rightarrow> int \<Rightarrow> int \<Rightarrow> ('d sched_db, sched_error, bay_reservation list) prog" where
  "reservations E hid from till =
     range_query E from till (\<lambda>s.
       [\<lparr>res_bay_id = br_bay_id ab, res_start = br_start ab, res_end = br_end ab\<rparr>.
          ab \<leftarrow> appt_bays s, b \<leftarrow> hub_bays s,
          hb_id b = br_bay_id ab, hb_hub_id b = hid, br_status ab \<noteq> BayCancelled,
          overlaps (br_start ab) (br_end ab) (db_time E from) (db_time E till)])"

section \<open>Create\<close>

definition insert_appointment ::
    "env \<Rightarrow> int \<Rightarrow> 'd appointment \<Rightarrow> ('d sched_db, sched_error, 'd appointment_row) prog" where
  "insert_appointment E t a = map_err ErrDb (sql E (\<lambda>s.
     let row = \<lparr>ar_id = appt_seq s, ar_dealership_id = ap_hub_id a, ar_customer_id = ap_customer_id a,
           ar_start = db_time E (ap_start a), ar_end = db_time E (ap_end a), ar_status = ap_status a,
           ar_total = ap_total a, ar_created = db_time E t, ar_updated = db_time E t\<rparr>;
         s' = s\<lparr>appt_seq := appt_seq s + 1\<rparr>
     in if ar_end row \<le> ar_start row then (Inl (CheckViolation ''appointment_check''), s')
        else (Inr row, s'\<lparr>appointments := appointments s @ [row]\<rparr>)))"

definition insert_vehicle ::
    "env \<Rightarrow> int \<Rightarrow> int \<Rightarrow> ('d sched_db, sched_error, appointment_vehicle_row) prog" where
  "insert_vehicle E aid vid = map_err ErrDb (sql E (\<lambda>s.
     let row = \<lparr>vr_id = vehicle_seq s, vr_appointment_id = aid, vr_vehicle_id = vid, vr_status = VehiclePending\<rparr>;
         s' = s\<lparr>vehicle_seq := vehicle_seq s + 1\<rparr>
     in if \<exists>r \<in> set (appt_vehicles s). vr_appointment_id r = aid \<and> vr_vehicle_id r = vid
        then (Inl (UniqueViolation ''appointment_vehicle_appointment_id_customer_vehicle_id_key''), s')
        else (Inr row, s'\<lparr>appt_vehicles := appt_vehicles s @ [row]\<rparr>)))"

definition insert_bay ::
    "env \<Rightarrow> int \<Rightarrow> 'd appointment \<Rightarrow> ('d sched_db, db_error, appointment_bay_row) prog" where
  "insert_bay E aid a = sql E (\<lambda>s.
     let row = \<lparr>br_id = bay_seq s, br_appointment_id = aid, br_bay_id = ap_bay_id a,
           br_start = db_time E (ap_start a), br_end = db_time E (ap_end a), br_status = Reserved\<rparr>;
         s' = s\<lparr>bay_seq := bay_seq s + 1\<rparr>
     in if br_end row \<le> br_start row then (Inl (CheckViolation ''appointment_bay_check''), s')
        else if bay_taken s (br_bay_id row) (br_start row) (br_end row)
        then (Inl (ExclusionViolation ''no_bay_double_booking''), s')
        else (Inr row, s'\<lparr>appt_bays := appt_bays s @ [row]\<rparr>))"

fun service_lines :: "int \<Rightarrow> int \<Rightarrow> int \<Rightarrow> int \<Rightarrow> 'd appointment_service list \<Rightarrow> 'd appointment_service_row list" where
  "service_lines i aid vrow brow [] = []"
| "service_lines i aid vrow brow (svc # svcs) =
     \<lparr>sr_id = i, sr_appointment_id = aid, sr_service_id = as_service_id svc, sr_vehicle_row = Some vrow,
      sr_bay_row = Some brow, sr_fee = as_fee svc, sr_status = Pending\<rparr> # service_lines (i + 1) aid vrow brow svcs"

definition insert_services ::
    "env \<Rightarrow> int \<Rightarrow> int \<Rightarrow> int \<Rightarrow> 'd appointment_service list \<Rightarrow> ('d sched_db, sched_error, unit) prog" where
  "insert_services E aid vrow brow svcs =
     (if svcs = [] then ok ()
      else map_err ErrDb (sql E (\<lambda>s. (Inr (),
        s\<lparr>service_seq := service_seq s + int (length svcs),
          appt_services := appt_services s @ service_lines (service_seq s) aid vrow brow svcs\<rparr>))))"

fun is_exclusion_violation :: "db_error \<Rightarrow> bool" where
  "is_exclusion_violation (ExclusionViolation c) = True"
| "is_exclusion_violation _ = False"

definition create_appointment :: "env \<Rightarrow> 'd appointment \<Rightarrow> ('d sched_db, sched_error, 'd appointment) prog" where
  "create_appointment E a =
     on_ok (now E) (\<lambda>t.
     on_ok (insert_appointment E t a) (\<lambda>row.
     on_ok (insert_vehicle E (ar_id row) (ap_vehicle_id a)) (\<lambda>vrow.
     on_ok (map_err (\<lambda>e. if is_exclusion_violation e
                         then ErrConflict ''that slot was just taken, pick another'' else ErrDb e)
              (insert_bay E (ar_id row) a)) (\<lambda>brow.
     on_ok (insert_services E (ar_id row) (vr_id vrow) (br_id brow) (ap_services a)) (\<lambda>_.
     ok (a\<lparr>ap_id := ar_id row, ap_created := t, ap_updated := t\<rparr>))))))"

section \<open>Status changes\<close>

text \<open>An UPDATE on \<open>appointment\<close> also sets \<open>updated_at\<close>; the result is the number of rows changed.\<close>

definition update_status ::
    "env \<Rightarrow> int \<Rightarrow> appointment_status list \<Rightarrow> appointment_status \<Rightarrow> ('d sched_db, sched_error, nat) prog" where
  "update_status E aid from till =
     on_ok (now E) (\<lambda>t.
     map_err ErrDb (sql E (\<lambda>s.
       let hit = (\<lambda>r. ar_id r = aid \<and> ar_status r \<in> set from)
       in (Inr (length (filter hit (appointments s))),
           s\<lparr>appointments := map (\<lambda>r. if hit r then r\<lparr>ar_status := till, ar_updated := db_time E t\<rparr> else r)
                                  (appointments s)\<rparr>))))"

definition update_bays ::
    "env \<Rightarrow> int \<Rightarrow> (bay_row_status \<Rightarrow> bool) \<Rightarrow> bay_row_status \<Rightarrow> ('d sched_db, sched_error, unit) prog" where
  "update_bays E aid hit till = map_err ErrDb (sql E (\<lambda>s. (Inr (),
     s\<lparr>appt_bays := map (\<lambda>r. if br_appointment_id r = aid \<and> hit (br_status r) then r\<lparr>br_status := till\<rparr> else r)
                        (appt_bays s)\<rparr>)))"

definition update_services ::
    "env \<Rightarrow> int \<Rightarrow> (service_row_status \<Rightarrow> bool) \<Rightarrow> service_row_status \<Rightarrow> ('d sched_db, sched_error, unit) prog" where
  "update_services E aid hit till = map_err ErrDb (sql E (\<lambda>s. (Inr (),
     s\<lparr>appt_services := map (\<lambda>r. if sr_appointment_id r = aid \<and> hit (sr_status r) then r\<lparr>sr_status := till\<rparr> else r)
                            (appt_services s)\<rparr>)))"

definition cancel_appointment :: "env \<Rightarrow> int \<Rightarrow> ('d sched_db, sched_error, unit) prog" where
  "cancel_appointment E aid =
     on_ok (update_status E aid [Booked] Cancelled) (\<lambda>n.
     if n = 0 then fail (ErrConflict (''appointment '' @ format_int aid @ '' isn't booked any more''))
     else on_ok (update_bays E aid (\<lambda>_. True) BayCancelled) (\<lambda>_.
          update_services E aid (\<lambda>_. True) ServiceCancelled))"

definition complete_appointment :: "env \<Rightarrow> int \<Rightarrow> ('d sched_db, sched_error, unit) prog" where
  "complete_appointment E aid =
     on_ok (update_status E aid [Booked, CheckedIn, InProgress] Completed) (\<lambda>n.
     if n = 0
     then fail (ErrConflict (''appointment '' @ format_int aid @ '' can't be completed from its current status''))
     else on_ok (update_bays E aid (\<lambda>st. st = Reserved \<or> st = Occupied) Released) (\<lambda>_.
          update_services E aid (\<lambda>st. st \<noteq> ServiceCancelled) Done))"

section \<open>Reads\<close>

text \<open>\<open>appointmentRow\<close> and \<open>serviceRow\<close>: a row joined with what \<open>load\<close> selects beside it.\<close>

record 'd appointment_join =
  aj_row :: "'d appointment_row"
  aj_vehicle_id :: int
  aj_bay_id :: int

record 'd service_join =
  sj_row :: "'d appointment_service_row"
  sj_name :: string

definition first_vehicle :: "'d sched_db \<Rightarrow> int \<Rightarrow> int" where
  "first_vehicle s aid = (case sort_key vr_id (filter (\<lambda>r. vr_appointment_id r = aid) (appt_vehicles s)) of
       [] \<Rightarrow> 0 | r # _ \<Rightarrow> vr_vehicle_id r)"

definition first_bay :: "'d sched_db \<Rightarrow> int \<Rightarrow> int" where
  "first_bay s aid = (case sort_key br_id (filter (\<lambda>r. br_appointment_id r = aid) (appt_bays s)) of
       [] \<Rightarrow> 0 | r # _ \<Rightarrow> br_bay_id r)"

text \<open>ORDER BY scheduled_start DESC, id DESC LIMIT n.\<close>

definition latest_first :: "'d appointment_row list \<Rightarrow> 'd appointment_row list" where
  "latest_first rows = sort_key (\<lambda>r. (- ar_start r, - ar_id r)) rows"

definition service_name :: "'d sched_db \<Rightarrow> int \<Rightarrow> string" where
  "service_name s sid = (case filter (\<lambda>c. cr_id c = sid) (catalog s) of
       [] \<Rightarrow> ''Service #'' @ format_int sid | c # _ \<Rightarrow> cr_name c)"

definition service_joins :: "'d sched_db \<Rightarrow> int list \<Rightarrow> 'd service_join list" where
  "service_joins s ids =
     map (\<lambda>r. \<lparr>sj_row = r, sj_name = service_name s (sr_service_id r)\<rparr>)
       (sort_key sr_id (filter (\<lambda>r. sr_appointment_id r \<in> set ids) (appt_services s)))"

definition lines_of :: "int \<Rightarrow> 'd service_join list \<Rightarrow> 'd appointment_service list" where
  "lines_of aid lines =
     map (\<lambda>l. \<lparr>as_service_id = sr_service_id (sj_row l), as_name = sj_name l, as_fee = sr_fee (sj_row l)\<rparr>)
       (filter (\<lambda>l. sr_appointment_id (sj_row l) = aid) lines)"

definition to_appointment :: "'d service_join list \<Rightarrow> 'd appointment_join \<Rightarrow> 'd appointment" where
  "to_appointment lines j =
     (let r = aj_row j
      in \<lparr>ap_id = ar_id r, ap_hub_id = ar_dealership_id r, ap_customer_id = ar_customer_id r,
          ap_vehicle_id = aj_vehicle_id j, ap_bay_id = aj_bay_id j, ap_start = ar_start r, ap_end = ar_end r,
          ap_status = ar_status r, ap_total = ar_total r, ap_services = lines_of (ar_id r) lines,
          ap_created = ar_created r, ap_updated = ar_updated r\<rparr>)"

definition load ::
    "env \<Rightarrow> ('d appointment_row \<Rightarrow> bool) \<Rightarrow> nat \<Rightarrow> ('d sched_db, sched_error, 'd appointment list) prog" where
  "load E cond limit =
     on_ok (map_err ErrDb (query E (\<lambda>s.
       map (\<lambda>r. \<lparr>aj_row = r, aj_vehicle_id = first_vehicle s (ar_id r), aj_bay_id = first_bay s (ar_id r)\<rparr>)
         (take limit (latest_first (filter cond (appointments s))))))) (\<lambda>rows.
     if rows = [] then ok []
     else on_ok (map_err ErrDb (query E (\<lambda>s. service_joins s (map (\<lambda>j. ar_id (aj_row j)) rows)))) (\<lambda>lines.
          ok (map (to_appointment lines) rows)))"

definition get_by_id :: "env \<Rightarrow> int \<Rightarrow> ('d sched_db, sched_error, 'd appointment) prog" where
  "get_by_id E aid =
     on_ok (load E (\<lambda>r. ar_id r = aid) 1) (\<lambda>as.
     case as of [] \<Rightarrow> fail (ErrNotFound (''appointment '' @ format_int aid)) | a # _ \<Rightarrow> ok a)"

definition list_by_customer :: "env \<Rightarrow> int \<Rightarrow> nat \<Rightarrow> ('d sched_db, sched_error, 'd appointment list) prog" where
  "list_by_customer E cid limit = load E (\<lambda>r. ar_customer_id r = cid) limit"

definition list_by_hub :: "env \<Rightarrow> int \<Rightarrow> int \<Rightarrow> int \<Rightarrow> ('d sched_db, sched_error, 'd appointment list) prog" where
  "list_by_hub E hid from till =
     on_ok (load E (\<lambda>r. ar_dealership_id r = hid \<and> db_time E from \<le> ar_start r \<and> ar_start r < db_time E till)
              hub_day_limit) (\<lambda>as.
     ok (rev as))"

section \<open>Effects of the writes\<close>

lemma range_query_Inr:
  "range_query E a b f s = (Inr x, t) \<longleftrightarrow>
     fault E (tick s) = None \<and> db_time E a \<le> db_time E b \<and> x = f (step_tick s) \<and> t = step_tick s"
  by (auto simp: range_query_def prog_simps)

lemma range_query_state: "range_query E a b f s = (r, t) \<Longrightarrow> t = step_tick s"
  by (auto simp: range_query_def map_err_def sql_def split: option.splits if_splits)

lemma lock_vehicle_run: "lock_vehicle E vid s = (r, t) \<Longrightarrow> t = step_tick s"
  by (auto simp: lock_vehicle_def map_err_def query_def sql_def split: option.splits)

lemma vehicle_taken_tick [simp]: "vehicle_taken (step_tick s) = vehicle_taken s"
  by (simp add: fun_eq_iff vehicle_taken_def)

lemma bay_taken_tick [simp]: "bay_taken (step_tick s) = bay_taken s"
  by (simp add: fun_eq_iff bay_taken_def)

lemma vehicle_busy_Inr:
  "vehicle_busy E vid a b s = (Inr x, t) \<longleftrightarrow>
     fault E (tick s) = None \<and> db_time E a \<le> db_time E b \<and> t = step_tick s \<and>
     x = vehicle_taken s vid (db_time E a) (db_time E b)"
  by (auto simp: vehicle_busy_def range_query_Inr)

lemma free_bay_Inr:
  "free_bay E hid a b s = (Inr i, t) \<Longrightarrow>
     t = step_tick s \<and> \<not> bay_taken s i (db_time E a) (db_time E b) \<and>
     (\<exists>r \<in> set (hub_bays s). hb_id r = i \<and> hb_hub_id r = hid \<and> hb_status r = bay_available)"
proof -
  let ?free = "sort_key (\<lambda>b. collation E (hb_code b))
         (filter (\<lambda>r. hb_hub_id r = hid \<and> hb_status r = bay_available \<and>
            \<not> bay_taken s (hb_id r) (db_time E a) (db_time E b)) (hub_bays s))"
  assume "free_bay E hid a b s = (Inr i, t)"
  then obtain xs where t: "t = step_tick s" and i: "take 1 (map hb_id ?free) = i # xs"
    by (auto simp: free_bay_def on_ok_Inr range_query_Inr split: list.splits)
  then obtain r rs where r: "?free = r # rs" by (cases ?free) auto
  then have "r \<in> set ?free" "i = hb_id r" using i by (simp_all only: r list.set_intros) simp
  then show ?thesis using t by auto
qed

lemma free_bay_state: "free_bay E hid a b s = (r, t) \<Longrightarrow> t = step_tick s"
  by (auto simp: free_bay_def on_ok_def dest!: range_query_state split: prod.splits sum.splits list.splits)

text \<open>A successful \<open>Create\<close> appends one appointment, one vehicle row and one bay row with the same window,
  and the service rows; a failed one may have appended some of them, and is always rolled back.\<close>

definition created ::
    "env \<Rightarrow> 'd appointment \<Rightarrow> int \<Rightarrow> 'd sched_db \<Rightarrow> 'd sched_db \<Rightarrow> 'd appointment_row \<Rightarrow>
     appointment_vehicle_row \<Rightarrow> appointment_bay_row \<Rightarrow> bool" where
  "created E a t0 s t row vrow brow \<longleftrightarrow>
     appointments t = appointments s @ [row] \<and> appt_vehicles t = appt_vehicles s @ [vrow] \<and>
     appt_bays t = appt_bays s @ [brow] \<and>
     appt_services t = appt_services s @ service_lines (service_seq s) (appt_seq s) (vr_id vrow) (br_id brow) (ap_services a) \<and>
     row = \<lparr>ar_id = appt_seq s, ar_dealership_id = ap_hub_id a, ar_customer_id = ap_customer_id a,
           ar_start = db_time E (ap_start a), ar_end = db_time E (ap_end a), ar_status = ap_status a,
           ar_total = ap_total a, ar_created = db_time E t0, ar_updated = db_time E t0\<rparr> \<and>
     vr_appointment_id vrow = appt_seq s \<and> vr_vehicle_id vrow = ap_vehicle_id a \<and>
     brow = \<lparr>br_id = bay_seq s, br_appointment_id = appt_seq s, br_bay_id = ap_bay_id a,
           br_start = db_time E (ap_start a), br_end = db_time E (ap_end a), br_status = Reserved\<rparr> \<and>
     db_time E (ap_start a) < db_time E (ap_end a) \<and>
     \<not> bay_taken s (ap_bay_id a) (db_time E (ap_start a)) (db_time E (ap_end a)) \<and>
     appt_seq t = appt_seq s + 1 \<and> bay_seq t = bay_seq s + 1 \<and>
     hubs t = hubs s \<and> hub_bays t = hub_bays s \<and> catalog t = catalog s \<and>
     outbox_rows t = outbox_rows s \<and> outbox_seq t = outbox_seq s \<and> kafka_log t = kafka_log s"

lemma insert_appointment_Inr:
  "insert_appointment E t0 a s = (Inr row, t) \<Longrightarrow>
     row = \<lparr>ar_id = appt_seq s, ar_dealership_id = ap_hub_id a, ar_customer_id = ap_customer_id a,
           ar_start = db_time E (ap_start a), ar_end = db_time E (ap_end a), ar_status = ap_status a,
           ar_total = ap_total a, ar_created = db_time E t0, ar_updated = db_time E t0\<rparr> \<and>
     db_time E (ap_start a) < db_time E (ap_end a) \<and>
     t = (step_tick s)\<lparr>appt_seq := appt_seq s + 1, appointments := appointments s @ [row]\<rparr>"
  by (auto simp: insert_appointment_def prog_simps Let_def split: if_splits)

lemma insert_vehicle_Inr:
  "insert_vehicle E aid vid s = (Inr vrow, t) \<Longrightarrow>
     vr_appointment_id vrow = aid \<and> vr_vehicle_id vrow = vid \<and>
     t = (step_tick s)\<lparr>vehicle_seq := vehicle_seq s + 1, appt_vehicles := appt_vehicles s @ [vrow]\<rparr>"
  by (auto simp: insert_vehicle_def prog_simps Let_def split: if_splits)

lemma insert_bay_Inr:
  "insert_bay E aid a s = (Inr brow, t) \<Longrightarrow>
     brow = \<lparr>br_id = bay_seq s, br_appointment_id = aid, br_bay_id = ap_bay_id a,
           br_start = db_time E (ap_start a), br_end = db_time E (ap_end a), br_status = Reserved\<rparr> \<and>
     \<not> bay_taken s (ap_bay_id a) (db_time E (ap_start a)) (db_time E (ap_end a)) \<and>
     t = (step_tick s)\<lparr>bay_seq := bay_seq s + 1, appt_bays := appt_bays s @ [brow]\<rparr>"
  by (auto simp: insert_bay_def prog_simps Let_def bay_taken_def split: if_splits)

lemma insert_services_Inr:
  "insert_services E aid v b svcs s = (Inr u, t) \<Longrightarrow>
     \<exists>n. t = s\<lparr>tick := n, service_seq := service_seq s + int (length svcs),
            appt_services := appt_services s @ service_lines (service_seq s) aid v b svcs\<rparr>"
  by (cases s; cases "svcs = []")
    (auto simp: insert_services_def prog_simps step_tick_def)

lemma create_appointment_Inr:
  assumes "create_appointment E a s = (Inr a', t)"
  obtains row vrow brow where
    "created E a (clock E (tick s)) s t row vrow brow"
    "a' = a\<lparr>ap_id := appt_seq s, ap_created := clock E (tick s), ap_updated := clock E (tick s)\<rparr>"
proof -
  obtain s0 row s1 vrow s2 brow s3 where
    "s0 = step_tick s"
    and r: "insert_appointment E (clock E (tick s)) a s0 = (Inr row, s1)"
    and v: "insert_vehicle E (ar_id row) (ap_vehicle_id a) s1 = (Inr vrow, s2)"
    and b: "insert_bay E (ar_id row) a s2 = (Inr brow, s3)"
    and l: "insert_services E (ar_id row) (vr_id vrow) (br_id brow) (ap_services a) s3 = (Inr (), t)"
    and a: "a' = a\<lparr>ap_id := ar_id row, ap_created := clock E (tick s), ap_updated := clock E (tick s)\<rparr>"
    using assms by (auto simp: create_appointment_def on_ok_Inr now_run)
  note facts = insert_appointment_Inr [OF r] insert_vehicle_Inr [OF v] insert_bay_Inr [OF b] insert_services_Inr [OF l]
  have "created E a (clock E (tick s)) s t row vrow brow"
    using facts \<open>s0 = _\<close> by (auto simp: created_def bay_taken_def)
  then show ?thesis using that a facts(1) \<open>s0 = _\<close> by simp
qed

end
