(* ===== verification/SchedInvariant.thy ===== *)
theory SchedInvariant
  imports SchedRepo
begin

text \<open>The invariant of the appointment tables, and that the three writes of the repository keep it: rows that fit
  can be added, and statuses only subside.\<close>

section \<open>The invariant\<close>

text \<open>Every appointment has exactly one vehicle row and one bay row, all written by one \<open>Create\<close>; ids come
  from the sequence.\<close>

definition rows_aligned :: "'d sched_db \<Rightarrow> bool" where
  "rows_aligned s \<longleftrightarrow>
     distinct (map ar_id (appointments s)) \<and> (\<forall>i \<in> ar_id ` set (appointments s). i < appt_seq s) \<and>
     map br_appointment_id (appt_bays s) = map ar_id (appointments s) \<and>
     map vr_appointment_id (appt_vehicles s) = map ar_id (appointments s) \<and>
     sr_appointment_id ` set (appt_services s) \<subseteq> ar_id ` set (appointments s)"

text \<open>The bay row holds the appointment's window, and is cancelled exactly when the appointment is.\<close>

definition windows_agree :: "'d sched_db \<Rightarrow> bool" where
  "windows_agree s \<longleftrightarrow>
     (\<forall>a \<in> set (appointments s). ar_start a < ar_end a) \<and>
     (\<forall>a \<in> set (appointments s). \<forall>b \<in> set (appt_bays s). br_appointment_id b = ar_id a \<longrightarrow>
        br_start b = ar_start a \<and> br_end b = ar_end a \<and> (br_status b = BayCancelled \<longleftrightarrow> ar_status a = Cancelled))"

text \<open>No bay is reserved by two appointments at the same time.\<close>

definition bays_exclusive :: "'d sched_db \<Rightarrow> bool" where
  "bays_exclusive s \<longleftrightarrow>
     (\<forall>b \<in> set (appt_bays s). \<forall>c \<in> set (appt_bays s).
        br_appointment_id b \<noteq> br_appointment_id c \<longrightarrow> br_bay_id b = br_bay_id c \<longrightarrow>
        br_status b \<noteq> BayCancelled \<longrightarrow> br_status c \<noteq> BayCancelled \<longrightarrow>
        \<not> overlaps (br_start b) (br_end b) (br_start c) (br_end c))"

text \<open>No vehicle has two live appointments at the same time.\<close>

definition vehicles_exclusive :: "'d sched_db \<Rightarrow> bool" where
  "vehicles_exclusive s \<longleftrightarrow>
     (\<forall>a \<in> set (appointments s). \<forall>b \<in> set (appointments s). \<forall>v \<in> set (appt_vehicles s). \<forall>w \<in> set (appt_vehicles s).
        ar_id a \<noteq> ar_id b \<longrightarrow> vr_appointment_id v = ar_id a \<longrightarrow> vr_appointment_id w = ar_id b \<longrightarrow>
        vr_vehicle_id v = vr_vehicle_id w \<longrightarrow> ar_status a \<in> set live_statuses \<longrightarrow> ar_status b \<in> set live_statuses \<longrightarrow>
        \<not> overlaps (ar_start a) (ar_end a) (ar_start b) (ar_end b))"

definition sched_inv :: "'d sched_db \<Rightarrow> bool" where
  "sched_inv s \<longleftrightarrow> rows_aligned s \<and> windows_agree s \<and> bays_exclusive s \<and> vehicles_exclusive s \<and> outbox_ok s"

lemmas sched_inv_defs = rows_aligned_def windows_agree_def bays_exclusive_def vehicles_exclusive_def

lemma sched_inv_cong:
  assumes "sched_inv s" "appointments t = appointments s" "appt_bays t = appt_bays s"
    "appt_vehicles t = appt_vehicles s" "appt_services t = appt_services s" "appt_seq s \<le> appt_seq t" "outbox_ok t"
  shows "sched_inv t"
  using assms by (auto simp: sched_inv_def sched_inv_defs)

lemma sched_inv_tick [simp]: "sched_inv (step_tick s) = sched_inv s"
  by (simp add: sched_inv_def sched_inv_defs)

lemma tick_free_sched_inv [simp]: "tick_free sched_inv"
  by (simp add: tick_free_def sched_inv_def sched_inv_defs)

section \<open>Create\<close>

lemma aligned_bay_id:
  assumes "rows_aligned s" "b \<in> set (appt_bays s)"
  shows "br_appointment_id b < appt_seq s" "br_appointment_id b \<in> ar_id ` set (appointments s)"
proof -
  have "br_appointment_id b \<in> set (map ar_id (appointments s))"
    using assms unfolding rows_aligned_def by (metis image_eqI list.set_map)
  then show "br_appointment_id b < appt_seq s" "br_appointment_id b \<in> ar_id ` set (appointments s)"
    using assms by (auto simp: rows_aligned_def)
qed

lemma aligned_vehicle_id:
  assumes "rows_aligned s" "v \<in> set (appt_vehicles s)"
  shows "vr_appointment_id v < appt_seq s" "vr_appointment_id v \<in> ar_id ` set (appointments s)"
proof -
  have "vr_appointment_id v \<in> set (map ar_id (appointments s))"
    using assms unfolding rows_aligned_def by (metis image_eqI list.set_map)
  then show "vr_appointment_id v < appt_seq s" "vr_appointment_id v \<in> ar_id ` set (appointments s)"
    using assms by (auto simp: rows_aligned_def)
qed

lemma service_lines_appointment: "r \<in> set (service_lines i aid v b svcs) \<Longrightarrow> sr_appointment_id r = aid"
  by (induction svcs arbitrary: i) auto

text \<open>The rows of one booking, and when they can be added to the tables: the appointment's id is new, its vehicle and its
  bay are free. It does not matter whether the id was drawn just before or by a transaction that commits later.\<close>

record 'd booking_rows =
  bk_appointment :: "'d appointment_row"
  bk_vehicle :: appointment_vehicle_row
  bk_bay :: appointment_bay_row
  bk_services :: "'d appointment_service_row list"

definition fits :: "'d booking_rows \<Rightarrow> 'd sched_db \<Rightarrow> bool" where
  "fits k s \<longleftrightarrow>
     ar_id (bk_appointment k) \<notin> ar_id ` set (appointments s) \<and>
     vr_appointment_id (bk_vehicle k) = ar_id (bk_appointment k) \<and> br_appointment_id (bk_bay k) = ar_id (bk_appointment k) \<and>
     sr_appointment_id ` set (bk_services k) \<subseteq> {ar_id (bk_appointment k)} \<and>
     \<not> vehicle_taken s (vr_vehicle_id (bk_vehicle k)) (ar_start (bk_appointment k)) (ar_end (bk_appointment k)) \<and>
     \<not> bay_taken s (br_bay_id (bk_bay k)) (br_start (bk_bay k)) (br_end (bk_bay k))"

definition appends :: "'d booking_rows \<Rightarrow> 'd sched_db \<Rightarrow> 'd sched_db \<Rightarrow> bool" where
  "appends k s t \<longleftrightarrow>
     appointments t = appointments s @ [bk_appointment k] \<and> appt_vehicles t = appt_vehicles s @ [bk_vehicle k] \<and>
     appt_bays t = appt_bays s @ [bk_bay k] \<and> appt_services t = appt_services s @ bk_services k \<and>
     appt_seq s \<le> appt_seq t \<and> ar_id (bk_appointment k) < appt_seq t"

text \<open>The part of the invariant that says what is booked.\<close>

definition tables_ok :: "'d sched_db \<Rightarrow> bool" where
  "tables_ok s \<longleftrightarrow> rows_aligned s \<and> bays_exclusive s \<and> vehicles_exclusive s"

lemma fits_new_ids:
  assumes "rows_aligned s" "fits k s"
  shows "r \<in> set (appointments s) \<Longrightarrow> ar_id r \<noteq> ar_id (bk_appointment k)"
    "v \<in> set (appt_vehicles s) \<Longrightarrow> vr_appointment_id v \<noteq> ar_id (bk_appointment k)"
    "b \<in> set (appt_bays s) \<Longrightarrow> br_appointment_id b \<noteq> ar_id (bk_appointment k)"
proof -
  have fresh: "ar_id (bk_appointment k) \<notin> ar_id ` set (appointments s)" using assms(2) by (simp add: fits_def)
  then show "r \<in> set (appointments s) \<Longrightarrow> ar_id r \<noteq> ar_id (bk_appointment k)" by (metis image_eqI)
  show "v \<in> set (appt_vehicles s) \<Longrightarrow> vr_appointment_id v \<noteq> ar_id (bk_appointment k)"
    using fresh aligned_vehicle_id(2) [OF assms(1)] by metis
  show "b \<in> set (appt_bays s) \<Longrightarrow> br_appointment_id b \<noteq> ar_id (bk_appointment k)"
    using fresh aligned_bay_id(2) [OF assms(1)] by metis
qed

lemma appended_rows_aligned:
  assumes "rows_aligned s" "fits k s" "appends k s t"
  shows "rows_aligned t"
proof -
  have t: "appointments t = appointments s @ [bk_appointment k]" "appt_vehicles t = appt_vehicles s @ [bk_vehicle k]"
    "appt_bays t = appt_bays s @ [bk_bay k]" "appt_services t = appt_services s @ bk_services k"
    and seq: "appt_seq s \<le> appt_seq t" "ar_id (bk_appointment k) < appt_seq t" using assms(3) by (simp_all add: appends_def)
  have k: "ar_id (bk_appointment k) \<notin> set (map ar_id (appointments s))" "vr_appointment_id (bk_vehicle k) = ar_id (bk_appointment k)"
    "br_appointment_id (bk_bay k) = ar_id (bk_appointment k)" "sr_appointment_id ` set (bk_services k) \<subseteq> {ar_id (bk_appointment k)}"
    using assms(2) by (simp_all add: fits_def)
  have al: "distinct (map ar_id (appointments s))" "\<forall>i \<in> ar_id ` set (appointments s). i < appt_seq s"
    "map br_appointment_id (appt_bays s) = map ar_id (appointments s)"
    "map vr_appointment_id (appt_vehicles s) = map ar_id (appointments s)"
    "sr_appointment_id ` set (appt_services s) \<subseteq> ar_id ` set (appointments s)"
    using assms(1) by (simp_all add: rows_aligned_def)
  have "\<forall>i \<in> ar_id ` set (appointments t). i < appt_seq t" using al(2) seq unfolding t by fastforce
  moreover have "sr_appointment_id ` set (appt_services t) \<subseteq> ar_id ` set (appointments t)"
    using al(5) k(4) unfolding t by auto
  moreover have "distinct (map ar_id (appointments t))" using al(1) k(1) unfolding t by simp
  ultimately show ?thesis using al(3,4) k(2,3) unfolding rows_aligned_def t by simp
qed

lemma appended_bays_exclusive:
  assumes "bays_exclusive s" "fits k s" "appends k s t"
  shows "bays_exclusive t"
proof -
  have new: "\<not> overlaps (br_start b) (br_end b) (br_start (bk_bay k)) (br_end (bk_bay k))"
    if "b \<in> set (appt_bays s)" "br_bay_id b = br_bay_id (bk_bay k)" "br_status b \<noteq> BayCancelled" for b
    using assms(2) that by (auto simp: fits_def bay_taken_def)
  have t: "appt_bays t = appt_bays s @ [bk_bay k]" using assms(3) by (simp add: appends_def)
  show ?thesis using assms(1) new by (auto simp: bays_exclusive_def t overlaps_sym)
qed

lemma appended_vehicles_exclusive:
  assumes al: "rows_aligned s" and ex: "vehicles_exclusive s" and fit: "fits k s" and app: "appends k s t"
  shows "vehicles_exclusive t"
proof -
  let ?row = "bk_appointment k" and ?vrow = "bk_vehicle k"
  have t: "appointments t = appointments s @ [?row]" "appt_vehicles t = appt_vehicles s @ [?vrow]"
    using app by (simp_all add: appends_def)
  have vid: "vr_appointment_id ?vrow = ar_id ?row" using fit by (simp add: fits_def)
  have new: "\<not> overlaps (ar_start r) (ar_end r) (ar_start ?row) (ar_end ?row)"
    if "r \<in> set (appointments s)" "v \<in> set (appt_vehicles s)" "vr_appointment_id v = ar_id r"
      "vr_vehicle_id v = vr_vehicle_id ?vrow" "ar_status r \<in> set live_statuses" for r v
    using fit that by (auto simp: fits_def vehicle_taken_def)
  show ?thesis
    unfolding vehicles_exclusive_def t
  proof (intro ballI impI)
    fix p q v w
    assume m: "p \<in> set (appointments s @ [?row])" "q \<in> set (appointments s @ [?row])"
        "v \<in> set (appt_vehicles s @ [?vrow])" "w \<in> set (appt_vehicles s @ [?vrow])"
      and h: "ar_id p \<noteq> ar_id q" "vr_appointment_id v = ar_id p" "vr_appointment_id w = ar_id q"
        "vr_vehicle_id v = vr_vehicle_id w" "ar_status p \<in> set live_statuses" "ar_status q \<in> set live_statuses"
    have pv: "p = ?row \<longleftrightarrow> v = ?vrow" and qw: "q = ?row \<longleftrightarrow> w = ?vrow"
      using m h(2,3) fits_new_ids(1,2) [OF al fit] vid by fastforce+
    consider "p = ?row" "q \<noteq> ?row" | "p \<noteq> ?row" "q = ?row" | "p \<noteq> ?row" "q \<noteq> ?row" using h(1) by blast
    then show "\<not> overlaps (ar_start p) (ar_end p) (ar_start q) (ar_end q)"
    proof cases
      case 1
      then show ?thesis using new [of q w] m h pv qw by (auto simp: overlaps_sym)
    next
      case 2
      then show ?thesis using new [of p v] m h pv qw by auto
    next
      case 3
      then have "p \<in> set (appointments s)" "q \<in> set (appointments s)" "v \<in> set (appt_vehicles s)" "w \<in> set (appt_vehicles s)"
        using m pv qw by auto
      then show ?thesis using ex h unfolding vehicles_exclusive_def by blast
    qed
  qed
qed

lemma appended_tables_ok: "tables_ok s \<Longrightarrow> fits k s \<Longrightarrow> appends k s t \<Longrightarrow> tables_ok t"
  using appended_rows_aligned appended_bays_exclusive appended_vehicles_exclusive unfolding tables_ok_def by blast

lemma appended_windows_agree:
  assumes al: "rows_aligned s" and w: "windows_agree s" and fit: "fits k s" and app: "appends k s t"
    and row: "ar_start (bk_appointment k) < ar_end (bk_appointment k)" "br_start (bk_bay k) = ar_start (bk_appointment k)"
      "br_end (bk_bay k) = ar_end (bk_appointment k)" "br_status (bk_bay k) = BayCancelled \<longleftrightarrow> ar_status (bk_appointment k) = Cancelled"
  shows "windows_agree t"
proof -
  have t: "appointments t = appointments s @ [bk_appointment k]" "appt_bays t = appt_bays s @ [bk_bay k]"
    using app by (simp_all add: appends_def)
  have "br_appointment_id (bk_bay k) = ar_id (bk_appointment k)" using fit by (simp add: fits_def)
  then show ?thesis
    using w row fits_new_ids(1,3) [OF al fit] unfolding windows_agree_def t by (auto dest: sym)
qed

text \<open>What \<open>Create\<close> writes are such rows.\<close>

definition created_rows ::
    "'d appointment \<Rightarrow> 'd sched_db \<Rightarrow> 'd appointment_row \<Rightarrow> appointment_vehicle_row \<Rightarrow> appointment_bay_row \<Rightarrow> 'd booking_rows" where
  "created_rows a s row vrow brow = \<lparr>bk_appointment = row, bk_vehicle = vrow, bk_bay = brow,
     bk_services = service_lines (service_seq s) (appt_seq s) (vr_id vrow) (br_id brow) (ap_services a)\<rparr>"

lemma createdD:
  assumes "created E a t0 s t row vrow brow"
  shows "appointments t = appointments s @ [row]" "appt_vehicles t = appt_vehicles s @ [vrow]"
    "appt_bays t = appt_bays s @ [brow]"
    "appt_services t = appt_services s @ service_lines (service_seq s) (appt_seq s) (vr_id vrow) (br_id brow) (ap_services a)"
    "ar_id row = appt_seq s" "ar_start row = db_time E (ap_start a)" "ar_end row = db_time E (ap_end a)"
    "ar_status row = ap_status a" "ar_dealership_id row = ap_hub_id a" "ar_customer_id row = ap_customer_id a"
    "ar_total row = ap_total a"
    "vr_appointment_id vrow = appt_seq s" "vr_vehicle_id vrow = ap_vehicle_id a"
    "br_appointment_id brow = appt_seq s" "br_bay_id brow = ap_bay_id a" "br_start brow = ar_start row"
    "br_end brow = ar_end row" "br_status brow = Reserved" "ar_start row < ar_end row"
    "\<not> bay_taken s (ap_bay_id a) (ar_start row) (ar_end row)" "appt_seq t = appt_seq s + 1"
    "hubs t = hubs s" "hub_bays t = hub_bays s" "catalog t = catalog s"
    "outbox_rows t = outbox_rows s" "outbox_seq t = outbox_seq s" "kafka_log t = kafka_log s"
  using assms unfolding created_def by simp_all

lemma created_appends:
  assumes "rows_aligned s" "created E a t0 s t row vrow brow"
    and "\<not> vehicle_taken s (ap_vehicle_id a) (db_time E (ap_start a)) (db_time E (ap_end a))"
  shows "fits (created_rows a s row vrow brow) s" "appends (created_rows a s row vrow brow) s t"
proof -
  note d = createdD [OF assms(2)]
  have "appt_seq s \<notin> ar_id ` set (appointments s)" using assms(1) by (auto simp: rows_aligned_def)
  then show "fits (created_rows a s row vrow brow) s"
    using assms(3) d(5-7,12-17,20) by (auto simp: fits_def created_rows_def dest: service_lines_appointment)
  show "appends (created_rows a s row vrow brow) s t"
    using d(1-5,21) by (simp add: appends_def created_rows_def)
qed

lemma create_keeps_inv:
  assumes inv: "sched_inv s" and c: "create_appointment E a s = (Inr a', t)"
    and free: "\<not> vehicle_taken s (ap_vehicle_id a) (db_time E (ap_start a)) (db_time E (ap_end a))"
    and st: "ap_status a \<noteq> Cancelled"
  shows "sched_inv t"
proof -
  from c obtain row vrow brow where k: "created E a (clock E (tick s)) s t row vrow brow"
    by (rule create_appointment_Inr)
  have parts: "rows_aligned s" "windows_agree s" "tables_ok s" "outbox_ok s"
    using inv by (simp_all add: sched_inv_def tables_ok_def)
  note d = createdD [OF k] and f = created_appends [OF parts(1) k free]
  have "outbox_ok t" by (rule outbox_ok_cong [OF parts(4)]) (simp_all add: d(25-27))
  moreover have "windows_agree t"
    by (rule appended_windows_agree [OF parts(1,2) f]) (use st d(8,16-19) in \<open>simp_all add: created_rows_def\<close>)
  ultimately show ?thesis using appended_tables_ok [OF parts(3) f] by (simp add: sched_inv_def tables_ok_def)
qed

section \<open>Cancel and Complete\<close>

text \<open>A write that changes the status of one appointment and of its rows: what it does to the tables.\<close>

definition restated ::
    "int \<Rightarrow> appointment_status set \<Rightarrow> appointment_status \<Rightarrow> (bay_row_status \<Rightarrow> bay_row_status) \<Rightarrow>
     (service_row_status \<Rightarrow> service_row_status) \<Rightarrow> int \<Rightarrow> 'd sched_db \<Rightarrow> 'd sched_db \<Rightarrow> bool" where
  "restated aid from st f g u s t \<longleftrightarrow>
     (\<exists>r \<in> set (appointments s). ar_id r = aid \<and> ar_status r \<in> from) \<and>
     appointments t = map (\<lambda>r. if ar_id r = aid \<and> ar_status r \<in> from then r\<lparr>ar_status := st, ar_updated := u\<rparr> else r)
       (appointments s) \<and>
     appt_bays t = map (\<lambda>b. if br_appointment_id b = aid then b\<lparr>br_status := f (br_status b)\<rparr> else b) (appt_bays s) \<and>
     appt_services t = map (\<lambda>l. if sr_appointment_id l = aid then l\<lparr>sr_status := g (sr_status l)\<rparr> else l)
       (appt_services s) \<and>
     appt_vehicles t = appt_vehicles s \<and> hubs t = hubs s \<and> hub_bays t = hub_bays s \<and> catalog t = catalog s \<and>
     outbox_rows t = outbox_rows s \<and> outbox_seq t = outbox_seq s \<and> kafka_log t = kafka_log s \<and>
     appt_seq t = appt_seq s \<and> bay_seq t = bay_seq s"

lemma update_status_Inr:
  "update_status E aid from st s = (Inr n, t) \<longleftrightarrow>
     fault E (Suc (tick s)) = None \<and> n = length (filter (\<lambda>r. ar_id r = aid \<and> ar_status r \<in> set from) (appointments s)) \<and>
     t = (step_tick (step_tick s))\<lparr>appointments := map (\<lambda>r. if ar_id r = aid \<and> ar_status r \<in> set from
           then r\<lparr>ar_status := st, ar_updated := db_time E (clock E (tick s))\<rparr> else r) (appointments s)\<rparr>"
  by (auto simp: update_status_def on_ok_Inr now_run sql_Inr Let_def step_tick_def)

lemma update_bays_Inr:
  "update_bays E aid hit st s = (Inr u, t) \<longleftrightarrow>
     fault E (tick s) = None \<and> t = (step_tick s)\<lparr>appt_bays := map (\<lambda>r. if br_appointment_id r = aid \<and> hit (br_status r)
           then r\<lparr>br_status := st\<rparr> else r) (appt_bays s)\<rparr>"
  by (auto simp: update_bays_def sql_Inr)

lemma update_services_Inr:
  "update_services E aid hit st s = (Inr u, t) \<longleftrightarrow>
     fault E (tick s) = None \<and> t = (step_tick s)\<lparr>appt_services := map (\<lambda>r. if sr_appointment_id r = aid \<and> hit (sr_status r)
           then r\<lparr>sr_status := st\<rparr> else r) (appt_services s)\<rparr>"
  by (auto simp: update_services_def sql_Inr)

lemma filter_length_pos: "length (filter P xs) \<noteq> 0 \<Longrightarrow> \<exists>x \<in> set xs. P x"
  by (metis filter_False length_0_conv)

lemma cancel_appointment_Inr:
  assumes "cancel_appointment E aid s = (Inr u, t)"
  shows "restated aid {Booked} Cancelled (\<lambda>_. BayCancelled) (\<lambda>_. ServiceCancelled) (db_time E (clock E (tick s))) s t"
proof -
  obtain n s1 s2 where
    a: "update_status E aid [Booked] Cancelled s = (Inr n, s1)" and n: "n \<noteq> 0"
    and b: "update_bays E aid (\<lambda>_. True) BayCancelled s1 = (Inr (), s2)"
    and c: "update_services E aid (\<lambda>_. True) ServiceCancelled s2 = (Inr (), t)"
    using assms by (auto simp: cancel_appointment_def on_ok_Inr split: if_splits)
  have "\<exists>r \<in> set (appointments s). ar_id r = aid \<and> ar_status r \<in> {Booked}"
    using filter_length_pos [of "\<lambda>r. ar_id r = aid \<and> ar_status r \<in> set [Booked]" "appointments s"] a n
    by (auto simp: update_status_Inr)
  then show ?thesis
    using a b c unfolding update_status_Inr update_bays_Inr update_services_Inr restated_def by simp
qed

lemma complete_appointment_Inr:
  assumes "complete_appointment E aid s = (Inr u, t)"
  shows "restated aid {Booked, CheckedIn, InProgress} Completed
    (\<lambda>st. if st = Reserved \<or> st = Occupied then Released else st)
    (\<lambda>st. if st \<noteq> ServiceCancelled then Done else st) (db_time E (clock E (tick s))) s t"
proof -
  obtain n s1 s2 where
    a: "update_status E aid [Booked, CheckedIn, InProgress] Completed s = (Inr n, s1)" and n: "n \<noteq> 0"
    and b: "update_bays E aid (\<lambda>st. st = Reserved \<or> st = Occupied) Released s1 = (Inr (), s2)"
    and c: "update_services E aid (\<lambda>st. st \<noteq> ServiceCancelled) Done s2 = (Inr (), t)"
    using assms by (auto simp: complete_appointment_def on_ok_Inr split: if_splits)
  have "\<exists>r \<in> set (appointments s). ar_id r = aid \<and> ar_status r \<in> {Booked, CheckedIn, InProgress}"
    using filter_length_pos [of "\<lambda>r. ar_id r = aid \<and> ar_status r \<in> set [Booked, CheckedIn, InProgress]" "appointments s"] a n
    by (auto simp: update_status_Inr)
  then show ?thesis
    using a b c unfolding update_status_Inr update_bays_Inr update_services_Inr restated_def by auto
qed

text \<open>Statuses only move on: the rows stay as they are but for their statuses, no appointment becomes live again and no
  bay row that is cancelled is reserved again.\<close>

definition subsiding_appointment :: "('d appointment_row \<Rightarrow> 'd appointment_row) \<Rightarrow> bool" where
  "subsiding_appointment F \<longleftrightarrow> (\<forall>a. ar_id (F a) = ar_id a \<and> ar_start (F a) = ar_start a \<and> ar_end (F a) = ar_end a \<and>
     (ar_status (F a) \<in> set live_statuses \<longrightarrow> ar_status a \<in> set live_statuses))"

definition subsiding_bay :: "(appointment_bay_row \<Rightarrow> appointment_bay_row) \<Rightarrow> bool" where
  "subsiding_bay G \<longleftrightarrow> (\<forall>b. br_appointment_id (G b) = br_appointment_id b \<and> br_bay_id (G b) = br_bay_id b \<and>
     br_start (G b) = br_start b \<and> br_end (G b) = br_end b \<and> (br_status (G b) \<noteq> BayCancelled \<longrightarrow> br_status b \<noteq> BayCancelled))"

definition subsides :: "'d sched_db \<Rightarrow> 'd sched_db \<Rightarrow> bool" where
  "subsides s t \<longleftrightarrow> (\<exists>F G H. subsiding_appointment F \<and> subsiding_bay G \<and> (\<forall>l. sr_appointment_id (H l) = sr_appointment_id l) \<and>
     appointments t = map F (appointments s) \<and> appt_bays t = map G (appt_bays s) \<and> appt_services t = map H (appt_services s) \<and>
     appt_vehicles t = appt_vehicles s \<and> appt_seq s \<le> appt_seq t)"

lemma subsiding_appointmentD:
  assumes "subsiding_appointment F"
  shows "ar_id (F a) = ar_id a" "ar_start (F a) = ar_start a" "ar_end (F a) = ar_end a"
    "ar_status (F a) \<in> set live_statuses \<Longrightarrow> ar_status a \<in> set live_statuses"
  using assms by (simp_all add: subsiding_appointment_def)

lemma subsiding_bayD:
  assumes "subsiding_bay G"
  shows "br_appointment_id (G b) = br_appointment_id b" "br_bay_id (G b) = br_bay_id b" "br_start (G b) = br_start b"
    "br_end (G b) = br_end b" "br_status (G b) \<noteq> BayCancelled \<Longrightarrow> br_status b \<noteq> BayCancelled"
  using assms by (simp_all add: subsiding_bay_def)

lemma subsidesE:
  assumes "subsides s t"
  obtains F G H where "subsiding_appointment F" "subsiding_bay G" "\<forall>l. sr_appointment_id (H l) = sr_appointment_id l"
    "appointments t = map F (appointments s)" "appt_bays t = map G (appt_bays s)" "appt_services t = map H (appt_services s)"
    "appt_vehicles t = appt_vehicles s" "appt_seq s \<le> appt_seq t"
  using assms unfolding subsides_def by (elim exE conjE) (rule that; assumption)

lemma subsides_same:
  assumes "appointments t = appointments s" "appt_bays t = appt_bays s" "appt_services t = appt_services s"
    "appt_vehicles t = appt_vehicles s" "appt_seq s \<le> appt_seq t"
  shows "subsides s t"
  unfolding subsides_def
  by (rule exI [of _ id], rule exI [of _ id], rule exI [of _ id]) (use assms in \<open>simp add: subsiding_appointment_def subsiding_bay_def\<close>)

lemma subsided_ids:
  assumes "subsides s t"
  shows "map ar_id (appointments t) = map ar_id (appointments s)"
    "map br_appointment_id (appt_bays t) = map br_appointment_id (appt_bays s)"
    "sr_appointment_id ` set (appt_services t) = sr_appointment_id ` set (appt_services s)"
    "appt_vehicles t = appt_vehicles s" "appt_seq s \<le> appt_seq t"
  by (rule subsidesE [OF assms], simp add: subsiding_appointmentD subsiding_bayD image_image)+

lemma subsided_taken:
  assumes "subsides s t"
  shows "vehicle_taken t v a b \<Longrightarrow> vehicle_taken s v a b" "bay_taken t i a b \<Longrightarrow> bay_taken s i a b"
proof -
  obtain F G H where F: "subsiding_appointment F" and G: "subsiding_bay G"
    and t: "appointments t = map F (appointments s)" "appt_bays t = map G (appt_bays s)" "appt_vehicles t = appt_vehicles s"
    using assms by (rule subsidesE)
  show "vehicle_taken t v a b \<Longrightarrow> vehicle_taken s v a b"
    unfolding vehicle_taken_def t set_map bex_simps subsiding_appointmentD(1-3) [OF F] using subsiding_appointmentD(4) [OF F] by blast
  show "bay_taken t i a b \<Longrightarrow> bay_taken s i a b"
    unfolding bay_taken_def t set_map bex_simps subsiding_bayD(1-4) [OF G] using subsiding_bayD(5) [OF G] by blast
qed

lemma subsided_tables_ok:
  assumes "tables_ok s" "subsides s t"
  shows "tables_ok t"
proof -
  note i = subsided_ids [OF assms(2)]
  have ok: "rows_aligned s" "bays_exclusive s" "vehicles_exclusive s" using assms(1) by (simp_all add: tables_ok_def)
  obtain F G H where F: "subsiding_appointment F" and G: "subsiding_bay G"
    and t: "appointments t = map F (appointments s)" "appt_bays t = map G (appt_bays s)"
    using assms(2) by (rule subsidesE)
  have ids: "ar_id ` set (appointments t) = ar_id ` set (appointments s)" using arg_cong [OF i(1), of set] by (simp only: set_map)
  have "\<forall>i \<in> ar_id ` set (appointments t). i < appt_seq t" using ok(1) i(5) unfolding ids rows_aligned_def by fastforce
  then have "rows_aligned t" using ok(1) unfolding rows_aligned_def ids i(1-4) by simp
  moreover have "bays_exclusive t"
    using ok(2) unfolding bays_exclusive_def t(2) set_map ball_simps subsiding_bayD(1-4) [OF G] by (blast dest: subsiding_bayD(5) [OF G])
  moreover have "vehicles_exclusive t"
    using ok(3) unfolding vehicles_exclusive_def t(1) i(4) set_map ball_simps subsiding_appointmentD(1-3) [OF F]
    by (blast dest: subsiding_appointmentD(4) [OF F])
  ultimately show ?thesis by (simp add: tables_ok_def)
qed

lemma restated_subsides:
  assumes r: "restated aid from st f g u s t" and src: "from \<subseteq> set live_statuses"
    and f: "\<And>x. f x = BayCancelled \<longleftrightarrow> x = BayCancelled \<or> st = Cancelled"
  shows "subsides s t"
proof -
  let ?F = "\<lambda>r. if ar_id r = aid \<and> ar_status r \<in> from then r\<lparr>ar_status := st, ar_updated := u\<rparr> else r"
  let ?G = "\<lambda>b. if br_appointment_id b = aid then b\<lparr>br_status := f (br_status b)\<rparr> else b"
  let ?H = "\<lambda>l. if sr_appointment_id l = aid then l\<lparr>sr_status := g (sr_status l)\<rparr> else l"
  have "subsiding_appointment ?F" using src by (auto simp: subsiding_appointment_def)
  moreover have "subsiding_bay ?G" using f by (simp add: subsiding_bay_def)
  moreover have "\<forall>l. sr_appointment_id (?H l) = sr_appointment_id l" by simp
  moreover have "appointments t = map ?F (appointments s)" "appt_bays t = map ?G (appt_bays s)" "appt_services t = map ?H (appt_services s)"
    "appt_vehicles t = appt_vehicles s" "appt_seq s \<le> appt_seq t" using r by (simp_all add: restated_def)
  ultimately show ?thesis unfolding subsides_def by (intro exI conjI)
qed

lemma restated_windows_agree:
  assumes al: "rows_aligned s" and w: "windows_agree s" and r: "restated aid from st f g u s t" and src: "Cancelled \<notin> from"
    and f: "\<And>x. f x = BayCancelled \<longleftrightarrow> x = BayCancelled \<or> st = Cancelled"
  shows "windows_agree t"
proof -
  let ?F = "\<lambda>r. if ar_id r = aid \<and> ar_status r \<in> from then r\<lparr>ar_status := st, ar_updated := u\<rparr> else r"
  let ?G = "\<lambda>b. if br_appointment_id b = aid then b\<lparr>br_status := f (br_status b)\<rparr> else b"
  have t: "appointments t = map ?F (appointments s)" "appt_bays t = map ?G (appt_bays s)" using r by (simp_all add: restated_def)
  obtain h where h: "h \<in> set (appointments s)" "ar_id h = aid" "ar_status h \<in> from" using r by (auto simp: restated_def)
  have same: "a = h" if "a \<in> set (appointments s)" "ar_id a = aid" for a
    using al that h(1,2) unfolding rows_aligned_def distinct_map inj_on_def by blast
  show ?thesis
    unfolding windows_agree_def t
  proof (intro conjI ballI impI)
    fix a b
    assume "a \<in> set (map ?F (appointments s))" "b \<in> set (map ?G (appt_bays s))" and ab: "br_appointment_id b = ar_id a"
    then obtain a0 b0 where a0: "a0 \<in> set (appointments s)" "a = ?F a0" and b0: "b0 \<in> set (appt_bays s)" "b = ?G b0"
      by auto
    have ids: "br_appointment_id b0 = ar_id a0" using ab a0(2) b0(2) by (simp split: if_splits)
    then have w': "br_start b0 = ar_start a0" "br_end b0 = ar_end a0" "br_status b0 = BayCancelled \<longleftrightarrow> ar_status a0 = Cancelled"
      using w a0(1) b0(1) unfolding windows_agree_def by blast+
    show "br_start b = ar_start a" "br_end b = ar_end a" using w' a0(2) b0(2) by (simp_all split: if_splits)
    show "br_status b = BayCancelled \<longleftrightarrow> ar_status a = Cancelled"
    proof (cases "ar_id a0 = aid")
      case True
      then have "ar_status a0 \<in> from" using same [OF a0(1)] h(3) by simp
      moreover from this have "ar_status a = st" using True a0(2) by simp
      moreover have "br_status b = f (br_status b0)" using True ids b0(2) by simp
      ultimately show ?thesis using w'(3) src f [of "br_status b0"] by metis
    qed (use a0(2) b0(2) ids w'(3) in simp)
  qed (use w in \<open>auto simp: windows_agree_def split: if_splits\<close>)
qed

lemma restated_keeps_inv:
  assumes inv: "sched_inv s" and r: "restated aid from st f g u s t"
    and src: "Cancelled \<notin> from" "from \<subseteq> set live_statuses"
    and f: "\<And>x. f x = BayCancelled \<longleftrightarrow> x = BayCancelled \<or> st = Cancelled"
  shows "sched_inv t"
proof -
  have parts: "rows_aligned s" "windows_agree s" "tables_ok s" "outbox_ok s" using inv by (simp_all add: sched_inv_def tables_ok_def)
  have "outbox_ok t" by (rule outbox_ok_cong [OF parts(4)]) (use r in \<open>simp_all add: restated_def\<close>)
  then show ?thesis
    using subsided_tables_ok [OF parts(3) restated_subsides [OF r src(2) f]] restated_windows_agree [OF parts(1,2) r src(1) f]
    by (simp add: sched_inv_def tables_ok_def)
qed

lemma cancel_keeps_inv:
  assumes "sched_inv s" "cancel_appointment E aid s = (Inr u, t)"
  shows "sched_inv t"
  by (rule restated_keeps_inv [OF assms(1) cancel_appointment_Inr [OF assms(2)]])
    (simp_all add: live_statuses_def)

lemma complete_keeps_inv:
  assumes "sched_inv s" "complete_appointment E aid s = (Inr u, t)"
  shows "sched_inv t"
  by (rule restated_keeps_inv [OF assms(1) complete_appointment_Inr [OF assms(2)]])
    (auto simp: live_statuses_def)

end
