(* ===== verification/SchedEvents.thy ===== *)
theory SchedEvents
  imports SchedData
begin

text \<open>The events scheduler-service publishes (\<open>internal/domain/events/appointment.go\<close>) and their JSON.
  Building an event takes one id from the generator.\<close>

datatype event_type = AppointmentBooked | AppointmentCancelled | ServiceCompleted

fun event_type_text :: "event_type \<Rightarrow> string" where
  "event_type_text AppointmentBooked = ''AppointmentBooked''"
| "event_type_text AppointmentCancelled = ''AppointmentCancelled''"
| "event_type_text ServiceCompleted = ''ServiceCompleted''"

record service_state =
  ss_service_id :: int
  ss_name :: string
  ss_fee :: string

record appointment_state =
  st_id :: int
  st_dealership_id :: int
  st_customer_id :: int
  st_vehicle_id :: int
  st_bay_id :: int
  st_scheduled_start :: int
  st_scheduled_end :: int
  st_status :: appointment_status
  st_total_amount :: string
  st_currency :: string
  st_services :: "service_state list"

record appointment_event =
  ev_event_id :: string
  ev_event_type :: event_type
  ev_occurred_at :: int
  ev_appointment :: appointment_state

definition new_appointment_event ::
    "env \<Rightarrow> 'd decimal_ops \<Rightarrow> event_type \<Rightarrow> int \<Rightarrow> 'd appointment \<Rightarrow> string \<Rightarrow>
     ('z world_scheme, 'e, appointment_event) prog" where
  "new_appointment_event E D etype occurred a currency =
     on_ok (new_uuid E) (\<lambda>eid.
     ok \<lparr>ev_event_id = eid, ev_event_type = etype, ev_occurred_at = new_time occurred,
         ev_appointment = \<lparr>st_id = ap_id a, st_dealership_id = ap_hub_id a, st_customer_id = ap_customer_id a,
           st_vehicle_id = ap_vehicle_id a, st_bay_id = ap_bay_id a, st_scheduled_start = new_time (ap_start a),
           st_scheduled_end = new_time (ap_end a), st_status = ap_status a,
           st_total_amount = dec_string_fixed D (ap_total a) 2, st_currency = currency,
           st_services = map (\<lambda>s. \<lparr>ss_service_id = as_service_id s, ss_name = as_name s,
             ss_fee = dec_string_fixed D (as_fee s) 2\<rparr>) (ap_services a)\<rparr>\<rparr>)"

definition service_state_json :: "service_state \<Rightarrow> json" where
  "service_state_json s = JObj [(''service_id'', JInt (ss_service_id s)), (''name'', JStr (ss_name s)),
     (''fee'', JStr (ss_fee s))]"

definition appointment_state_json :: "appointment_state \<Rightarrow> json" where
  "appointment_state_json a = JObj [
     (''id'', JInt (st_id a)), (''dealership_id'', JInt (st_dealership_id a)),
     (''customer_id'', JInt (st_customer_id a)), (''vehicle_id'', JInt (st_vehicle_id a)),
     (''bay_id'', JInt (st_bay_id a)), (''scheduled_start'', time_json (st_scheduled_start a)),
     (''scheduled_end'', time_json (st_scheduled_end a)), (''status'', JStr (status_text (st_status a))),
     (''total_amount'', JStr (st_total_amount a)), (''currency'', JStr (st_currency a)),
     (''services'', JArr (map service_state_json (st_services a)))]"

definition appointment_event_json :: "appointment_event \<Rightarrow> json" where
  "appointment_event_json e = JObj [
     (''event_id'', JStr (ev_event_id e)), (''event_type'', JStr (event_type_text (ev_event_type e))),
     (''occurred_at'', time_json (ev_occurred_at e)),
     (''appointment'', appointment_state_json (ev_appointment e))]"

record completed_line =
  cl_service_id :: int
  cl_name :: string
  cl_quantity :: int
  cl_fee :: string
  cl_unit_price_minor :: int

record service_completed_event =
  sc_event_id :: string
  sc_event_type :: event_type
  sc_occurred_at :: int
  sc_appointment_id :: int
  sc_vehicle_id :: int
  sc_customer_id :: int
  sc_dealership_id :: int
  sc_completed_at :: int
  sc_currency :: string
  sc_services :: "completed_line list"

definition completed_line_of :: "'d decimal_ops \<Rightarrow> string \<Rightarrow> 'd appointment_service \<Rightarrow> string + completed_line" where
  "completed_line_of D currency s = (case to_minor D (as_fee s) currency of
       Inl e \<Rightarrow> Inl e
     | Inr minor \<Rightarrow> Inr \<lparr>cl_service_id = as_service_id s, cl_name = as_name s, cl_quantity = 1,
         cl_fee = dec_string_fixed D (as_fee s) (decimals currency), cl_unit_price_minor = minor\<rparr>)"

definition new_service_completed_event ::
    "env \<Rightarrow> 'd decimal_ops \<Rightarrow> int \<Rightarrow> 'd appointment \<Rightarrow> string \<Rightarrow>
     ('z world_scheme, sched_error, service_completed_event) prog" where
  "new_service_completed_event E D occurred a currency =
     on_ok (map_err ErrOther (lift_result (map_result (completed_line_of D currency) (ap_services a)))) (\<lambda>lines.
     on_ok (new_uuid E) (\<lambda>eid.
     ok \<lparr>sc_event_id = eid, sc_event_type = ServiceCompleted, sc_occurred_at = new_time occurred,
         sc_appointment_id = ap_id a, sc_vehicle_id = ap_vehicle_id a, sc_customer_id = ap_customer_id a,
         sc_dealership_id = ap_hub_id a, sc_completed_at = new_time occurred, sc_currency = currency,
         sc_services = lines\<rparr>))"

definition completed_line_json :: "completed_line \<Rightarrow> json" where
  "completed_line_json l = JObj [(''service_id'', JInt (cl_service_id l)), (''name'', JStr (cl_name l)),
     (''quantity'', JInt (cl_quantity l)), (''fee'', JStr (cl_fee l)),
     (''unit_price_minor'', JInt (cl_unit_price_minor l))]"

definition service_completed_json :: "service_completed_event \<Rightarrow> json" where
  "service_completed_json e = JObj [
     (''event_id'', JStr (sc_event_id e)), (''event_type'', JStr (event_type_text (sc_event_type e))),
     (''occurred_at'', time_json (sc_occurred_at e)), (''appointment_id'', JInt (sc_appointment_id e)),
     (''vehicle_id'', JInt (sc_vehicle_id e)), (''customer_id'', JInt (sc_customer_id e)),
     (''dealership_id'', JInt (sc_dealership_id e)), (''completed_at'', time_json (sc_completed_at e)),
     (''currency'', JStr (sc_currency e)), (''services'', JArr (map completed_line_json (sc_services e)))]"

lemma new_appointment_event_Inr:
  "new_appointment_event E D etype occ a cur s = (Inr e, t) \<Longrightarrow>
     t = step_tick s \<and> ev_event_type e = etype \<and> ev_event_id e = uuid_at E (tick s) \<and>
     st_id (ev_appointment e) = ap_id a \<and> st_status (ev_appointment e) = ap_status a"
  by (auto simp: new_appointment_event_def on_ok_Inr new_uuid_run)

lemma new_service_completed_Inr:
  "new_service_completed_event E D occ a cur s = (Inr e, t) \<longleftrightarrow>
     (\<exists>lines. map_result (completed_line_of D cur) (ap_services a) = Inr lines \<and> t = step_tick s \<and>
        e = \<lparr>sc_event_id = uuid_at E (tick s), sc_event_type = ServiceCompleted, sc_occurred_at = new_time occ,
         sc_appointment_id = ap_id a, sc_vehicle_id = ap_vehicle_id a, sc_customer_id = ap_customer_id a,
         sc_dealership_id = ap_hub_id a, sc_completed_at = new_time occ, sc_currency = cur, sc_services = lines\<rparr>)"
  by (auto simp: new_service_completed_event_def on_ok_Inr new_uuid_run)

lemma keeps_events [keeps_intros]:
  "tick_free I \<Longrightarrow> keeps I (new_appointment_event E D etype occ a cur)"
  "tick_free I \<Longrightarrow> keeps I (new_service_completed_event E D occ a cur)"
  unfolding new_appointment_event_def new_service_completed_event_def by (intro keeps_intros; assumption)+

end
