(* ===== verification/Booking.thy ===== *)
theory Booking
  imports SchedInvariant SchedEvents
begin

text \<open>scheduler-service's booking service (\<open>internal/domain/services/booking-service.go\<close>), operation by
  operation in the order of the source. Its fields that are code of other services or of third parties
  (the two directories, the decimal library, the tz database) are fields of \<open>booking_service\<close>; the
  repositories are those of the previous theories. Log lines are left out.\<close>

section \<open>The service\<close>

record 'd booking_service =
  bs_env :: env
  bs_dec :: "'d decimal_ops"
  bs_load_location :: "string \<Rightarrow> location option"
  bs_customers :: "string \<Rightarrow> ('d sched_db, sched_error, customer) prog"
  bs_vehicles :: "string \<Rightarrow> int \<Rightarrow> ('d sched_db, sched_error, vehicle list) prog"
  bs_currency :: string

record booking_request =
  rq_hub_id :: int
  rq_vehicle_id :: int
  rq_service_ids :: "int list"
  rq_start :: int

record slot =
  sl_start :: int
  sl_end :: int
  sl_available :: bool

record availability_result =
  av_hub_id :: int
  av_date :: string
  av_timezone :: string
  av_minutes :: int
  av_slots :: "slot list"

record 'd hub_day_result =
  hd_hub_id :: int
  hd_date :: string
  hd_timezone :: string
  hd_appointments :: "'d appointment list"

definition slot_step :: int where
  "slot_step = 30 * minute_ns"

definition my_appointments_limit :: nat where
  "my_appointments_limit = 100"

section \<open>Helpers\<close>

text \<open>\<open>byID\<close>: of several catalog rows with one id the last wins.\<close>

definition by_id :: "'d catalog_service list \<Rightarrow> int \<Rightarrow> 'd catalog_service option" where
  "by_id cat i = (case filter (\<lambda>c. cs_id c = i) (rev cat) of [] \<Rightarrow> None | c # _ \<Rightarrow> Some c)"

fun resolve_ids ::
    "'d catalog_service list \<Rightarrow> int list \<Rightarrow> int list \<Rightarrow> sched_error + 'd catalog_service list" where
  "resolve_ids cat seen [] = Inr []"
| "resolve_ids cat seen (i # is) =
     (if i \<in> set seen then resolve_ids cat seen is
      else case by_id cat i of
             None \<Rightarrow> Inl (ErrInvalidInput (''service '' @ format_int i @ '' doesn't exist or can't be booked''))
           | Some svc \<Rightarrow> (case resolve_ids cat (i # seen) is of Inl e \<Rightarrow> Inl e | Inr rest \<Rightarrow> Inr (svc # rest)))"

definition resolve_services :: "'d booking_service \<Rightarrow> int list \<Rightarrow> ('d sched_db, sched_error, 'd catalog_service list) prog" where
  "resolve_services S ids =
     (if ids = [] then fail (ErrInvalidInput ''pick at least one service'')
      else on_ok (list_services (bs_env S)) (\<lambda>cat. lift_result (resolve_ids cat [] ids)))"

definition total_duration :: "'d catalog_service list \<Rightarrow> int" where
  "total_duration services =
     foldl (\<lambda>total svc. wrap64 (total + wrap64 (cs_minutes svc * minute_ns))) 0 services"

definition hub_location :: "'d booking_service \<Rightarrow> hub \<Rightarrow> location" where
  "hub_location S h = (case bs_load_location S (hub_timezone h) of None \<Rightarrow> UTC | Some loc \<Rightarrow> loc)"

definition opening_hours :: "hub \<Rightarrow> int \<Rightarrow> location \<Rightarrow> int \<times> int" where
  "opening_hours h day loc =
     (let (y, m, d) = date_in loc day;
          wall = (\<lambda>offset. time_date y m d (quot offset hour_ns) (quot (rem offset hour_ns) minute_ns) 0 0 loc)
      in (wall (hub_open h), wall (hub_close h)))"

definition any_bay_free :: "bay list \<Rightarrow> bay_reservation list \<Rightarrow> int \<Rightarrow> int \<Rightarrow> bool" where
  "any_bay_free bays rs start fin \<longleftrightarrow>
     (\<exists>b \<in> set bays. \<not> (\<exists>r \<in> set rs. res_bay_id r = bay_id b \<and> res_start r < fin \<and> start < res_end r))"

definition write_event ::
    "'d booking_service \<Rightarrow> event_type \<Rightarrow> string \<Rightarrow> 'd appointment \<Rightarrow> ('d sched_db, sched_error, unit) prog" where
  "write_event S etype topic a =
     on_ok (now (bs_env S)) (\<lambda>t.
     on_ok (new_appointment_event (bs_env S) (bs_dec S) etype t a (bs_currency S)) (\<lambda>ev.
     map_err ErrDb (outbox_create (bs_env S)
       (new_message topic (format_int (ap_id a)) (appointment_event_json ev)))))"

abbreviation in_tx :: "'d booking_service \<Rightarrow> ('d sched_db, sched_error, 'a) prog \<Rightarrow> ('d sched_db, sched_error, 'a) prog" where
  "in_tx S \<equiv> run_in_tx (bs_env S) ErrDb sched_restore"

section \<open>Availability\<close>

text \<open>The slot loop: one slot per half hour while the services still end by closing time.\<close>

function slots_from :: "int \<Rightarrow> int \<Rightarrow> (int \<Rightarrow> int \<Rightarrow> bool) \<Rightarrow> int \<Rightarrow> slot list" where
  "slots_from duration closing free start =
     (if closing < start + duration then []
      else \<lparr>sl_start = start, sl_end = start + duration, sl_available = free start (start + duration)\<rparr>
           # slots_from duration closing free (start + slot_step))"
  by pat_completeness auto
termination
  by (relation "measure (\<lambda>(duration, closing, free, start). nat (closing - duration - start + 1))")
    (auto simp: slot_step_def duration_units)

declare slots_from.simps [simp del]

definition availability ::
    "'d booking_service \<Rightarrow> int \<Rightarrow> string \<Rightarrow> int list \<Rightarrow> ('d sched_db, sched_error, availability_result) prog" where
  "availability S hid date ids =
     on_ok (get_hub (bs_env S) hid) (\<lambda>h.
     on_ok (resolve_services S ids) (\<lambda>services.
     let loc = hub_location S h
     in case parse_date_in loc date of
          None \<Rightarrow> fail (ErrInvalidInput ''date must be YYYY-MM-DD'')
        | Some day \<Rightarrow>
            (let duration = total_duration services; (op, cl) = opening_hours h day loc
             in on_ok (list_bookable_bays (bs_env S) hid) (\<lambda>bays.
                on_ok (reservations (bs_env S) hid op cl) (\<lambda>rs.
                on_ok (now (bs_env S)) (\<lambda>t.
                ok \<lparr>av_hub_id = hid, av_date = date, av_timezone = loc_name loc,
                    av_minutes = quot duration minute_ns,
                    av_slots = slots_from duration cl (\<lambda>a b. t < a \<and> any_bay_free bays rs a b) op\<rparr>))))))"

section \<open>Book\<close>

definition en_dash :: string where
  "en_dash = [CHR 0xE2, CHR 0x80, CHR 0x93]"

definition closed_detail :: "hub \<Rightarrow> location \<Rightarrow> int \<Rightarrow> int \<Rightarrow> int \<Rightarrow> int \<Rightarrow> string" where
  "closed_detail h loc op cl start fin =
     hub_name h @ '' is open '' @ format_clock loc op @ en_dash @ format_clock loc cl
       @ '' and the services take '' @ format_int (quot (time_sub fin start) minute_ns) @ '' minutes''"

text \<open>What \<open>Book\<close> checks before the transaction, giving the appointment to write.\<close>

definition book_check ::
    "'d booking_service \<Rightarrow> principal \<Rightarrow> booking_request \<Rightarrow> ('d sched_db, sched_error, 'd appointment) prog" where
  "book_check S caller req =
     on_ok (get_hub (bs_env S) (rq_hub_id req)) (\<lambda>h.
     on_ok (resolve_services S (rq_service_ids req)) (\<lambda>services.
     let loc = hub_location S h; start = rq_start req; fin = start + total_duration services
     in on_ok (now (bs_env S)) (\<lambda>t.
        if \<not> t < start then fail (ErrInvalidInput ''pick a start time in the future'')
        else let (op, cl) = opening_hours h start loc
             in if start < op \<or> cl < fin then fail (ErrInvalidInput (closed_detail h loc op cl start fin))
                else on_ok (bs_customers S (pr_token caller)) (\<lambda>cust.
                     on_ok (bs_vehicles S (pr_token caller) (cu_id cust)) (\<lambda>owned.
                     if \<not> (\<exists>v \<in> set owned. ve_id v = rq_vehicle_id req)
                     then fail (ErrInvalidInput (''vehicle '' @ format_int (rq_vehicle_id req) @ '' isn't registered to you''))
                     else ok \<lparr>ap_id = 0, ap_hub_id = hub_id h, ap_customer_id = cu_id cust,
                            ap_vehicle_id = rq_vehicle_id req, ap_bay_id = 0, ap_start = start, ap_end = fin,
                            ap_status = Booked,
                            ap_total = foldl (dec_add (bs_dec S)) (dec_zero (bs_dec S)) (map cs_fee services),
                            ap_services = map (\<lambda>svc. \<lparr>as_service_id = cs_id svc, as_name = cs_name svc, as_fee = cs_fee svc\<rparr>) services,
                            ap_created = zero_time, ap_updated = zero_time\<rparr>)))))"

text \<open>The body of its transaction.\<close>

definition book_tx ::
    "'d booking_service \<Rightarrow> 'd appointment \<Rightarrow> ('d sched_db, sched_error, 'd appointment) prog" where
  "book_tx S a =
     on_ok (lock_vehicle (bs_env S) (ap_vehicle_id a)) (\<lambda>_.
     on_ok (vehicle_busy (bs_env S) (ap_vehicle_id a) (ap_start a) (ap_end a)) (\<lambda>busy.
     if busy then fail (ErrConflict ''this vehicle already has a booking at that time'')
     else on_ok (free_bay (bs_env S) (ap_hub_id a) (ap_start a) (ap_end a)) (\<lambda>bid.
          on_ok (create_appointment (bs_env S) (a\<lparr>ap_bay_id := bid\<rparr>)) (\<lambda>created.
          let a' = created\<lparr>ap_services := ap_services a\<rparr>
          in on_ok (write_event S AppointmentBooked topic_appointment_booked a') (\<lambda>_. ok a')))))"

definition book ::
    "'d booking_service \<Rightarrow> principal \<Rightarrow> booking_request \<Rightarrow> ('d sched_db, sched_error, 'd appointment) prog" where
  "book S caller req = on_ok (book_check S caller req) (\<lambda>a. in_tx S (book_tx S a))"

section \<open>The other operations\<close>

definition my_appointments ::
    "'d booking_service \<Rightarrow> principal \<Rightarrow> ('d sched_db, sched_error, 'd appointment list) prog" where
  "my_appointments S caller =
     on_ok (bs_customers S (pr_token caller)) (\<lambda>cust.
     list_by_customer (bs_env S) (cu_id cust) my_appointments_limit)"

text \<open>The bodies of the transactions of \<open>Cancel\<close> and \<open>Complete\<close>.\<close>

definition cancel_tx :: "'d booking_service \<Rightarrow> 'd appointment \<Rightarrow> int \<Rightarrow> ('d sched_db, sched_error, 'd appointment) prog" where
  "cancel_tx S a aid =
     on_ok (cancel_appointment (bs_env S) aid) (\<lambda>_.
     on_ok (now (bs_env S)) (\<lambda>u.
     let a' = a\<lparr>ap_status := Cancelled, ap_updated := u\<rparr>
     in on_ok (write_event S AppointmentCancelled topic_appointment_cancelled a') (\<lambda>_. ok a')))"

definition cancel ::
    "'d booking_service \<Rightarrow> principal \<Rightarrow> int \<Rightarrow> ('d sched_db, sched_error, 'd appointment) prog" where
  "cancel S caller aid =
     on_ok (bs_customers S (pr_token caller)) (\<lambda>cust.
     on_ok (get_by_id (bs_env S) aid) (\<lambda>a.
     if ap_customer_id a \<noteq> cu_id cust then fail (ErrNotFound '''')
     else if ap_status a \<noteq> Booked
     then fail (ErrConflict (''only a booked appointment can be cancelled (this one is '' @ status_text (ap_status a) @ '')''))
     else on_ok (now (bs_env S)) (\<lambda>t.
          if \<not> t < ap_start a then fail (ErrConflict ''this appointment has already started'')
          else in_tx S (cancel_tx S a aid))))"

definition complete_tx :: "'d booking_service \<Rightarrow> int \<Rightarrow> json \<Rightarrow> ('d sched_db, sched_error, unit) prog" where
  "complete_tx S aid payload =
     on_ok (complete_appointment (bs_env S) aid) (\<lambda>_.
     map_err ErrDb (outbox_create (bs_env S) (new_message topic_service_completed (format_int aid) payload)))"

definition hub_day ::
    "'d booking_service \<Rightarrow> int \<Rightarrow> string \<Rightarrow> ('d sched_db, sched_error, 'd hub_day_result) prog" where
  "hub_day S hid date =
     on_ok (get_hub (bs_env S) hid) (\<lambda>h.
     let loc = hub_location S h
     in case parse_date_in loc date of
          None \<Rightarrow> fail (ErrInvalidInput ''date must be YYYY-MM-DD'')
        | Some day \<Rightarrow>
            on_ok (list_by_hub (bs_env S) hid day (add_date loc day 0 0 1)) (\<lambda>as.
            ok \<lparr>hd_hub_id = hid, hd_date = date, hd_timezone = loc_name loc, hd_appointments = as\<rparr>))"

definition complete ::
    "'d booking_service \<Rightarrow> int \<Rightarrow> ('d sched_db, sched_error, 'd appointment) prog" where
  "complete S aid =
     on_ok (get_by_id (bs_env S) aid) (\<lambda>a.
     on_ok (now (bs_env S)) (\<lambda>t.
     on_ok (new_service_completed_event (bs_env S) (bs_dec S) t a (bs_currency S)) (\<lambda>ev.
     on_ok (in_tx S (complete_tx S aid (service_completed_json ev))) (\<lambda>_.
     ok (a\<lparr>ap_status := Completed, ap_updated := t\<rparr>)))))"

end
