(* ===== verification/Transactions.thy ===== *)
theory Transactions
  imports Prelude
begin

text \<open>The contract between a service's database and its transactions, the same for every service: what a rollback
  puts back, and what runs of the statements can only let grow (clock, sequences) or leave alone (the broker).\<close>

lemma if_fail_Inr: "(if b then fail e else m) s = (Inr x, t) \<longleftrightarrow> \<not> b \<and> m s = (Inr x, t)"
  by simp

text \<open>A successful run taken apart into the runs of its steps.\<close>

lemmas run_simps = on_ok_Inr if_fail_Inr now_run map_err_Inr ok_run sum.inject

text \<open>A successful operation is a successful body between BEGIN and COMMIT.\<close>

lemma committed:
  assumes "run_in_tx E h restore m s = (Inr x, t)"
  obtains t' where "m (step_tick s) = (Inr x, t')" "t = step_tick t'"
  using assms by (auto simp: run_in_tx_Inr)

locale transactional =
  fixes restore :: "'z world_scheme \<Rightarrow> 'z world_scheme \<Rightarrow> 'z world_scheme"
    and later :: "'z world_scheme \<Rightarrow> 'z world_scheme \<Rightarrow> bool"
    and same :: "'z world_scheme \<Rightarrow> 'z world_scheme \<Rightarrow> bool"
    and inv :: "'z world_scheme \<Rightarrow> bool"
  assumes later_refl: "later s s"
    and later_trans: "later s t \<Longrightarrow> later t u \<Longrightarrow> later s u"
    and later_tick: "later s (s\<lparr>tick := n\<rparr>)"
    and same_restore: "later s t \<Longrightarrow> same s (restore s t)"
    and same_at_tick: "same s (s\<lparr>tick := n\<rparr>)"
    and inv_tick_free: "tick_free inv"
    and inv_restore: "inv s \<Longrightarrow> later s t \<Longrightarrow> inv (restore s t)"
begin

text \<open>A program that only moves on: every body of a transaction.\<close>

definition grows :: "('z world_scheme, 'e, 'a) prog \<Rightarrow> bool" where
  "grows m \<longleftrightarrow> (\<forall>s. later s (snd (m s)))"

lemma growsI: "(\<And>s r t. m s = (r, t) \<Longrightarrow> later s t) \<Longrightarrow> grows m"
  by (simp add: grows_def) (metis surjective_pairing)

lemma growsD: "grows m \<Longrightarrow> m s = (r, t) \<Longrightarrow> later s t"
  by (metis grows_def snd_conv)

lemma later_step: "later s t \<Longrightarrow> later s (step_tick t)"
  using later_trans [OF _ later_tick] by (simp add: step_tick_def)

lemma later_from_step: "later (step_tick s) t \<Longrightarrow> later s t"
  using later_trans [OF later_step [OF later_refl]] .

lemma grows_reads_only: "reads_only m \<Longrightarrow> grows m"
  unfolding reads_only_def grows_def using later_tick by metis

lemma grows_ok: "grows (ok x)" "grows (fail e)" "grows (lift_result r)"
  by (simp_all add: grows_reads_only reads_only_ok)

lemma grows_env: "grows (now E)" "grows (new_uuid E)" "grows (query E f)"
proof -
  show "grows (now E)" "grows (query E f)" by (rule grows_reads_only; rule reads_only_now reads_only_query)+
  show "grows (new_uuid E)" by (simp add: grows_def new_uuid_def later_step later_refl)
qed

lemma grows_on_ok: "grows m \<Longrightarrow> (\<And>x. grows (f x)) \<Longrightarrow> grows (on_ok m f)"
proof (rule growsI)
  fix s r u
  assume g: "grows m" "\<And>x. grows (f x)" and run: "on_ok m f s = (r, u)"
  obtain q t where q: "m s = (q, t)" by fastforce
  have st: "later s t" by (rule growsD [OF g(1) q])
  show "later s u"
  proof (cases q)
    case (Inr x)
    then have "f x t = (r, u)" using run q by (simp add: on_ok_def)
    then show ?thesis using later_trans [OF st growsD [OF g(2)]] by blast
  qed (use run q st in \<open>simp add: on_ok_def\<close>)
qed

lemma grows_map_err: "grows m \<Longrightarrow> grows (map_err h m)"
  by (auto simp: grows_def map_err_def split: prod.splits sum.splits) (metis snd_conv)+

lemma grows_sql: "(\<And>s. later s (snd (q s))) \<Longrightarrow> grows (sql E q)"
  unfolding grows_def
proof
  fix s
  assume q: "\<And>s. later s (snd (q s))"
  show "later s (snd (sql E q s))"
    using later_from_step [OF q [of "step_tick s"]] later_step [OF later_refl [of s]]
    by (cases "fault E (tick s)") (simp_all add: sql_def)
qed

lemma grows_cases:
  "grows m \<Longrightarrow> grows n \<Longrightarrow> grows (if b then m else n)"
  "grows m \<Longrightarrow> (\<And>x. grows (f x)) \<Longrightarrow> grows (case opt of None \<Rightarrow> m | Some x \<Rightarrow> f x)"
  "grows m \<Longrightarrow> (\<And>x xs. grows (g x xs)) \<Longrightarrow> grows (case l of [] \<Rightarrow> m | x # xs \<Rightarrow> g x xs)"
  by (simp_all split: option.splits list.splits)

lemmas grows_intros = grows_ok grows_env grows_on_ok grows_map_err grows_cases

text \<open>A transaction keeps what its committed body keeps.\<close>

lemma tx_keeps:
  assumes "grows body" "\<And>s x t. inv s \<Longrightarrow> body s = (Inr x, t) \<Longrightarrow> inv t"
  shows "keeps inv (run_in_tx E h restore body)"
proof (rule keeps_run_in_tx [OF inv_tick_free])
  fix s r t
  assume i: "inv s" and run: "body (step_tick s) = (r, t)"
  have "later s (step_tick t)" using growsD [OF assms(1) run] by (rule later_step [OF later_from_step])
  with i show "inv (restore s (step_tick t))" by (rule inv_restore)
qed (rule assms(2))

text \<open>A transaction that fails has changed nothing.\<close>

lemma tx_failed:
  assumes "grows body" "run_in_tx E h restore body s = (Inl e, u)"
  shows "same s u"
  using run_in_tx_Inl [OF assms(2)]
proof
  assume "\<exists>r t. body (step_tick s) = (r, t) \<and> u = restore s (step_tick t)"
  then obtain r t where t: "body (step_tick s) = (r, t)" "u = restore s (step_tick t)" by blast
  have "later s (step_tick t)" using growsD [OF assms(1) t(1)] by (rule later_step [OF later_from_step])
  then show ?thesis unfolding t(2) by (rule same_restore)
next
  assume "u = step_tick s"
  then show ?thesis by (simp add: step_tick_def same_at_tick)
qed

end

end
