(* ===== verification/BookingProofs.thy ===== *)
theory BookingProofs
  imports Booking Transactions
begin

text \<open>The booking service keeps the appointment tables' invariant, whatever fails on the way: each
  operation first, then every state the service can reach. The two directories are only assumed to
  leave the scheduler's database alone.\<close>

section \<open>Transactions\<close>

text \<open>scheduler-service's instance of the transaction contract: a statement only moves the sequences on and never sends to the
  broker; a rollback leaves the tables and the log of the broker as before.\<close>

definition sched_later :: "'d sched_db \<Rightarrow> 'd sched_db \<Rightarrow> bool" where
  "sched_later s t \<longleftrightarrow> appt_seq s \<le> appt_seq t \<and> outbox_seq s \<le> outbox_seq t \<and> kafka_log t = kafka_log s"

definition unchanged :: "'d sched_db \<Rightarrow> 'd sched_db \<Rightarrow> bool" where
  "unchanged s t \<longleftrightarrow>
     hubs t = hubs s \<and> hub_bays t = hub_bays s \<and> catalog t = catalog s \<and> appointments t = appointments s \<and>
     appt_bays t = appt_bays s \<and> appt_vehicles t = appt_vehicles s \<and> appt_services t = appt_services s \<and>
     outbox_rows t = outbox_rows s \<and> kafka_log t = kafka_log s"

interpretation sched_tx: transactional sched_restore sched_later unchanged sched_inv
proof unfold_locales
  fix s t :: "'d sched_db"
  assume i: "sched_inv s" and l: "sched_later s t"
  have "outbox_ok (sched_restore s t)"
    by (rule outbox_ok_cong [of s]) (use i l in \<open>simp_all add: sched_inv_def sched_later_def\<close>)
  then show "sched_inv (sched_restore s t)" by (intro sched_inv_cong [OF i]) (use l in \<open>simp_all add: sched_later_def\<close>)
qed (auto simp: sched_later_def unchanged_def)

lemma grows_outbox: "sched_tx.grows (outbox_create E m :: ('d sched_db, db_error, unit) prog)"
  unfolding outbox_create_def by (intro sched_tx.grows_intros sched_tx.grows_sql) (simp add: sched_later_def)

lemma grows_statements:
  "sched_tx.grows (lock_vehicle E vid)" "sched_tx.grows (range_query E a b f)"
  "sched_tx.grows (insert_appointment E t0 app)" "sched_tx.grows (insert_vehicle E aid vid)"
  "sched_tx.grows (insert_bay E aid app)" "sched_tx.grows (insert_services E aid v b' svcs)"
  "sched_tx.grows (update_status E aid from st)" "sched_tx.grows (update_bays E aid hit bst)"
  "sched_tx.grows (update_services E aid hit' sst)"
  unfolding lock_vehicle_def range_query_def insert_appointment_def insert_vehicle_def insert_bay_def
    insert_services_def update_status_def update_bays_def update_services_def
  by (intro sched_tx.grows_intros sched_tx.grows_sql; simp add: sched_later_def Let_def)+

lemma grows_event: "sched_tx.grows (write_event S etype topic app)"
  unfolding write_event_def new_appointment_event_def by (intro sched_tx.grows_intros grows_outbox)

lemma grows_programs:
  "sched_tx.grows (vehicle_busy E vid a b)" "sched_tx.grows (free_bay E hid a b)"
  "sched_tx.grows (create_appointment E app)" "sched_tx.grows (cancel_appointment E aid)"
  "sched_tx.grows (complete_appointment E aid)"
  unfolding vehicle_busy_def free_bay_def create_appointment_def cancel_appointment_def complete_appointment_def
  by (intro sched_tx.grows_intros grows_statements)+

lemma grows_booking_bodies:
  "sched_tx.grows (book_tx S a)" "sched_tx.grows (cancel_tx S a aid)" "sched_tx.grows (complete_tx S aid p)"
  unfolding book_tx_def cancel_tx_def complete_tx_def Let_def
  by (intro sched_tx.grows_intros grows_statements grows_programs grows_event grows_outbox)+

section \<open>Reads\<close>

lemma reads_only_loads [keeps_intros]:
  "reads_only (load E cond n)" "reads_only (get_by_id E aid)" "reads_only (list_by_customer E cid n)"
  "reads_only (list_by_hub E hid a b)"
  unfolding load_def get_by_id_def list_by_customer_def list_by_hub_def by (intro keeps_intros)+

lemma reads_only_catalog [keeps_intros]:
  "reads_only (get_hub E hid)" "reads_only (list_services E)" "reads_only (list_hubs E)"
  "reads_only (list_bookable_bays E hid)" "reads_only (resolve_services S ids)"
  unfolding get_hub_def list_services_def list_hubs_def list_bookable_bays_def resolve_services_def
    list_services_def
  by (intro keeps_intros)+

lemma reads_only_range [keeps_intros]: "reads_only (range_query E a b f)" "reads_only (reservations E hid a b)"
  unfolding reservations_def reads_only_def
  by (auto simp: range_query_def map_err_def sql_def step_tick_set split: option.splits)

definition directories_read_only :: "'d booking_service \<Rightarrow> bool" where
  "directories_read_only S \<longleftrightarrow>
     (\<forall>tok. reads_only (bs_customers S tok)) \<and> (\<forall>tok cid. reads_only (bs_vehicles S tok cid))"

lemma reads_only_book_check:
  assumes "directories_read_only S"
  shows "reads_only (book_check S caller req)"
proof -
  have d: "reads_only (bs_customers S tok)" "reads_only (bs_vehicles S tok cid)" for tok cid
    using assms by (auto simp: directories_read_only_def)
  show ?thesis unfolding book_check_def Let_def prod.case_distrib [of reads_only]
    by (intro keeps_intros d) (auto split: prod.splits intro!: keeps_intros d)
qed

section \<open>Events\<close>

text \<open>One row added to the outbox and nothing else.\<close>

definition enqueued :: "'d sched_db \<Rightarrow> 'd sched_db \<Rightarrow> string \<Rightarrow> string \<Rightarrow> json \<Rightarrow> bool" where
  "enqueued s t topic key payload \<longleftrightarrow>
     (\<exists>n created. t = s\<lparr>tick := n, outbox_seq := outbox_seq s + 1,
        outbox_rows := outbox_rows s @ [\<lparr>ob_id = outbox_seq s, ob_topic = topic, ob_key = key,
          ob_payload = payload, ob_created = created, ob_published = None\<rparr>]\<rparr>)"

lemma outbox_create_enqueued:
  "outbox_create E (new_message topic key payload) s = (Inr u, t) \<Longrightarrow> enqueued s t topic key payload"
  by (cases s) (auto simp: outbox_create_Inr enqueued_def new_message_def step_tick_def)

lemma write_event_Inr:
  assumes "write_event S etype topic a s = (Inr u, t)"
  shows "\<exists>ev. enqueued s t topic (format_int (ap_id a)) (appointment_event_json ev) \<and>
    ev_event_type ev = etype \<and> st_id (ev_appointment ev) = ap_id a \<and> st_status (ev_appointment ev) = ap_status a"
proof -
  obtain ev s1 where ev: "new_appointment_event (bs_env S) (bs_dec S) etype (clock (bs_env S) (tick s)) a (bs_currency S)
        (step_tick s) = ((Inr ev :: sched_error + appointment_event), s1)"
    and c: "outbox_create (bs_env S) (new_message topic (format_int (ap_id a)) (appointment_event_json ev)) s1 = (Inr (), t)"
    using assms by (auto simp: write_event_def on_ok_Inr now_run)
  have "s1 = step_tick (step_tick s)" using new_appointment_event_Inr [OF ev] by simp
  then have "enqueued s t topic (format_int (ap_id a)) (appointment_event_json ev)"
    using outbox_create_enqueued [OF c] by (auto simp: enqueued_def step_tick_def)
  then show ?thesis using new_appointment_event_Inr [OF ev] by blast
qed

lemma enqueued_ok: "outbox_ok s \<Longrightarrow> enqueued s t topic key payload \<Longrightarrow> outbox_ok t"
  by (auto simp: enqueued_def intro: outbox_ok_append)

lemma enqueued_keeps_inv:
  assumes "sched_inv s" "enqueued s t topic key payload"
  shows "sched_inv t"
proof (rule sched_inv_cong [OF assms(1)])
  show "outbox_ok t" using enqueued_ok assms by (auto simp: sched_inv_def)
qed (use assms(2) in \<open>auto simp: enqueued_def\<close>)

section \<open>The operations keep the invariant\<close>

lemma book_tx_Inr:
  assumes "book_tx S a s = (Inr a', t)"
  obtains bid s1 c s2 where
    "s1 = step_tick (step_tick (step_tick s))"
    "\<not> vehicle_taken s (ap_vehicle_id a) (db_time (bs_env S) (ap_start a)) (db_time (bs_env S) (ap_end a))"
    "\<exists>r \<in> set (hub_bays s). hb_id r = bid \<and> hb_hub_id r = ap_hub_id a \<and> hb_status r = bay_available"
    "create_appointment (bs_env S) (a\<lparr>ap_bay_id := bid\<rparr>) s1 = (Inr c, s2)"
    "a' = c\<lparr>ap_services := ap_services a\<rparr>"
    "write_event S AppointmentBooked topic_appointment_booked a' s2 = (Inr (), t)"
proof -
  obtain u0 u1 u2 bid c s2 where
    l: "lock_vehicle (bs_env S) (ap_vehicle_id a) s = (Inr (), u0)"
    and v: "vehicle_busy (bs_env S) (ap_vehicle_id a) (ap_start a) (ap_end a) u0 = (Inr False, u1)"
    and b: "free_bay (bs_env S) (ap_hub_id a) (ap_start a) (ap_end a) u1 = (Inr bid, u2)"
    and c: "create_appointment (bs_env S) (a\<lparr>ap_bay_id := bid\<rparr>) u2 = (Inr c, s2)"
    and a: "a' = c\<lparr>ap_services := ap_services a\<rparr>"
    and w: "write_event S AppointmentBooked topic_appointment_booked a' s2 = (Inr (), t)"
    using assms by (auto simp: book_tx_def on_ok_Inr Let_def split: if_splits)
  have u: "u0 = step_tick s" "u1 = step_tick u0" "u2 = step_tick u1"
    using lock_vehicle_run [OF l] v free_bay_Inr [OF b] by (auto simp: vehicle_busy_Inr)
  show ?thesis
    using that [of u2 bid c s2] c a w v free_bay_Inr [OF b] u by (simp add: vehicle_busy_Inr)
qed

lemma book_tx_keeps:
  assumes inv: "sched_inv s" and run: "book_tx S a s = (Inr a', t)" and st: "ap_status a = Booked"
  shows "sched_inv t"
proof -
  from run obtain bid s1 c s2 where
    s1: "s1 = step_tick (step_tick (step_tick s))"
    and free: "\<not> vehicle_taken s (ap_vehicle_id a) (db_time (bs_env S) (ap_start a)) (db_time (bs_env S) (ap_end a))"
    and c: "create_appointment (bs_env S) (a\<lparr>ap_bay_id := bid\<rparr>) s1 = (Inr c, s2)"
    and w: "write_event S AppointmentBooked topic_appointment_booked a' s2 = (Inr (), t)"
    by (rule book_tx_Inr)
  have "sched_inv s1" using inv s1 by simp
  then have "sched_inv s2" by (rule create_keeps_inv [OF _ c]) (use free st s1 in simp_all)
  then show ?thesis using write_event_Inr [OF w] enqueued_keeps_inv by blast
qed

lemma book_check_status:
  "book_check S caller req s = (Inr a, t) \<Longrightarrow> ap_status a = Booked"
  by (auto simp: book_check_def on_ok_Inr Let_def split: prod.splits if_splits)

lemma book_keeps:
  assumes "directories_read_only S"
  shows "keeps sched_inv (book S caller req)"
proof (rule keepsI)
  fix s r t
  assume inv: "sched_inv s" and run: "book S caller req s = (r, t)"
  obtain q u where c: "book_check S caller req s = (q, u)" by fastforce
  have u: "sched_inv u"
    using keepsD [OF keeps_reads_only [OF tick_free_sched_inv reads_only_book_check [OF assms]] c inv] .
  show "sched_inv t"
  proof (cases q)
    case (Inl e)
    then show ?thesis using run c u by (simp add: book_def on_ok_def)
  next
    case (Inr a)
    have st: "ap_status a = Booked" by (rule book_check_status [OF c [unfolded Inr]])
    have tx: "keeps sched_inv (in_tx S (book_tx S a))"
      by (rule sched_tx.tx_keeps [OF grows_booking_bodies(1)]) (rule book_tx_keeps [OF _ _ st])
    have "in_tx S (book_tx S a) u = (r, t)" using run c Inr by (simp add: book_def on_ok_def)
    then show ?thesis using keepsD [OF tx] u by metis
  qed
qed

lemma cancel_tx_Inr:
  assumes "cancel_tx S a aid s = (Inr a', t)"
  obtains s1 u where "cancel_appointment (bs_env S) aid s = (Inr (), s1)"
    "a' = a\<lparr>ap_status := Cancelled, ap_updated := u\<rparr>"
    "write_event S AppointmentCancelled topic_appointment_cancelled a' (step_tick s1) = (Inr (), t)"
  using assms by (auto simp: cancel_tx_def on_ok_Inr now_run Let_def)

lemma cancel_keeps:
  assumes "directories_read_only S"
  shows "keeps sched_inv (cancel S caller aid)"
proof -
  have d: "keeps sched_inv (bs_customers S tok)" for tok
    using assms by (simp add: directories_read_only_def keeps_reads_only)
  have tx: "keeps sched_inv (in_tx S (cancel_tx S a aid))" for a
  proof (rule sched_tx.tx_keeps [OF grows_booking_bodies(2)])
    fix s a' t
    assume inv: "sched_inv s" and run: "cancel_tx S a aid s = (Inr a', t)"
    from run obtain s1 where c: "cancel_appointment (bs_env S) aid s = (Inr (), s1)"
      and w: "write_event S AppointmentCancelled topic_appointment_cancelled a' (step_tick s1) = (Inr (), t)"
      by (rule cancel_tx_Inr)
    have "sched_inv (step_tick s1)" using cancel_keeps_inv [OF inv c] by simp
    then show "sched_inv t" using write_event_Inr [OF w] enqueued_keeps_inv by metis
  qed
  show ?thesis unfolding cancel_def
    by (intro keeps_intros d tx keeps_reads_only [OF tick_free_sched_inv reads_only_loads(2)] tick_free_sched_inv)
qed

lemma complete_tx_Inr:
  assumes "complete_tx S aid p s = (Inr u, t)"
  obtains s1 where "complete_appointment (bs_env S) aid s = (Inr (), s1)"
    "enqueued s1 t topic_service_completed (format_int aid) p"
  using assms that by (auto simp: complete_tx_def on_ok_Inr dest: outbox_create_enqueued)

lemma complete_keeps: "keeps sched_inv (complete S aid)"
proof -
  have tx: "keeps sched_inv (in_tx S (complete_tx S aid p))" for p
  proof (rule sched_tx.tx_keeps [OF grows_booking_bodies(3)])
    fix s t :: "'a sched_db" and u
    assume inv: "sched_inv s" and run: "complete_tx S aid p s = (Inr u, t)"
    from run obtain s1 where c: "complete_appointment (bs_env S) aid s = (Inr (), s1)"
      and w: "enqueued s1 t topic_service_completed (format_int aid) p"
      by (rule complete_tx_Inr)
    show "sched_inv t" by (rule enqueued_keeps_inv [OF complete_keeps_inv [OF inv c] w])
  qed
  show ?thesis unfolding complete_def
    by (intro keeps_intros tx keeps_reads_only [OF tick_free_sched_inv reads_only_loads(2)] tick_free_sched_inv)
qed

text \<open>The relay changes nothing but the outbox.\<close>

definition sched_tables :: "'d sched_db \<Rightarrow> _" where
  "sched_tables s = (appointments s, appt_bays s, appt_vehicles s, appt_services s, appt_seq s, outbox_seq s)"

lemma relay_tables:
  "sched_tables (relay_once (fetch_unpublished E) (mark_published E) (publish E) s) = sched_tables s"
  by (subst outbox_frame_update [OF relay_once_frame]) (simp add: sched_tables_def)

lemma relay_keeps:
  assumes "sched_inv s"
  shows "sched_inv (relay_once (fetch_unpublished E) (mark_published E) (publish E) s)"
proof (rule sched_inv_cong [OF assms])
  show "outbox_ok (relay_once (fetch_unpublished E) (mark_published E) (publish E) s)"
    using assms by (intro relay_once_ok) (simp add: sched_inv_def)
qed (use relay_tables [of E s] in \<open>simp_all add: sched_tables_def\<close>)

section \<open>Reachable states\<close>

text \<open>What can happen to the database: a call of the service, one run of the relay, or new dealership
  data replacing the catalog tables. Environment and caller vary from step to step.\<close>

datatype 'd operation =
    OpBook "'d booking_service" principal booking_request
  | OpCancel "'d booking_service" principal int
  | OpComplete "'d booking_service" int
  | OpMyAppointments "'d booking_service" principal
  | OpHubDay "'d booking_service" int string
  | OpAvailability "'d booking_service" int string "int list"
  | OpRelay env
  | OpCatalog "hub_row list" "hub_bay_row list" "'d catalog_row list"

fun op_allowed :: "'d operation \<Rightarrow> bool" where
  "op_allowed (OpBook S caller req) = directories_read_only S"
| "op_allowed (OpCancel S caller aid) = directories_read_only S"
| "op_allowed (OpMyAppointments S caller) = directories_read_only S"
| "op_allowed _ = True"

fun run_op :: "'d operation \<Rightarrow> 'd sched_db \<Rightarrow> 'd sched_db" where
  "run_op (OpBook S caller req) s = snd (book S caller req s)"
| "run_op (OpCancel S caller aid) s = snd (cancel S caller aid s)"
| "run_op (OpComplete S aid) s = snd (complete S aid s)"
| "run_op (OpMyAppointments S caller) s = snd (my_appointments S caller s)"
| "run_op (OpHubDay S hid date) s = snd (hub_day S hid date s)"
| "run_op (OpAvailability S hid date ids) s = snd (availability S hid date ids s)"
| "run_op (OpRelay E) s = relay_once (fetch_unpublished E) (mark_published E) (publish E) s"
| "run_op (OpCatalog hs bs cs) s = s\<lparr>hubs := hs, hub_bays := bs, catalog := cs\<rparr>"

definition empty_tables :: "'d sched_db \<Rightarrow> bool" where
  "empty_tables s \<longleftrightarrow> appointments s = [] \<and> appt_bays s = [] \<and> appt_vehicles s = [] \<and> appt_services s = [] \<and>
     outbox_rows s = [] \<and> kafka_log s = []"

inductive sched_reachable :: "'d sched_db \<Rightarrow> bool" where
  migrated: "empty_tables s \<Longrightarrow> sched_reachable s"
| operate: "sched_reachable s \<Longrightarrow> op_allowed x \<Longrightarrow> sched_reachable (run_op x s)"

inductive_cases sched_reachableE: "sched_reachable s"

lemma empty_tables_inv: "empty_tables s \<Longrightarrow> sched_inv s"
  by (simp add: empty_tables_def sched_inv_def sched_inv_defs outbox_ok_def outbox_valid_def
      outbox.delivered_def outbox_messages_def)

lemma reads_only_queries:
  assumes "directories_read_only S"
  shows "reads_only (my_appointments S caller)"
proof -
  have d: "reads_only (bs_customers S tok)" for tok using assms by (simp add: directories_read_only_def)
  show ?thesis unfolding my_appointments_def by (intro keeps_intros d)
qed

lemma reads_only_hub_day: "reads_only (hub_day S hid date)"
  unfolding hub_day_def Let_def by (intro keeps_intros)

lemma reads_only_prod: "(\<And>x y. reads_only (g x y)) \<Longrightarrow> reads_only (case p of (x, y) \<Rightarrow> g x y)"
  by (cases p) auto

lemma reads_only_availability: "reads_only (availability S hid date ids)"
  unfolding availability_def Let_def by (intro keeps_intros reads_only_prod)

lemma run_op_keeps:
  assumes "op_allowed x" "sched_inv s"
  shows "sched_inv (run_op x s)"
proof -
  have ro: "reads_only m \<Longrightarrow> sched_inv (snd (m s))" for m :: "('a sched_db, sched_error, 'b) prog"
    using keeps_reads_only [OF tick_free_sched_inv] assms(2) by (auto simp: keeps_def)
  show ?thesis
  proof (cases x)
    case (OpBook S caller req)
    then show ?thesis using assms book_keeps by (auto simp: keeps_def)
  next
    case (OpCancel S caller aid)
    then show ?thesis using assms cancel_keeps by (auto simp: keeps_def)
  next
    case (OpComplete S aid)
    then show ?thesis using assms complete_keeps by (auto simp: keeps_def)
  next
    case (OpMyAppointments S caller)
    then show ?thesis using assms
      by (simp add: keepsD [OF keeps_reads_only [OF tick_free_sched_inv reads_only_queries] surjective_pairing])
  next
    case (OpHubDay S hid date)
    then show ?thesis using assms
      by (simp add: keepsD [OF keeps_reads_only [OF tick_free_sched_inv reads_only_hub_day] surjective_pairing])
  next
    case (OpAvailability S hid date ids)
    then show ?thesis using assms
      by (simp add: keepsD [OF keeps_reads_only [OF tick_free_sched_inv reads_only_availability] surjective_pairing])
  next
    case (OpRelay E)
    then show ?thesis using assms relay_keeps by simp
  next
    case (OpCatalog hs bs cs)
    have "outbox_ok s" using assms(2) by (simp add: sched_inv_def)
    then have "outbox_ok (s\<lparr>hubs := hs, hub_bays := bs, catalog := cs\<rparr>)" by (rule outbox_ok_cong) simp_all
    then have "sched_inv (s\<lparr>hubs := hs, hub_bays := bs, catalog := cs\<rparr>)"
      by (intro sched_inv_cong [OF assms(2)]) simp_all
    then show ?thesis using OpCatalog by simp
  qed
qed

lemma reachable_inv: "sched_reachable s \<Longrightarrow> sched_inv s"
  by (induction rule: sched_reachable.induct) (auto intro: empty_tables_inv run_op_keeps)

end
