(* ===== verification/BookingSpec.thy ===== *)
theory BookingSpec
  imports BookingProofs
begin

text \<open>What a successful and a failed call of the booking service do, stated over the tables: the lemmas
  the properties of scheduler-service rest on.\<close>

section \<open>Book\<close>

lemma set_tick_fields [simp]:
  "hubs (s\<lparr>tick := n\<rparr>) = hubs s" "hub_bays (s\<lparr>tick := n\<rparr>) = hub_bays s"
  "vehicle_taken (s\<lparr>tick := n\<rparr>) = vehicle_taken s" "bay_taken (s\<lparr>tick := n\<rparr>) = bay_taken s"
  by (simp_all add: fun_eq_iff vehicle_taken_def bay_taken_def)

text \<open>What the checks before the transaction have established, at the time \<open>n\<close> they read.\<close>

definition booking_admitted ::
    "'d booking_service \<Rightarrow> booking_request \<Rightarrow> 'd sched_db \<Rightarrow> hub \<Rightarrow> 'd catalog_service list \<Rightarrow> nat \<Rightarrow> bool" where
  "booking_admitted S req s h svcs n \<longleftrightarrow>
     (\<exists>r \<in> set (hubs s). hr_id r = rq_hub_id req \<and> hr_active r \<and> to_hub (hub_columns r) = Inr h) \<and>
     rq_service_ids req \<noteq> [] \<and> resolve_ids (active_services (bs_env S) s) [] (rq_service_ids req) = Inr svcs \<and>
     clock (bs_env S) n < rq_start req \<and>
     fst (opening_hours h (rq_start req) (hub_location S h)) \<le> rq_start req \<and>
     rq_start req + total_duration svcs \<le> snd (opening_hours h (rq_start req) (hub_location S h))"

definition booking_entity ::
    "'d booking_service \<Rightarrow> booking_request \<Rightarrow> int \<Rightarrow> 'd catalog_service list \<Rightarrow> 'd appointment" where
  "booking_entity S req cid svcs =
     \<lparr>ap_id = 0, ap_hub_id = rq_hub_id req, ap_customer_id = cid, ap_vehicle_id = rq_vehicle_id req, ap_bay_id = 0,
      ap_start = rq_start req, ap_end = rq_start req + total_duration svcs, ap_status = Booked,
      ap_total = foldl (dec_add (bs_dec S)) (dec_zero (bs_dec S)) (map cs_fee svcs),
      ap_services = map (\<lambda>svc. \<lparr>as_service_id = cs_id svc, as_name = cs_name svc, as_fee = cs_fee svc\<rparr>) svcs,
      ap_created = zero_time, ap_updated = zero_time\<rparr>"

lemma active_services_tick [simp]: "active_services E (step_tick s) = active_services E s"
  by (simp add: active_services_def)

lemma book_check_Inr:
  assumes "book_check S caller req s = (Inr a, t)"
  obtains h svcs n cust owned u v where
    "booking_admitted S req s h svcs n"
    "bs_customers S (pr_token caller) u = (Inr cust, v)"
    "bs_vehicles S (pr_token caller) (cu_id cust) v = (Inr owned, t)"
    "\<exists>x \<in> set owned. ve_id x = rq_vehicle_id req"
    "a = booking_entity S req (cu_id cust) svcs"
proof -
  have "\<exists>h u1 svcs u2 cust v owned. get_hub (bs_env S) (rq_hub_id req) s = (Inr h, u1) \<and>
      resolve_services S (rq_service_ids req) u1 = (Inr svcs, u2) \<and>
      clock (bs_env S) (tick u2) < rq_start req \<and>
      \<not> (rq_start req < fst (opening_hours h (rq_start req) (hub_location S h)) \<or>
         snd (opening_hours h (rq_start req) (hub_location S h)) < rq_start req + total_duration svcs) \<and>
      bs_customers S (pr_token caller) (step_tick u2) = (Inr cust, v) \<and>
      bs_vehicles S (pr_token caller) (cu_id cust) v = (Inr owned, t) \<and>
      (\<exists>x \<in> set owned. ve_id x = rq_vehicle_id req) \<and>
      a = (booking_entity S req (cu_id cust) svcs)\<lparr>ap_hub_id := hub_id h\<rparr>"
    using assms unfolding book_check_def on_ok_Inr now_run Let_def case_prod_beta booking_entity_def
    by (clarsimp simp: on_ok_Inr split: if_split_asm) blast
  then obtain h u1 svcs u2 cust v owned where
    h: "get_hub (bs_env S) (rq_hub_id req) s = (Inr h, u1)"
    and r: "resolve_services S (rq_service_ids req) u1 = (Inr svcs, u2)"
    and t: "clock (bs_env S) (tick u2) < rq_start req"
      "\<not> (rq_start req < fst (opening_hours h (rq_start req) (hub_location S h)) \<or>
         snd (opening_hours h (rq_start req) (hub_location S h)) < rq_start req + total_duration svcs)"
    and c: "bs_customers S (pr_token caller) (step_tick u2) = (Inr cust, v)"
      "bs_vehicles S (pr_token caller) (cu_id cust) v = (Inr owned, t)"
      "\<exists>x \<in> set owned. ve_id x = rq_vehicle_id req"
    and a: "a = (booking_entity S req (cu_id cust) svcs)\<lparr>ap_hub_id := hub_id h\<rparr>"
    by (elim exE conjE) (rule that)
  have u: "u1 = step_tick s" "hub_id h = rq_hub_id req" using h get_hub_id [OF h] by (auto simp: get_hub_Inr)
  have sv: "rq_service_ids req \<noteq> []" "resolve_ids (active_services (bs_env S) s) [] (rq_service_ids req) = Inr svcs"
    using r u by (auto simp: resolve_services_def on_ok_Inr list_services_Inr split: if_splits)
  have hr: "\<exists>r \<in> set (hubs s). hr_id r = rq_hub_id req \<and> hr_active r \<and> to_hub (hub_columns r) = Inr h"
    by (rule get_hub_row [OF h])
  have e: "(booking_entity S req c svcs)\<lparr>ap_hub_id := rq_hub_id req\<rparr> = booking_entity S req c svcs" for c
    by (simp add: booking_entity_def)
  have adm: "booking_admitted S req s h svcs (tick u2)" using hr sv t by (simp add: booking_admitted_def)
  show ?thesis using that [OF adm c] a u e by simp
qed

lemma booking_entity_sel [simp]:
  "ap_hub_id (booking_entity S req c svcs) = rq_hub_id req" "ap_vehicle_id (booking_entity S req c svcs) = rq_vehicle_id req"
  "ap_customer_id (booking_entity S req c svcs) = c" "ap_start (booking_entity S req c svcs) = rq_start req"
  "ap_end (booking_entity S req c svcs) = rq_start req + total_duration svcs"
  "ap_status (booking_entity S req c svcs) = Booked"
  by (simp_all add: booking_entity_def)

lemma enqueued_step: "enqueued s t topic key p \<Longrightarrow> enqueued s (step_tick t) topic key p"
proof -
  assume "enqueued s t topic key p"
  then obtain n c where t: "t = s\<lparr>tick := n, outbox_seq := outbox_seq s + 1,
        outbox_rows := outbox_rows s @ [\<lparr>ob_id = outbox_seq s, ob_topic = topic, ob_key = key,
          ob_payload = p, ob_created = c, ob_published = None\<rparr>]\<rparr>"
    by (auto simp: enqueued_def)
  show ?thesis unfolding enqueued_def
    by (rule exI [of _ "Suc n"], rule exI [of _ c]) (simp add: t step_tick_def)
qed

text \<open>A successful booking, start to finish.\<close>

lemma book_Inr:
  assumes dir: "directories_read_only S" and run: "book S caller req s = (Inr a, t)"
  obtains h svcs n cust u v owned m row vrow brow w where
    "booking_admitted S req s h svcs n"
    "bs_customers S (pr_token caller) u = (Inr cust, v)"
    "bs_vehicles S (pr_token caller) (cu_id cust) v = (Inr owned, m)"
    "\<exists>x \<in> set owned. ve_id x = rq_vehicle_id req"
    "\<not> vehicle_taken s (rq_vehicle_id req) (db_time (bs_env S) (rq_start req))
        (db_time (bs_env S) (rq_start req + total_duration svcs))"
    "\<exists>r \<in> set (hub_bays s). hb_id r = ap_bay_id a \<and> hb_hub_id r = rq_hub_id req \<and> hb_status r = bay_available"
    "a = (booking_entity S req (cu_id cust) svcs)\<lparr>ap_bay_id := ap_bay_id a, ap_id := appt_seq s,
        ap_created := ap_created a, ap_updated := ap_created a\<rparr>"
    "created (bs_env S) a (ap_created a) s w row vrow brow"
    "\<exists>ev. enqueued w t topic_appointment_booked (format_int (ap_id a)) (appointment_event_json ev) \<and>
       ev_event_type ev = AppointmentBooked \<and> st_id (ev_appointment ev) = ap_id a \<and> st_status (ev_appointment ev) = Booked"
proof -
  obtain e m where c: "book_check S caller req s = (Inr e, m)" and tx: "in_tx S (book_tx S e) m = (Inr a, t)"
    using run by (auto simp: book_def on_ok_Inr)
  from c obtain h svcs n cust owned u v where
    adm: "booking_admitted S req s h svcs n"
    and cu: "bs_customers S (pr_token caller) u = (Inr cust, v)"
    and ve: "bs_vehicles S (pr_token caller) (cu_id cust) v = (Inr owned, m)"
    and own: "\<exists>x \<in> set owned. ve_id x = rq_vehicle_id req"
    and e: "e = booking_entity S req (cu_id cust) svcs"
    by (rule book_check_Inr)
  obtain k where m: "m = s\<lparr>tick := k\<rparr>" using reads_onlyD [OF reads_only_book_check [OF dir] c] by blast
  obtain t0 where b: "book_tx S e (step_tick m) = (Inr a, t0)" and t: "t = step_tick t0"
    using tx by (auto simp: run_in_tx_Inr)
  from b obtain bid s1 x w where
    s1: "s1 = step_tick (step_tick (step_tick (step_tick m)))"
    and free: "\<not> vehicle_taken (step_tick m) (ap_vehicle_id e) (db_time (bs_env S) (ap_start e)) (db_time (bs_env S) (ap_end e))"
    and bay: "\<exists>r \<in> set (hub_bays (step_tick m)). hb_id r = bid \<and> hb_hub_id r = ap_hub_id e \<and> hb_status r = bay_available"
    and cr: "create_appointment (bs_env S) (e\<lparr>ap_bay_id := bid\<rparr>) s1 = (Inr x, w)"
    and ax: "a = x\<lparr>ap_services := ap_services e\<rparr>"
    and ev: "write_event S AppointmentBooked topic_appointment_booked a w = (Inr (), t0)"
    by (rule book_tx_Inr)
  from cr obtain row vrow brow where
    cre: "created (bs_env S) (e\<lparr>ap_bay_id := bid\<rparr>) (clock (bs_env S) (tick s1)) s1 w row vrow brow"
    and x: "x = e\<lparr>ap_bay_id := bid, ap_id := appt_seq s1, ap_created := clock (bs_env S) (tick s1),
          ap_updated := clock (bs_env S) (tick s1)\<rparr>"
    by (rule create_appointment_Inr) simp
  have same: "appt_seq s1 = appt_seq s" "bay_seq s1 = bay_seq s" "service_seq s1 = service_seq s"
      "appointments s1 = appointments s" "appt_vehicles s1 = appt_vehicles s" "appt_bays s1 = appt_bays s"
      "appt_services s1 = appt_services s" "hubs s1 = hubs s" "hub_bays s1 = hub_bays s" "catalog s1 = catalog s"
      "outbox_rows s1 = outbox_rows s" "outbox_seq s1 = outbox_seq s" "kafka_log s1 = kafka_log s"
      "bay_taken s1 = bay_taken s"
    by (simp_all add: s1 m)
  have a: "a = (booking_entity S req (cu_id cust) svcs)\<lparr>ap_bay_id := ap_bay_id a, ap_id := appt_seq s,
        ap_created := ap_created a, ap_updated := ap_created a\<rparr>" "ap_bay_id a = bid" "ap_created a = clock (bs_env S) (tick s1)"
    using ax x e same(1) by simp_all
  have "created (bs_env S) a (ap_created a) s w row vrow brow"
    using cre ax x e by (simp add: created_def same a(3))
  moreover have "\<exists>ev. enqueued w t topic_appointment_booked (format_int (ap_id a)) (appointment_event_json ev) \<and>
       ev_event_type ev = AppointmentBooked \<and> st_id (ev_appointment ev) = ap_id a \<and> st_status (ev_appointment ev) = Booked"
  proof -
    obtain evt where v: "enqueued w t0 topic_appointment_booked (format_int (ap_id a)) (appointment_event_json evt)"
      "ev_event_type evt = AppointmentBooked" "st_id (ev_appointment evt) = ap_id a" "st_status (ev_appointment evt) = ap_status a"
      using write_event_Inr [OF ev] by blast
    have "ap_status a = Booked" by (subst a(1)) simp
    moreover have "enqueued w t topic_appointment_booked (format_int (ap_id a)) (appointment_event_json evt)"
      unfolding t by (rule enqueued_step [OF v(1)])
    ultimately show ?thesis using v by auto
  qed
  moreover have "\<exists>r \<in> set (hub_bays s). hb_id r = ap_bay_id a \<and> hb_hub_id r = rq_hub_id req \<and> hb_status r = bay_available"
    using bay m a(2) e by simp
  ultimately show ?thesis using that adm cu ve own free m e a(1) by simp
qed

section \<open>Failures\<close>

lemma unchanged_refl [simp]: "unchanged s s"
  by (simp add: unchanged_def)

lemma unchanged_tick [simp]: "unchanged s (t\<lparr>tick := n\<rparr>) = unchanged s t" "unchanged s (step_tick t) = unchanged s t"
  by (simp_all add: unchanged_def)

lemma unchanged_reads_only: "reads_only m \<Longrightarrow> m s = (r, t) \<Longrightarrow> unchanged s t"
  using reads_onlyD [of m s r t] by auto

lemma unchanged_trans: "unchanged s t \<Longrightarrow> unchanged t u \<Longrightarrow> unchanged s u"
  by (simp add: unchanged_def)

lemma book_Inl_unchanged:
  assumes "directories_read_only S" "book S caller req s = (Inl e, t)"
  shows "unchanged s t"
proof -
  obtain q u where c: "book_check S caller req s = (q, u)" by fastforce
  have u: "unchanged s u" using unchanged_reads_only [OF reads_only_book_check [OF assms(1)] c] .
  show ?thesis
  proof (cases q)
    case (Inl f)
    then show ?thesis using assms(2) c u by (simp add: book_def on_ok_def)
  next
    case (Inr a)
    then have "in_tx S (book_tx S a) u = (Inl e, t)" using assms(2) c by (simp add: book_def on_ok_def)
    then show ?thesis using u sched_tx.tx_failed [OF grows_booking_bodies(1)] unchanged_trans by blast
  qed
qed

section \<open>Reads\<close>

lemma load_Inr:
  assumes "load E cond n s = (Inr as, t)"
  shows "\<exists>lines. as = map (\<lambda>r. to_appointment lines \<lparr>aj_row = r, aj_vehicle_id = first_vehicle s (ar_id r),
      aj_bay_id = first_bay s (ar_id r)\<rparr>) (take n (latest_first (filter cond (appointments s)))) \<and>
    (\<exists>ids. lines = service_joins s ids)"
proof -
  have tick: "first_vehicle (step_tick s) = first_vehicle s" "first_bay (step_tick s) = first_bay s"
      "service_joins (step_tick (step_tick s)) = service_joins s"
    by (simp_all add: fun_eq_iff first_vehicle_def first_bay_def service_joins_def service_name_def)
  let ?rows = "map (\<lambda>r. \<lparr>aj_row = r, aj_vehicle_id = first_vehicle s (ar_id r), aj_bay_id = first_bay s (ar_id r)\<rparr>)
      (take n (latest_first (filter cond (appointments s))))"
  show ?thesis
  proof (cases "?rows = []")
    case True
    then show ?thesis using assms by (auto simp: load_def on_ok_Inr query_Inr tick)
  next
    case False
    then have "as = map (to_appointment (service_joins s (map (\<lambda>j. ar_id (aj_row j)) ?rows))) ?rows"
      using assms by (auto simp: load_def on_ok_Inr query_Inr tick)
    then show ?thesis by (auto simp: comp_def)
  qed
qed

lemma to_appointment_sel [simp]:
  "ap_id (to_appointment ls j) = ar_id (aj_row j)" "ap_hub_id (to_appointment ls j) = ar_dealership_id (aj_row j)"
  "ap_customer_id (to_appointment ls j) = ar_customer_id (aj_row j)" "ap_start (to_appointment ls j) = ar_start (aj_row j)"
  "ap_end (to_appointment ls j) = ar_end (aj_row j)" "ap_status (to_appointment ls j) = ar_status (aj_row j)"
  "ap_vehicle_id (to_appointment ls j) = aj_vehicle_id j" "ap_bay_id (to_appointment ls j) = aj_bay_id j"
  by (simp_all add: to_appointment_def Let_def)

lemma set_latest_first [simp]: "set (latest_first rs) = set rs"
  by (simp add: latest_first_def)

lemma get_by_id_Inr:
  assumes "get_by_id E aid s = (Inr a, t)"
  shows "\<exists>n. t = s\<lparr>tick := n\<rparr>" "\<exists>r \<in> set (appointments s). ar_id r = aid \<and> ap_id a = aid \<and>
    ap_customer_id a = ar_customer_id r \<and> ap_status a = ar_status r \<and> ap_start a = ar_start r \<and>
    ap_hub_id a = ar_dealership_id r \<and> ap_vehicle_id a = first_vehicle s aid"
proof -
  show "\<exists>n. t = s\<lparr>tick := n\<rparr>" by (rule reads_onlyD [OF reads_only_loads(2) assms])
  obtain bs u where b: "load E (\<lambda>r. ar_id r = aid) 1 s = (Inr bs, u)"
      "(case bs of [] \<Rightarrow> fail (ErrNotFound (''appointment '' @ format_int aid)) | a # _ \<Rightarrow> ok a) u = (Inr a, t)"
    using assms unfolding get_by_id_def on_ok_Inr by blast
  then obtain as where l: "load E (\<lambda>r. ar_id r = aid) 1 s = (Inr (a # as), t)" by (cases bs) auto
  obtain r rs where "take 1 (latest_first (filter (\<lambda>r. ar_id r = aid) (appointments s))) = r # rs"
      and a: "\<exists>lines. a = to_appointment lines \<lparr>aj_row = r, aj_vehicle_id = first_vehicle s (ar_id r),
        aj_bay_id = first_bay s (ar_id r)\<rparr>"
    using load_Inr [OF l] by (auto simp: Cons_eq_map_conv)
  then have "r \<in> set (latest_first (filter (\<lambda>r. ar_id r = aid) (appointments s)))"
    by (metis in_set_takeD list.set_intros(1))
  then show "\<exists>r \<in> set (appointments s). ar_id r = aid \<and> ap_id a = aid \<and> ap_customer_id a = ar_customer_id r \<and>
      ap_status a = ar_status r \<and> ap_start a = ar_start r \<and> ap_hub_id a = ar_dealership_id r \<and>
      ap_vehicle_id a = first_vehicle s aid"
    using a by auto
qed

section \<open>Cancel and Complete\<close>

lemma cancel_Inr:
  assumes dir: "directories_read_only S" and run: "cancel S caller aid s = (Inr a, t)"
  obtains cust u r n w where
    "bs_customers S (pr_token caller) s = (Inr cust, u)"
    "r \<in> set (appointments s)" "ar_id r = aid" "ar_customer_id r = cu_id cust" "ar_status r = Booked"
    "clock (bs_env S) n < ar_start r" "ap_id a = aid" "ap_status a = Cancelled"
    "\<exists>x. restated aid {Booked} Cancelled (\<lambda>_. BayCancelled) (\<lambda>_. ServiceCancelled) x s w"
    "\<exists>ev. enqueued w t topic_appointment_cancelled (format_int aid) (appointment_event_json ev) \<and>
       ev_event_type ev = AppointmentCancelled \<and> st_id (ev_appointment ev) = aid \<and> st_status (ev_appointment ev) = Cancelled"
proof -
  obtain cust u0 a0 u1 where
    c: "bs_customers S (pr_token caller) s = (Inr cust, u0)"
    and g: "get_by_id (bs_env S) aid u0 = (Inr a0, u1)"
    and own: "ap_customer_id a0 = cu_id cust" and st: "ap_status a0 = Booked"
    and t: "clock (bs_env S) (tick u1) < ap_start a0"
    and tx: "in_tx S (cancel_tx S a0 aid) (step_tick u1) = (Inr a, t)"
    using run by (auto simp: cancel_def on_ok_Inr now_run split: if_splits)
  obtain n0 where u0: "u0 = s\<lparr>tick := n0\<rparr>"
    using reads_onlyD [of "bs_customers S (pr_token caller)" s "Inr cust" u0] c dir by (auto simp: directories_read_only_def)
  obtain n1 where u1: "u1 = u0\<lparr>tick := n1\<rparr>" using get_by_id_Inr(1) [OF g] by blast
  obtain r where r: "r \<in> set (appointments s)" "ar_id r = aid" "ap_id a0 = aid" "ap_customer_id a0 = ar_customer_id r"
      "ap_status a0 = ar_status r" "ap_start a0 = ar_start r"
    using get_by_id_Inr(2) [OF g] by (auto simp: u0)
  obtain t0 where b: "cancel_tx S a0 aid (step_tick (step_tick u1)) = (Inr a, t0)" and t0: "t = step_tick t0"
    using tx by (auto simp: run_in_tx_Inr)
  from b obtain s1 x where ca: "cancel_appointment (bs_env S) aid (step_tick (step_tick u1)) = (Inr (), s1)"
    and a: "a = a0\<lparr>ap_status := Cancelled, ap_updated := x\<rparr>"
    and ev: "write_event S AppointmentCancelled topic_appointment_cancelled a (step_tick s1) = (Inr (), t0)"
    by (rule cancel_tx_Inr)
  have re: "\<exists>x. restated aid {Booked} Cancelled (\<lambda>_. BayCancelled) (\<lambda>_. ServiceCancelled) x s (step_tick s1)"
    using cancel_appointment_Inr [OF ca] by (auto simp: restated_def u1 u0)
  obtain evt where e: "enqueued (step_tick s1) t0 topic_appointment_cancelled (format_int (ap_id a)) (appointment_event_json evt)"
      "ev_event_type evt = AppointmentCancelled" "st_id (ev_appointment evt) = ap_id a" "st_status (ev_appointment evt) = ap_status a"
    using write_event_Inr [OF ev] by blast
  have ai: "ap_id a = aid" "ap_status a = Cancelled" using a r(3) by simp_all
  have "enqueued (step_tick s1) t topic_appointment_cancelled (format_int aid) (appointment_event_json evt)"
    using enqueued_step [OF e(1)] by (simp add: t0 ai)
  then show ?thesis
    using that [OF c r(1,2) _ _ _ ai re] own st t r e ai by auto
qed

lemma cancel_Inl_unchanged:
  assumes dir: "directories_read_only S" and run: "cancel S caller aid s = (Inl e, t)"
  shows "unchanged s t"
proof -
  have c: "reads_only (bs_customers S tok)" for tok using dir by (simp add: directories_read_only_def)
  note ro = unchanged_reads_only [OF c] unchanged_reads_only [OF reads_only_loads(2)]
  obtain q u where q: "bs_customers S (pr_token caller) s = (q, u)" by fastforce
  have u: "unchanged s u" by (rule ro(1) [OF q])
  show ?thesis
  proof (cases q)
    case (Inr cust)
    obtain p v where p: "get_by_id (bs_env S) aid u = (p, v)" by fastforce
    have v: "unchanged s v" using u ro(2) [OF p] by (rule unchanged_trans)
    show ?thesis
    proof (cases p)
      case (Inr a)
      have "t = v \<or> t = step_tick v \<or> in_tx S (cancel_tx S a aid) (step_tick v) = (Inl e, t)"
        using run q \<open>q = Inr cust\<close> p Inr by (auto simp: cancel_def on_ok_def fail_def now_def split: if_splits)
      moreover have "unchanged (step_tick v) t" if "in_tx S (cancel_tx S a aid) (step_tick v) = (Inl e, t)"
        by (rule sched_tx.tx_failed [OF grows_booking_bodies(2) that])
      ultimately show ?thesis using v unchanged_trans [of s "step_tick v" t] by auto
    qed (use run q p v Inr in \<open>auto simp: cancel_def on_ok_def\<close>)
  qed (use run q u in \<open>auto simp: cancel_def on_ok_def\<close>)
qed

lemma complete_Inr:
  assumes al: "rows_aligned s" and run: "complete S aid s = (Inr a, t)"
  obtains r n w ev where
    "r \<in> set (appointments s)" "ar_id r = aid" "ar_status r \<in> {Booked, CheckedIn, InProgress}"
    "ap_id a = aid" "ap_status a = Completed" "ap_updated a = clock (bs_env S) n"
    "\<exists>x. restated aid {Booked, CheckedIn, InProgress} Completed
        (\<lambda>st. if st = Reserved \<or> st = Occupied then Released else st)
        (\<lambda>st. if st \<noteq> ServiceCancelled then Done else st) x s w"
    "enqueued w t topic_service_completed (format_int aid) (service_completed_json ev)"
    "sc_appointment_id ev = aid" "sc_vehicle_id ev = ap_vehicle_id a" "sc_completed_at ev = new_time (clock (bs_env S) n)"
    "sc_event_type ev = ServiceCompleted"
    "sc_dealership_id ev = ar_dealership_id r" "sc_customer_id ev = ar_customer_id r"
    "map_result (completed_line_of (bs_dec S) (bs_currency S)) (ap_services a) = Inr (sc_services ev)"
proof -
  obtain a0 u1 ev u2 where
    g: "get_by_id (bs_env S) aid s = (Inr a0, u1)"
    and e: "new_service_completed_event (bs_env S) (bs_dec S) (clock (bs_env S) (tick u1)) a0 (bs_currency S) (step_tick u1)
        = (Inr ev, u2)"
    and tx: "in_tx S (complete_tx S aid (service_completed_json ev)) u2 = (Inr (), t)"
    and a: "a = a0\<lparr>ap_status := Completed, ap_updated := clock (bs_env S) (tick u1)\<rparr>"
    using run by (auto simp: complete_def on_ok_Inr now_run)
  obtain n1 where u1: "u1 = s\<lparr>tick := n1\<rparr>" using get_by_id_Inr(1) [OF g] by blast
  obtain r where r: "r \<in> set (appointments s)" "ar_id r = aid" "ap_id a0 = aid" "ap_customer_id a0 = ar_customer_id r"
      "ap_status a0 = ar_status r" "ap_start a0 = ar_start r" "ap_hub_id a0 = ar_dealership_id r"
    using get_by_id_Inr(2) [OF g] by auto
  have ev: "u2 = step_tick (step_tick u1)" "sc_appointment_id ev = aid" "sc_vehicle_id ev = ap_vehicle_id a0"
      "sc_completed_at ev = new_time (clock (bs_env S) (tick u1))" "sc_dealership_id ev = ap_hub_id a0"
      "sc_customer_id ev = ap_customer_id a0" "sc_event_type ev = ServiceCompleted"
      "map_result (completed_line_of (bs_dec S) (bs_currency S)) (ap_services a0) = Inr (sc_services ev)"
    using e r(3) by (auto simp: new_service_completed_Inr)
  obtain t0 where b: "complete_tx S aid (service_completed_json ev) (step_tick u2) = (Inr (), t0)" and t0: "t = step_tick t0"
    using tx by (auto simp: run_in_tx_Inr)
  from b obtain w where co: "complete_appointment (bs_env S) aid (step_tick u2) = (Inr (), w)"
    and en: "enqueued w t0 topic_service_completed (format_int aid) (service_completed_json ev)"
    by (rule complete_tx_Inr)
  have re: "\<exists>x. restated aid {Booked, CheckedIn, InProgress} Completed
        (\<lambda>st. if st = Reserved \<or> st = Occupied then Released else st)
        (\<lambda>st. if st \<noteq> ServiceCancelled then Done else st) x s w"
    using complete_appointment_Inr [OF co] by (auto simp: restated_def ev(1) u1)
  then obtain r' where r': "r' \<in> set (appointments s)" "ar_id r' = aid" "ar_status r' \<in> {Booked, CheckedIn, InProgress}"
    by (auto simp: restated_def)
  have "r' = r" using al r(1,2) r'(1,2) unfolding rows_aligned_def distinct_map inj_on_def by blast
  moreover have ai: "ap_id a = aid" "ap_status a = Completed" "ap_updated a = clock (bs_env S) (tick u1)"
      "ap_vehicle_id a = ap_vehicle_id a0" "ap_services a = ap_services a0"
    using a r(3) by simp_all
  ultimately show ?thesis
    using that [OF r(1,2) _ ai(1-3) re] r'(3) enqueued_step [OF en] ev r by (simp add: t0)
qed

end
