(* ===== verification/SchedSample.thy ===== *)
theory SchedSample
  imports BookingSpec
begin

text \<open>A small concrete deployment on which the properties' hypotheses are met: one hub open 08:00 to
  18:00 UTC with two bays, two services of 60 and 30 minutes, one customer with vehicle 7, a clock
  standing at 1970-01-01T00:00Z and no faults.\<close>

definition sample_env :: env where
  "sample_env = \<lparr>clock = (\<lambda>_. 0), fault = (\<lambda>_. None), uuid_at = (\<lambda>_. ''id''),
     collation = (\<lambda>s. s), db_time = (\<lambda>t. t), broker = (\<lambda>_. Acked)\<rparr>"

definition sample_customers :: "string \<Rightarrow> ('d sched_db, sched_error, customer) prog" where
  "sample_customers tok = (if tok = ''jane'' then ok \<lparr>cu_id = 42, cu_name = ''Jane'', cu_email = ''j@x''\<rparr>
     else fail ErrNoCustomerProfile)"

definition sample_vehicles :: "string \<Rightarrow> int \<Rightarrow> ('d sched_db, sched_error, vehicle list) prog" where
  "sample_vehicles tok cid = ok [\<lparr>ve_id = 7, ve_vin = ''V'', ve_plate = ''P''\<rparr>]"

definition sample_service :: "dec booking_service" where
  "sample_service = \<lparr>bs_env = sample_env, bs_dec = dec_ops, bs_load_location = (\<lambda>_. None),
     bs_customers = sample_customers, bs_vehicles = sample_vehicles, bs_currency = ''USD''\<rparr>"

definition sample_hub :: hub_row where
  "sample_hub = \<lparr>hr_id = 1, hr_name = ''North'', hr_address = ''1 Main'', hr_open = 28800000000,
     hr_close = 64800000000, hr_timezone = ''UTC'', hr_active = True, hr_updated = 0\<rparr>"

definition sample_bays :: "hub_bay_row list" where
  "sample_bays = [\<lparr>hb_id = 11, hb_hub_id = 1, hb_code = ''A'', hb_status = bay_available, hb_updated = 0\<rparr>,
     \<lparr>hb_id = 12, hb_hub_id = 1, hb_code = ''B'', hb_status = bay_available, hb_updated = 0\<rparr>]"

definition sample_catalog :: "dec catalog_row list" where
  "sample_catalog = [\<lparr>cr_id = 5, cr_name = ''Oil'', cr_type = ''M'', cr_fee = Dec 4500 (- 2), cr_minutes = 60,
       cr_active = True, cr_updated = 0\<rparr>,
     \<lparr>cr_id = 6, cr_name = ''Tyres'', cr_type = ''M'', cr_fee = Dec 2050 (- 2), cr_minutes = 30,
       cr_active = True, cr_updated = 0\<rparr>]"

definition sample_db :: "dec sched_db" where
  "sample_db = \<lparr>tick = 0, outbox_rows = [], outbox_seq = 1, kafka_log = [], hubs = [sample_hub],
     hub_bays = sample_bays, catalog = sample_catalog, appointments = [], appt_bays = [], appt_vehicles = [],
     appt_services = [], appt_seq = 1, bay_seq = 1, vehicle_seq = 1, service_seq = 1\<rparr>"

definition sample_caller :: principal where
  "sample_caller = \<lparr>pr_user_id = ''u1'', pr_role = role_customer, pr_token = ''jane''\<rparr>"

text \<open>1970-01-02T09:00Z.\<close>

definition sample_request :: booking_request where
  "sample_request = \<lparr>rq_hub_id = 1, rq_vehicle_id = 7, rq_service_ids = [5, 6, 5], rq_start = 118800000000000\<rparr>"

lemmas sample_defs = sample_env_def sample_customers_def sample_vehicles_def sample_service_def sample_hub_def
  sample_bays_def sample_catalog_def sample_db_def sample_caller_def sample_request_def

lemma sample_directories: "directories_read_only sample_service"
  by (simp add: directories_read_only_def sample_service_def sample_customers_def sample_vehicles_def keeps_intros)

lemma sample_migrated: "empty_tables sample_db"
  by (simp add: empty_tables_def sample_db_def)

definition sample_hub_entity :: hub where
  "sample_hub_entity = \<lparr>hub_id = 1, hub_name = ''North'', hub_address = ''1 Main'', hub_open = 480 * minute_ns,
     hub_close = 1080 * minute_ns, hub_timezone = ''UTC'', hub_active = True, hub_bay_count = 0\<rparr>"

lemma sample_to_hub: "to_hub (hub_columns sample_hub) = Inr sample_hub_entity"
  by (simp add: to_hub_def hub_columns_def sample_hub_def sample_hub_entity_def parse_hour_to_char)

lemma sample_opening:
  "opening_hours sample_hub_entity 118800000000000 UTC = (115200000000000, 151200000000000)"
  by code_simp

section \<open>A booking, run\<close>

lemmas run_defs = on_ok_def ok_def fail_def map_err_def lift_result_def now_def new_uuid_def sql_def query_def
  step_tick_def range_query_def run_in_tx_def

definition sample_services :: "dec catalog_service list" where
  "sample_services = map to_service sample_catalog"

definition sample_entity :: "dec appointment" where
  "sample_entity = booking_entity sample_service sample_request 42 sample_services"

lemma sample_active: "active_services sample_env (sample_db\<lparr>tick := n\<rparr>) = sample_services"
  by (simp add: active_services_def sample_services_def sample_defs)

lemma sample_duration: "total_duration sample_services = 5400000000000"
  by code_simp

lemma sample_resolve: "resolve_ids sample_services [] [5, 6, 5] = Inr sample_services"
  by code_simp

lemma sample_env_sel:
  "bs_env sample_service = sample_env" "hub_location sample_service sample_hub_entity = UTC"
  "fault sample_env = (\<lambda>_. None)" "clock sample_env = (\<lambda>_. 0)"
  by (simp_all add: sample_service_def hub_location_def sample_env_def)

lemma sample_get_hub: "get_hub sample_env 1 sample_db = (Inr sample_hub_entity, sample_db\<lparr>tick := Suc 0\<rparr>)"
  using sample_to_hub
  by (simp add: get_hub_def run_defs sample_env_def sample_db_def) (simp add: sample_hub_def)

lemma sample_resolve_services:
  "resolve_services sample_service [5, 6, 5] (sample_db\<lparr>tick := Suc 0\<rparr>) =
     (Inr sample_services, sample_db\<lparr>tick := Suc (Suc 0)\<rparr>)"
  by (simp add: resolve_services_def list_services_def run_defs sample_env_sel sample_active sample_resolve
      del: resolve_ids.simps)

lemma sample_check:
  "book_check sample_service sample_caller sample_request sample_db =
     (Inr sample_entity, sample_db\<lparr>tick := Suc (Suc (Suc 0))\<rparr>)"
proof -
  have rq: "rq_hub_id sample_request = 1" "rq_service_ids sample_request = [5, 6, 5]"
    "rq_start sample_request = 118800000000000" "rq_vehicle_id sample_request = 7"
    by (simp_all add: sample_request_def)
  have nw: "now sample_env (sample_db\<lparr>tick := Suc (Suc 0)\<rparr>) = (Inr 0, sample_db\<lparr>tick := Suc (Suc (Suc 0))\<rparr>)"
    by (simp add: now_def sample_env_def step_tick_def)
  show ?thesis
    by (simp add: book_check_def on_ok_def rq sample_env_sel sample_get_hub sample_resolve_services sample_opening
        sample_duration nw Let_def)
      (simp add: on_ok_def sample_service_def sample_customers_def sample_vehicles_def sample_caller_def ok_def
        sample_entity_def booking_entity_def sample_hub_entity_def rq sample_duration)
qed

text \<open>The booking succeeds, in bay 11: what it returns and the database it leaves.\<close>

definition sample_booked :: "dec appointment" where
  "sample_booked = sample_entity\<lparr>ap_id := 1, ap_bay_id := 11, ap_created := 0, ap_updated := 0\<rparr>"

definition sample_row :: "dec appointment_row" where
  "sample_row = \<lparr>ar_id = 1, ar_dealership_id = 1, ar_customer_id = 42, ar_start = 118800000000000,
     ar_end = 124200000000000, ar_status = Booked, ar_total = ap_total sample_entity, ar_created = 0, ar_updated = 0\<rparr>"

definition sample_event :: appointment_event where
  "sample_event = \<lparr>ev_event_id = ''id'', ev_event_type = AppointmentBooked, ev_occurred_at = new_time 0,
     ev_appointment = \<lparr>st_id = 1, st_dealership_id = 1, st_customer_id = 42, st_vehicle_id = 7, st_bay_id = 11,
       st_scheduled_start = new_time 118800000000000, st_scheduled_end = new_time 124200000000000, st_status = Booked,
       st_total_amount = dec_string_fixed dec_ops (ap_total sample_entity) 2, st_currency = ''USD'',
       st_services = map (\<lambda>s. \<lparr>ss_service_id = as_service_id s, ss_name = as_name s,
         ss_fee = dec_string_fixed dec_ops (as_fee s) 2\<rparr>) (ap_services sample_entity)\<rparr>\<rparr>"

definition sample_booked_db :: "dec sched_db" where
  "sample_booked_db = sample_db\<lparr>tick := 17,
     outbox_rows := [\<lparr>ob_id = 1, ob_topic = topic_appointment_booked, ob_key = format_int 1,
       ob_payload = appointment_event_json sample_event, ob_created = 0, ob_published = None\<rparr>],
     outbox_seq := 2, appointments := [sample_row],
     appt_bays := [\<lparr>br_id = 1, br_appointment_id = 1, br_bay_id = 11, br_start = 118800000000000,
       br_end = 124200000000000, br_status = Reserved\<rparr>],
     appt_vehicles := [\<lparr>vr_id = 1, vr_appointment_id = 1, vr_vehicle_id = 7, vr_status = VehiclePending\<rparr>],
     appt_services := service_lines 1 1 1 1 (ap_services sample_entity), appt_seq := 2, bay_seq := 2,
     vehicle_seq := 2, service_seq := 3\<rparr>"

lemma sample_services_length: "length sample_services = 2" "sample_services \<noteq> []"
  by (simp_all add: sample_services_def sample_catalog_def)

lemma sample_book:
  "book sample_service sample_caller sample_request sample_db = (Inr sample_booked, sample_booked_db)"
  unfolding book_def on_ok_def sample_check prod.case sum.case
  by (simp add: run_defs book_tx_def lock_vehicle_def vehicle_busy_def free_bay_def sample_service_def sample_env_def
      sample_db_def vehicle_taken_def bay_taken_def sample_bays_def create_appointment_def insert_appointment_def
      insert_vehicle_def insert_bay_def insert_services_def write_event_def new_appointment_event_def new_message_def
      outbox_create_def sample_entity_def booking_entity_def sample_request_def sample_duration Let_def
      sample_booked_def sample_booked_db_def sample_row_def sample_event_def sample_services_length)

lemma sample_book_fails:
  "fst (book sample_service (sample_caller\<lparr>pr_token := ''nobody''\<rparr>) sample_request sample_db) = Inl ErrNoCustomerProfile"
proof -
  have rq: "rq_hub_id sample_request = 1" "rq_service_ids sample_request = [5, 6, 5]"
    "rq_start sample_request = 118800000000000" "rq_vehicle_id sample_request = 7"
    by (simp_all add: sample_request_def)
  have nw: "now sample_env (sample_db\<lparr>tick := Suc (Suc 0)\<rparr>) = (Inr 0, sample_db\<lparr>tick := Suc (Suc (Suc 0))\<rparr>)"
    by (simp add: now_def sample_env_def step_tick_def)
  show ?thesis
    by (simp add: book_def book_check_def on_ok_def rq sample_env_sel sample_get_hub sample_resolve_services
        sample_opening sample_duration nw Let_def)
      (simp add: on_ok_def sample_service_def sample_customers_def fail_def sample_caller_def)
qed

end
