(* ===== verification/BookingQueries.thy ===== *)
theory BookingQueries
  imports BookingSpec
begin

text \<open>The booking service's queries and pure helpers: the slot grid, the agreement of the advertised
  availability with what \<open>Book\<close> would find, the services of a request, opening hours on the wall clock,
  and the listings.\<close>

section \<open>The slot grid\<close>

lemma slot_step_pos [simp]: "0 < slot_step"
  by (simp add: slot_step_def duration_units)

definition slot_count :: "int \<Rightarrow> int \<Rightarrow> int \<Rightarrow> nat" where
  "slot_count duration closing start =
     (if closing < start + duration then 0 else nat ((closing - duration - start) div slot_step) + 1)"

lemma slot_count_step:
  assumes "\<not> closing < start + duration"
  shows "slot_count duration closing start = Suc (slot_count duration closing (start + slot_step))"
proof -
  let ?d = "closing - duration - start"
  have e: "closing - duration - (start + slot_step) = ?d - slot_step" by simp
  have q: "(?d - slot_step) div slot_step = ?d div slot_step - 1"
    using div_add_self2 [of slot_step "?d - slot_step"] slot_step_pos by (simp del: slot_step_pos)
  show ?thesis
  proof (cases "closing < start + slot_step + duration")
    case True
    then have "?d div slot_step = 0" using assms by (intro div_pos_pos_trivial) simp_all
    then show ?thesis using True assms by (simp add: slot_count_def)
  next
    case False
    then have "slot_step \<le> ?d" by simp
    moreover have "slot_step div slot_step = 1" by (rule div_self) (use slot_step_pos in linarith)
    ultimately have "1 \<le> ?d div slot_step" using slot_step_pos zdiv_mono1 [of slot_step ?d slot_step] by linarith
    then show ?thesis using False assms by (simp add: slot_count_def e q nat_diff_distrib)
  qed
qed

lemma slots_from_grid:
  "slots_from duration closing free start =
     map (\<lambda>k. let a = start + int k * slot_step
               in \<lparr>sl_start = a, sl_end = a + duration, sl_available = free a (a + duration)\<rparr>)
       [0..<slot_count duration closing start]"
proof (induction duration closing free start rule: slots_from.induct)
  case (1 duration closing free start)
  show ?case
  proof (cases "closing < start + duration")
    case True
    then show ?thesis by (simp add: slots_from.simps [of duration closing free start] slot_count_def)
  next
    case False
    have up: "[0..<Suc n] = 0 # map Suc [0..<n]" for n by (simp add: upt_conv_Cons map_Suc_upt del: upt_Suc)
    show ?thesis
      unfolding slots_from.simps [of duration closing free start] slot_count_step [OF False] up
      using False 1 by (simp add: Let_def algebra_simps)
  qed
qed

section \<open>Availability agrees with booking\<close>

lemma reservations_Inr:
  "reservations E hid a b s = (Inr rs, t) \<Longrightarrow> t = step_tick s \<and> db_time E a \<le> db_time E b \<and>
     set rs = {\<lparr>res_bay_id = br_bay_id x, res_start = br_start x, res_end = br_end x\<rparr> | x y.
       x \<in> set (appt_bays s) \<and> y \<in> set (hub_bays s) \<and> hb_id y = br_bay_id x \<and> hb_hub_id y = hid \<and>
       br_status x \<noteq> BayCancelled \<and> overlaps (br_start x) (br_end x) (db_time E a) (db_time E b)}"
  by (auto simp: reservations_def range_query_Inr)

text \<open>For a window inside the opening hours, some bookable bay is free among the reservations read for the
  whole day exactly if the booking query finds a bay.\<close>

lemma any_bay_free_iff:
  assumes res: "reservations E hid op cl s = (Inr rs, t)"
    and ne: "\<And>x. x \<in> set (appt_bays s) \<Longrightarrow> br_start x < br_end x"
    and w: "a < b" "op \<le> a" "b \<le> cl" and E: "db_time E op = op" "db_time E cl = cl"
  shows "any_bay_free (map to_bay (bookable_rows E hid s)) rs a b \<longleftrightarrow>
    (\<exists>y \<in> set (hub_bays s). hb_hub_id y = hid \<and> hb_status y = bay_available \<and> \<not> bay_taken s (hb_id y) a b)"
proof -
  note rs = reservations_Inr [OF res, unfolded E]
  have "(\<exists>r \<in> set rs. res_bay_id r = hb_id y \<and> res_start r < b \<and> a < res_end r) \<longleftrightarrow> bay_taken s (hb_id y) a b"
    if y: "y \<in> set (hub_bays s)" "hb_hub_id y = hid" for y
  proof
    assume "\<exists>r \<in> set rs. res_bay_id r = hb_id y \<and> res_start r < b \<and> a < res_end r"
    then show "bay_taken s (hb_id y) a b" using rs w ne by (fastforce simp: bay_taken_def overlaps_def)
  next
    assume "bay_taken s (hb_id y) a b"
    then obtain x where x: "x \<in> set (appt_bays s)" "br_bay_id x = hb_id y" "br_status x \<noteq> BayCancelled"
        "overlaps (br_start x) (br_end x) a b"
      by (auto simp: bay_taken_def)
    then have "overlaps (br_start x) (br_end x) op cl" using w by (auto simp: overlaps_def)
    then have "\<lparr>res_bay_id = br_bay_id x, res_start = br_start x, res_end = br_end x\<rparr> \<in> set rs" using rs x y by force
    then show "\<exists>r \<in> set rs. res_bay_id r = hb_id y \<and> res_start r < b \<and> a < res_end r"
      using x by (intro bexI) (auto simp: overlaps_def)
  qed
  then show ?thesis by (auto simp: any_bay_free_def bookable_rows_def to_bay_def)
qed

lemma free_bay_found:
  assumes "fault E (tick s) = None" "db_time E a \<le> db_time E b"
  shows "(\<exists>i t. free_bay E hid a b s = (Inr i, t)) \<longleftrightarrow>
    (\<exists>y \<in> set (hub_bays s). hb_hub_id y = hid \<and> hb_status y = bay_available \<and>
       \<not> bay_taken s (hb_id y) (db_time E a) (db_time E b))"
proof -
  let ?free = "sort_key (\<lambda>b. collation E (hb_code b)) (filter (\<lambda>y. hb_hub_id y = hid \<and> hb_status y = bay_available \<and>
            \<not> bay_taken s (hb_id y) (db_time E a) (db_time E b)) (hub_bays s))"
  have "free_bay E hid a b s = (case take 1 (map hb_id ?free) of [] \<Rightarrow> fail (ErrConflict ''no bay is free at that time'')
     | i # _ \<Rightarrow> ok i) (step_tick s)"
    using assms by (simp add: free_bay_def on_ok_def range_query_def map_err_def sql_def)
  moreover have "?free = [] \<longleftrightarrow> \<not> (\<exists>y \<in> set (hub_bays s). hb_hub_id y = hid \<and> hb_status y = bay_available \<and>
       \<not> bay_taken s (hb_id y) (db_time E a) (db_time E b))"
    unfolding set_empty [symmetric] by auto
  ultimately show ?thesis by (cases ?free) (auto simp: ok_def fail_def)
qed

lemma availability_Inr:
  assumes "availability S hid date ids s = (Inr av, t)"
  obtains h u svcs day n rs w where
    "get_hub (bs_env S) hid s = (Inr h, u)" "resolve_ids (active_services (bs_env S) s) [] ids = Inr svcs" "ids \<noteq> []"
    "parse_date_in (hub_location S h) date = Some day"
    "reservations (bs_env S) hid (fst (opening_hours h day (hub_location S h))) (snd (opening_hours h day (hub_location S h)))
        (s\<lparr>tick := n\<rparr>) = (Inr rs, w)"
    "av = \<lparr>av_hub_id = hid, av_date = date, av_timezone = loc_name (hub_location S h),
       av_minutes = quot (total_duration svcs) minute_ns,
       av_slots = slots_from (total_duration svcs) (snd (opening_hours h day (hub_location S h)))
         (\<lambda>a b. clock (bs_env S) (tick w) < a \<and> any_bay_free (map to_bay (bookable_rows (bs_env S) hid s)) rs a b)
         (fst (opening_hours h day (hub_location S h)))\<rparr>"
proof -
  obtain h u svcs u2 day bays u3 rs w where
    g: "get_hub (bs_env S) hid s = (Inr h, u)"
    and r: "resolve_services S ids u = (Inr svcs, u2)"
    and d: "parse_date_in (hub_location S h) date = Some day"
    and b: "list_bookable_bays (bs_env S) hid u2 = (Inr bays, u3)"
    and q: "reservations (bs_env S) hid (fst (opening_hours h day (hub_location S h))) (snd (opening_hours h day (hub_location S h))) u3 = (Inr rs, w)"
    and a: "av = \<lparr>av_hub_id = hid, av_date = date, av_timezone = loc_name (hub_location S h),
       av_minutes = quot (total_duration svcs) minute_ns,
       av_slots = slots_from (total_duration svcs) (snd (opening_hours h day (hub_location S h)))
         (\<lambda>a b. clock (bs_env S) (tick w) < a \<and> any_bay_free bays rs a b)
         (fst (opening_hours h day (hub_location S h)))\<rparr>"
    using assms unfolding availability_def on_ok_Inr Let_def case_prod_beta
    by (clarsimp split: option.splits simp: on_ok_Inr now_run)
  have u: "u = step_tick s" using g by (auto simp: get_hub_Inr)
  have sv: "u2 = step_tick u" "ids \<noteq> []" "resolve_ids (active_services (bs_env S) s) [] ids = Inr svcs"
    using r u by (auto simp: resolve_services_def on_ok_Inr list_services_Inr split: if_splits)
  have bk: "bookable_rows (bs_env S) hid (step_tick x) = bookable_rows (bs_env S) hid x" for x
    by (simp add: bookable_rows_def)
  have b': "u3 = step_tick u2" "bays = map to_bay (bookable_rows (bs_env S) hid s)"
    using b by (simp_all add: list_bookable_bays_Inr u sv bk)
  obtain n where u3: "u3 = s\<lparr>tick := n\<rparr>" unfolding b'(1) sv(1) u by (simp add: step_tick_def)
  show ?thesis by (rule that [OF g sv(3,2) d q [unfolded u3] a [unfolded b'(2)]])
qed

section \<open>The services of a request\<close>

lemma by_id_Some: "by_id cat i = Some c \<Longrightarrow> c \<in> set cat \<and> cs_id c = i"
proof -
  assume "by_id cat i = Some c"
  then obtain cs where "filter (\<lambda>c. cs_id c = i) (rev cat) = c # cs" by (auto simp: by_id_def split: list.splits)
  then have "c \<in> set (filter (\<lambda>c. cs_id c = i) (rev cat))" by simp
  then show ?thesis by simp
qed

lemma by_id_None: "by_id cat i = None \<longleftrightarrow> i \<notin> cs_id ` set cat"
proof (cases "filter (\<lambda>c. cs_id c = i) (rev cat)")
  case Nil
  then have "\<forall>c \<in> set cat. cs_id c \<noteq> i" by (simp add: filter_empty_conv)
  then show ?thesis using Nil by (auto simp: by_id_def)
next
  case (Cons c cs)
  then have "by_id cat i = Some c" by (simp add: by_id_def)
  then show ?thesis using by_id_Some by force
qed

lemma remdups_snoc: "remdups (xs @ [x]) = remdups (filter (\<lambda>y. y \<noteq> x) xs) @ [x]"
  by (induction xs) auto

lemma first_occurrences_Cons: "rev (remdups (rev (x # xs))) = x # rev (remdups (rev (filter (\<lambda>y. y \<noteq> x) xs)))"
  by (simp add: remdups_snoc rev_filter [symmetric])

lemma resolve_ids_Inr:
  "resolve_ids cat seen ids = Inr svcs \<Longrightarrow>
     map cs_id svcs = rev (remdups (rev (filter (\<lambda>i. i \<notin> set seen) ids))) \<and> set svcs \<subseteq> set cat"
proof (induction ids arbitrary: seen svcs)
  case (Cons i ids)
  show ?case
  proof (cases "i \<in> set seen")
    case True
    then show ?thesis using Cons by simp
  next
    case False
    then obtain c rest where c: "by_id cat i = Some c" "resolve_ids cat (i # seen) ids = Inr rest" "svcs = c # rest"
      using Cons.prems by (auto split: option.splits sum.splits)
    have "filter (\<lambda>y. y \<noteq> i) (filter (\<lambda>i. i \<notin> set seen) ids) = filter (\<lambda>j. j \<notin> set (i # seen)) ids"
      by (auto intro: filter_cong)
    then have "map cs_id svcs = rev (remdups (rev (i # filter (\<lambda>i. i \<notin> set seen) ids)))"
      unfolding first_occurrences_Cons using Cons.IH [OF c(2)] by_id_Some [OF c(1)] c(3) by simp
    then show ?thesis using False c Cons.IH [OF c(2)] by_id_Some [OF c(1)] by simp
  qed
qed simp

lemma resolve_ids_Inl:
  "(\<exists>e. resolve_ids cat seen ids = Inl e) \<longleftrightarrow> (\<exists>i \<in> set ids. i \<notin> set seen \<and> i \<notin> cs_id ` set cat)"
proof (induction ids arbitrary: seen)
  case (Cons i ids)
  show ?case
  proof (cases "i \<in> set seen \<or> i \<notin> cs_id ` set cat")
    case True
    then show ?thesis using Cons by (auto simp: by_id_None [symmetric])
  next
    case False
    then obtain c where "by_id cat i = Some c" by (metis by_id_None not_None_eq)
    moreover have "(\<exists>e. resolve_ids cat (i # seen) ids = Inl e) \<longleftrightarrow> (\<exists>j \<in> set ids. j \<notin> set (i # seen) \<and> j \<notin> cs_id ` set cat)"
      by (rule Cons)
    ultimately show ?thesis using False by (cases "resolve_ids cat (i # seen) ids") auto
  qed
qed simp

section \<open>Opening hours\<close>

lemma opening_hours_wall:
  assumes t: "zone_table loc" and d: "date_in loc day = (y, m, d)"
    and h: "hub_open hb = h * hour_ns + mi * minute_ns" "0 \<le> h" "h < 24" "0 \<le> mi" "mi < 60"
    and u: "u = days_of_civil y m d * 86400 + h * 3600 + mi * 60" "\<bar>u\<bar> \<le> zone_bound"
    and v: "v + offset_at loc v = u" "\<bar>v\<bar> \<le> zone_bound"
  shows "date_in loc (fst (opening_hours hb day loc)) = (y, m, d)"
    "second_of_day loc (fst (opening_hours hb day loc)) = h * 3600 + mi * 60"
proof -
  have pos: "0 \<le> hub_open hb" "0 < hour_ns" "0 < minute_ns" using h by (simp_all add: duration_units)
  have "0 \<le> mi * minute_ns" "mi * minute_ns < hour_ns" using h by (simp_all add: duration_units)
  then have "hub_open hb div hour_ns = h" "hub_open hb mod hour_ns = mi * minute_ns"
    using pos h(1) by (simp_all add: div_add1_eq div_pos_pos_trivial mod_pos_pos_trivial)
  then have "quot (hub_open hb) hour_ns = h" "quot (rem (hub_open hb) hour_ns) minute_ns = mi"
    using pos h \<open>0 \<le> mi * minute_ns\<close> by (simp_all add: quot_nonneg rem_nonneg)
  then have o: "fst (opening_hours hb day loc) = time_date y m d h mi 0 0 loc"
    by (simp add: opening_hours_def d Let_def)
  have vd: "valid_date y m d"
    using d days_of_civil_of_days by (auto simp: date_in_def)
  have z: "zone_adjust loc u + offset_at loc (zone_adjust loc u) = u"
    by (rule zone_adjust_wall_clock [OF t u(2) v(2,1)])
  show "date_in loc (fst (opening_hours hb day loc)) = (y, m, d)"
    "second_of_day loc (fst (opening_hours hb day loc)) = h * 3600 + mi * 60"
    unfolding o by (rule time_date_in [OF vd h(2-5) z u(1)])+
qed

section \<open>Listings\<close>

lemma latest_first_sorted: "sorted_wrt (\<lambda>a b. ar_start b \<le> ar_start a) (latest_first rs)"
proof -
  have "sorted (map (\<lambda>r. (- ar_start r, - ar_id r)) (latest_first rs))" by (simp add: latest_first_def)
  then show ?thesis unfolding sorted_map by (rule sorted_wrt_mono_rel [rotated]) (auto simp: less_eq_prod_def)
qed

lemma load_facts:
  assumes "load E cond n s = (Inr as, t)"
  shows "length as \<le> n" "sorted_wrt (\<lambda>a b. ap_start b \<le> ap_start a) as"
    "\<And>a. a \<in> set as \<Longrightarrow> \<exists>r \<in> set (appointments s). cond r \<and> ap_id a = ar_id r \<and> ap_start a = ar_start r \<and>
       ap_customer_id a = ar_customer_id r \<and> ap_hub_id a = ar_dealership_id r \<and> ap_status a = ar_status r"
    "length (filter cond (appointments s)) \<le> n \<Longrightarrow> ap_id ` set as = ar_id ` {r \<in> set (appointments s). cond r}"
proof -
  let ?rs = "take n (latest_first (filter cond (appointments s)))"
  obtain lines where as: "as = map (\<lambda>r. to_appointment lines \<lparr>aj_row = r, aj_vehicle_id = first_vehicle s (ar_id r),
      aj_bay_id = first_bay s (ar_id r)\<rparr>) ?rs"
    using load_Inr [OF assms] by blast
  show "length as \<le> n" by (simp add: as)
  have "sorted_wrt (\<lambda>a b. ar_start b \<le> ar_start a) ?rs" by (rule sorted_wrt_take) (rule latest_first_sorted)
  then show "sorted_wrt (\<lambda>a b. ap_start b \<le> ap_start a) as" by (simp add: as sorted_wrt_map)
  show "\<exists>r \<in> set (appointments s). cond r \<and> ap_id a = ar_id r \<and> ap_start a = ar_start r \<and>
       ap_customer_id a = ar_customer_id r \<and> ap_hub_id a = ar_dealership_id r \<and> ap_status a = ar_status r"
    if a: "a \<in> set as" for a
  proof -
    obtain r where r: "r \<in> set ?rs" and ar: "a = to_appointment lines \<lparr>aj_row = r, aj_vehicle_id = first_vehicle s (ar_id r),
        aj_bay_id = first_bay s (ar_id r)\<rparr>"
      using a unfolding as by auto
    have "r \<in> set (appointments s)" "cond r" using in_set_takeD [OF r] by simp_all
    then show ?thesis using ar by auto
  qed
  assume "length (filter cond (appointments s)) \<le> n"
  then have "?rs = latest_first (filter cond (appointments s))" by (simp add: latest_first_def)
  then show "ap_id ` set as = ar_id ` {r \<in> set (appointments s). cond r}"
    by (auto simp: as image_image)
qed

end
