(* ===== verification/SchedLifecycle.thy ===== *)
theory SchedLifecycle
  imports BookingQueries
begin

text \<open>The life of an appointment across operations: what one operation can do to the tables, which status
  changes it can make, and how the events in the outbox match the appointments.\<close>

section \<open>The effect of one operation\<close>

definition quiet :: "'d sched_db \<Rightarrow> 'd sched_db \<Rightarrow> bool" where
  "quiet s t \<longleftrightarrow> appointments t = appointments s \<and>
     map (\<lambda>r. (ob_topic r, ob_key r)) (outbox_rows t) = map (\<lambda>r. (ob_topic r, ob_key r)) (outbox_rows s)"

lemma quiet_unchanged: "unchanged s t \<Longrightarrow> quiet s t"
  by (simp add: unchanged_def quiet_def)

abbreviation cancels :: "int \<Rightarrow> 'd sched_db \<Rightarrow> 'd sched_db \<Rightarrow> bool" where
  "cancels aid s w \<equiv> \<exists>x. restated aid {Booked} Cancelled (\<lambda>_. BayCancelled) (\<lambda>_. ServiceCancelled) x s w"

abbreviation completes :: "int \<Rightarrow> 'd sched_db \<Rightarrow> 'd sched_db \<Rightarrow> bool" where
  "completes aid s w \<equiv> \<exists>x. restated aid {Booked, CheckedIn, InProgress} Completed
     (\<lambda>st. if st = Reserved \<or> st = Occupied then Released else st)
     (\<lambda>st. if st \<noteq> ServiceCancelled then Done else st) x s w"

inductive effect :: "'d sched_db \<Rightarrow> 'd sched_db \<Rightarrow> bool" where
  nothing: "quiet s t \<Longrightarrow> effect s t"
| books: "created E a t0 s w row vrow brow \<Longrightarrow> ap_status a = Booked \<Longrightarrow>
     enqueued w t topic_appointment_booked (format_int (ar_id row)) p \<Longrightarrow> effect s t"
| cancelled: "cancels aid s w \<Longrightarrow> enqueued w t topic_appointment_cancelled (format_int aid) p \<Longrightarrow> effect s t"
| completed: "completes aid s w \<Longrightarrow> enqueued w t topic_service_completed (format_int aid) p \<Longrightarrow> effect s t"

inductive_cases effectE: "effect s t"

lemma complete_Inl_unchanged:
  assumes "complete S aid s = (Inl e, t)"
  shows "unchanged s t"
proof -
  obtain p v where p: "get_by_id (bs_env S) aid s = (p, v)" by fastforce
  have v: "unchanged s v" by (rule unchanged_reads_only [OF reads_only_loads(2) p])
  show ?thesis
  proof (cases p)
    case (Inr a)
    let ?now = "clock (bs_env S) (tick v)"
    obtain q u where q: "new_service_completed_event (bs_env S) (bs_dec S) ?now a (bs_currency S) (step_tick v) = (q, u)"
      by fastforce
    have "reads_only (new_service_completed_event (bs_env S) (bs_dec S) ?now a (bs_currency S))"
    proof -
      have "reads_only (new_uuid E)" for E by (simp add: reads_only_def new_uuid_def step_tick_set)
      then show ?thesis unfolding new_service_completed_event_def by (intro keeps_intros)
    qed
    then have "unchanged (step_tick v) u" using q by (rule unchanged_reads_only)
    then have u: "unchanged s u" using v unchanged_trans [of s "step_tick v" u] by simp
    show ?thesis
    proof (cases q)
      case (Inr ev)
      have "in_tx S (complete_tx S aid (service_completed_json ev)) u = (Inl e, t)"
        using assms p \<open>p = Inr a\<close> q Inr
        by (auto simp: complete_def on_ok_def now_def ok_def split: prod.splits sum.splits)
      then have "unchanged u t" by (rule sched_tx.tx_failed [OF grows_booking_bodies(3)])
      then show ?thesis using u unchanged_trans by blast
    qed (use assms p Inr q u in \<open>auto simp: complete_def on_ok_def now_def\<close>)
  qed (use assms p v in \<open>auto simp: complete_def on_ok_def\<close>)
qed

lemma relay_quiet:
  fixes s :: "'d sched_db"
  shows "quiet s (relay_once (fetch_unpublished E) (mark_published E) (publish E) s)"
proof (rule relay_once_related [where R = quiet])
  fix s t u :: "'d sched_db"
  show "fetch_unpublished E n s = (r, t) \<Longrightarrow> quiet s t" for n r by (cases r) (auto simp: fetch_unpublished_def prog_simps quiet_def)
  show "mark_published E ids s = (q, t) \<Longrightarrow> quiet s t" for ids q
    by (cases q) (auto simp: mark_published_def prog_simps quiet_def split: if_splits)
  show "publish E x s = (r, t) \<Longrightarrow> quiet s t" for x r by (auto simp: publish_def quiet_def split: delivery.splits)
  show "quiet s t \<Longrightarrow> quiet t u \<Longrightarrow> quiet s u" by (auto simp: quiet_def)
qed (simp add: quiet_def)

lemma quiet_snd: "reads_only m \<Longrightarrow> quiet s (snd (m s))"
  using unchanged_reads_only [of m s "fst (m s)" "snd (m s)"] by (simp add: quiet_unchanged)

lemma run_op_effect:
  assumes al: "rows_aligned s" and ok: "op_allowed x"
  shows "effect s (run_op x s)"
proof (cases x)
  case (OpBook S caller req)
  have dir: "directories_read_only S" using ok OpBook by simp
  obtain r t where run: "book S caller req s = (r, t)" by fastforce
  show ?thesis
  proof (cases r)
    case (Inl e)
    then have "unchanged s t" using book_Inl_unchanged [OF dir] run by blast
    then show ?thesis using OpBook run by (simp add: effect.nothing quiet_unchanged)
  next
    case (Inr a)
    from run [unfolded Inr] obtain row vrow brow w where
      c: "created (bs_env S) a (ap_created a) s w row vrow brow"
      and e: "\<exists>ev. enqueued w t topic_appointment_booked (format_int (ap_id a)) (appointment_event_json ev) \<and>
         ev_event_type ev = AppointmentBooked \<and> st_id (ev_appointment ev) = ap_id a \<and> st_status (ev_appointment ev) = Booked"
      and a: "\<exists>c svcs. a = (booking_entity S req c svcs)\<lparr>ap_bay_id := ap_bay_id a, ap_id := appt_seq s,
        ap_created := ap_created a, ap_updated := ap_created a\<rparr>"
      by (rule book_Inr [OF dir]) blast
    obtain c' svcs where a': "a = (booking_entity S req c' svcs)\<lparr>ap_bay_id := ap_bay_id a, ap_id := appt_seq s,
        ap_created := ap_created a, ap_updated := ap_created a\<rparr>" using a by (elim exE)
    have st: "ap_status a = Booked" "ap_id a = appt_seq s"
      using arg_cong [OF a', of ap_status] arg_cong [OF a', of ap_id] by simp_all
    show ?thesis using OpBook run e st effect.books [OF c st(1)] createdD(5) [OF c] by auto
  qed
next
  case (OpCancel S caller aid)
  have dir: "directories_read_only S" using ok OpCancel by simp
  obtain r t where run: "cancel S caller aid s = (r, t)" by fastforce
  show ?thesis
  proof (cases r)
    case (Inl e)
    then have "unchanged s t" using cancel_Inl_unchanged [OF dir] run by blast
    then show ?thesis using OpCancel run by (simp add: effect.nothing quiet_unchanged)
  next
    case (Inr a)
    from run [unfolded Inr] obtain w where c: "cancels aid s w"
      and e: "\<exists>ev. enqueued w t topic_appointment_cancelled (format_int aid) (appointment_event_json ev) \<and>
       ev_event_type ev = AppointmentCancelled \<and> st_id (ev_appointment ev) = aid \<and> st_status (ev_appointment ev) = Cancelled"
      by (rule cancel_Inr [OF dir])
    show ?thesis using OpCancel run e effect.cancelled [OF c] by auto
  qed
next
  case (OpComplete S aid)
  obtain r t where run: "complete S aid s = (r, t)" by fastforce
  show ?thesis
  proof (cases r)
    case (Inl e)
    then have "unchanged s t" using complete_Inl_unchanged run by blast
    then show ?thesis using OpComplete run by (simp add: effect.nothing quiet_unchanged)
  next
    case (Inr a)
    from run [unfolded Inr] obtain w ev where c: "completes aid s w"
      and e: "enqueued w t topic_service_completed (format_int aid) (service_completed_json ev)"
      by (rule complete_Inr [OF al])
    show ?thesis using OpComplete run e effect.completed [OF c] by auto
  qed
next
  case (OpMyAppointments S caller)
  then show ?thesis using ok by (simp add: effect.nothing quiet_snd reads_only_queries)
next
  case (OpHubDay S hid date)
  then show ?thesis by (simp add: effect.nothing quiet_snd reads_only_hub_day)
next
  case (OpAvailability S hid date ids)
  then show ?thesis by (simp add: effect.nothing quiet_snd reads_only_availability)
next
  case (OpRelay E)
  then show ?thesis by (simp add: effect.nothing relay_quiet)
next
  case (OpCatalog hs bs cs)
  then show ?thesis by (simp add: effect.nothing quiet_def)
qed

section \<open>Status changes\<close>

definition status_step :: "appointment_status \<Rightarrow> appointment_status \<Rightarrow> bool" where
  "status_step a b \<longleftrightarrow> a = b \<or> (a = Booked \<and> b = Cancelled) \<or> (a \<in> {Booked, CheckedIn, InProgress} \<and> b = Completed)"

text \<open>What never changes once booked.\<close>

definition same_terms :: "'d appointment_row \<Rightarrow> 'd appointment_row \<Rightarrow> bool" where
  "same_terms a b \<longleftrightarrow> ar_id a = ar_id b \<and> ar_dealership_id a = ar_dealership_id b \<and> ar_customer_id a = ar_customer_id b \<and>
     ar_start a = ar_start b \<and> ar_end a = ar_end b \<and> ar_total a = ar_total b \<and> ar_created a = ar_created b"

lemma enqueued_appointments: "enqueued s t topic key p \<Longrightarrow> appointments t = appointments s"
  by (auto simp: enqueued_def)

lemma effect_status:
  assumes "effect s t" "r \<in> set (appointments s)"
  shows "\<exists>r' \<in> set (appointments t). same_terms r r' \<and> status_step (ar_status r) (ar_status r')"
  using assms(1)
proof cases
  case nothing
  then show ?thesis using assms(2) by (auto simp: quiet_def same_terms_def status_step_def)
next
  case (books E a t0 w row vrow brow p)
  then show ?thesis using assms(2) createdD(1) [OF books(1)] enqueued_appointments [OF books(3)]
    by (auto simp: same_terms_def status_step_def)
next
  case (cancelled aid w p)
  from cancelled(1) obtain x where "appointments w = map (\<lambda>r. if ar_id r = aid \<and> ar_status r \<in> {Booked}
      then r\<lparr>ar_status := Cancelled, ar_updated := x\<rparr> else r) (appointments s)"
    unfolding restated_def by (elim exE conjE) (rule that)
  then have "appointments t = map (\<lambda>r. if ar_id r = aid \<and> ar_status r \<in> {Booked}
      then r\<lparr>ar_status := Cancelled, ar_updated := x\<rparr> else r) (appointments s)"
    using enqueued_appointments [OF cancelled(2)] by simp
  then show ?thesis using assms(2)
    by (intro bexI [of _ "if ar_id r = aid \<and> ar_status r \<in> {Booked} then r\<lparr>ar_status := Cancelled, ar_updated := x\<rparr> else r"])
      (auto simp: same_terms_def status_step_def)
next
  case (completed aid w p)
  from completed(1) obtain x where "appointments w = map (\<lambda>r. if ar_id r = aid \<and> ar_status r \<in> {Booked, CheckedIn, InProgress}
      then r\<lparr>ar_status := Completed, ar_updated := x\<rparr> else r) (appointments s)"
    unfolding restated_def by (elim exE conjE) (rule that)
  then have "appointments t = map (\<lambda>r. if ar_id r = aid \<and> ar_status r \<in> {Booked, CheckedIn, InProgress}
      then r\<lparr>ar_status := Completed, ar_updated := x\<rparr> else r) (appointments s)"
    using enqueued_appointments [OF completed(2)] by simp
  then show ?thesis using assms(2)
    by (intro bexI [of _ "if ar_id r = aid \<and> ar_status r \<in> {Booked, CheckedIn, InProgress}
        then r\<lparr>ar_status := Completed, ar_updated := x\<rparr> else r"])
      (auto simp: same_terms_def status_step_def)
qed

section \<open>Events\<close>

definition count_events :: "string \<Rightarrow> int \<Rightarrow> 'd sched_db \<Rightarrow> nat" where
  "count_events topic aid s = length (filter (\<lambda>k. k = (topic, format_int aid)) (map (\<lambda>r. (ob_topic r, ob_key r)) (outbox_rows s)))"

lemma topics_distinct [simp]:
  "topic_appointment_booked \<noteq> topic_appointment_cancelled" "topic_appointment_cancelled \<noteq> topic_appointment_booked"
  "topic_appointment_booked \<noteq> topic_service_completed" "topic_service_completed \<noteq> topic_appointment_booked"
  "topic_appointment_cancelled \<noteq> topic_service_completed" "topic_service_completed \<noteq> topic_appointment_cancelled"
  by (simp_all add: topic_appointment_booked_def topic_appointment_cancelled_def topic_service_completed_def)

text \<open>One booked event per appointment, one cancelled event exactly for the cancelled ones, one completed
  event exactly for the completed ones, and none for ids that were never given out.\<close>

definition events_match :: "'d sched_db \<Rightarrow> bool" where
  "events_match s \<longleftrightarrow>
     (\<forall>r \<in> set (appointments s).
        count_events topic_appointment_booked (ar_id r) s = 1 \<and>
        count_events topic_appointment_cancelled (ar_id r) s = (if ar_status r = Cancelled then 1 else 0) \<and>
        count_events topic_service_completed (ar_id r) s = (if ar_status r = Completed then 1 else 0)) \<and>
     (\<forall>i topic. i \<notin> ar_id ` set (appointments s) \<longrightarrow> count_events topic i s = 0)"

lemma count_enqueued:
  assumes "enqueued s t topic (format_int aid) p"
  shows "count_events tp i t = count_events tp i s + (if tp = topic \<and> i = aid then 1 else 0)"
  using assms by (auto simp: enqueued_def count_events_def)

lemma count_same_rows: "outbox_rows t = outbox_rows s \<Longrightarrow> count_events tp i t = count_events tp i s"
  by (simp add: count_events_def)

lemma restated_events:
  assumes al: "rows_aligned s" and m: "events_match s" and r: "restated aid from st f g x s w"
    and e: "enqueued w t topic (format_int aid) p"
    and c: "topic = topic_appointment_cancelled \<and> st = Cancelled \<or> topic = topic_service_completed \<and> st = Completed"
    and f: "from \<subseteq> {Booked, CheckedIn, InProgress}"
  shows "events_match t"
proof -
  let ?F = "\<lambda>r. if ar_id r = aid \<and> ar_status r \<in> from then r\<lparr>ar_status := st, ar_updated := x\<rparr> else r"
  have t: "appointments t = map ?F (appointments s)" using r enqueued_appointments [OF e] by (simp add: restated_def)
  have cnt: "count_events tp i t = count_events tp i s + (if tp = topic \<and> i = aid then 1 else 0)" for tp i
    using count_enqueued [OF e] count_same_rows [of w s] r by (simp add: restated_def)
  have ids: "ar_id ` set (appointments t) = ar_id ` set (appointments s)" unfolding t set_map image_image by (rule image_cong) auto
  obtain h where h: "h \<in> set (appointments s)" "ar_id h = aid" "ar_status h \<in> from" using r by (auto simp: restated_def)
  have one: "a = h" if "a \<in> set (appointments s)" "ar_id a = aid" for a
    using al that h(1,2) unfolding rows_aligned_def distinct_map inj_on_def by blast
  have nf: "Cancelled \<notin> from" "Completed \<notin> from" using f by auto
  show ?thesis
    unfolding events_match_def
  proof (intro conjI ballI allI impI)
    fix q
    assume "q \<in> set (appointments t)"
    then obtain q0 where q0: "q0 \<in> set (appointments s)" "q = ?F q0" by (auto simp: t)
    have id: "ar_id q = ar_id q0" using q0(2) by simp
    have m0: "count_events topic_appointment_booked (ar_id q0) s = 1"
        "count_events topic_appointment_cancelled (ar_id q0) s = (if ar_status q0 = Cancelled then 1 else 0)"
        "count_events topic_service_completed (ar_id q0) s = (if ar_status q0 = Completed then 1 else 0)"
      using m q0(1) unfolding events_match_def by blast+
    have hit: "ar_id q0 = aid \<Longrightarrow> ar_status q0 \<in> from \<and> ar_status q = st" using one [OF q0(1)] h(3) q0(2) by auto
    have miss: "ar_id q0 \<noteq> aid \<Longrightarrow> ar_status q = ar_status q0" using q0(2) by simp
    show "count_events topic_appointment_booked (ar_id q) t = 1" using m0 c by (auto simp: cnt id)
    show "count_events topic_appointment_cancelled (ar_id q) t = (if ar_status q = Cancelled then 1 else 0)"
      using m0(2) c hit miss nf by (cases "ar_id q0 = aid") (auto simp: cnt id)
    show "count_events topic_service_completed (ar_id q) t = (if ar_status q = Completed then 1 else 0)"
      using m0(3) c hit miss nf by (cases "ar_id q0 = aid") (auto simp: cnt id)
  next
    fix i tp
    assume "i \<notin> ar_id ` set (appointments t)"
    then have "i \<notin> ar_id ` set (appointments s)" "i \<noteq> aid" using h(1,2) ids by auto
    then show "count_events tp i t = 0" using m by (simp add: cnt events_match_def)
  qed
qed

lemma effect_events:
  assumes al: "rows_aligned s" and m: "events_match s" and e: "effect s t"
  shows "events_match t"
  using e
proof cases
  case nothing
  then show ?thesis using m by (simp add: events_match_def quiet_def count_events_def)
next
  case (books E a t0 w row vrow brow p)
  note d = createdD [OF books(1)]
  have cnt: "count_events tp i t = count_events tp i s + (if tp = topic_appointment_booked \<and> i = ar_id row then 1 else 0)" for tp i
    using count_enqueued [OF books(3)] count_same_rows [OF d(25)] by simp
  have t: "appointments t = appointments s @ [row]" using enqueued_appointments [OF books(3)] d(1) by simp
  have new: "ar_id row \<notin> ar_id ` set (appointments s)" using al d(5) by (auto simp: rows_aligned_def)
  then have z: "count_events tp (ar_id row) s = 0" for tp using m by (simp add: events_match_def)
  have "ar_id r \<noteq> ar_id row" if "r \<in> set (appointments s)" for r
    using imageI [OF that, of ar_id] new by metis
  then show ?thesis using m z d(8) books(2) by (auto simp: events_match_def t cnt)
next
  case (cancelled aid w p)
  then show ?thesis using restated_events [OF al m] by auto
next
  case (completed aid w p)
  then show ?thesis using restated_events [OF al m] by auto
qed

lemma reachable_events: "sched_reachable s \<Longrightarrow> events_match s"
proof (induction rule: sched_reachable.induct)
  case (migrated s)
  then show ?case by (simp add: empty_tables_def events_match_def count_events_def)
next
  case (operate s x)
  have "rows_aligned s" using reachable_inv [OF operate(1)] by (simp add: sched_inv_def)
  then show ?case using effect_events run_op_effect operate by blast
qed

end
