(* ===== verification/SchedHttp.thy ===== *)
theory SchedHttp
  imports SchedLifecycle
begin

text \<open>scheduler-service's HTTP side: the DTOs (\<open>http/dto/booking-dto.go\<close>), the handlers and the routes
  (\<open>http/handler/booking-handler.go\<close>, \<open>http/server.go\<close>). Binding a tagged struct is code of gin, so it is
  a field of \<open>http_server\<close>.\<close>

section \<open>The server\<close>

record create_appointment_dto =
  ca_hub_id :: int
  ca_vehicle_id :: int
  ca_service_ids :: "int list"
  ca_start :: int

record 'd http_server = auth_server +
  sv_service :: "'d booking_service"
  sv_bind :: "string \<Rightarrow> string + create_appointment_dto"

section \<open>DTOs\<close>

text \<open>\<open>%02d\<close>.\<close>

definition fmt02 :: "int \<Rightarrow> string" where
  "fmt02 n = (if n < 0 then CHR ''-'' # pad 1 (nat (- n)) else pad 2 (nat n))"

definition clock_text :: "int \<Rightarrow> string" where
  "clock_text offset = fmt02 (quot offset hour_ns) @ '':'' @ fmt02 (quot (rem offset hour_ns) minute_ns)"

definition hub_dto :: "hub \<Rightarrow> json" where
  "hub_dto h = JObj [(''id'', JInt (hub_id h)), (''name'', JStr (hub_name h)), (''address'', JStr (hub_address h)),
     (''open_hour'', JStr (clock_text (hub_open h))), (''close_hour'', JStr (clock_text (hub_close h))),
     (''timezone'', JStr (hub_timezone h)), (''bay_count'', JInt (hub_bay_count h))]"

definition service_dto :: "'d decimal_ops \<Rightarrow> 'd catalog_service \<Rightarrow> json" where
  "service_dto D s = JObj [(''id'', JInt (cs_id s)), (''name'', JStr (cs_name s)), (''service_type'', JStr (cs_type s)),
     (''fee'', JStr (dec_string_fixed D (cs_fee s) 2)), (''duration_minutes'', JInt (cs_minutes s))]"

definition slot_dto :: "slot \<Rightarrow> json" where
  "slot_dto s = JObj [(''start'', time_json (new_time (sl_start s))), (''end'', time_json (new_time (sl_end s))),
     (''available'', JBool (sl_available s))]"

definition availability_dto :: "availability_result \<Rightarrow> json" where
  "availability_dto a = JObj [(''hub_id'', JInt (av_hub_id a)), (''date'', JStr (av_date a)),
     (''timezone'', JStr (av_timezone a)), (''duration_minutes'', JInt (av_minutes a)),
     (''slots'', JArr (map slot_dto (av_slots a)))]"

definition appointment_dto :: "'d decimal_ops \<Rightarrow> 'd appointment \<Rightarrow> json" where
  "appointment_dto D a = JObj [(''id'', JInt (ap_id a)), (''hub_id'', JInt (ap_hub_id a)),
     (''customer_id'', JInt (ap_customer_id a)), (''vehicle_id'', JInt (ap_vehicle_id a)), (''bay_id'', JInt (ap_bay_id a)),
     (''start'', time_json (new_time (ap_start a))), (''end'', time_json (new_time (ap_end a))),
     (''status'', JStr (status_text (ap_status a))), (''total_amount'', JStr (dec_string_fixed D (ap_total a) 2)),
     (''services'', JArr (map (\<lambda>s. JObj [(''service_id'', JInt (as_service_id s)), (''name'', JStr (as_name s)),
        (''fee'', JStr (dec_string_fixed D (as_fee s) 2))]) (ap_services a))),
     (''created_at'', time_json (new_time (ap_created a))), (''updated_at'', time_json (new_time (ap_updated a)))]"

definition appointments_dto :: "'d decimal_ops \<Rightarrow> 'd appointment list \<Rightarrow> json" where
  "appointments_dto D as = JObj [(''appointments'', JArr (map (appointment_dto D) as))]"

definition hub_day_dto :: "'d decimal_ops \<Rightarrow> 'd hub_day_result \<Rightarrow> json" where
  "hub_day_dto D d = JObj [(''hub_id'', JInt (hd_hub_id d)), (''date'', JStr (hd_date d)),
     (''timezone'', JStr (hd_timezone d)), (''appointments'', JArr (map (appointment_dto D) (hd_appointments d)))]"

section \<open>Handlers\<close>

type_synonym 'd handler = "'d sched_db \<Rightarrow> http_response \<times> 'd sched_db"

fun error_status :: "sched_error \<Rightarrow> int" where
  "error_status (ErrInvalidInput d) = 400"
| "error_status (ErrNotFound d) = 404"
| "error_status ErrNoCustomerProfile = 404"
| "error_status (ErrConflict d) = 409"
| "error_status (ErrUpstream d) = 502"
| "error_status (ErrOther m) = 500"
| "error_status (ErrDb e) = 500"

definition write_error :: "sched_error \<Rightarrow> http_response" where
  "write_error e = reply (error_status e) (error_body (error_text e))"

definition respond :: "int \<Rightarrow> ('a \<Rightarrow> json) \<Rightarrow> ('d sched_db, sched_error, 'a) prog \<Rightarrow> 'd handler" where
  "respond status enc m = respond_with write_error status enc m"

definition path_id :: "string \<Rightarrow> http_response + int" where
  "path_id param = (case parse_int64 param of
       None \<Rightarrow> Inl (reply 400 (error_body ''invalid id''))
     | Some i \<Rightarrow> if i \<le> 0 then Inl (reply 400 (error_body ''invalid id'')) else Inr i)"

definition with_id :: "string \<Rightarrow> (int \<Rightarrow> 'd handler) \<Rightarrow> 'd handler" where
  "with_id param f s = (case path_id param of Inl r \<Rightarrow> (r, s) | Inr i \<Rightarrow> f i s)"

definition query_array :: "string \<Rightarrow> http_request \<Rightarrow> string list" where
  "query_array k r = map snd (filter (\<lambda>(a, b). a = k) (hq_query r))"

definition handle_list_hubs :: "'d http_server \<Rightarrow> 'd handler" where
  "handle_list_hubs V = respond 200 (\<lambda>hs. JObj [(''hubs'', JArr (map hub_dto hs))]) (list_hubs (bs_env (sv_service V)))"

definition handle_list_services :: "'d http_server \<Rightarrow> 'd handler" where
  "handle_list_services V = respond 200
     (\<lambda>ss. JObj [(''services'', JArr (map (service_dto (bs_dec (sv_service V))) ss))]) (list_services (bs_env (sv_service V)))"

fun parse_service_ids :: "string list \<Rightarrow> int list option" where
  "parse_service_ids [] = Some []"
| "parse_service_ids (raw # raws) = (case parse_int64 raw of
       None \<Rightarrow> None
     | Some i \<Rightarrow> if i \<le> 0 then None else map_option (\<lambda>is. i # is) (parse_service_ids raws))"

definition handle_availability :: "'d http_server \<Rightarrow> string \<Rightarrow> http_request \<Rightarrow> 'd handler" where
  "handle_availability V param r = with_id param (\<lambda>hid s.
     case parse_service_ids (query_array ''service_id'' r) of
       None \<Rightarrow> (reply 400 (error_body ''invalid service_id''), s)
     | Some ids \<Rightarrow> respond 200 availability_dto (availability (sv_service V) hid (query_value ''date'' r) ids) s)"

definition handle_book :: "'d http_server \<Rightarrow> principal \<Rightarrow> http_request \<Rightarrow> 'd handler" where
  "handle_book V p r s = (case sv_bind V (hq_body r) of
       Inl msg \<Rightarrow> (reply 400 (error_body msg), s)
     | Inr d \<Rightarrow> respond 201 (appointment_dto (bs_dec (sv_service V)))
         (book (sv_service V) p \<lparr>rq_hub_id = ca_hub_id d, rq_vehicle_id = ca_vehicle_id d,
            rq_service_ids = ca_service_ids d, rq_start = ca_start d\<rparr>) s)"

definition handle_my_appointments :: "'d http_server \<Rightarrow> principal \<Rightarrow> 'd handler" where
  "handle_my_appointments V p =
     respond 200 (appointments_dto (bs_dec (sv_service V))) (my_appointments (sv_service V) p)"

definition handle_cancel :: "'d http_server \<Rightarrow> principal \<Rightarrow> string \<Rightarrow> 'd handler" where
  "handle_cancel V p param = with_id param (\<lambda>i.
     respond 200 (appointment_dto (bs_dec (sv_service V))) (cancel (sv_service V) p i))"

definition handle_hub_day :: "'d http_server \<Rightarrow> string \<Rightarrow> http_request \<Rightarrow> 'd handler" where
  "handle_hub_day V param r = with_id param (\<lambda>hid s.
     let date = query_value ''date'' r
     in if date = '''' then (reply 400 (error_body ''date is required (YYYY-MM-DD)''), s)
        else respond 200 (hub_day_dto (bs_dec (sv_service V))) (hub_day (sv_service V) hid date) s)"

definition handle_complete :: "'d http_server \<Rightarrow> string \<Rightarrow> 'd handler" where
  "handle_complete V param = with_id param (\<lambda>i.
     respond 200 (appointment_dto (bs_dec (sv_service V))) (complete (sv_service V) i))"

section \<open>Routes\<close>

text \<open>\<open>RegisterRoutes\<close>: the handler of a path below \<open>/api/v1\<close> and the roles it is limited to.\<close>

datatype endpoint =
    ListHubs | Availability string | ListServices
  | Book | MyAppointments | Cancel string
  | HubDay string | Complete string

definition route :: "string \<Rightarrow> string list \<Rightarrow> endpoint option" where
  "route method path =
     (if method = ''GET'' then
        (case path of
           [a] \<Rightarrow> if a = ''hubs'' then Some ListHubs else if a = ''services'' then Some ListServices else None
         | [a, b] \<Rightarrow> if a = ''me'' \<and> b = ''appointments'' then Some MyAppointments else None
         | [a, i, b] \<Rightarrow> if a = ''hubs'' \<and> b = ''availability'' then Some (Availability i)
                       else if a = ''hubs'' \<and> b = ''appointments'' then Some (HubDay i) else None
         | _ \<Rightarrow> None)
      else if method = ''POST'' then
        (case path of
           [a] \<Rightarrow> if a = ''appointments'' then Some Book else None
         | [a, i, b] \<Rightarrow> if a = ''appointments'' \<and> b = ''cancel'' then Some (Cancel i)
                       else if a = ''appointments'' \<and> b = ''complete'' then Some (Complete i) else None
         | _ \<Rightarrow> None)
      else None)"

fun route_roles :: "endpoint \<Rightarrow> string list option" where
  "route_roles ListHubs = None"
| "route_roles (Availability i) = None"
| "route_roles ListServices = None"
| "route_roles Book = Some [role_customer]"
| "route_roles MyAppointments = Some [role_customer]"
| "route_roles (Cancel i) = Some [role_customer]"
| "route_roles (HubDay i) = Some staff_roles"
| "route_roles (Complete i) = Some staff_roles"

fun handle :: "'d http_server \<Rightarrow> principal \<Rightarrow> http_request \<Rightarrow> endpoint \<Rightarrow> 'd handler" where
  "handle V p r ListHubs = handle_list_hubs V"
| "handle V p r (Availability i) = handle_availability V i r"
| "handle V p r ListServices = handle_list_services V"
| "handle V p r Book = handle_book V p r"
| "handle V p r MyAppointments = handle_my_appointments V p"
| "handle V p r (Cancel i) = handle_cancel V p i"
| "handle V p r (HubDay i) = handle_hub_day V i r"
| "handle V p r (Complete i) = handle_complete V i"

text \<open>The chain: CORS answers OPTIONS, then authentication, then the role check, then the handler. \<open>None\<close>
  is a path the router does not know.\<close>

definition serve :: "'d http_server \<Rightarrow> http_request \<Rightarrow> 'd sched_db \<Rightarrow> (http_response \<times> 'd sched_db) option" where
  "serve V r s =
     (if hq_method r = ''OPTIONS'' then Some (reply 204 JNull, s)
      else case route (hq_method r) (hq_path r) of
        None \<Rightarrow> None
      | Some e \<Rightarrow> Some (case require_auth V r of
            Inl resp \<Rightarrow> (resp, s)
          | Inr p \<Rightarrow> (case (case route_roles e of None \<Rightarrow> None | Some roles \<Rightarrow> require_role roles p) of
                Some resp \<Rightarrow> (resp, s)
              | None \<Rightarrow> handle V p r e s)))"

section \<open>Facts\<close>

lemma respond_state: "respond status enc m s = (resp, t) \<Longrightarrow> t = snd (m s)"
  unfolding respond_def by (rule respond_with_state)

text \<open>A request without a valid token, or with the wrong role, changes nothing.\<close>

lemma serve_refused:
  assumes "serve V r s = Some (resp, t)" "\<nexists>p. require_auth V r = Inr p"
  shows "t = s \<and> (hs_status resp = 401 \<or> hq_method r = ''OPTIONS'')"
proof (cases "require_auth V r")
  case (Inl x)
  then have "hs_status x = 401"
    by (auto simp: require_auth_def unauthorized_def split: option.splits if_splits sum.splits)
  then show ?thesis using assms Inl by (auto simp: serve_def split: if_splits option.splits)
qed (use assms in auto)

lemma serve_forbidden:
  assumes "serve V r s = Some (resp, t)" "require_auth V r = Inr p" "hq_method r \<noteq> ''OPTIONS''"
    "route (hq_method r) (hq_path r) = Some e" "route_roles e = Some roles" "pr_role p \<notin> set roles"
  shows "t = s \<and> hs_status resp = 403"
  using assms by (auto simp: serve_def require_role_def reply_def)

end
