(* ===== verification/SchedClient.thy ===== *)
theory SchedClient
  imports SchedLifecycle
begin

text \<open>The HTTP clients scheduler-service asks customer-service and vehicle-service with
  (\<open>adapters/client\<close>). The network is an argument: what a GET at a given tick returns, how a URL parses
  and how a body decodes. \<open>caller_directories\<close> states what the booking service needs of its two
  directories, which the clients meet.\<close>

section \<open>The network\<close>

record network =
  nw_path :: "string \<Rightarrow> string + string"
  nw_get :: "nat \<Rightarrow> string \<Rightarrow> string \<Rightarrow> string + (int \<times> string)"
  nw_decode :: "string \<Rightarrow> string + json"

definition max_error_body :: nat where
  "max_error_body = 512"

text \<open>\<open>getJSON\<close>: the status code and the decoded body or the error. \<open>decode\<close> is the struct it decodes
  into.\<close>

definition get_json ::
    "network \<Rightarrow> (json \<Rightarrow> string + 'a) \<Rightarrow> string \<Rightarrow> string \<Rightarrow> 'z world_scheme \<Rightarrow> (int \<times> (sched_error + 'a)) \<times> 'z world_scheme" where
  "get_json N decode url token s = (case nw_path N url of
       Inl msg \<Rightarrow> ((0, Inl (ErrOther msg)), s)
     | Inr path \<Rightarrow> (case nw_get N (tick s) url (''Bearer '' @ token) of
           Inl msg \<Rightarrow> ((0, Inl (ErrUpstream msg)), step_tick s)
         | Inr (status, body) \<Rightarrow>
             if status \<noteq> 200
             then ((status, Inl (ErrUpstream (''GET '' @ path @ '' returned '' @ format_int status @ '': '' @ take max_error_body body))),
                   step_tick s)
             else (case (case nw_decode N body of Inl msg \<Rightarrow> Inl msg | Inr j \<Rightarrow> decode j) of
                 Inl msg \<Rightarrow> ((status, Inl (ErrUpstream (''decode '' @ path @ '': '' @ msg))), step_tick s)
               | Inr x \<Rightarrow> ((status, Inr x), step_tick s))))"

section \<open>The two clients\<close>

definition decode_customer :: "json \<Rightarrow> string + customer" where
  "decode_customer j = (case (int_field ''id'' j, string_field ''name'' j, string_field ''email'' j) of
       (Some i, Some n, Some e) \<Rightarrow> Inr \<lparr>cu_id = i, cu_name = n, cu_email = e\<rparr>
     | _ \<Rightarrow> Inl ''json: cannot unmarshal'')"

definition decode_vehicle :: "json \<Rightarrow> string + vehicle" where
  "decode_vehicle j = (case (int_field ''id'' j, string_field ''vin'' j, string_field ''license_plate'' j) of
       (Some i, Some v, Some p) \<Rightarrow> Inr \<lparr>ve_id = i, ve_vin = v, ve_plate = p\<rparr>
     | _ \<Rightarrow> Inl ''json: cannot unmarshal'')"

definition decode_vehicles :: "json \<Rightarrow> string + vehicle list" where
  "decode_vehicles j = (case array_field ''vehicles'' j of
       Some js \<Rightarrow> map_result decode_vehicle js
     | None \<Rightarrow> Inl ''json: cannot unmarshal'')"

definition base_url :: "string \<Rightarrow> string" where
  "base_url url = trim_right CHR ''/'' url"

definition current_customer :: "network \<Rightarrow> string \<Rightarrow> string \<Rightarrow> ('z world_scheme, sched_error, customer) prog" where
  "current_customer N base token s =
     (let ((status, r), t) = get_json N decode_customer (base_url base @ ''/customer/me'') token s
      in if status = 404 then (Inl ErrNoCustomerProfile, t) else (r, t))"

definition customer_vehicles ::
    "network \<Rightarrow> string \<Rightarrow> string \<Rightarrow> int \<Rightarrow> ('z world_scheme, sched_error, vehicle list) prog" where
  "customer_vehicles N base token cid s =
     (let ((status, r), t) = get_json N decode_vehicles (base_url base @ ''/customers/'' @ format_int cid @ ''/vehicles'') token s
      in (r, t))"

section \<open>What the booking service needs of them\<close>

locale caller_directories =
  fixes customers :: "string \<Rightarrow> ('d sched_db, sched_error, customer) prog"
    and vehicles :: "string \<Rightarrow> int \<Rightarrow> ('d sched_db, sched_error, vehicle list) prog"
  assumes customers_read: "reads_only (customers tok)"
    and vehicles_read: "reads_only (vehicles tok cid)"
begin

lemma service_read_only:
  "directories_read_only (S\<lparr>bs_customers := customers, bs_vehicles := vehicles\<rparr>)"
  by (simp add: directories_read_only_def customers_read vehicles_read)

lemma book_keeps_inv:
  "keeps sched_inv (book (S\<lparr>bs_customers := customers, bs_vehicles := vehicles\<rparr>) caller req)"
  by (rule book_keeps [OF service_read_only])

lemma client_cancel_keeps_inv:
  "keeps sched_inv (cancel (S\<lparr>bs_customers := customers, bs_vehicles := vehicles\<rparr>) caller aid)"
  by (rule cancel_keeps [OF service_read_only])

end

lemma get_json_reads: "\<exists>n. snd (get_json N decode url token s) = s\<lparr>tick := n\<rparr>"
proof -
  have "snd (get_json N decode url token s) = s \<or> snd (get_json N decode url token s) = step_tick s"
    by (auto simp: get_json_def split: sum.splits)
  then show ?thesis using step_tick_set [of s] same_tick [of s] by auto
qed

lemma current_customer_read: "reads_only (current_customer N base token)"
  unfolding reads_only_def
proof
  fix s
  have "snd (current_customer N base token s) =
      snd (get_json N decode_customer (base_url base @ ''/customer/me'') token s)"
    by (simp add: current_customer_def split: prod.splits)
  then show "\<exists>n. snd (current_customer N base token s) = s\<lparr>tick := n\<rparr>"
    by (simp only: get_json_reads)
qed

lemma customer_vehicles_read: "reads_only (customer_vehicles N base token cid)"
  unfolding reads_only_def
proof
  fix s
  have "snd (customer_vehicles N base token cid s) =
      snd (get_json N decode_vehicles (base_url base @ ''/customers/'' @ format_int cid @ ''/vehicles'') token s)"
    by (simp add: customer_vehicles_def split: prod.splits)
  then show "\<exists>n. snd (customer_vehicles N base token cid s) = s\<lparr>tick := n\<rparr>"
    by (simp only: get_json_reads)
qed

interpretation clients: caller_directories "current_customer N cbase" "customer_vehicles N vbase" for N cbase vbase
  by unfold_locales (rule current_customer_read customer_vehicles_read)+

text \<open>The booking service as \<open>application.go\<close> wires it.\<close>

definition wired_service ::
    "env \<Rightarrow> 'd decimal_ops \<Rightarrow> (string \<Rightarrow> location option) \<Rightarrow> network \<Rightarrow> string \<Rightarrow> string \<Rightarrow> string \<Rightarrow> 'd booking_service" where
  "wired_service E D loc N cbase vbase currency =
     \<lparr>bs_env = E, bs_dec = D, bs_load_location = loc, bs_customers = current_customer N cbase,
      bs_vehicles = customer_vehicles N vbase, bs_currency = currency\<rparr>"

lemma wired_read_only: "directories_read_only (wired_service E D loc N cbase vbase currency)"
  by (simp add: directories_read_only_def wired_service_def clients.customers_read clients.vehicles_read)

text \<open>What the caller sees of the other services' answers.\<close>

lemma current_customer_404:
  assumes "nw_path N (base_url base @ ''/customer/me'') = Inr path"
    "nw_get N (tick s) (base_url base @ ''/customer/me'') (''Bearer '' @ token) = Inr (404, body)"
  shows "current_customer N base token s = (Inl ErrNoCustomerProfile, step_tick s)"
  using assms by (simp add: current_customer_def get_json_def)

lemma current_customer_Inr:
  assumes "current_customer N base token s = (Inr c, t)"
  shows "\<exists>body j. nw_get N (tick s) (base_url base @ ''/customer/me'') (''Bearer '' @ token) = Inr (200, body) \<and>
    nw_decode N body = Inr j \<and> decode_customer j = Inr c"
  using assms
  by (auto simp: current_customer_def get_json_def split: sum.splits prod.splits if_splits)

end
