(* ===== verification/SchedProps.thy ===== *)
theory SchedProps
  imports SchedSample SchedHttp SchedClient
begin

text \<open>The properties of scheduler-service, each with a concrete instance of its hypotheses.\<close>

section \<open>Runs of the sample deployment\<close>

lemma sample_reachable: "sched_reachable sample_booked_db"
proof -
  have "sched_reachable (run_op (OpBook sample_service sample_caller sample_request) sample_db)"
    by (rule sched_reachable.operate [OF sched_reachable.migrated [OF sample_migrated]]) (simp add: sample_directories)
  then show ?thesis by (simp add: sample_book)
qed

lemmas sample_run_defs = run_defs get_by_id_def load_def latest_first_def first_vehicle_def first_bay_def
  update_status_def update_bays_def update_services_def write_event_def new_appointment_event_def
  new_service_completed_event_def outbox_create_def new_message_def Let_def

lemma sample_services_rows: "ap_services sample_entity =
    [\<lparr>as_service_id = 5, as_name = ''Oil'', as_fee = Dec 4500 (- 2)\<rparr>,
     \<lparr>as_service_id = 6, as_name = ''Tyres'', as_fee = Dec 2050 (- 2)\<rparr>]"
  by (simp add: sample_entity_def booking_entity_def sample_services_def sample_catalog_def to_service_def)

lemma sample_cancel: "\<exists>a t. cancel sample_service sample_caller 1 sample_booked_db = (Inr a, t)"
  by (simp add: cancel_def cancel_tx_def cancel_appointment_def sample_run_defs sample_booked_db_def sample_defs
      sample_row_def to_appointment_def lines_of_def service_joins_def sample_services_rows)

lemma sample_minor: "to_minor dec_ops (Dec 4500 (- 2)) ''USD'' = Inr 4500" "to_minor dec_ops (Dec 2050 (- 2)) ''USD'' = Inr 2050"
  by code_simp+

lemma sample_complete: "\<exists>a t. complete sample_service 1 sample_booked_db = (Inr a, t)"
  by (simp add: complete_def complete_tx_def complete_appointment_def sample_run_defs sample_booked_db_def sample_defs
      sample_row_def to_appointment_def lines_of_def service_joins_def sample_services_rows
      completed_line_of_def sample_minor)

section \<open>What an operation leaves behind\<close>

lemma enqueued_tables:
  assumes "enqueued w t topic key p"
  shows "appointments t = appointments w" "appt_bays t = appt_bays w" "appt_vehicles t = appt_vehicles w"
    "\<exists>r. outbox_rows t = outbox_rows w @ [r] \<and> ob_topic r = topic \<and> ob_key r = key \<and> ob_payload r = p \<and> ob_published r = None"
  using assms by (auto simp: enqueued_def)

text \<open>After a cancellation nothing of the appointment occupies its bay or its vehicle any more.\<close>

lemma cancels_frees_bay:
  assumes inv: "sched_inv s" and c: "cancels aid s w" and t: "appt_bays t = appt_bays w"
    and r: "r \<in> set (appointments s)" "ar_id r = aid" "ar_status r = Booked"
    and b: "b \<in> set (appt_bays s)" "br_appointment_id b = aid"
  shows "\<not> bay_taken t (br_bay_id b) (ar_start r) (ar_end r)"
proof
  assume "bay_taken t (br_bay_id b) (ar_start r) (ar_end r)"
  then obtain y where y: "y \<in> set (appt_bays w)" "br_bay_id y = br_bay_id b" "br_status y \<noteq> BayCancelled"
      "overlaps (br_start y) (br_end y) (ar_start r) (ar_end r)"
    by (auto simp: bay_taken_def t)
  from c have w: "appt_bays w = map (\<lambda>b. if br_appointment_id b = aid then b\<lparr>br_status := BayCancelled\<rparr> else b) (appt_bays s)"
    unfolding restated_def by (elim exE conjE)
  then obtain y0 where y0: "y0 \<in> set (appt_bays s)"
      "y = (if br_appointment_id y0 = aid then y0\<lparr>br_status := BayCancelled\<rparr> else y0)"
    using y(1) by auto
  then have ys: "y \<in> set (appt_bays s)" "br_appointment_id y \<noteq> aid" using y(3) by (cases "br_appointment_id y0 = aid"; simp)+
  have "br_start b = ar_start r \<and> br_end b = ar_end r \<and> br_status b \<noteq> BayCancelled"
    using inv r b by (auto simp: sched_inv_def windows_agree_def)
  moreover have "bays_exclusive s" using inv by (simp add: sched_inv_def)
  ultimately show False
    using bays_exclusive_def [THEN iffD1, rule_format, of s y b] ys b y by simp
qed

lemma cancels_frees_vehicle:
  assumes inv: "sched_inv s" and c: "cancels aid s w" and t: "appointments t = appointments w" "appt_vehicles t = appt_vehicles w"
    and r: "r \<in> set (appointments s)" "ar_id r = aid" "ar_status r = Booked"
    and v: "v \<in> set (appt_vehicles s)" "vr_appointment_id v = aid"
  shows "\<not> vehicle_taken t (vr_vehicle_id v) (ar_start r) (ar_end r)"
proof
  assume "vehicle_taken t (vr_vehicle_id v) (ar_start r) (ar_end r)"
  then obtain q u where q: "q \<in> set (appointments w)" "u \<in> set (appt_vehicles w)" "vr_appointment_id u = ar_id q"
      "vr_vehicle_id u = vr_vehicle_id v" "ar_status q \<in> set live_statuses" "overlaps (ar_start q) (ar_end q) (ar_start r) (ar_end r)"
    by (auto simp: vehicle_taken_def t)
  from c obtain x where w: "appointments w = map (\<lambda>r. if ar_id r = aid \<and> ar_status r \<in> {Booked}
      then r\<lparr>ar_status := Cancelled, ar_updated := x\<rparr> else r) (appointments s)" "appt_vehicles w = appt_vehicles s"
    unfolding restated_def by (elim exE conjE) (rule that)
  have nc: "Cancelled \<notin> set live_statuses" "Booked \<in> set live_statuses" by (simp_all add: live_statuses_def)
  obtain q0 where q0: "q0 \<in> set (appointments s)" "q = (if ar_id q0 = aid \<and> ar_status q0 \<in> {Booked}
      then q0\<lparr>ar_status := Cancelled, ar_updated := x\<rparr> else q0)"
    using q(1) unfolding w by auto
  have qq: "q = q0" "ar_id q0 \<noteq> aid \<or> ar_status q0 \<noteq> Booked" using q0(2) q(5) nc by (auto split: if_splits)
  have "ar_id q0 \<noteq> aid"
  proof
    assume "ar_id q0 = aid"
    then have "q0 = r" using inv q0(1) r unfolding sched_inv_def rows_aligned_def distinct_map inj_on_def by blast
    then show False using qq(2) r \<open>ar_id q0 = aid\<close> by simp
  qed
  moreover have "vehicles_exclusive s" using inv by (simp add: sched_inv_def)
  ultimately show False
    using vehicles_exclusive_def [THEN iffD1, rule_format, of s q0 r u v] q q0(1) r v w(2) nc qq by simp
qed

text \<open>Looking an appointment up when the database answers.\<close>

lemma load_answers:
  assumes "\<And>n. fault E n = None"
  shows "\<exists>lines t. load E cond k s = (Inr (map (\<lambda>r. to_appointment lines \<lparr>aj_row = r,
      aj_vehicle_id = first_vehicle s (ar_id r), aj_bay_id = first_bay s (ar_id r)\<rparr>)
      (take k (latest_first (filter cond (appointments s))))), t)"
proof -
  have tick: "first_vehicle (step_tick s) = first_vehicle s" "first_bay (step_tick s) = first_bay s"
    by (simp_all add: fun_eq_iff first_vehicle_def first_bay_def)
  let ?rows = "map (\<lambda>r. \<lparr>aj_row = r, aj_vehicle_id = first_vehicle s (ar_id r), aj_bay_id = first_bay s (ar_id r)\<rparr>)
      (take k (latest_first (filter cond (appointments s))))"
  show ?thesis
  proof (cases "?rows = []")
    case False
    then show ?thesis
      by (intro exI [of _ "service_joins (step_tick (step_tick s)) (map (\<lambda>j. ar_id (aj_row j)) ?rows)"])
        (simp add: load_def on_ok_def map_err_def query_def sql_def assms tick ok_def comp_def)
  qed (simp add: load_def on_ok_def map_err_def query_def sql_def assms tick ok_def)
qed

lemma get_by_id_missing:
  assumes "\<And>n. fault E n = None" "aid \<notin> ar_id ` set (appointments s)"
  shows "fst (get_by_id E aid s) = Inl (ErrNotFound (''appointment '' @ format_int aid))"
proof -
  have e: "filter (\<lambda>r. ar_id r = aid) (appointments s) = []" using assms(2) by (auto simp: filter_empty_conv)
  obtain lines t where "load E (\<lambda>r. ar_id r = aid) 1 s = (Inr [], t)"
    using load_answers [OF assms(1), of "\<lambda>r. ar_id r = aid" 1 s] by (auto simp: e latest_first_def)
  then show ?thesis by (simp add: get_by_id_def on_ok_def fail_def)
qed

lemma get_by_id_found:
  assumes "\<And>n. fault E n = None" "r \<in> set (appointments s)" "ar_id r = aid"
  shows "\<exists>a t. get_by_id E aid s = (Inr a, t)"
proof -
  let ?l = "latest_first (filter (\<lambda>r. ar_id r = aid) (appointments s))"
  have "r \<in> set ?l" using assms(2,3) by simp
  then obtain x xs where l: "?l = x # xs" by (cases ?l) auto
  obtain lines t where "load E (\<lambda>r. ar_id r = aid) 1 s = (Inr [to_appointment lines \<lparr>aj_row = x,
      aj_vehicle_id = first_vehicle s (ar_id x), aj_bay_id = first_bay s (ar_id x)\<rparr>], t)"
    using load_answers [OF assms(1), of "\<lambda>r. ar_id r = aid" 1 s] by (auto simp: l)
  then show ?thesis by (simp add: get_by_id_def on_ok_def ok_def)
qed

section \<open>The properties\<close>

text \<open>C1. In every state the service can reach - by any sequence of calls with any faults, relay runs and
  catalog changes - no bay is reserved by two appointments at overlapping times, and no vehicle has two live
  appointments at overlapping times.\<close>

theorem no_double_booking:
  assumes "sched_reachable s"
  shows "bays_exclusive s \<and> vehicles_exclusive s"
  using reachable_inv [OF assms] by (simp add: sched_inv_def)

theorem no_double_booking_witness: "bays_exclusive sample_booked_db \<and> vehicles_exclusive sample_booked_db"
  by (rule no_double_booking [OF sample_reachable])





text \<open>C20. A cancellation that succeeds was of the caller's own booked appointment before its start; it leaves
  the appointment cancelled, and its bay and vehicle free in its window. Its event is the last of the outbox.\<close>

theorem cancel_success:
  assumes "sched_reachable s" "directories_read_only S" "cancel S caller aid s = (Inr a, t)"
  shows "\<exists>r cust u n msg. r \<in> set (appointments s) \<and> ar_id r = aid \<and> ar_status r = Booked \<and>
    bs_customers S (pr_token caller) s = (Inr cust, u) \<and> ar_customer_id r = cu_id cust \<and> clock (bs_env S) n < ar_start r \<and>
    ap_id a = aid \<and> ap_status a = Cancelled \<and>
    (\<forall>b \<in> set (appt_bays s). br_appointment_id b = aid \<longrightarrow> \<not> bay_taken t (br_bay_id b) (ar_start r) (ar_end r)) \<and>
    (\<forall>v \<in> set (appt_vehicles s). vr_appointment_id v = aid \<longrightarrow> \<not> vehicle_taken t (vr_vehicle_id v) (ar_start r) (ar_end r)) \<and>
    outbox_rows t = outbox_rows s @ [msg] \<and> ob_topic msg = topic_appointment_cancelled \<and> ob_key msg = format_int aid"
proof -
  from assms(3) obtain cust u r n w where
    c: "bs_customers S (pr_token caller) s = (Inr cust, u)"
    and r: "r \<in> set (appointments s)" "ar_id r = aid" "ar_customer_id r = cu_id cust" "ar_status r = Booked"
    and n: "clock (bs_env S) n < ar_start r" "ap_id a = aid" "ap_status a = Cancelled"
    and w: "cancels aid s w"
    and e: "\<exists>ev. enqueued w t topic_appointment_cancelled (format_int aid) (appointment_event_json ev) \<and>
       ev_event_type ev = AppointmentCancelled \<and> st_id (ev_appointment ev) = aid \<and> st_status (ev_appointment ev) = Cancelled"
    by (rule cancel_Inr [OF assms(2)])
  have inv: "sched_inv s" by (rule reachable_inv [OF assms(1)])
  from e obtain p where q: "enqueued w t topic_appointment_cancelled (format_int aid) p" by blast
  note t = enqueued_tables [OF q]
  have ow: "outbox_rows w = outbox_rows s" using w by (auto simp: restated_def)
  obtain msg where m: "outbox_rows t = outbox_rows s @ [msg]" "ob_topic msg = topic_appointment_cancelled" "ob_key msg = format_int aid"
    using t(4) ow by auto
  show ?thesis
    by (rule exI [of _ r], rule exI [of _ cust], rule exI [of _ u], rule exI [of _ n], rule exI [of _ msg])
      (use c r n m cancels_frees_bay [OF inv w t(2) r(1,2,4)] cancels_frees_vehicle [OF inv w t(1,3) r(1,2,4)] in simp)
qed

theorem cancel_success_witness:
  "\<exists>a t. cancel sample_service sample_caller 1 sample_booked_db = (Inr a, t) \<and> \<not> bay_taken t 11 118800000000000 124200000000000"
proof -
  obtain a t where run: "cancel sample_service sample_caller 1 sample_booked_db = (Inr a, t)" using sample_cancel by blast
  have "\<not> bay_taken t 11 118800000000000 124200000000000"
    using cancel_success [OF sample_reachable sample_directories run] by (auto simp: sample_booked_db_def sample_row_def)
  then show ?thesis using run by blast
qed

text \<open>With a database that answers, cancelling somebody else's appointment and cancelling one that does not
  exist are both answered with status 404, but with different texts: the first is the bare "not found", the second
  names the id.\<close>

theorem cancel_not_yours:
  assumes "\<And>n. fault (bs_env S) n = None" "directories_read_only S"
    and "bs_customers S (pr_token caller) s = (Inr cust, u)"
    and "rows_aligned s" "r \<in> set (appointments s)" "ar_customer_id r \<noteq> cu_id cust" "missing \<notin> ar_id ` set (appointments s)"
  shows "fst (cancel S caller (ar_id r) s) = Inl (ErrNotFound '''') \<and>
    fst (cancel S caller missing s) = Inl (ErrNotFound (''appointment '' @ format_int missing)) \<and>
    error_status (ErrNotFound '''') = 404 \<and> error_status (ErrNotFound (''appointment '' @ format_int missing)) = 404 \<and>
    error_text (ErrNotFound '''') \<noteq> error_text (ErrNotFound (''appointment '' @ format_int missing))"
proof -
  have ro: "reads_only (bs_customers S (pr_token caller))" using assms(2) by (simp add: directories_read_only_def)
  obtain n where u: "u = s\<lparr>tick := n\<rparr>" using reads_onlyD [OF ro assms(3)] by blast
  have r: "r \<in> set (appointments u)" "missing \<notin> ar_id ` set (appointments u)" using assms(5,7) by (simp_all add: u)
  obtain a v where g: "get_by_id (bs_env S) (ar_id r) u = (Inr a, v)" using get_by_id_found [OF assms(1) r(1) refl] by blast
  obtain r' where r': "r' \<in> set (appointments s)" "ar_id r' = ar_id r" "ap_customer_id a = ar_customer_id r'"
    using get_by_id_Inr(2) [OF g] by (auto simp: u)
  have "r' = r" using assms(4,5) r'(1,2) unfolding rows_aligned_def distinct_map inj_on_def by blast
  then have "fst (cancel S caller (ar_id r) s) = Inl (ErrNotFound '''')"
    using r'(3) assms(3,6) g by (simp add: cancel_def on_ok_def fail_def)
  moreover have "fst (cancel S caller missing s) = Inl (ErrNotFound (''appointment '' @ format_int missing))"
    using get_by_id_missing [OF assms(1) r(2)] assms(3)
    by (cases "get_by_id (bs_env S) missing u") (simp add: cancel_def on_ok_def)
  ultimately show ?thesis by (simp add: with_detail_def)
qed

theorem cancel_not_yours_witness:
  "fst (cancel (sample_service\<lparr>bs_customers := \<lambda>tok. ok \<lparr>cu_id = 43, cu_name = ''Max'', cu_email = ''m@x''\<rparr>\<rparr>)
      sample_caller 1 sample_booked_db) = Inl (ErrNotFound '''')"
proof -
  let ?S = "sample_service\<lparr>bs_customers := \<lambda>tok. ok \<lparr>cu_id = 43, cu_name = ''Max'', cu_email = ''m@x''\<rparr>\<rparr>"
  have "fst (cancel ?S sample_caller (ar_id sample_row) sample_booked_db) = Inl (ErrNotFound '''') \<and>
    fst (cancel ?S sample_caller 2 sample_booked_db) = Inl (ErrNotFound (''appointment '' @ format_int 2)) \<and>
    error_status (ErrNotFound '''') = 404 \<and> error_status (ErrNotFound (''appointment '' @ format_int 2)) = 404 \<and>
    error_text (ErrNotFound '''') \<noteq> error_text (ErrNotFound (''appointment '' @ format_int 2))"
  proof (rule cancel_not_yours [where cust = "\<lparr>cu_id = 43, cu_name = ''Max'', cu_email = ''m@x''\<rparr>"])
    show "directories_read_only ?S"
      using sample_directories by (simp add: directories_read_only_def keeps_intros)
    show "rows_aligned sample_booked_db" using reachable_inv [OF sample_reachable] by (simp add: sched_inv_def)
  qed (simp_all add: sample_env_sel sample_booked_db_def sample_row_def ok_def)
  then show ?thesis by (simp add: sample_row_def)
qed

text \<open>C21. A completion that succeeds was of a booked, checked-in or running appointment. It leaves exactly that
  appointment completed, its bay released unless cancelled, and adds one service-completed event that carries the
  appointment's customer, hub and vehicle and one line per service with the fee in minor units.\<close>

theorem complete_success:
  assumes "rows_aligned s" "complete S aid s = (Inr a, t)"
  shows "\<exists>r x msg ev. r \<in> set (appointments s) \<and> ar_id r = aid \<and> ar_status r \<in> {Booked, CheckedIn, InProgress} \<and>
    ap_id a = aid \<and> ap_status a = Completed \<and>
    appointments t = map (\<lambda>q. if q = r then q\<lparr>ar_status := Completed, ar_updated := x\<rparr> else q) (appointments s) \<and>
    appt_bays t = map (\<lambda>b. if br_appointment_id b = aid
       then b\<lparr>br_status := if br_status b = Reserved \<or> br_status b = Occupied then Released else br_status b\<rparr> else b) (appt_bays s) \<and>
    outbox_rows t = outbox_rows s @ [msg] \<and> ob_topic msg = topic_service_completed \<and> ob_key msg = format_int aid \<and>
    ob_payload msg = service_completed_json ev \<and> sc_appointment_id ev = aid \<and> sc_customer_id ev = ar_customer_id r \<and>
    sc_dealership_id ev = ar_dealership_id r \<and> sc_vehicle_id ev = ap_vehicle_id a \<and>
    map_result (completed_line_of (bs_dec S) (bs_currency S)) (ap_services a) = Inr (sc_services ev)"
proof -
  from assms(2) obtain r n w ev where
    r: "r \<in> set (appointments s)" "ar_id r = aid" "ar_status r \<in> {Booked, CheckedIn, InProgress}"
    and a: "ap_id a = aid" "ap_status a = Completed"
    and w: "completes aid s w"
    and e: "enqueued w t topic_service_completed (format_int aid) (service_completed_json ev)"
    and ev: "sc_appointment_id ev = aid" "sc_vehicle_id ev = ap_vehicle_id a"
      "sc_dealership_id ev = ar_dealership_id r" "sc_customer_id ev = ar_customer_id r"
      "map_result (completed_line_of (bs_dec S) (bs_currency S)) (ap_services a) = Inr (sc_services ev)"
    by (rule complete_Inr [OF assms(1)])
  from w obtain x where x: "appointments w = map (\<lambda>r. if ar_id r = aid \<and> ar_status r \<in> {Booked, CheckedIn, InProgress}
      then r\<lparr>ar_status := Completed, ar_updated := x\<rparr> else r) (appointments s)" "outbox_rows w = outbox_rows s"
    "appt_bays w = map (\<lambda>b. if br_appointment_id b = aid
       then b\<lparr>br_status := if br_status b = Reserved \<or> br_status b = Occupied then Released else br_status b\<rparr> else b) (appt_bays s)"
    unfolding restated_def by (elim exE conjE) (rule that)
  have one: "q = r" if "q \<in> set (appointments s)" "ar_id q = aid" for q
    using assms(1) that r(1,2) unfolding rows_aligned_def distinct_map inj_on_def by blast
  have "appointments t = map (\<lambda>q. if q = r then q\<lparr>ar_status := Completed, ar_updated := x\<rparr> else q) (appointments s)"
    unfolding enqueued_tables(1) [OF e] x(1)
  proof (rule map_cong [OF refl])
    fix q assume q: "q \<in> set (appointments s)"
    have "ar_id q = aid \<and> ar_status q \<in> {Booked, CheckedIn, InProgress} \<longleftrightarrow> q = r" using one [OF q] r(2,3) by blast
    then show "(if ar_id q = aid \<and> ar_status q \<in> {Booked, CheckedIn, InProgress} then q\<lparr>ar_status := Completed, ar_updated := x\<rparr> else q)
        = (if q = r then q\<lparr>ar_status := Completed, ar_updated := x\<rparr> else q)"
      by (rule if_cong) (rule refl)+
  qed
  moreover obtain msg where "outbox_rows t = outbox_rows s @ [msg]" "ob_topic msg = topic_service_completed"
      "ob_key msg = format_int aid" "ob_payload msg = service_completed_json ev"
    using enqueued_tables(4) [OF e] unfolding x(2) by (elim exE conjE) (rule that)
  ultimately show ?thesis
    by (intro exI [of _ r] exI [of _ x] exI [of _ msg] exI [of _ ev] conjI) (use r a ev enqueued_tables(2) [OF e] x(3) in \<open>blast | simp\<close>)+
qed

theorem complete_success_witness:
  "\<exists>a t. complete sample_service 1 sample_booked_db = (Inr a, t) \<and> ap_status a = Completed"
proof -
  obtain a t where run: "complete sample_service 1 sample_booked_db = (Inr a, t)" using sample_complete by blast
  have "rows_aligned sample_booked_db" using reachable_inv [OF sample_reachable] by (simp add: sched_inv_def)
  then have "ap_status a = Completed" using complete_success [OF _ run] by blast
  then show ?thesis using run by blast
qed

text \<open>C13. Whatever operation runs in a reachable state, every appointment is still there with the same hub,
  customer, window, total and creation time, and its status either stays, or goes from booked to cancelled, or from
  booked, checked in or in progress to completed: nothing leaves cancelled or completed.\<close>

theorem appointment_lifecycle:
  assumes "sched_reachable s" "op_allowed x" "r \<in> set (appointments s)"
  shows "\<exists>r' \<in> set (appointments (run_op x s)). same_terms r r' \<and> status_step (ar_status r) (ar_status r')"
  by (rule effect_status [OF run_op_effect [OF _ assms(2)] assms(3)])
    (use reachable_inv [OF assms(1)] in \<open>simp add: sched_inv_def\<close>)

theorem appointment_lifecycle_witness:
  "\<exists>r' \<in> set (appointments (run_op (OpCancel sample_service sample_caller 1) sample_booked_db)).
     same_terms sample_row r' \<and> status_step Booked (ar_status r')"
  using appointment_lifecycle [OF sample_reachable, of "OpCancel sample_service sample_caller 1" sample_row]
  by (simp add: sample_directories sample_booked_db_def sample_row_def)

text \<open>C14. In every reachable state each appointment has exactly one booked event in the outbox, one cancelled event
  if it is cancelled and none otherwise, one service-completed event if it is completed and none otherwise, and no
  event is about an appointment that does not exist.\<close>

theorem events_exactly_once:
  assumes "sched_reachable s"
  shows "events_match s"
  by (rule reachable_events [OF assms])

theorem events_exactly_once_witness: "events_match sample_booked_db"
  by (rule events_exactly_once [OF sample_reachable])

text \<open>A request's services are resolved to the catalog's entries in the order of first mention, each once;
  resolution fails exactly if some id is not in the bookable catalog.\<close>

theorem resolve_services_spec:
  shows "(case resolve_ids cat [] ids of
       Inr svcs \<Rightarrow> map cs_id svcs = rev (remdups (rev ids)) \<and> set svcs \<subseteq> set cat \<and> set ids \<subseteq> cs_id ` set cat
     | Inl e \<Rightarrow> \<not> set ids \<subseteq> cs_id ` set cat)"
  using resolve_ids_Inr [of cat "[]" ids] resolve_ids_Inl [of cat "[]" ids]
  by (cases "resolve_ids cat [] ids") auto

end
