(* ===== verification/SchedQueryProps.thy ===== *)
theory SchedQueryProps
  imports SchedProps
begin

text \<open>The properties of scheduler-service's queries, of its times and amounts on the wire, and of its HTTP side.\<close>

section \<open>Helpers\<close>

lemma grid_nonneg [simp]: "0 \<le> int k * slot_step"
  by (simp add: slot_step_def duration_units)

lemma slot_count_fits:
  assumes "k < slot_count d cl op"
  shows "op + int k * slot_step + d \<le> cl"
proof -
  have n: "\<not> cl < op + d" using assms by (auto simp: slot_count_def split: if_splits)
  then have "0 \<le> (cl - d - op) div slot_step" by (intro pos_imp_zdiv_nonneg_iff [THEN iffD2]) simp_all
  then have k: "int k \<le> (cl - d - op) div slot_step" using assms n by (simp add: slot_count_def)
  have "(cl - d - op) div slot_step * slot_step \<le> cl - d - op"
    using pos_mod_sign [OF slot_step_pos, of "cl - d - op"] div_mult_mod_eq [of "cl - d - op" slot_step] by linarith
  moreover have "int k * slot_step \<le> (cl - d - op) div slot_step * slot_step"
    using k(1) by (intro mult_right_mono) (simp_all add: less_imp_le)
  ultimately show ?thesis by linarith
qed

lemma slot_count_full: "cl < op + int (slot_count d cl op) * slot_step + d"
proof (cases "cl < op + d")
  case False
  let ?q = "(cl - d - op) div slot_step"
  have "0 \<le> ?q" using False slot_step_pos by (intro pos_imp_zdiv_nonneg_iff [THEN iffD2]) simp_all
  then have c: "int (slot_count d cl op) = ?q + 1" using False by (simp add: slot_count_def)
  have "cl - d - op < ?q * slot_step + slot_step"
    using pos_mod_bound [OF slot_step_pos, of "cl - d - op"] div_mult_mod_eq [of "cl - d - op" slot_step] by linarith
  then show ?thesis unfolding c by (simp add: distrib_right)
qed (simp add: slot_count_def)

lemma opening_whole: "1000 dvd fst (opening_hours h day loc)" "1000 dvd snd (opening_hours h day loc)"
proof -
  have "1000 dvd time_date y m d hh mi 0 0 loc" for y m d hh mi
    by (simp add: time_date_def Let_def second_ns_def)
  then show "1000 dvd fst (opening_hours h day loc)" "1000 dvd snd (opening_hours h day loc)"
    by (simp_all add: opening_hours_def split: prod.splits)
qed

lemma reachable_bay_windows:
  assumes "sched_reachable s" "x \<in> set (appt_bays s)"
  shows "br_start x < br_end x"
proof -
  have inv: "rows_aligned s" "windows_agree s" using reachable_inv [OF assms(1)] by (simp_all add: sched_inv_def)
  obtain a where "a \<in> set (appointments s)" "ar_id a = br_appointment_id x"
    using aligned_bay_id(2) [OF inv(1) assms(2)] by auto
  then show ?thesis using inv(2) assms(2) by (auto simp: windows_agree_def)
qed

text \<open>The sample deployment's answer for one 60-minute service.\<close>

lemma sample_get_hub_booked:
  "get_hub sample_env 1 sample_booked_db = (Inr sample_hub_entity, sample_booked_db\<lparr>tick := 18\<rparr>)"
  using sample_to_hub
  by (simp add: get_hub_def run_defs sample_env_def sample_booked_db_def sample_db_def) (simp add: sample_hub_def)

lemma sample_resolve_booked:
  "resolve_services sample_service [5] (sample_booked_db\<lparr>tick := 18\<rparr>) =
     (Inr [hd sample_services], sample_booked_db\<lparr>tick := 19\<rparr>)"
proof -
  have a: "active_services sample_env (sample_booked_db\<lparr>tick := n\<rparr>) = sample_services" for n
    by (simp add: active_services_def sample_services_def sample_defs sample_booked_db_def)
  have r: "resolve_ids sample_services [] [5] = Inr [hd sample_services]" by code_simp
  show ?thesis
    by (simp add: resolve_services_def list_services_def run_defs sample_env_sel a r del: resolve_ids.simps)
qed

lemma sample_day: "parse_date_in UTC ''1970-01-02'' = Some 86400000000000"
    "opening_hours sample_hub_entity 86400000000000 UTC = (115200000000000, 151200000000000)"
    "total_duration [hd sample_services] = 3600000000000"
  by code_simp+

lemma sample_availability:
  obtains av t where "availability sample_service 1 ''1970-01-02'' [5] sample_booked_db = (Inr av, t)"
    "\<forall>x \<in> set (av_slots av). sl_end x = sl_start x + 3600000000000"
    "\<exists>x \<in> set (av_slots av). sl_start x = 118800000000000"
proof -
  have hl: "hub_location sample_service sample_hub_entity = UTC" by (rule sample_env_sel)
  obtain av t where run: "availability sample_service 1 ''1970-01-02'' [5] sample_booked_db = (Inr av, t)"
    by (simp add: availability_def on_ok_def sample_env_sel sample_get_hub_booked sample_resolve_booked sample_day Let_def
        list_bookable_bays_def reservations_def run_defs) (simp add: sample_env_def)
  then obtain free where sl: "av_slots av = slots_from 3600000000000 151200000000000 free 115200000000000"
    by (auto simp: availability_def on_ok_def sample_env_sel sample_get_hub_booked sample_resolve_booked sample_day Let_def
        list_bookable_bays_def reservations_def run_defs split: if_splits)
  have st: "slot_step = 1800000000000" by (simp add: slot_step_def duration_units)
  have g: "\<lparr>sl_start = 118800000000000, sl_end = 122400000000000, sl_available = free 118800000000000 122400000000000\<rparr> \<in>
      set (slots_from 3600000000000 151200000000000 free 115200000000000)"
    unfolding slots_from_grid Let_def by (auto simp: st slot_count_def intro!: image_eqI [of _ _ 2])
  show ?thesis
    by (rule that [OF run]) (use g in \<open>auto simp: sl slots_from_grid Let_def st intro: bexI [OF _ g]\<close>)
qed

section \<open>Availability\<close>

text \<open>C36. The slots advertised for a day start at opening time and follow every half hour; each lasts exactly as
  long as the requested services together and ends by closing time, and no later half hour would fit.\<close>

theorem availability_slots:
  assumes "availability S hid date ids s = (Inr av, t)"
  shows "\<exists>h svcs day op cl. (\<exists>r \<in> set (hubs s). hr_id r = hid \<and> hr_active r \<and> to_hub (hub_columns r) = Inr h) \<and>
    resolve_ids (active_services (bs_env S) s) [] ids = Inr svcs \<and>
    parse_date_in (hub_location S h) date = Some day \<and> opening_hours h day (hub_location S h) = (op, cl) \<and>
    map sl_start (av_slots av) = map (\<lambda>k. op + int k * slot_step) [0..<length (av_slots av)] \<and>
    (\<forall>x \<in> set (av_slots av). sl_end x = sl_start x + total_duration svcs \<and> op \<le> sl_start x \<and> sl_end x \<le> cl) \<and>
    cl < op + int (length (av_slots av)) * slot_step + total_duration svcs"
proof -
  from assms obtain h u svcs day n rs w where
    g: "get_hub (bs_env S) hid s = (Inr h, u)" "resolve_ids (active_services (bs_env S) s) [] ids = Inr svcs" "ids \<noteq> []"
    "parse_date_in (hub_location S h) date = Some day"
    and "reservations (bs_env S) hid (fst (opening_hours h day (hub_location S h))) (snd (opening_hours h day (hub_location S h)))
        (s\<lparr>tick := n\<rparr>) = (Inr rs, w)"
    and av: "av = \<lparr>av_hub_id = hid, av_date = date, av_timezone = loc_name (hub_location S h),
       av_minutes = quot (total_duration svcs) minute_ns,
       av_slots = slots_from (total_duration svcs) (snd (opening_hours h day (hub_location S h)))
         (\<lambda>a b. clock (bs_env S) (tick w) < a \<and> any_bay_free (map to_bay (bookable_rows (bs_env S) hid s)) rs a b)
         (fst (opening_hours h day (hub_location S h)))\<rparr>"
    by (rule availability_Inr)
  let ?oc = "opening_hours h day (hub_location S h)" and ?d = "total_duration svcs"
  have n: "length (av_slots av) = slot_count ?d (snd ?oc) (fst ?oc)"
    and st: "map sl_start (av_slots av) = map (\<lambda>k. fst ?oc + int k * slot_step) [0..<length (av_slots av)]"
    by (simp_all add: av slots_from_grid Let_def comp_def)
  have "sl_end x = sl_start x + ?d \<and> fst ?oc \<le> sl_start x \<and> sl_end x \<le> snd ?oc" if "x \<in> set (av_slots av)" for x
  proof -
    from that obtain k where k: "k < slot_count ?d (snd ?oc) (fst ?oc)" "sl_start x = fst ?oc + int k * slot_step"
        "sl_end x = fst ?oc + int k * slot_step + ?d"
      by (auto simp: av slots_from_grid Let_def)
    then show ?thesis using slot_count_fits [OF k(1)] by simp
  qed
  then have x: "\<forall>x \<in> set (av_slots av). sl_end x = sl_start x + ?d \<and> fst ?oc \<le> sl_start x \<and> sl_end x \<le> snd ?oc"
    by blast
  have e: "snd ?oc < fst ?oc + int (length (av_slots av)) * slot_step + ?d"
    unfolding n by (rule slot_count_full)
  show ?thesis
    by (rule exI [of _ h], rule exI [of _ svcs], rule exI [of _ day], rule exI [of _ "fst ?oc"],
        rule exI [of _ "snd ?oc"], intro conjI)
      (rule get_hub_row [OF g(1)] g(2,4) st x e prod.collapse [symmetric])+
qed

theorem availability_slots_witness:
  "\<exists>av t. availability sample_service 1 ''1970-01-02'' [5] sample_booked_db = (Inr av, t) \<and>
     (\<forall>x \<in> set (av_slots av). \<exists>k. sl_start x = 115200000000000 + int k * slot_step)"
proof -
  obtain av t where run: "availability sample_service 1 ''1970-01-02'' [5] sample_booked_db = (Inr av, t)"
    by (rule sample_availability)
  from availability_slots [OF run] obtain h svcs day op cl where
    h: "\<exists>r \<in> set (hubs sample_booked_db). hr_id r = 1 \<and> hr_active r \<and> to_hub (hub_columns r) = Inr h"
    and d: "parse_date_in (hub_location sample_service h) ''1970-01-02'' = Some day"
      "opening_hours h day (hub_location sample_service h) = (op, cl)"
    and s: "map sl_start (av_slots av) = map (\<lambda>k. op + int k * slot_step) [0..<length (av_slots av)]"
    by (elim exE conjE) (rule that)
  have "h = sample_hub_entity" using h sample_to_hub by (auto simp: sample_booked_db_def sample_db_def)
  then have op: "op = 115200000000000" using d by (simp add: sample_env_sel sample_day)
  have "\<exists>k. sl_start x = 115200000000000 + int k * slot_step" if "x \<in> set (av_slots av)" for x
  proof -
    have "sl_start x \<in> set (map sl_start (av_slots av))" using that by simp
    then show ?thesis unfolding s op by auto
  qed
  then show ?thesis using run by blast
qed

text \<open>C7. In a reachable state the advertised availability is what a booking finds: with one clock reading for
  the whole answer, a slot is available exactly if it starts later than that and the query for a free bay, asked
  for that slot, finds one. (Columns keep instants of whole microseconds as they are.)\<close>

theorem availability_agrees_with_booking:
  assumes "sched_reachable s" "availability S hid date ids s = (Inr av, t)"
    and col: "\<And>x. 1000 dvd x \<Longrightarrow> db_time (bs_env S) x = x" and nf: "\<And>n. fault (bs_env S) n = None"
    and dur: "\<And>x. x \<in> set (av_slots av) \<Longrightarrow> sl_start x < sl_end x \<and> 1000 dvd sl_end x - sl_start x"
  shows "\<exists>n. \<forall>x \<in> set (av_slots av). sl_available x \<longleftrightarrow>
    clock (bs_env S) n < sl_start x \<and> (\<exists>b u. free_bay (bs_env S) hid (sl_start x) (sl_end x) s = (Inr b, u))"
proof -
  from assms(2) obtain h u svcs day n rs w where
    "get_hub (bs_env S) hid s = (Inr h, u)" "resolve_ids (active_services (bs_env S) s) [] ids = Inr svcs" "ids \<noteq> []"
    "parse_date_in (hub_location S h) date = Some day"
    and rs: "reservations (bs_env S) hid (fst (opening_hours h day (hub_location S h))) (snd (opening_hours h day (hub_location S h)))
        (s\<lparr>tick := n\<rparr>) = (Inr rs, w)"
    and av: "av = \<lparr>av_hub_id = hid, av_date = date, av_timezone = loc_name (hub_location S h),
       av_minutes = quot (total_duration svcs) minute_ns,
       av_slots = slots_from (total_duration svcs) (snd (opening_hours h day (hub_location S h)))
         (\<lambda>a b. clock (bs_env S) (tick w) < a \<and> any_bay_free (map to_bay (bookable_rows (bs_env S) hid s)) rs a b)
         (fst (opening_hours h day (hub_location S h)))\<rparr>"
    by (rule availability_Inr)
  let ?op = "fst (opening_hours h day (hub_location S h))" and ?cl = "snd (opening_hours h day (hub_location S h))"
  have same: "bookable_rows (bs_env S) hid (s\<lparr>tick := n\<rparr>) = bookable_rows (bs_env S) hid s"
    by (simp add: bookable_rows_def)
  show ?thesis
  proof (intro exI [of _ "tick w"] ballI)
    fix x assume x: "x \<in> set (av_slots av)"
    then obtain k where k: "k < slot_count (total_duration svcs) ?cl ?op" "sl_start x = ?op + int k * slot_step"
        "sl_end x = ?op + int k * slot_step + total_duration svcs"
      and a: "sl_available x \<longleftrightarrow> clock (bs_env S) (tick w) < sl_start x \<and>
        any_bay_free (map to_bay (bookable_rows (bs_env S) hid s)) rs (sl_start x) (sl_end x)"
      by (auto simp: av slots_from_grid Let_def)
    have w: "?op \<le> sl_start x" "sl_end x \<le> ?cl" using slot_count_fits [OF k(1)] k by simp_all
    have "1000 dvd slot_step" by (simp add: slot_step_def duration_units)
    then have "1000 dvd sl_start x" unfolding k(2) using opening_whole(1) by (intro dvd_add dvd_mult)
    then have d: "db_time (bs_env S) (sl_start x) = sl_start x" "db_time (bs_env S) (sl_end x) = sl_end x"
      using col dur [OF x] dvd_add [of 1000 "sl_end x - sl_start x" "sl_start x"] by simp_all
    have lt: "sl_start x < sl_end x" using dur [OF x] by simp
    have "any_bay_free (map to_bay (bookable_rows (bs_env S) hid (s\<lparr>tick := n\<rparr>))) rs (sl_start x) (sl_end x) \<longleftrightarrow>
      (\<exists>y \<in> set (hub_bays (s\<lparr>tick := n\<rparr>)). hb_hub_id y = hid \<and> hb_status y = bay_available \<and>
         \<not> bay_taken (s\<lparr>tick := n\<rparr>) (hb_id y) (sl_start x) (sl_end x))"
      by (rule any_bay_free_iff [OF rs _ lt w])
        (use reachable_bay_windows [OF assms(1)] col opening_whole in auto)
    moreover have "(\<exists>b u. free_bay (bs_env S) hid (sl_start x) (sl_end x) s = (Inr b, u)) \<longleftrightarrow>
      (\<exists>y \<in> set (hub_bays s). hb_hub_id y = hid \<and> hb_status y = bay_available \<and>
         \<not> bay_taken s (hb_id y) (sl_start x) (sl_end x))"
      using free_bay_found [of "bs_env S" s "sl_start x" "sl_end x" hid] nf lt by (simp add: d)
    ultimately show "sl_available x \<longleftrightarrow> clock (bs_env S) (tick w) < sl_start x \<and>
        (\<exists>b u. free_bay (bs_env S) hid (sl_start x) (sl_end x) s = (Inr b, u))"
      using a by (simp add: same)
  qed
qed

theorem availability_agrees_with_booking_witness:
  "\<exists>av t. availability sample_service 1 ''1970-01-02'' [5] sample_booked_db = (Inr av, t) \<and>
     (\<exists>x \<in> set (av_slots av). sl_start x = 118800000000000 \<and>
        (sl_available x \<longleftrightarrow> (\<exists>b u. free_bay sample_env 1 (sl_start x) (sl_end x) sample_booked_db = (Inr b, u))))"
proof -
  obtain av t where run: "availability sample_service 1 ''1970-01-02'' [5] sample_booked_db = (Inr av, t)"
    and len: "\<forall>x \<in> set (av_slots av). sl_end x = sl_start x + 3600000000000"
    and x: "\<exists>x \<in> set (av_slots av). sl_start x = 118800000000000"
    by (rule sample_availability)
  have "\<exists>n. \<forall>x \<in> set (av_slots av). sl_available x \<longleftrightarrow>
    clock (bs_env sample_service) n < sl_start x \<and>
    (\<exists>b u. free_bay (bs_env sample_service) 1 (sl_start x) (sl_end x) sample_booked_db = (Inr b, u))"
    by (rule availability_agrees_with_booking [OF sample_reachable run])
      (use len in \<open>auto simp: sample_env_sel\<close>, simp_all add: sample_env_def)
  then show ?thesis using x run by (auto simp: sample_env_sel)
qed

end
