(* ===== verification/RelayProgress.thy ===== *)
theory RelayProgress
  imports Outbox
begin

text \<open>Progress of the outbox relay: with a database and a broker that answer, every pass publishes and marks the
  oldest hundred pending rows, so the backlog is drained.\<close>

definition pending :: "'z outbox_db_scheme \<Rightarrow> outbox_row list" where
  "pending s = filter (\<lambda>r. ob_published r = None) (outbox_rows s)"

definition answers :: "env \<Rightarrow> bool" where
  "answers E \<longleftrightarrow> (\<forall>n. fault E n = None) \<and> (\<forall>n. broker E n = Acked)"

lemma publish_batch_acked:
  assumes "\<And>n. broker E n = Acked"
  shows "\<exists>t. publish_batch (publish E) ms s = (map om_id ms, t) \<and> outbox_rows t = outbox_rows s \<and>
    outbox_seq t = outbox_seq s \<and> kafka_log t = kafka_log s @ ms"
proof (induction ms arbitrary: s)
  case (Cons m ms)
  let ?t = "step_tick (s\<lparr>kafka_log := kafka_log s @ [m]\<rparr>)"
  obtain u where "publish_batch (publish E) ms ?t = (map om_id ms, u)" "outbox_rows u = outbox_rows ?t"
    "outbox_seq u = outbox_seq ?t" "kafka_log u = kafka_log ?t @ ms"
    using Cons by blast
  moreover have "publish E m s = (Inr (), ?t)" by (simp add: publish_def assms)
  ultimately show ?case by simp
qed simp

lemma filter_not_taken:
  assumes "distinct (map f U)"
  shows "filter (\<lambda>r. f r \<notin> f ` set (take n U)) U = drop n U"
proof -
  have d: "set (map f (take n U)) \<inter> set (map f (drop n U)) = {}"
    using assms by (metis append_take_drop_id distinct_append map_append)
  have "filter (\<lambda>r. f r \<notin> f ` set (take n U)) (take n U @ drop n U) = drop n U"
    using d by (auto simp: filter_empty_conv filter_id_conv simp del: append_take_drop_id)
  then show ?thesis unfolding append_take_drop_id .
qed

lemma pending_sorted: "outbox_valid s \<Longrightarrow> sorted_wrt (<) (map ob_id (pending s))"
  by (auto simp: outbox_valid_def pending_def sorted_wrt_map intro: sorted_wrt_filter)

lemma relay_once_progress:
  assumes v: "outbox_valid s" and E: "answers E"
  shows "pending (relay_once (fetch_unpublished E) (mark_published E) (publish E) s) = drop outbox_relay_batch_size (pending s) \<and>
    kafka_log (relay_once (fetch_unpublished E) (mark_published E) (publish E) s) =
      kafka_log s @ map to_message (take outbox_relay_batch_size (pending s))"
proof -
  let ?n = outbox_relay_batch_size and ?U = "pending s"
  let ?ms = "map to_message (take ?n ?U)"
  have f: "fetch_unpublished E ?n s = (Inr ?ms, step_tick s)"
    using E sort_key_ascending [OF pending_sorted [OF v]]
    by (simp add: fetch_unpublished_def query_def sql_def answers_def pending_def)
  obtain t where t: "publish_batch (publish E) ?ms (step_tick s) = (map om_id ?ms, t)" "outbox_rows t = outbox_rows s"
      "kafka_log t = kafka_log s @ ?ms"
    using publish_batch_acked [of E ?ms "step_tick s"] E by (auto simp: answers_def)
  have ids: "map om_id ?ms = map ob_id (take ?n ?U)" by (simp add: comp_def)
  have dist: "distinct (map ob_id ?U)" using pending_sorted [OF v] by (simp add: strict_sorted_iff)
  show ?thesis
  proof (cases "take ?n ?U = []")
    case True
    then have "?U = []" by (auto simp: outbox_relay_batch_size_def)
    then show ?thesis using f t True by (simp add: relay_once_def pending_def)
  next
    case False
    define ids where "ids = ob_id ` set (take ?n ?U)"
    obtain x where m: "snd (mark_published E (map om_id ?ms) t) = step_tick (step_tick t)\<lparr>outbox_rows := map (\<lambda>row.
        if ob_id row \<in> ids then row\<lparr>ob_published := Some x\<rparr> else row) (outbox_rows s)\<rparr>"
      using E False t(2) by (auto simp: mark_published_def on_ok_def now_def sql_def answers_def ids ids_def)
    have r: "relay_once (fetch_unpublished E) (mark_published E) (publish E) s = snd (mark_published E (map om_id ?ms) t)"
      using f t(1) False by (simp add: relay_once_def)
    have "filter (\<lambda>r. ob_published r = None) (map (\<lambda>row. if ob_id row \<in> ids then row\<lparr>ob_published := Some x\<rparr> else row) rs) =
        filter (\<lambda>r. ob_id r \<notin> ids) (filter (\<lambda>r. ob_published r = None) rs)" for rs
      by (induction rs) auto
    then have "pending (relay_once (fetch_unpublished E) (mark_published E) (publish E) s) = filter (\<lambda>r. ob_id r \<notin> ids) ?U"
      unfolding r m by (simp add: pending_def)
    moreover have "kafka_log (snd (mark_published E (map om_id ?ms) t)) = kafka_log t" unfolding m by simp
    ultimately show ?thesis using filter_not_taken [OF dist] t(3) unfolding ids_def r by simp
  qed
qed

lemma relay_start_progress:
  assumes "outbox_valid s" "answers E"
  shows "pending (relay_start (fetch_unpublished E) (mark_published E) (publish E) n s) = drop (n * outbox_relay_batch_size) (pending s) \<and>
    kafka_log (relay_start (fetch_unpublished E) (mark_published E) (publish E) n s) =
      kafka_log s @ map to_message (take (n * outbox_relay_batch_size) (pending s))"
  using assms(1)
proof (induction n arbitrary: s)
  case (Suc n)
  let ?t = "relay_once (fetch_unpublished E) (mark_published E) (publish E) s" and ?k = outbox_relay_batch_size
  have v: "outbox_valid ?t" by (rule outbox.relay_once_valid [OF Suc.prems])
  have split: "take (?k + n * ?k) xs = take ?k xs @ take (n * ?k) (drop ?k xs)" for xs :: "outbox_row list"
    by (simp add: take_add)
  show ?case using Suc.IH [OF v] relay_once_progress [OF Suc.prems assms(2)] by (simp add: split add.commute)
qed simp

end
