(* ===== verification/SchedWireProps.thy ===== *)
theory SchedWireProps
  imports SchedQueryProps RelayProgress
begin

text \<open>The properties of scheduler-service's times, amounts, messages and HTTP side.\<close>

section \<open>Times and amounts\<close>

text \<open>C38. Opening time is a wall-clock time: on any date on which the hub's local opening time exists, the instant
  computed for it has that date and reads exactly that hour and minute in the hub's time zone, on days when the clock
  changes too. (The zone table has spans longer than three days and offsets below a day.)\<close>

theorem opening_time_is_wall_clock:
  assumes "zone_table loc" "date_in loc day = (y, m, d)"
    and "hub_open hb = h * hour_ns + mi * minute_ns" "0 \<le> h" "h < 24" "0 \<le> mi" "mi < 60"
    and "u = days_of_civil y m d * 86400 + h * 3600 + mi * 60" "\<bar>u\<bar> \<le> zone_bound"
    and "v + offset_at loc v = u" "\<bar>v\<bar> \<le> zone_bound"
  shows "date_in loc (fst (opening_hours hb day loc)) = (y, m, d) \<and>
    second_of_day loc (fst (opening_hours hb day loc)) = h * 3600 + mi * 60"
  by (rule conjI; rule opening_hours_wall) (fact assms)+

lemma zone_table_fixed: "\<bar>off\<bar> < 86400 \<Longrightarrow> zone_table (fixed_zone name off)"
  by (auto simp: zone_table_def fixed_zone_def offset_at_def zone_bound_def min_int64_def max_int64_def)

theorem opening_time_is_wall_clock_witness:
  "second_of_day (fixed_zone ''ICT'' 25200) (fst (opening_hours sample_hub_entity 86400000000000 (fixed_zone ''ICT'' 25200)))
     = 8 * 3600 + 0 * 60"
proof -
  let ?z = "fixed_zone ''ICT'' 25200"
  have "date_in ?z 86400000000000 = (1970, 1, 2)" "days_of_civil 1970 1 2 = 1" by code_simp+
  then have "date_in ?z (fst (opening_hours sample_hub_entity 86400000000000 ?z)) = (1970, 1, 2) \<and>
      second_of_day ?z (fst (opening_hours sample_hub_entity 86400000000000 ?z)) = 8 * 3600 + 0 * 60"
    by (intro opening_time_is_wall_clock [where u = 115200 and v = 90000] zone_table_fixed)
      (simp_all add: sample_hub_entity_def duration_units zone_bound_def offset_at_def fixed_zone_def)
  then show ?thesis by simp
qed

text \<open>C37. A fee becomes minor units exactly or not at all: with a decimal library that computes exactly, the result
  is the integer equal to the amount times ten to the currency's number of decimals, and an amount with more decimals
  than the currency has is refused.\<close>

theorem to_minor_exact:
  assumes "decimal_library D dval" "in_int64 (rat_trunc (dval amount * 10 ^ nat (decimals cur)))"
  shows "to_minor D amount cur = Inr n \<longleftrightarrow> of_int n = dval amount * 10 ^ nat (decimals cur)"
  by (rule decimal_library.to_minor_Inr [OF assms])

theorem to_minor_exact_witness: "to_minor dec_ops (Dec 4500 (- 2)) ''JPY'' = Inr 45"
proof -
  have d: "decimals ''JPY'' = 0" by code_simp
  have v: "dec_value (Dec 4500 (- 2)) = 45" by (simp add: pow10_def)
  have t: "rat_trunc 45 = 45" by (simp add: rat_trunc_def)
  have "to_minor dec_ops (Dec 4500 (- 2)) ''JPY'' = Inr 45 \<longleftrightarrow>
      of_int 45 = dec_value (Dec 4500 (- 2)) * 10 ^ nat (decimals ''JPY'')"
    by (rule to_minor_exact [OF decimals.decimal_library_axioms])
      (simp add: d v t in_int64_def min_int64_def max_int64_def del: dec_value.simps)
  then show ?thesis by (simp add: d v del: dec_value.simps)
qed

text \<open>C39. Reading back a timestamp that was written gives the same instant to the millisecond, for every instant of
  the years 0 to 9999, the zero time included.\<close>

theorem wire_time_roundtrip:
  assumes "date_in UTC t = (y, m, d)" "0 \<le> y" "y \<le> 9999"
  shows "unmarshal_time (marshal_time t) = Some (new_time t)"
  by (rule unmarshal_marshal_time [OF assms])

theorem wire_time_roundtrip_witness: "unmarshal_time (marshal_time 118800000000000) = Some (new_time 118800000000000)"
  by (rule wire_time_roundtrip [of _ 1970 1 2]) code_simp+

lemma fmt02_pad: "0 \<le> n \<Longrightarrow> fmt02 n = pad 2 (nat n)"
  by (simp add: fmt02_def)

text \<open>A hub's opening hours survive the way through the repository and the API: the text shown for a stored time
  of day is the hour and minute the database prints for it.\<close>

theorem hub_clock_roundtrip:
  assumes "0 \<le> us" "us < 86400 * 1000000"
  shows "\<exists>offset. parse_hour (to_char_hhmm us) = Inr offset \<and> clock_text offset = to_char_hhmm us"
proof (intro exI conjI)
  let ?k = "us div 60000000"
  show "parse_hour (to_char_hhmm us) = Inr (?k * minute_ns)" by (rule parse_hour_to_char [OF assms])
  have k: "0 \<le> ?k" using assms by simp
  have q: "quot (?k * minute_ns) hour_ns = ?k div 60" "quot (rem (?k * minute_ns) hour_ns) minute_ns = ?k mod 60"
  proof -
    have h: "hour_ns = minute_ns * 60" "0 < minute_ns" by (simp_all add: duration_units)
    show "quot (?k * minute_ns) hour_ns = ?k div 60"
      using k by (simp add: quot_nonneg duration_units)
    have "rem (?k * minute_ns) hour_ns = ?k mod 60 * minute_ns"
    proof -
      have "rem (?k * minute_ns) hour_ns = (?k * minute_ns) mod hour_ns" using k h by (intro rem_nonneg) simp_all
      then show ?thesis unfolding hour_ns_def by (simp only: mult_mod_left)
    qed
    then show "quot (rem (?k * minute_ns) hour_ns) minute_ns = ?k mod 60"
      using h k by (simp add: quot_nonneg)
  qed
  define s where "s = nat us div 1000000"
  have "int s = us div 1000000" using assms(1) by (simp add: s_def zdiv_int)
  moreover have "us div 60000000 = us div 1000000 div 60" by (simp add: zdiv_zmult2_eq [symmetric])
  ultimately have ks: "?k = int (s div 60)" by (simp add: zdiv_int)
  have "nat (?k div 60) = s div 3600" "nat (?k mod 60) = s mod 3600 div 60"
  proof -
    have "s div 60 div 60 = s div 3600" by (simp add: div_mult2_eq [symmetric])
    then show "nat (?k div 60) = s div 3600" unfolding ks by (simp add: nat_div_distrib)
    have "s mod (60 * 60) = 60 * (s div 60 mod 60) + s mod 60" by (rule mod_mult2_eq)
    then have "s mod 3600 div 60 = s div 60 mod 60" by simp
    then show "nat (?k mod 60) = s mod 3600 div 60" unfolding ks by (simp add: nat_mod_distrib)
  qed
  moreover have "0 \<le> ?k div 60" "0 \<le> ?k mod 60" using k by (simp_all add: pos_imp_zdiv_nonneg_iff)
  ultimately have f: "fmt02 (?k div 60) = pad 2 (s div 3600)" "fmt02 (?k mod 60) = pad 2 (s mod 3600 div 60)"
    by (simp_all only: fmt02_pad)
  show "clock_text (?k * minute_ns) = to_char_hhmm us"
    unfolding clock_text_def q f to_char_hhmm_def Let_def s_def ..
qed

theorem hub_clock_roundtrip_witness: "\<exists>offset. parse_hour (to_char_hhmm 30600000000) = Inr offset \<and> clock_text offset = ''08:30''"
proof -
  have "to_char_hhmm 30600000000 = ''08:30''" by code_simp
  then show ?thesis using hub_clock_roundtrip [of 30600000000] by simp
qed

section \<open>The relay\<close>


lemma sample_relayed: "sched_reachable (run_op (OpRelay sample_env) sample_booked_db)"
  by (rule sched_reachable.operate [OF sample_reachable]) simp


text \<open>C23. Nothing is stuck: with a database and a broker that answer, n passes of the relay publish exactly the
  oldest 100 n pending messages, oldest first, and leave only the younger ones pending.\<close>

theorem relay_drains:
  assumes "sched_reachable s" "answers E"
  shows "pending (relay_start (fetch_unpublished E) (mark_published E) (publish E) n s) = drop (n * 100) (pending s) \<and>
    kafka_log (relay_start (fetch_unpublished E) (mark_published E) (publish E) n s) =
      kafka_log s @ map to_message (take (n * 100) (pending s))"
proof -
  have "outbox_valid s" using reachable_inv [OF assms(1)] by (simp add: sched_inv_def outbox_ok_def)
  from relay_start_progress [OF this assms(2), of n] show ?thesis by (simp only: outbox_relay_batch_size_def)
qed

theorem relay_drains_witness:
  "pending (relay_start (fetch_unpublished sample_env) (mark_published sample_env) (publish sample_env) 1 sample_booked_db) = []"
proof -
  have "answers sample_env" by (simp add: answers_def sample_env_def)
  then show ?thesis
    using relay_drains [OF sample_reachable, of sample_env 1] by (simp add: pending_def sample_booked_db_def)
qed

section \<open>Listings\<close>

text \<open>A customer's listing holds at most 100 appointments, all of them theirs, latest first, and all of theirs
  when there are no more than 100.\<close>

theorem my_appointments_spec:
  assumes "directories_read_only S" "my_appointments S caller s = (Inr as, t)"
  shows "\<exists>cust u. bs_customers S (pr_token caller) s = (Inr cust, u) \<and> length as \<le> my_appointments_limit \<and>
    sorted_wrt (\<lambda>a b. ap_start b \<le> ap_start a) as \<and> (\<forall>a \<in> set as. ap_customer_id a = cu_id cust) \<and>
    (length (filter (\<lambda>r. ar_customer_id r = cu_id cust) (appointments s)) \<le> my_appointments_limit \<longrightarrow>
       ap_id ` set as = ar_id ` {r \<in> set (appointments s). ar_customer_id r = cu_id cust})"
proof -
  obtain cust u where c: "bs_customers S (pr_token caller) s = (Inr cust, u)"
    and l: "load (bs_env S) (\<lambda>r. ar_customer_id r = cu_id cust) my_appointments_limit u = (Inr as, t)"
    using assms(2) by (auto simp: my_appointments_def on_ok_Inr list_by_customer_def)
  have "reads_only (bs_customers S (pr_token caller))" using assms(1) by (simp add: directories_read_only_def)
  from reads_onlyD [OF this c] have u: "appointments u = appointments s" by auto
  note f = load_facts [OF l]
  have own: "\<forall>a \<in> set as. ap_customer_id a = cu_id cust" using f(3) by fastforce
  show ?thesis
    by (rule exI [of _ cust], rule exI [of _ u], intro conjI impI; rule c f(1,2) own f(4) [unfolded u]; assumption?)
qed

lemma sample_customer:
  "bs_customers sample_service (pr_token sample_caller) s = (Inr \<lparr>cu_id = 42, cu_name = ''Jane'', cu_email = ''j@x''\<rparr>, s)"
  by (simp add: sample_service_def sample_customers_def sample_caller_def ok_def)

lemma sample_listing: "\<exists>as t. my_appointments sample_service sample_caller sample_booked_db = (Inr as, t)"
proof -
  obtain lines t where "load sample_env (\<lambda>r. ar_customer_id r = 42) my_appointments_limit sample_booked_db =
      (Inr (map (\<lambda>r. to_appointment lines \<lparr>aj_row = r, aj_vehicle_id = first_vehicle sample_booked_db (ar_id r),
        aj_bay_id = first_bay sample_booked_db (ar_id r)\<rparr>)
        (take my_appointments_limit (latest_first (filter (\<lambda>r. ar_customer_id r = 42) (appointments sample_booked_db))))), t)"
    using load_answers [of sample_env "\<lambda>r. ar_customer_id r = 42" my_appointments_limit sample_booked_db]
    by (auto simp: sample_env_sel)
  then show ?thesis by (simp add: my_appointments_def on_ok_def sample_customer list_by_customer_def sample_env_sel)
qed

theorem my_appointments_spec_witness:
  "\<exists>as t. my_appointments sample_service sample_caller sample_booked_db = (Inr as, t) \<and> ap_id ` set as = {1}"
proof -
  obtain as t where run: "my_appointments sample_service sample_caller sample_booked_db = (Inr as, t)"
    using sample_listing by blast
  obtain cust u where c: "bs_customers sample_service (pr_token sample_caller) sample_booked_db = (Inr cust, u)"
    and l: "length (filter (\<lambda>r. ar_customer_id r = cu_id cust) (appointments sample_booked_db)) \<le> my_appointments_limit \<longrightarrow>
       ap_id ` set as = ar_id ` {r \<in> set (appointments sample_booked_db). ar_customer_id r = cu_id cust}"
    using my_appointments_spec [OF sample_directories run] by (elim exE conjE) (rule that)
  have rows: "appointments sample_booked_db = [sample_row]" "ar_customer_id sample_row = 42" "ar_id sample_row = 1"
    by (simp_all add: sample_booked_db_def sample_row_def)
  have "cu_id cust = 42" using c by (auto simp: sample_customer)
  moreover have "{r \<in> set [sample_row]. ar_customer_id r = 42} = {sample_row}" using rows(2) by auto
  ultimately have "ap_id ` set as = {1}" using l unfolding rows(1) by (simp add: rows(2,3) my_appointments_limit_def)
  then show ?thesis using run by blast
qed

section \<open>The HTTP side\<close>

lemma respond_reads: "reads_only m \<Longrightarrow> respond status enc m s = (resp, t) \<Longrightarrow> unchanged s t"
  using unchanged_reads_only [of m s "fst (m s)" "snd (m s)"] respond_state [of status enc m s resp t] by simp

lemma respond_writes:
  assumes "\<And>e t. m s = (Inl e, t) \<Longrightarrow> unchanged s t" "respond status enc m s = (resp, t)"
  shows "unchanged s t \<or> hs_status resp = status"
  using assms by (cases "m s") (auto simp: respond_def respond_with_def reply_def split: sum.splits)

lemma respond_service_writes:
  "directories_read_only S \<Longrightarrow> respond status enc (book S caller req) s = (resp, t) \<Longrightarrow> unchanged s t \<or> hs_status resp = status"
  "directories_read_only S \<Longrightarrow> respond status enc (cancel S caller aid) s = (resp, t) \<Longrightarrow> unchanged s t \<or> hs_status resp = status"
  "respond status enc (complete S aid) s = (resp, t) \<Longrightarrow> unchanged s t \<or> hs_status resp = status"
  by (erule respond_writes [rotated], erule book_Inl_unchanged cancel_Inl_unchanged complete_Inl_unchanged, assumption?)+

lemma reads_only_list_catalog: "reads_only (list_services E)" "reads_only (list_hubs E)"
  by (rule reads_only_catalog)+

lemma handle_changes:
  assumes dir: "directories_read_only (sv_service V)" and run: "handle V p r e s = (resp, t)"
  shows "unchanged s t \<or> (case e of Book \<Rightarrow> hs_status resp = 201 | Cancel i \<Rightarrow> hs_status resp = 200
    | Complete i \<Rightarrow> hs_status resp = 200 | _ \<Rightarrow> False)"
proof (cases e)
  case ListHubs
  then show ?thesis using run respond_reads [OF reads_only_list_catalog(2)] by (simp add: handle_list_hubs_def)
next
  case (Availability i)
  then show ?thesis using run respond_reads [OF reads_only_availability]
    by (auto simp: handle_availability_def with_id_def split: sum.splits option.splits)
next
  case ListServices
  then show ?thesis using run respond_reads [OF reads_only_list_catalog(1)] by (simp add: handle_list_services_def)
next
  case Book
  then show ?thesis using run respond_service_writes(1) [OF dir]
    by (auto simp: handle_book_def split: sum.splits)
next
  case MyAppointments
  then show ?thesis using run respond_reads [OF reads_only_queries [OF dir]] by (simp add: handle_my_appointments_def)
next
  case (Cancel i)
  then show ?thesis using run respond_service_writes(2) [OF dir]
    by (auto simp: handle_cancel_def with_id_def split: sum.splits)
next
  case (HubDay i)
  then show ?thesis using run respond_reads [OF reads_only_hub_day]
    by (auto simp: handle_hub_day_def with_id_def Let_def split: sum.splits if_splits)
next
  case (Complete i)
  then show ?thesis using run
    by (auto simp: handle_complete_def with_id_def dest: respond_service_writes(3) split: sum.splits)
qed

text \<open>C18. A request changes a table only if it is authenticated, its route is booking, cancelling or completing, the
  caller's role is allowed there (customers book and cancel, staff complete), and the answer is 200 or 201; every other
  answer leaves all tables as they were.\<close>

theorem http_changes_are_authorised:
  assumes "directories_read_only (sv_service V)" "serve V r s = Some (resp, t)" "\<not> unchanged s t"
  shows "\<exists>p e. require_auth V r = Inr p \<and> route (hq_method r) (hq_path r) = Some e \<and>
    (case e of Book \<Rightarrow> pr_role p = role_customer \<and> hs_status resp = 201
     | Cancel i \<Rightarrow> pr_role p = role_customer \<and> hs_status resp = 200
     | Complete i \<Rightarrow> pr_role p \<in> set staff_roles \<and> hs_status resp = 200
     | _ \<Rightarrow> False)"
proof -
  have nm: "hq_method r \<noteq> ''OPTIONS''" using assms(2,3) by (auto simp: serve_def)
  obtain e where e: "route (hq_method r) (hq_path r) = Some e"
    using assms(2) nm by (auto simp: serve_def split: option.splits)
  obtain p where p: "require_auth V r = Inr p"
    using assms(2,3) nm e by (cases "require_auth V r") (auto simp: serve_def)
  show ?thesis
  proof (cases "case route_roles e of None \<Rightarrow> None | Some roles \<Rightarrow> require_role roles p")
    case None
    then have h: "handle V p r e s = (resp, t)" using assms(2) nm e p by (simp add: serve_def)
    have r: "route_roles e = Some roles \<Longrightarrow> pr_role p \<in> set roles" for roles
      using None by (simp add: require_role_def split: if_splits)
    show ?thesis using handle_changes [OF assms(1) h] assms(3) p e r by (cases e) auto
  next
    case (Some x)
    then show ?thesis using assms(2,3) nm e p by (simp add: serve_def)
  qed
qed

definition sample_server :: "dec http_server" where
  "sample_server = \<lparr>sv_secret = '''', sv_issuer = '''',
     sv_parse_claims = (\<lambda>_ _ tok. if tok = ''jane'' then Some \<lparr>cl_subject = ''u1'', cl_role = role_customer\<rparr> else None),
     sv_service = sample_service, sv_bind = (\<lambda>_. Inr \<lparr>ca_hub_id = 1, ca_vehicle_id = 7, ca_service_ids = [5, 6, 5], ca_start = 118800000000000\<rparr>)\<rparr>"

definition sample_post :: http_request where
  "sample_post = \<lparr>hq_method = ''POST'', hq_path = [''appointments''], hq_authorization = ''Bearer jane'', hq_query = [], hq_body = ''''\<rparr>"

lemma sample_serve: "serve sample_server sample_post sample_db =
    Some (reply 201 (appointment_dto dec_ops sample_booked), sample_booked_db)"
proof -
  have a: "require_auth sample_server sample_post = Inr sample_caller"
    by (simp add: require_auth_def parse_access_token_def sample_server_def sample_post_def sample_caller_def) code_simp
  have q: "\<lparr>rq_hub_id = 1, rq_vehicle_id = 7, rq_service_ids = [5, 6, 5], rq_start = 118800000000000\<rparr> = sample_request"
    by (simp add: sample_request_def)
  have b: "handle_book sample_server sample_caller sample_post sample_db =
      (reply 201 (appointment_dto dec_ops sample_booked), sample_booked_db)"
    by (simp add: handle_book_def respond_def respond_with_def sample_server_def q sample_book) (simp add: sample_service_def)
  have r: "hq_method sample_post \<noteq> ''OPTIONS''" "route (hq_method sample_post) (hq_path sample_post) = Some Book"
    by (simp_all add: sample_post_def route_def)
  have "pr_role sample_caller = role_customer" by (simp add: sample_caller_def)
  then show ?thesis using r a b by (simp add: serve_def require_role_def)
qed

theorem http_changes_are_authorised_witness: "\<exists>p. require_auth sample_server sample_post = Inr p \<and> pr_role p = role_customer"
proof -
  have "directories_read_only (sv_service sample_server)" by (simp add: sample_server_def sample_directories)
  moreover have "\<not> unchanged sample_db sample_booked_db" by (simp add: unchanged_def sample_db_def sample_booked_db_def)
  ultimately obtain p e where "require_auth sample_server sample_post = Inr p"
    "route (hq_method sample_post) (hq_path sample_post) = Some e"
    "case e of Book \<Rightarrow> pr_role p = role_customer \<and> hs_status (reply 201 (appointment_dto dec_ops sample_booked)) = 201
     | Cancel i \<Rightarrow> pr_role p = role_customer \<and> hs_status (reply 201 (appointment_dto dec_ops sample_booked)) = 200
     | Complete i \<Rightarrow> pr_role p \<in> set staff_roles \<and> hs_status (reply 201 (appointment_dto dec_ops sample_booked)) = 200
     | _ \<Rightarrow> False"
    using http_changes_are_authorised [OF _ sample_serve] by blast
  moreover from this(2) have "e = Book" by (simp add: sample_post_def route_def)
  ultimately show ?thesis by auto
qed

end
