(* ===== verification/Stamps.thy ===== *)
theory Stamps
  imports HttpAuth
begin

text \<open>Time values with a location, and how they are written to and read from JSON, for the services that put
  \<open>time.Time\<close> in their bodies; with the other field decoders their DTOs share.\<close>

section \<open>Time values\<close>

text \<open>A \<open>time.Time\<close>: an instant and the location its fields are read in.\<close>

record stamp =
  sp_time :: int
  sp_loc :: location

definition utc :: "int \<Rightarrow> stamp" where
  "utc t = \<lparr>sp_time = t, sp_loc = UTC\<rparr>"

text \<open>\<open>t.Format(time.DateOnly)\<close> and \<open>t.Format(time.RFC3339Nano)\<close>, which is also how JSON shows a \<open>time.Time\<close>.\<close>

definition date_only :: "stamp \<Rightarrow> string" where
  "date_only s = format_date (date_in (sp_loc s) (sp_time s))"

definition zone_text :: "int \<Rightarrow> string" where
  "zone_text off =
     (if off = 0 then ''Z''
      else let m = nat (\<bar>off\<bar> div 60)
           in (if off < 0 then CHR ''-'' else CHR ''+'') # pad 2 (m div 60) @ CHR '':'' # pad 2 (m mod 60))"

definition format_nano :: "stamp \<Rightarrow> string" where
  "format_nano s =
     (let t = sp_time s; sod = nat (second_of_day (sp_loc s) t); ns = nat (t mod second_ns)
      in format_date (date_in (sp_loc s) t) @ ''T'' @ pad 2 (sod div 3600) @ '':'' @ pad 2 (sod mod 3600 div 60) @ '':''
           @ pad 2 (sod mod 60) @ (if ns = 0 then '''' else CHR ''.'' # trim_right CHR ''0'' (pad 9 ns))
           @ zone_text (offset_at (sp_loc s) (unix_seconds t)))"

definition stamp_json :: "stamp \<Rightarrow> json" where
  "stamp_json s = JStr (format_nano s)"

definition opt_json :: "('a \<Rightarrow> json) \<Rightarrow> 'a option \<Rightarrow> json" where
  "opt_json f x = (case x of None \<Rightarrow> JNull | Some y \<Rightarrow> f y)"

lemma utc_sel [simp]: "sp_time (utc t) = t" "sp_loc (utc t) = UTC"
  by (simp_all add: utc_def)

section \<open>Decoding fields\<close>

text \<open>A \<open>time.Time\<close> in JSON keeps the offset it was written with; \<open>null\<close> leaves the value as it was.\<close>

definition decode_stamp :: "json \<Rightarrow> stamp option" where
  "decode_stamp j = (case j of
       JNull \<Rightarrow> Some (utc zero_time)
     | JStr s \<Rightarrow> map_option (\<lambda>(t, off). \<lparr>sp_time = t, sp_loc = fixed_zone '''' off\<rparr>) (parse_zoned s)
     | _ \<Rightarrow> None)"

definition stamp_field :: "string \<Rightarrow> json \<Rightarrow> stamp option" where
  "stamp_field k j = (case field k j of None \<Rightarrow> Some (utc zero_time) | Some v \<Rightarrow> decode_stamp v)"

text \<open>A pointer field: nil when absent or \<open>null\<close>. The outer option is the decoding error.\<close>

definition pointer_field :: "(json \<Rightarrow> 'a option) \<Rightarrow> string \<Rightarrow> json \<Rightarrow> 'a option option" where
  "pointer_field decode k j = (case field k j of
       None \<Rightarrow> Some None
     | Some JNull \<Rightarrow> Some None
     | Some v \<Rightarrow> map_option Some (decode v))"

definition decode_string :: "json \<Rightarrow> string option" where
  "decode_string j = (case j of JStr s \<Rightarrow> Some s | JNull \<Rightarrow> Some '''' | _ \<Rightarrow> None)"

section \<open>Reading back what was written\<close>

lemma parse_pad: "parse_nat_acc 0 (pad k n) = Some n"
proof -
  have "parse_nat_acc 0 (replicate j (CHR ''0'') @ digits n) = Some n" for j
    using parse_digits [of 0 n] by (induction j) (simp_all add: zero_char)
  then show ?thesis by (simp add: pad_def)
qed

lemma length_digits_le: "n < 10 ^ k \<Longrightarrow> 0 < k \<Longrightarrow> length (digits n) \<le> k"
proof (induction n arbitrary: k rule: digits.induct)
  case (1 n)
  show ?case
  proof (cases "n < 10")
    case False
    obtain j where k: "k = Suc j" using 1(3) by (cases k) simp_all
    have "n div 10 < 10 ^ j" using 1(2) by (simp add: k less_mult_imp_div_less mult.commute)
    moreover have "0 < j" using 1(2) False k by (cases j) simp_all
    ultimately show ?thesis using 1(1) [OF False, of j] False by (simp add: digits.simps [of n] k)
  qed (use 1(3) in \<open>simp add: digits_small\<close>)
qed

lemma length_pad: "n < 10 ^ k \<Longrightarrow> 0 < k \<Longrightarrow> length (pad k n) = k"
  using length_digits_le [of n k] by (simp add: pad_def)

lemma parse_nat_digits: "parse_nat_acc a s = Some n \<Longrightarrow> \<forall>c \<in> set s. digit_of c \<noteq> None"
  by (induction s arbitrary: a) (auto split: option.splits)

lemma parse_zeros: "parse_nat_acc a (replicate k (CHR ''0'')) = Some (a * 10 ^ k)"
  by (induction k arbitrary: a) (simp_all add: zero_char algebra_simps)

lemma get_fraction_dot:
  "digit_of d \<noteq> None \<Longrightarrow> get_fraction (CHR ''.'' # d # ds) =
     (let g = takeWhile (\<lambda>c. digit_of c \<noteq> None) (d # ds)
      in (int (the (parse_nat_acc 0 (take 9 g))) * 10 ^ (9 - length (take 9 g)), drop (length g) (d # ds)))"
  by (simp only: get_fraction_def list.case Let_def) simp

text \<open>The fraction with its trailing zeros cut off.\<close>

lemma get_fraction_trimmed:
  assumes n: "0 < n" "n < 10 ^ 9" and z: "s = c # s'" "digit_of c = None"
  shows "get_fraction (CHR ''.'' # trim_right CHR ''0'' (pad 9 n) @ s) = (int n, s)"
proof -
  define f where "f = trim_right CHR ''0'' (pad 9 n)"
  define k where "k = length (takeWhile (\<lambda>x. x = CHR ''0'') (rev (pad 9 n)))"
  have "takeWhile (\<lambda>x. x = CHR ''0'') (rev (pad 9 n)) = replicate k (CHR ''0'')"
    unfolding k_def by (rule replicate_eqI) (auto dest: set_takeWhileD)
  then have split: "pad 9 n = f @ replicate k (CHR ''0'')"
    using takeWhile_dropWhile_id [of "\<lambda>x. x = CHR ''0''" "rev (pad 9 n)"] unfolding f_def trim_right_def
    by (metis rev_append rev_replicate rev_rev_ident)
  have len: "length f + k = 9" using length_pad [OF n(2)] arg_cong [OF split, of length] by simp
  obtain a where a: "parse_nat_acc 0 f = Some a" "n = a * 10 ^ k"
    using parse_pad [of 9 n] unfolding split parse_nat_acc_append by (auto simp: parse_zeros bind_eq_Some_conv)
  have ne: "f \<noteq> []" using a n(1) by (cases f) auto
  then obtain d f' where d: "f = d # f'" by (cases f) auto
  have dig: "\<forall>x \<in> set f. digit_of x \<noteq> None" by (rule parse_nat_digits [OF a(1)])
  then have tw: "takeWhile (\<lambda>c. digit_of c \<noteq> None) (f @ s) = f" using z by (simp add: takeWhile_append2)
  have "take 9 f = f" using len by simp
  moreover have "get_fraction (CHR ''.'' # d # f' @ s) =
      (let g = takeWhile (\<lambda>c. digit_of c \<noteq> None) (d # f' @ s)
       in (int (the (parse_nat_acc 0 (take 9 g))) * 10 ^ (9 - length (take 9 g)), drop (length g) (d # f' @ s)))"
    by (rule get_fraction_dot) (use dig d in simp)
  ultimately have "get_fraction (CHR ''.'' # f @ s) = (int (the (parse_nat_acc 0 f)) * 10 ^ (9 - length f), s)"
    using tw by (simp only: Let_def append_Cons [symmetric] d [symmetric]) simp
  also have "9 - length f = k" using len by simp
  finally show ?thesis using a by (simp add: f_def)
qed

lemma get_fraction_none: "s = c # s' \<Longrightarrow> c \<noteq> CHR ''.'' \<Longrightarrow> c \<noteq> CHR '','' \<Longrightarrow> get_fraction s = (0, s)"
  by (simp add: get_fraction_def split: list.splits)

lemma zone_text_head: "\<exists>c s. zone_text off = c # s \<and> digit_of c = None \<and> c \<noteq> CHR ''.'' \<and> c \<noteq> CHR '',''"
  by (auto simp: zone_text_def Let_def digit_of_def)

lemma get_zone_text:
  assumes "off mod 60 = 0" "\<bar>off\<bar> < 86400"
  shows "get_zone (zone_text off) = Some (off, [])"
proof (cases "off = 0")
  case True
  then show ?thesis by (simp add: zone_text_def get_zone_def)
next
  case False
  define m where "m = nat (\<bar>off\<bar> div 60)"
  obtain k where k: "off = 60 * k" using assms(1) by (auto simp: mod_eq_0_iff_dvd elim: dvdE)
  have "\<bar>off\<bar> = 60 * \<bar>k\<bar>" by (simp add: k abs_mult)
  then have m: "int m = \<bar>k\<bar>" "int m * 60 = \<bar>off\<bar>" by (simp_all add: m_def)
  then have "m < 1440" using assms(2) by linarith
  then have h: "m div 60 < 24" by (simp add: less_mult_imp_div_less)
  have "int (m div 60) * 60 + int (m mod 60) = int m"
    using arg_cong [OF div_mult_mod_eq [of m 60], of int] by (simp only: of_nat_add of_nat_mult of_nat_numeral)
  then have "(int (m div 60) * 60 + int (m mod 60)) * 60 = \<bar>off\<bar>" using m(2) by simp
  moreover have "m mod 60 < 100" by (rule less_trans [of _ 60]) simp_all
  moreover have "zone_text off = (if off < 0 then CHR ''-'' else CHR ''+'') # pad 2 (m div 60) @ CHR '':'' # pad 2 (m mod 60)"
    using False by (simp add: zone_text_def m_def Let_def)
  ultimately show ?thesis
    using h getnum_pad [of "m mod 60" True "[]"] by (cases "off < 0") (simp_all add: get_zone_def)
qed

lemma parse_format_nano:
  assumes d: "date_in (sp_loc x) (sp_time x) = (y, m, d)" and y: "0 \<le> y" "y \<le> 9999"
    and o: "off = offset_at (sp_loc x) (unix_seconds (sp_time x))" "off mod 60 = 0" "\<bar>off\<bar> < 86400"
  shows "parse_zoned (format_nano x) = Some (sp_time x, off)"
proof -
  define t where "t = sp_time x"
  define L where "L = local_seconds (sp_loc x) t"
  define sod where "sod = nat (L mod 86400)"
  define ns where "ns = nat (t mod second_ns)"
  have civ: "days_of_civil y m d = L div 86400" "valid_date y m d"
    using days_of_civil_of_days [of "L div 86400" y m d] d by (simp_all add: date_in_def L_def t_def)
  have sod: "sod < 86400" "second_of_day (sp_loc x) t = int sod" by (simp_all add: sod_def second_of_day_def L_def)
  have ns: "ns < 10 ^ 9" "int ns = t mod second_ns" by (simp_all add: ns_def second_ns_def)
  note h = clock_fields [OF sod(1)]
  define fr where "fr = (if ns = 0 then '''' else CHR ''.'' # trim_right CHR ''0'' (pad 9 ns))"
  obtain c z where z: "zone_text off = c # z" "digit_of c = None" "c \<noteq> CHR ''.''" "c \<noteq> CHR '',''" using zone_text_head by blast
  have fraction: "get_fraction (fr @ zone_text off) = (int ns, zone_text off)"
    using get_fraction_trimmed [of ns "zone_text off" c z] get_fraction_none [of "zone_text off" c z] ns(1) z
    by (cases "ns = 0") (simp_all add: fr_def)
  have w: "format_nano x = format_date (y, m, d) @ CHR ''T'' # pad 2 (sod div 3600) @ CHR '':'' # pad 2 (sod mod 3600 div 60)
      @ CHR '':'' # pad 2 (sod mod 60) @ fr @ zone_text off"
    using d sod(2) by (simp add: format_nano_def t_def fr_def o(1) ns_def Let_def)
  have "int (sod div 3600) * 3600 + int (sod mod 3600 div 60) * 60 + int (sod mod 60) = int sod"
    using arg_cong [OF h(4), of int] by simp
  then have "days_of_civil y m d * 86400 + int (sod div 3600) * 3600 + int (sod mod 3600 div 60) * 60 + int (sod mod 60)
      = days_of_civil y m d * 86400 + int sod" by linarith
  also have "\<dots> = L" by (simp add: civ(1) sod_def)
  finally have "time_date y m d (int (sod div 3600)) (int (sod mod 3600 div 60)) (int (sod mod 60)) (int ns) UTC
      = L * second_ns + int ns" by (simp only: time_date_utc [OF civ(2)])
  moreover have "L * second_ns + int ns - off * second_ns = t"
    by (simp add: L_def local_seconds_def t_def o(1) ns(2) unix_seconds_def algebra_simps)
  ultimately have res: "time_date y m d (int (sod div 3600)) (int (sod mod 3600 div 60)) (int (sod mod 60)) (int ns) UTC
      - off * second_ns = t" by simp
  obtain sc where sc: "sod mod 60 = sc" "sc < 60" using h(3) by blast
  show ?thesis
    unfolding w parse_zoned_def
    using h(1,2) sc(2) y civ(2) res unfolding sc(1)
    by (simp add: get_date_format get_clock_format fraction get_zone_text [OF o(2,3)] t_def)
qed

text \<open>So a \<open>time.Time\<close> comes back from JSON as the same instant with the offset it was written with.\<close>

lemma decode_stamp_json:
  assumes "date_in (sp_loc x) (sp_time x) = (y, m, d)" "0 \<le> y" "y \<le> 9999"
    and "offset_at (sp_loc x) (unix_seconds (sp_time x)) = off" "off mod 60 = 0" "\<bar>off\<bar> < 86400"
  shows "decode_stamp (stamp_json x) = Some \<lparr>sp_time = sp_time x, sp_loc = fixed_zone '''' off\<rparr>"
  using parse_format_nano [OF assms(1-3) assms(4) [symmetric] assms(5,6)] by (simp add: stamp_json_def decode_stamp_def)

end
