(* ===== verification/VehicleRules.thy ===== *)
theory VehicleRules
  imports Stamps
begin

text \<open>vehicle-service's pure rules (\<open>domain/services/vehicle-rules.go\<close>) and the sentinel errors of \<open>domain/ports/errors.go\<close>.\<close>

section \<open>Errors\<close>

text \<open>The sentinels with the text appended to them by \<open>fmt.Errorf\<close>, an error of another kind, and a database
  error.\<close>

datatype vehicle_error =
    VErrNotFound string
  | VErrConflict string
  | VErrInvalidInput string
  | VErrInvalidState string
  | VErrDb db_error
  | VErrOther string

section \<open>The rules\<close>

definition vin_char :: "char \<Rightarrow> bool" where
  "vin_char c \<longleftrightarrow> (let n = of_char c :: nat
     in (65 \<le> n \<and> n \<le> 90 \<and> n \<noteq> 73 \<and> n \<noteq> 79 \<and> n \<noteq> 81) \<or> (48 \<le> n \<and> n \<le> 57))"

definition vin_pattern :: "string \<Rightarrow> bool" where
  "vin_pattern s \<longleftrightarrow> length s = 17 \<and> list_all vin_char s"

definition max_license_plate_length :: nat where
  "max_license_plate_length = 20"

definition normalize_vin :: "string \<Rightarrow> vehicle_error + string" where
  "normalize_vin vin =
     (let v = to_upper (trim_space vin)
      in if \<not> vin_pattern v
         then Inl (VErrInvalidInput '': vin must be 17 characters of A-Z (except I, O, Q) and 0-9'')
         else Inr v)"

definition plate_char :: "char \<Rightarrow> bool" where
  "plate_char c \<longleftrightarrow> (let n = of_char c :: nat in (65 \<le> n \<and> n \<le> 90) \<or> (48 \<le> n \<and> n \<le> 57))"

definition normalize_plate :: "string \<Rightarrow> vehicle_error + string" where
  "normalize_plate plate =
     (let normalized = filter plate_char (to_upper plate)
      in if max_license_plate_length < length normalized
         then Inl (VErrInvalidInput ('': license_plate is longer than '' @ format_int (int max_license_plate_length) @ '' characters''))
         else if normalized = '''' \<and> trim_space plate \<noteq> ''''
         then Inl (VErrInvalidInput '': license_plate has no letters or digits'')
         else Inr normalized)"

definition calendar_date :: "stamp \<Rightarrow> stamp" where
  "calendar_date t = (let (y, m, d) = date_in (sp_loc t) (sp_time t) in utc (time_date y m d 0 0 0 0 UTC))"

definition format_date_opt :: "stamp option \<Rightarrow> string option" where
  "format_date_opt t = map_option date_only t"

definition same_date :: "stamp option \<Rightarrow> stamp option \<Rightarrow> bool" where
  "same_date a b = (case (a, b) of
       (Some x, Some y) \<Rightarrow> sp_time x = sp_time y
     | (None, None) \<Rightarrow> True
     | _ \<Rightarrow> False)"

section \<open>Facts\<close>

lemma upper_fixed: "(\<forall>c \<in> set s. 65 \<le> (of_char c :: nat) \<and> of_char c \<le> (90::nat) \<or> 48 \<le> (of_char c :: nat) \<and> of_char c \<le> (57::nat)) \<Longrightarrow>
    to_upper s = s"
  by (induction s) (auto simp: to_upper_def to_upper_char_def Let_def)

lemma vin_char_upper: "vin_char c \<Longrightarrow> 65 \<le> (of_char c :: nat) \<and> of_char c \<le> (90::nat) \<or> 48 \<le> (of_char c :: nat) \<and> of_char c \<le> (57::nat)"
  by (auto simp: vin_char_def Let_def)

lemma vin_char_not_space: "vin_char c \<Longrightarrow> \<not> is_space c"
  by (auto simp: vin_char_def is_space_def Let_def)

lemma plate_char_not_space: "plate_char c \<Longrightarrow> \<not> is_space c"
  by (auto simp: plate_char_def is_space_def Let_def)

lemma dropWhile_none: "\<forall>c \<in> set s. \<not> P c \<Longrightarrow> dropWhile P s = s"
  by (cases s) auto

lemma trim_space_none: "\<forall>c \<in> set s. \<not> is_space c \<Longrightarrow> trim_space s = s"
  by (simp add: trim_space_def dropWhile_none)

lemma normalize_vin_Inr:
  "normalize_vin vin = Inr v \<longleftrightarrow> v = to_upper (trim_space vin) \<and> length v = 17 \<and> list_all vin_char v"
  by (auto simp: normalize_vin_def vin_pattern_def Let_def)

lemma normalize_vin_fixed:
  assumes "length v = 17" "list_all vin_char v"
  shows "normalize_vin v = Inr v"
proof -
  have "trim_space v = v" using assms(2) by (intro trim_space_none) (auto simp: list_all_iff vin_char_not_space)
  moreover have "to_upper v = v" using assms(2) by (intro upper_fixed) (auto simp: list_all_iff dest: vin_char_upper)
  ultimately show ?thesis using assms by (simp add: normalize_vin_Inr)
qed

lemma normalize_plate_Inr:
  "normalize_plate p = Inr v \<longleftrightarrow> v = filter plate_char (to_upper p) \<and> length v \<le> 20 \<and> (v = '''' \<longrightarrow> trim_space p = '''')"
  by (auto simp: normalize_plate_def Let_def max_license_plate_length_def)

lemma normalize_plate_fixed:
  assumes "list_all plate_char v" "length v \<le> 20"
  shows "normalize_plate v = Inr v"
proof -
  have "to_upper v = v" using assms(1) by (intro upper_fixed) (auto simp: list_all_iff plate_char_def Let_def)
  moreover have "filter plate_char v = v" using assms(1) by (simp add: list_all_iff filter_id_conv)
  moreover have "trim_space v = v" using assms(1) by (intro trim_space_none) (auto simp: list_all_iff plate_char_not_space)
  moreover have "trim_space '''' = ''''" by (simp add: trim_space_def)
  ultimately show ?thesis using assms by (auto simp: normalize_plate_Inr)
qed

lemma calendar_date_midnight:
  assumes "date_in (sp_loc t) (sp_time t) = (y, m, d)"
  shows "calendar_date t = utc (days_of_civil y m d * 86400 * second_ns)" "date_only (calendar_date t) = date_only t"
    "calendar_date (calendar_date t) = calendar_date t"
proof -
  have v: "valid_date y m d" using assms days_of_civil_of_days by (auto simp: date_in_def)
  then have m: "(m - 1) div 12 = 0" "(m - 1) mod 12 = m - 1" by (auto simp: valid_date_def)
  have z: "zone_adjust UTC u = u" for u
    by (simp add: zone_adjust_def UTC_def fixed_zone_def Let_def offset_at_def)
  show c: "calendar_date t = utc (days_of_civil y m d * 86400 * second_ns)"
    using z by (simp add: calendar_date_def assms time_date_def m Let_def)
  have l: "local_seconds UTC (k * 86400 * second_ns) = k * 86400" for k
    by (simp add: local_seconds_def unix_seconds_def second_ns_def offset_at_def UTC_def fixed_zone_def)
  have d: "date_in UTC (days_of_civil y m d * 86400 * second_ns) = (y, m, d)"
    using civil_of_days_of_civil [OF v] by (simp add: date_in_def l)
  then show "date_only (calendar_date t) = date_only t"
    by (simp add: c date_only_def utc_def assms)
  show "calendar_date (calendar_date t) = calendar_date t"
    using d z by (simp add: c) (simp add: calendar_date_def utc_def time_date_def m Let_def)
qed

lemma calendar_date_idem [simp]: "calendar_date (calendar_date t) = calendar_date t"
  by (cases "date_in (sp_loc t) (sp_time t)") (use calendar_date_midnight in blast)

lemma date_only_calendar [simp]: "date_only (calendar_date t) = date_only t"
  by (cases "date_in (sp_loc t) (sp_time t)") (use calendar_date_midnight in blast)

lemma calendar_date_utc: "calendar_date t = utc (sp_time (calendar_date t))"
  by (cases "date_in (sp_loc t) (sp_time t)") (simp add: calendar_date_midnight)

end
