(* ===== verification/VehicleData.thy ===== *)
theory VehicleData
  imports VehicleRules Outbox
begin

text \<open>vehicle-service's data: entities (\<open>internal/domain/entity\<close>), rows (\<open>internal/adapters/database/models\<close> and
  \<open>migrations/*.sql\<close>), and the database they live in. A calendar date is the instant of its midnight UTC.\<close>

section \<open>Status values\<close>

definition status_active :: string where "status_active = ''ACTIVE''"
definition status_sold :: string where "status_sold = ''SOLD''"
definition status_scrapped :: string where "status_scrapped = ''SCRAPPED''"

definition valid_status :: "string \<Rightarrow> bool" where
  "valid_status s \<longleftrightarrow> s = status_active \<or> s = status_sold \<or> s = status_scrapped"

datatype ownership_status = Current | Transferred

definition constraint_vehicle_vin :: string where
  "constraint_vehicle_vin = ''vehicle_vin_key''"
definition constraint_vehicle_license_plate :: string where
  "constraint_vehicle_license_plate = ''uq_vehicle_license_plate''"
definition constraint_vehicle_model_fk :: string where
  "constraint_vehicle_model_fk = ''vehicle_vehicle_model_id_fkey''"
definition constraint_current_owner :: string where
  "constraint_current_owner = ''uq_vehicle_current_owner''"

section \<open>Entities\<close>

record vehicle_entity =
  v_id :: int
  v_vin :: string
  v_plate :: string
  v_model_id :: int
  v_warranty :: "stamp option"
  v_status :: string
  v_created :: int
  v_updated :: int

record vehicle_update =
  vu_status :: "string option"
  vu_warranty :: "stamp option"
  vu_clear :: bool
  vu_updated :: int

record customer_vehicle =
  cv_id :: int
  cv_vehicle :: vehicle_entity
  cv_customer_id :: int
  cv_owned_from :: stamp
  cv_owned_to :: "stamp option"
  cv_status :: ownership_status
  cv_created :: int

record transfer_request =
  tv_date :: stamp
  tv_from :: int
  tv_to :: int
  tv_vehicle_id :: int

record vehicle_material =
  vm_id :: int
  vm_vehicle_id :: int
  vm_material_id :: int
  vm_description :: string
  vm_count :: int
  vm_installed :: int

record warranty =
  wa_vehicle_id :: int
  wa_end :: "stamp option"
  wa_as_of :: stamp
  wa_active :: bool
  wa_days :: int

record service_performed =
  pf_service_id :: int
  pf_name :: string

record history_entry =
  he_id :: int
  he_vehicle_id :: int
  he_appointment_id :: int
  he_dealership_id :: int
  he_completed :: int
  he_services :: "service_performed list"
  he_created :: int

record list_params =
  lp_cursor :: int
  lp_limit :: int
  lp_vin :: string
  lp_plate :: string
  lp_status :: string

record vehicle_page =
  pg_vehicles :: "vehicle_entity list"
  pg_next :: int
  pg_more :: bool

section \<open>Rows\<close>

record vehicle_row =
  vh_id :: int
  vh_vin :: string
  vh_plate :: "string option"
  vh_model_id :: int
  vh_warranty :: "int option"
  vh_status :: string
  vh_created :: int
  vh_updated :: int

record ownership_row =
  ow_id :: int
  ow_customer_id :: int
  ow_vehicle_id :: int
  ow_from :: int
  ow_to :: "int option"
  ow_status :: ownership_status
  ow_created :: int

record material_row =
  mr_id :: int
  mr_vehicle_id :: int
  mr_material_id :: int
  mr_description :: "string option"
  mr_count :: int
  mr_installed :: int

record history_row =
  hs_id :: int
  hs_vehicle_id :: int
  hs_appointment_id :: int
  hs_dealership_id :: int
  hs_completed :: int
  hs_services :: json
  hs_created :: int

record vehicle_db = outbox_db +
  vehicle_rows :: "vehicle_row list"
  model_ids :: "int list"
  ownership_rows :: "ownership_row list"
  material_rows :: "material_row list"
  history_rows :: "history_row list"
  vh_seq :: int
  ow_seq :: int
  hs_seq :: int

text \<open>ROLLBACK: every table as at BEGIN; the clock, the sequences and the broker keep what happened.\<close>

definition vehicle_restore :: "vehicle_db \<Rightarrow> vehicle_db \<Rightarrow> vehicle_db" where
  "vehicle_restore s t = t\<lparr>outbox_rows := outbox_rows s, vehicle_rows := vehicle_rows s, model_ids := model_ids s,
     ownership_rows := ownership_rows s, material_rows := material_rows s, history_rows := history_rows s\<rparr>"

lemma vehicle_tick [simp]:
  "vehicle_rows (step_tick s) = vehicle_rows s" "model_ids (step_tick s) = model_ids s"
  "ownership_rows (step_tick s) = ownership_rows s" "material_rows (step_tick s) = material_rows s"
  "history_rows (step_tick s) = history_rows s" "vh_seq (step_tick s) = vh_seq s" "ow_seq (step_tick s) = ow_seq s"
  "hs_seq (step_tick s) = hs_seq s"
  by (simp_all add: step_tick_def)

lemma vehicle_restore_sel [simp]:
  "outbox_rows (vehicle_restore s t) = outbox_rows s" "vehicle_rows (vehicle_restore s t) = vehicle_rows s"
  "model_ids (vehicle_restore s t) = model_ids s" "ownership_rows (vehicle_restore s t) = ownership_rows s"
  "material_rows (vehicle_restore s t) = material_rows s" "history_rows (vehicle_restore s t) = history_rows s"
  "vh_seq (vehicle_restore s t) = vh_seq t" "ow_seq (vehicle_restore s t) = ow_seq t" "hs_seq (vehicle_restore s t) = hs_seq t"
  "outbox_seq (vehicle_restore s t) = outbox_seq t" "kafka_log (vehicle_restore s t) = kafka_log t"
  "tick (vehicle_restore s t) = tick t"
  by (simp_all add: vehicle_restore_def)

section \<open>Error texts\<close>

fun vehicle_error_text :: "vehicle_error \<Rightarrow> string" where
  "vehicle_error_text (VErrNotFound d) = ''vehicle: not found'' @ d"
| "vehicle_error_text (VErrConflict d) = ''vehicle: conflict'' @ d"
| "vehicle_error_text (VErrInvalidInput d) = ''vehicle: invalid input'' @ d"
| "vehicle_error_text (VErrInvalidState d) = ''vehicle: invalid state'' @ d"
| "vehicle_error_text (VErrDb e) = ''database error''"
| "vehicle_error_text (VErrOther m) = m"

fun is_client_error :: "vehicle_error \<Rightarrow> bool" where
  "is_client_error (VErrDb e) = False"
| "is_client_error (VErrOther m) = False"
| "is_client_error _ = True"

end
