(* ===== verification/VehicleRepo.thy ===== *)
theory VehicleRepo
  imports VehicleData
begin

text \<open>vehicle-service's repositories (\<open>internal/adapters/repository\<close>), statement by statement, with the
  constraints of \<open>migrations/00001_baseline.sql\<close> a statement can violate. \<open>D\<close> is what the driver stores in a
  \<open>date\<close> column for a time value.\<close>

section \<open>Translating driver errors\<close>

definition is_duplicate_key :: "db_error \<Rightarrow> bool" where
  "is_duplicate_key e = (case e of UniqueViolation c \<Rightarrow> True | _ \<Rightarrow> False)"

definition is_foreign_key :: "db_error \<Rightarrow> bool" where
  "is_foreign_key e = (case e of ForeignKeyViolation c \<Rightarrow> True | _ \<Rightarrow> False)"

definition constraint_name :: "db_error \<Rightarrow> string" where
  "constraint_name e = (case e of UniqueViolation c \<Rightarrow> c | ForeignKeyViolation c \<Rightarrow> c | ExclusionViolation c \<Rightarrow> c
     | CheckViolation c \<Rightarrow> c | _ \<Rightarrow> '''')"

definition vehicle_write_error :: "db_error \<Rightarrow> vehicle_error" where
  "vehicle_write_error e =
     (if is_duplicate_key e
      then (if constraint_name e = constraint_vehicle_vin
            then VErrConflict '': a vehicle with this VIN is already registered''
            else if constraint_name e = constraint_vehicle_license_plate
            then VErrConflict '': a vehicle with this license plate is already registered''
            else VErrConflict '''')
      else if is_foreign_key e \<and> constraint_name e = constraint_vehicle_model_fk
      then VErrInvalidInput '': unknown vehicle_model_id''
      else VErrDb e)"

section \<open>vehicle\<close>

definition to_vehicle_entity :: "vehicle_row \<Rightarrow> vehicle_entity" where
  "to_vehicle_entity r =
     \<lparr>v_id = vh_id r, v_vin = vh_vin r, v_plate = (case vh_plate r of None \<Rightarrow> '''' | Some p \<Rightarrow> p),
      v_model_id = vh_model_id r, v_warranty = map_option utc (vh_warranty r), v_status = vh_status r,
      v_created = vh_created r, v_updated = vh_updated r\<rparr>"

definition to_vehicle_row :: "(stamp \<Rightarrow> int) \<Rightarrow> vehicle_entity \<Rightarrow> vehicle_row" where
  "to_vehicle_row D v =
     \<lparr>vh_id = v_id v, vh_vin = v_vin v, vh_plate = (if v_plate v = '''' then None else Some (v_plate v)),
      vh_model_id = v_model_id v, vh_warranty = map_option D (v_warranty v), vh_status = v_status v,
      vh_created = v_created v, vh_updated = v_updated v\<rparr>"

text \<open>The constraints a row is checked against beside the other rows, in the order PostgreSQL checks them: CHECK,
  unique indexes, foreign keys.\<close>

definition row_violation :: "vehicle_row \<Rightarrow> vehicle_row list \<Rightarrow> vehicle_db \<Rightarrow> db_error option" where
  "row_violation r others s =
     (if \<not> valid_status (vh_status r) then Some (CheckViolation ''vehicle_status_check'')
      else if vh_vin r \<in> vh_vin ` set others then Some (UniqueViolation constraint_vehicle_vin)
      else if vh_plate r \<noteq> None \<and> vh_plate r \<in> vh_plate ` set others
      then Some (UniqueViolation constraint_vehicle_license_plate)
      else if vh_model_id r \<notin> set (model_ids s) then Some (ForeignKeyViolation constraint_vehicle_model_fk)
      else None)"

text \<open>\<open>Create\<close>: gorm stamps the model before the INSERT, and the id comes back with it.\<close>

definition create_vehicle ::
    "env \<Rightarrow> (stamp \<Rightarrow> int) \<Rightarrow> vehicle_entity \<Rightarrow> (vehicle_db, vehicle_error, vehicle_entity) prog" where
  "create_vehicle E D v =
     on_ok (now E) (\<lambda>t.
     let v1 = v\<lparr>v_created := if v_created v = zero_time then t else v_created v,
               v_updated := if v_updated v = zero_time then t else v_updated v\<rparr>
     in on_ok (map_err vehicle_write_error (sql E (\<lambda>s.
          if v_id v \<noteq> 0 then (Inl (DriverError ''cannot insert a non-DEFAULT value into column \"id\"''), s)
          else let r = (to_vehicle_row D v1)\<lparr>vh_id := vh_seq s, vh_created := db_time E (v_created v1),
                          vh_updated := db_time E (v_updated v1)\<rparr>;
                   s' = s\<lparr>vh_seq := vh_seq s + 1\<rparr>
               in case row_violation r (vehicle_rows s) s of
                    Some e \<Rightarrow> (Inl e, s')
                  | None \<Rightarrow> (Inr (vh_id r), s'\<lparr>vehicle_rows := vehicle_rows s @ [r]\<rparr>)))) (\<lambda>i.
        ok (v1\<lparr>v_id := i, v_warranty := map_option calendar_date (v_warranty v1)\<rparr>)))"

definition delete_vehicle :: "env \<Rightarrow> int \<Rightarrow> (vehicle_db, vehicle_error, unit) prog" where
  "delete_vehicle E vid =
     on_ok (map_err VErrDb (sql E (\<lambda>s.
       if vid \<in> vh_id ` set (vehicle_rows s) \<and>
          (vid \<in> ow_vehicle_id ` set (ownership_rows s) \<or> vid \<in> hs_vehicle_id ` set (history_rows s))
       then (Inl (ForeignKeyViolation ''vehicle_id_fkey''), s)
       else (Inr (length (filter (\<lambda>r. vh_id r = vid) (vehicle_rows s))),
             s\<lparr>vehicle_rows := filter (\<lambda>r. vh_id r \<noteq> vid) (vehicle_rows s),
               material_rows := filter (\<lambda>r. mr_vehicle_id r \<noteq> vid) (material_rows s)\<rparr>)))) (\<lambda>n.
     if n = 0 then fail (VErrNotFound '''') else ok ())"

definition find_vehicle :: "env \<Rightarrow> int \<Rightarrow> (vehicle_db, vehicle_error, vehicle_entity) prog" where
  "find_vehicle E vid =
     on_ok (map_err VErrDb (query E (\<lambda>s. filter (\<lambda>r. vh_id r = vid) (vehicle_rows s)))) (\<lambda>rs.
     case rs of [] \<Rightarrow> fail (VErrNotFound '''') | r # _ \<Rightarrow> ok (to_vehicle_entity r))"

text \<open>\<open>GetByID\<close>, and \<open>GetByIDForUpdate\<close>, which also locks the row until the transaction ends.\<close>

definition get_vehicle_by_id :: "env \<Rightarrow> int \<Rightarrow> (vehicle_db, vehicle_error, vehicle_entity) prog" where
  "get_vehicle_by_id E vid = find_vehicle E vid"

definition get_vehicle_for_update :: "env \<Rightarrow> int \<Rightarrow> (vehicle_db, vehicle_error, vehicle_entity) prog" where
  "get_vehicle_for_update E vid = find_vehicle E vid"

text \<open>\<open>List\<close>: keyset pagination by id, one row past the limit. A negative limit means no LIMIT to gorm, which the
  service never asks for.\<close>

definition list_rows :: "env \<Rightarrow> list_params \<Rightarrow> vehicle_db \<Rightarrow> vehicle_row list" where
  "list_rows E p s = take (nat (lp_limit p + 1)) (sort_key vh_id (filter (\<lambda>r.
     (0 < lp_cursor p \<longrightarrow> lp_cursor p < vh_id r) \<and> (lp_vin p \<noteq> '''' \<longrightarrow> vh_vin r = lp_vin p) \<and>
     (lp_plate p \<noteq> '''' \<longrightarrow> vh_plate r = Some (lp_plate p)) \<and> (lp_status p \<noteq> '''' \<longrightarrow> vh_status r = lp_status p))
     (vehicle_rows s)))"

definition page_of :: "int \<Rightarrow> vehicle_row list \<Rightarrow> vehicle_page" where
  "page_of limit rows =
     (let more = limit < int (length rows); kept = (if more then take (nat limit) rows else rows);
          vs = map to_vehicle_entity kept
      in \<lparr>pg_vehicles = vs, pg_next = (if more then v_id (last vs) else 0), pg_more = more\<rparr>)"

definition list_vehicle_rows :: "env \<Rightarrow> list_params \<Rightarrow> (vehicle_db, vehicle_error, vehicle_page) prog" where
  "list_vehicle_rows E p =
     on_ok (map_err VErrDb (query E (list_rows E p))) (\<lambda>rows. ok (page_of (lp_limit p) rows))"

definition update_failure_reason :: "env \<Rightarrow> int \<Rightarrow> (vehicle_db, vehicle_error, unit) prog" where
  "update_failure_reason E vid =
     on_ok (map_err VErrDb (query E (\<lambda>s. length (filter (\<lambda>r. vh_id r = vid) (vehicle_rows s))))) (\<lambda>n.
     if n = 0 then fail (VErrNotFound '''') else fail (VErrConflict ''''))"

text \<open>\<open>Update\<close>: an optimistic lock on \<open>updated_at\<close>, with the columns it names. Uniqueness is checked for each
  row it would change.\<close>

definition set_columns :: "env \<Rightarrow> (stamp \<Rightarrow> int) \<Rightarrow> int \<Rightarrow> vehicle_entity \<Rightarrow> vehicle_row \<Rightarrow> vehicle_row" where
  "set_columns E D t v r =
     (let m = to_vehicle_row D v
      in r\<lparr>vh_plate := vh_plate m, vh_model_id := vh_model_id m, vh_warranty := vh_warranty m, vh_status := vh_status m,
           vh_updated := db_time E t\<rparr>)"

definition same_version :: "env \<Rightarrow> vehicle_entity \<Rightarrow> vehicle_row \<Rightarrow> bool" where
  "same_version E v r \<longleftrightarrow> vh_id r = v_id v \<and> vh_updated r = db_time E (v_updated v)"

definition update_statement ::
    "env \<Rightarrow> (stamp \<Rightarrow> int) \<Rightarrow> int \<Rightarrow> vehicle_entity \<Rightarrow> (vehicle_db, db_error, nat) prog" where
  "update_statement E D t v = (\<lambda>s.
     case filter (same_version E v) (vehicle_rows s) of
       [] \<Rightarrow> (Inr 0, s)
     | r # rs \<Rightarrow>
         (case row_violation (set_columns E D t v r) (filter (\<lambda>q. vh_id q \<noteq> v_id v) (vehicle_rows s)) s of
            Some e \<Rightarrow> (Inl e, s)
          | None \<Rightarrow> (Inr (Suc (length rs)),
              s\<lparr>vehicle_rows := map (\<lambda>q. if same_version E v q then set_columns E D t v q else q) (vehicle_rows s)\<rparr>)))"

definition update_vehicle_row ::
    "env \<Rightarrow> (stamp \<Rightarrow> int) \<Rightarrow> vehicle_entity \<Rightarrow> (vehicle_db, vehicle_error, unit) prog" where
  "update_vehicle_row E D v =
     on_ok (now E) (\<lambda>t.
     on_ok (map_err vehicle_write_error (sql E (update_statement E D t v))) (\<lambda>n.
     if n = 0 then update_failure_reason E (v_id v) else ok ()))"

section \<open>customer_vehicle\<close>

definition to_customer_vehicle :: "vehicle_row list \<Rightarrow> ownership_row \<Rightarrow> customer_vehicle" where
  "to_customer_vehicle rows ow =
     \<lparr>cv_id = ow_id ow,
      cv_vehicle = (case filter (\<lambda>r. vh_id r = ow_vehicle_id ow) rows of
         r # _ \<Rightarrow> to_vehicle_entity r
       | [] \<Rightarrow> \<lparr>v_id = 0, v_vin = '''', v_plate = '''', v_model_id = 0, v_warranty = None, v_status = '''',
                v_created = zero_time, v_updated = zero_time\<rparr>),
      cv_customer_id = ow_customer_id ow, cv_owned_from = utc (ow_from ow), cv_owned_to = map_option utc (ow_to ow),
      cv_status = ow_status ow, cv_created = ow_created ow\<rparr>"

definition assign_error :: "db_error \<Rightarrow> vehicle_error" where
  "assign_error e =
     (if is_duplicate_key e \<and> constraint_name e = constraint_current_owner
      then VErrConflict '': the vehicle already has a current owner''
      else if is_foreign_key e then VErrNotFound ''''
      else VErrDb e)"

definition assign_vehicle_to_customer ::
    "env \<Rightarrow> (stamp \<Rightarrow> int) \<Rightarrow> int \<Rightarrow> int \<Rightarrow> stamp \<Rightarrow> (vehicle_db, vehicle_error, unit) prog" where
  "assign_vehicle_to_customer E D vid cid date =
     on_ok (now E) (\<lambda>t.
     map_err assign_error (sql E (\<lambda>s.
       let ow = \<lparr>ow_id = ow_seq s, ow_customer_id = cid, ow_vehicle_id = vid, ow_from = D date, ow_to = None,
                ow_status = Current, ow_created = db_time E t\<rparr>;
           s' = s\<lparr>ow_seq := ow_seq s + 1\<rparr>
       in if \<exists>q \<in> set (ownership_rows s). ow_vehicle_id q = vid \<and> ow_status q = Current
          then (Inl (UniqueViolation constraint_current_owner), s')
          else if vid \<notin> vh_id ` set (vehicle_rows s)
          then (Inl (ForeignKeyViolation ''customer_vehicle_vehicle_id_fkey''), s')
          else (Inr (), s'\<lparr>ownership_rows := ownership_rows s @ [ow]\<rparr>))))"

definition list_current_by_customer :: "env \<Rightarrow> int \<Rightarrow> (vehicle_db, vehicle_error, customer_vehicle list) prog" where
  "list_current_by_customer E cid =
     on_ok (map_err VErrDb (query E (\<lambda>s. sort_key (\<lambda>ow. (- ow_from ow, - ow_id ow))
       (filter (\<lambda>ow. ow_customer_id ow = cid \<and> ow_status ow = Current) (ownership_rows s))))) (\<lambda>ows.
     if ows = [] then ok []
     else on_ok (map_err VErrDb (query E vehicle_rows)) (\<lambda>rows. ok (map (to_customer_vehicle rows) ows)))"

definition current_ownership :: "vehicle_db \<Rightarrow> int \<Rightarrow> ownership_row list" where
  "current_ownership s vid =
     take 1 (sort_key ow_id (filter (\<lambda>ow. ow_vehicle_id ow = vid \<and> ow_status ow = Current) (ownership_rows s)))"

definition get_current_by_vehicle :: "env \<Rightarrow> int \<Rightarrow> (vehicle_db, vehicle_error, customer_vehicle) prog" where
  "get_current_by_vehicle E vid =
     on_ok (map_err VErrDb (query E (\<lambda>s. current_ownership s vid))) (\<lambda>ows.
     case ows of [] \<Rightarrow> fail (VErrNotFound '''') | ow # _ \<Rightarrow> ok (to_customer_vehicle [] ow))"

definition unassign_vehicle ::
    "env \<Rightarrow> (stamp \<Rightarrow> int) \<Rightarrow> int \<Rightarrow> int \<Rightarrow> stamp \<Rightarrow> (vehicle_db, vehicle_error, unit) prog" where
  "unassign_vehicle E D vid cid date =
     on_ok (map_err VErrDb (query E (\<lambda>s. current_ownership s vid))) (\<lambda>ows.
     case ows of
       [] \<Rightarrow> fail (VErrNotFound '''')
     | ow # _ \<Rightarrow>
         if ow_customer_id ow \<noteq> cid then fail (VErrConflict '''')
         else map_err VErrDb (sql E (\<lambda>s.
                if \<exists>q \<in> set (ownership_rows s). ow_id q = ow_id ow \<and> D date < ow_from q
                then (Inl (CheckViolation ''customer_vehicle_check''), s)
                else (Inr (), s\<lparr>ownership_rows := map (\<lambda>q. if ow_id q = ow_id ow
                       then q\<lparr>ow_to := Some (D date), ow_status := Transferred\<rparr> else q) (ownership_rows s)\<rparr>))))"

section \<open>vehicle_service_history and vehicle_material\<close>

definition service_performed_json :: "service_performed \<Rightarrow> json" where
  "service_performed_json p = JObj [(''service_id'', JInt (pf_service_id p)), (''name'', JStr (pf_name p))]"

definition decode_service_performed :: "json \<Rightarrow> string + service_performed" where
  "decode_service_performed j = (case (is_object j, int_field ''service_id'' j, string_field ''name'' j) of
       (True, Some i, Some n) \<Rightarrow> Inr \<lparr>pf_service_id = i, pf_name = n\<rparr>
     | _ \<Rightarrow> Inl ''json: cannot unmarshal'')"

definition decode_services :: "json \<Rightarrow> string + service_performed list" where
  "decode_services j = (case j of
       JArr js \<Rightarrow> map_result decode_service_performed js
     | JNull \<Rightarrow> Inr []
     | _ \<Rightarrow> Inl ''json: cannot unmarshal'')"

definition record_history :: "env \<Rightarrow> history_entry \<Rightarrow> (vehicle_db, vehicle_error, bool) prog" where
  "record_history E e =
     on_ok (now E) (\<lambda>t.
     map_err (\<lambda>d. if is_foreign_key d then VErrNotFound '''' else VErrDb d) (sql E (\<lambda>s.
       let r = \<lparr>hs_id = hs_seq s, hs_vehicle_id = he_vehicle_id e, hs_appointment_id = he_appointment_id e,
                hs_dealership_id = he_dealership_id e, hs_completed = db_time E (he_completed e),
                hs_services = JArr (map service_performed_json (he_services e)), hs_created = db_time E t\<rparr>;
           s' = s\<lparr>hs_seq := hs_seq s + 1\<rparr>
       in if he_appointment_id e \<in> hs_appointment_id ` set (history_rows s) then (Inr False, s')
          else if he_vehicle_id e \<notin> vh_id ` set (vehicle_rows s)
          then (Inl (ForeignKeyViolation ''vehicle_service_history_vehicle_id_fkey''), s')
          else (Inr True, s'\<lparr>history_rows := history_rows s @ [r]\<rparr>))))"

definition to_history_entry :: "history_row \<Rightarrow> vehicle_error + history_entry" where
  "to_history_entry r = (case decode_services (hs_services r) of
       Inl m \<Rightarrow> Inl (VErrOther m)
     | Inr ps \<Rightarrow> Inr \<lparr>he_id = hs_id r, he_vehicle_id = hs_vehicle_id r, he_appointment_id = hs_appointment_id r,
         he_dealership_id = hs_dealership_id r, he_completed = hs_completed r, he_services = ps, he_created = hs_created r\<rparr>)"

definition list_history :: "env \<Rightarrow> int \<Rightarrow> int \<Rightarrow> (vehicle_db, vehicle_error, history_entry list) prog" where
  "list_history E vid limit =
     on_ok (map_err VErrDb (query E (\<lambda>s. take (nat limit) (sort_key (\<lambda>r. (- hs_completed r, - hs_id r))
       (filter (\<lambda>r. hs_vehicle_id r = vid) (history_rows s)))))) (\<lambda>rows.
     lift_result (map_result to_history_entry rows))"

definition to_material :: "material_row \<Rightarrow> vehicle_material" where
  "to_material r = \<lparr>vm_id = mr_id r, vm_vehicle_id = mr_vehicle_id r, vm_material_id = mr_material_id r,
     vm_description = (case mr_description r of None \<Rightarrow> '''' | Some d \<Rightarrow> d), vm_count = mr_count r, vm_installed = mr_installed r\<rparr>"

definition list_materials :: "env \<Rightarrow> int \<Rightarrow> (vehicle_db, vehicle_error, vehicle_material list) prog" where
  "list_materials E vid =
     on_ok (map_err VErrDb (query E (\<lambda>s. sort_key (\<lambda>r. (- mr_installed r, - mr_id r))
       (filter (\<lambda>r. mr_vehicle_id r = vid) (material_rows s))))) (\<lambda>rows. ok (map to_material rows))"

end
