(* ===== verification/VehicleService.thy ===== *)
theory VehicleService
  imports VehicleRepo
begin

text \<open>vehicle-service's operations (\<open>domain/services/vehicle-service.go\<close>) and its events
  (\<open>domain/events/vehicle.go\<close>), in the order of the source. Log lines are left out.\<close>

text \<open>What the service runs in: the environment, the process's time zone, which \<open>time.Now()\<close> and timestamps read from
  the database carry, and what the driver stores in a \<open>date\<close> column.\<close>

record vehicle_service =
  vs_env :: env
  vs_local :: location
  vs_date :: "stamp \<Rightarrow> int"

abbreviation in_vehicle_tx :: "vehicle_service \<Rightarrow> (vehicle_db, vehicle_error, 'a) prog \<Rightarrow> (vehicle_db, vehicle_error, 'a) prog" where
  "in_vehicle_tx S \<equiv> run_in_tx (vs_env S) VErrDb vehicle_restore"

definition local :: "vehicle_service \<Rightarrow> int \<Rightarrow> stamp" where
  "local S t = \<lparr>sp_time = t, sp_loc = vs_local S\<rparr>"

section \<open>Events\<close>

definition topic_vehicle_created :: string where
  "topic_vehicle_created = ''vehicle.vehicle.created.v1''"
definition topic_vehicle_update :: string where
  "topic_vehicle_update = ''vehicle.vehicle.updated.v1''"
definition topic_warranty_changed :: string where
  "topic_warranty_changed = ''vehicle.vehicle.warranty-changed.v1''"
definition topic_transfer_vehicle :: string where
  "topic_transfer_vehicle = ''vehicle.vehicle-customer.transfer.v1''"
definition topic_owner_assigned :: string where
  "topic_owner_assigned = ''vehicle.vehicle-customer.assigned.v1''"

datatype vehicle_event_type = VehicleCreated | VehicleUpdated | WarrantyChanged | OwnerAssigned | VehicleTransferred

fun vehicle_event_text :: "vehicle_event_type \<Rightarrow> string" where
  "vehicle_event_text VehicleCreated = ''VehicleCreated''"
| "vehicle_event_text VehicleUpdated = ''VehicleUpdated''"
| "vehicle_event_text WarrantyChanged = ''WarrantyChanged''"
| "vehicle_event_text OwnerAssigned = ''OwnerAssigned''"
| "vehicle_event_text VehicleTransferred = ''VehicleTransferred''"

text \<open>\<open>NewVehicleEvent\<close> around the JSON of a payload; it takes one id from the generator.\<close>

definition new_vehicle_event ::
    "env \<Rightarrow> vehicle_event_type \<Rightarrow> int \<Rightarrow> json \<Rightarrow> (vehicle_db, vehicle_error, json) prog" where
  "new_vehicle_event E etype occurred payload =
     on_ok (new_uuid E) (\<lambda>i.
     ok (JObj [(''event_id'', JStr i), (''event_type'', JStr (vehicle_event_text etype)),
        (''occurred_at'', stamp_json (utc occurred)), (''vehicle'', payload)]))"

definition vehicle_state :: "vehicle_service \<Rightarrow> vehicle_entity \<Rightarrow> json" where
  "vehicle_state S v = JObj ([(''id'', JInt (v_id v)), (''vin'', JStr (v_vin v))]
     @ (if v_plate v = '''' then [] else [(''license_plate'', JStr (v_plate v))])
     @ [(''vehicle_model_id'', JInt (v_model_id v)), (''warranty_end_date'', opt_json JStr (format_date_opt (v_warranty v))),
        (''status'', JStr (v_status v)), (''created_at'', stamp_json (local S (v_created v))),
        (''updated_at'', stamp_json (local S (v_updated v)))])"

definition warranty_change :: "int \<Rightarrow> string option \<Rightarrow> string option \<Rightarrow> json" where
  "warranty_change i previous next_end = JObj [(''id'', JInt i), (''previous_warranty_end_date'', opt_json JStr previous),
     (''warranty_end_date'', opt_json JStr next_end)]"

definition ownership_payload :: "int \<Rightarrow> int \<Rightarrow> int option \<Rightarrow> string \<Rightarrow> json" where
  "ownership_payload i cid previous owned_from = JObj ([(''id'', JInt i), (''customer_id'', JInt cid)]
     @ (case previous of None \<Rightarrow> [] | Some p \<Rightarrow> [(''previous_customer_id'', JInt p)])
     @ [(''owned_from'', JStr owned_from)])"

definition write_vehicle_event :: "vehicle_service \<Rightarrow> string \<Rightarrow> string \<Rightarrow> json \<Rightarrow> (vehicle_db, vehicle_error, unit) prog" where
  "write_vehicle_event S topic key event = map_err VErrDb (outbox_create (vs_env S) (new_message topic key event))"

section \<open>Reads\<close>

definition get_vehicle_materials :: "vehicle_service \<Rightarrow> int \<Rightarrow> (vehicle_db, vehicle_error, vehicle_material list) prog" where
  "get_vehicle_materials S vid =
     on_ok (get_vehicle_by_id (vs_env S) vid) (\<lambda>_. list_materials (vs_env S) vid)"

definition get_warranty :: "vehicle_service \<Rightarrow> int \<Rightarrow> stamp \<Rightarrow> (vehicle_db, vehicle_error, warranty) prog" where
  "get_warranty S vid as_of =
     on_ok (get_vehicle_by_id (vs_env S) vid) (\<lambda>v.
     let day = calendar_date as_of;
         w = \<lparr>wa_vehicle_id = vid, wa_end = v_warranty v, wa_as_of = day, wa_active = False, wa_days = 0\<rparr>
     in ok (case v_warranty v of
          None \<Rightarrow> w
        | Some e \<Rightarrow> if \<not> sp_time e < sp_time day
            then w\<lparr>wa_active := True, wa_days := quot (time_sub (sp_time e) (sp_time day)) (24 * hour_ns)\<rparr>
            else w))"

definition default_history_limit :: int where "default_history_limit = 50"
definition max_history_limit :: int where "max_history_limit = 200"

definition get_service_history :: "vehicle_service \<Rightarrow> int \<Rightarrow> int \<Rightarrow> (vehicle_db, vehicle_error, history_entry list) prog" where
  "get_service_history S vid limit =
     (let n = (if limit \<le> 0 then default_history_limit else if max_history_limit < limit then max_history_limit else limit)
      in on_ok (get_vehicle_by_id (vs_env S) vid) (\<lambda>_. list_history (vs_env S) vid n))"

section \<open>Service history\<close>

record completed_event =
  ce_event_id :: string
  ce_occurred :: int
  ce_appointment_id :: int
  ce_vehicle_id :: int
  ce_customer_id :: int
  ce_dealership_id :: int
  ce_completed :: int
  ce_services :: "service_performed list"

definition record_service_completed :: "vehicle_service \<Rightarrow> completed_event \<Rightarrow> (vehicle_db, vehicle_error, unit) prog" where
  "record_service_completed S e =
     (if ce_appointment_id e \<le> 0 \<or> ce_vehicle_id e \<le> 0 \<or> ce_completed e = zero_time
      then fail (VErrInvalidInput '': ServiceCompleted needs appointment_id, vehicle_id and completed_at'')
      else on_ok (record_history (vs_env S)
             \<lparr>he_id = 0, he_vehicle_id = ce_vehicle_id e, he_appointment_id = ce_appointment_id e,
              he_dealership_id = ce_dealership_id e, he_completed = ce_completed e, he_services = ce_services e,
              he_created = zero_time\<rparr>) (\<lambda>_. ok ()))"

section \<open>Ownership\<close>

definition assign_tx :: "vehicle_service \<Rightarrow> int \<Rightarrow> int \<Rightarrow> stamp \<Rightarrow> (vehicle_db, vehicle_error, unit) prog" where
  "assign_tx S vid cid owned_from =
     on_ok (get_vehicle_for_update (vs_env S) vid) (\<lambda>v.
     if v_status v = status_scrapped then fail (VErrInvalidState '': a scrapped vehicle can't be given an owner'')
     else on_ok (map_err (\<lambda>e. case e of VErrConflict d \<Rightarrow> VErrConflict (d @ ''; use POST /transfer to change owners'') | _ \<Rightarrow> e)
            (assign_vehicle_to_customer (vs_env S) (vs_date S) vid cid owned_from)) (\<lambda>_.
          on_ok (now (vs_env S)) (\<lambda>t.
          on_ok (new_vehicle_event (vs_env S) OwnerAssigned t (ownership_payload vid cid None (date_only owned_from))) (\<lambda>ev.
          write_vehicle_event S topic_owner_assigned (format_int vid) ev))))"

definition assign_initial_owner ::
    "vehicle_service \<Rightarrow> int \<Rightarrow> int \<Rightarrow> stamp \<Rightarrow> (vehicle_db, vehicle_error, unit) prog" where
  "assign_initial_owner S vid cid date =
     (if cid \<le> 0 then fail (VErrInvalidInput '': customer_id is required'')
      else let owned_from = calendar_date date
           in on_ok (now (vs_env S)) (\<lambda>t.
              if sp_time (calendar_date (local S t)) < sp_time owned_from
              then fail (VErrInvalidInput '': date can't be in the future'')
              else in_vehicle_tx S (assign_tx S vid cid owned_from)))"

definition get_current_owner :: "vehicle_service \<Rightarrow> int \<Rightarrow> (vehicle_db, vehicle_error, customer_vehicle option) prog" where
  "get_current_owner S vid =
     on_ok (get_vehicle_by_id (vs_env S) vid) (\<lambda>_ s.
       case get_current_by_vehicle (vs_env S) vid s of
         (Inl e, t) \<Rightarrow> (case e of VErrNotFound d \<Rightarrow> (Inr None, t) | _ \<Rightarrow> (Inl e, t))
       | (Inr o', t) \<Rightarrow> (Inr (Some o'), t))"

section \<open>Registration and update\<close>

text \<open>The checks of \<open>RegisterVehicle\<close>, giving the vehicle to write.\<close>

definition register_check :: "vehicle_entity \<Rightarrow> vehicle_error + vehicle_entity" where
  "register_check v =
     (case normalize_vin (v_vin v) of Inl e \<Rightarrow> Inl e | Inr vin \<Rightarrow>
      case normalize_plate (v_plate v) of Inl e \<Rightarrow> Inl e | Inr plate \<Rightarrow>
      if v_model_id v \<le> 0 then Inl (VErrInvalidInput '': vehicle_model_id is required'')
      else let status = (if v_status v = '''' then status_active else v_status v)
           in if \<not> valid_status status then Inl (VErrInvalidInput ('': unknown status '' @ quote status))
              else Inr (v\<lparr>v_vin := vin, v_plate := plate, v_status := status,
                         v_warranty := map_option calendar_date (v_warranty v)\<rparr>))"

definition register_tx :: "vehicle_service \<Rightarrow> vehicle_entity \<Rightarrow> (vehicle_db, vehicle_error, vehicle_entity) prog" where
  "register_tx S v =
     on_ok (create_vehicle (vs_env S) (vs_date S) v) (\<lambda>created.
     on_ok (new_vehicle_event (vs_env S) VehicleCreated (v_created created) (vehicle_state S created)) (\<lambda>ev.
     on_ok (write_vehicle_event S topic_vehicle_created (format_int (v_id created)) ev) (\<lambda>_. ok created)))"

definition register_vehicle :: "vehicle_service \<Rightarrow> vehicle_entity \<Rightarrow> (vehicle_db, vehicle_error, vehicle_entity) prog" where
  "register_vehicle S v = on_ok (lift_result (register_check v)) (\<lambda>v'. in_vehicle_tx S (register_tx S v'))"

definition update_check :: "vehicle_update \<Rightarrow> vehicle_error + unit" where
  "update_check u =
     (if vu_status u = None \<and> vu_warranty u = None \<and> \<not> vu_clear u then Inl (VErrInvalidInput '': nothing to update'')
      else if vu_clear u \<and> vu_warranty u \<noteq> None
      then Inl (VErrInvalidInput '': warranty_end_date can't be both set and cleared'')
      else if (case vu_status u of None \<Rightarrow> False | Some st \<Rightarrow> \<not> valid_status st)
      then Inl (VErrInvalidInput ('': unknown status '' @ quote (case vu_status u of None \<Rightarrow> '''' | Some st \<Rightarrow> st)))
      else if vu_updated u = zero_time then Inl (VErrInvalidInput '': updated_at is required'')
      else Inr ())"

text \<open>The vehicle the update asks for.\<close>

definition updated_vehicle :: "vehicle_update \<Rightarrow> vehicle_entity \<Rightarrow> vehicle_entity" where
  "updated_vehicle u current =
     current\<lparr>v_status := (case vu_status u of None \<Rightarrow> v_status current | Some st \<Rightarrow> st),
             v_warranty := (if vu_clear u then None
                else case vu_warranty u of None \<Rightarrow> v_warranty current | Some d \<Rightarrow> Some (calendar_date d))\<rparr>"

definition update_tx :: "vehicle_service \<Rightarrow> int \<Rightarrow> vehicle_update \<Rightarrow> (vehicle_db, vehicle_error, vehicle_entity) prog" where
  "update_tx S vid u =
     on_ok (get_vehicle_for_update (vs_env S) vid) (\<lambda>current.
     if v_updated current \<noteq> vu_updated u
     then fail (VErrConflict '': the vehicle was changed since you read it; reload and try again'')
     else if v_status current = status_scrapped
     then fail (VErrInvalidState '': a scrapped vehicle can no longer be changed'')
     else let nxt = updated_vehicle u current;
              status_changed = (v_status nxt \<noteq> v_status current);
              warranty_changed = (\<not> same_date (v_warranty nxt) (v_warranty current))
          in if \<not> status_changed \<and> \<not> warranty_changed then ok current
             else on_ok (update_vehicle_row (vs_env S) (vs_date S) nxt) (\<lambda>_.
                  on_ok (get_vehicle_by_id (vs_env S) vid) (\<lambda>updated.
                  on_ok (new_vehicle_event (vs_env S) VehicleUpdated (v_updated updated) (vehicle_state S updated)) (\<lambda>ev.
                  on_ok (write_vehicle_event S topic_vehicle_update (format_int vid) ev) (\<lambda>_.
                  if warranty_changed
                  then on_ok (new_vehicle_event (vs_env S) WarrantyChanged (v_updated updated)
                         (warranty_change vid (format_date_opt (v_warranty current)) (format_date_opt (v_warranty updated)))) (\<lambda>ev.
                       on_ok (write_vehicle_event S topic_warranty_changed (format_int vid) ev) (\<lambda>_. ok updated))
                  else ok updated)))))"

definition update_vehicle ::
    "vehicle_service \<Rightarrow> int \<Rightarrow> vehicle_update \<Rightarrow> (vehicle_db, vehicle_error, vehicle_entity) prog" where
  "update_vehicle S vid u = on_ok (lift_result (update_check u)) (\<lambda>_. in_vehicle_tx S (update_tx S vid u))"

section \<open>Listings and transfer\<close>

definition get_customer_vehicles :: "vehicle_service \<Rightarrow> int \<Rightarrow> (vehicle_db, vehicle_error, customer_vehicle list) prog" where
  "get_customer_vehicles S cid = list_current_by_customer (vs_env S) cid"

definition get_vehicle :: "vehicle_service \<Rightarrow> int \<Rightarrow> (vehicle_db, vehicle_error, vehicle_entity) prog" where
  "get_vehicle S vid = get_vehicle_by_id (vs_env S) vid"

definition default_list_limit :: int where "default_list_limit = 20"
definition max_list_limit :: int where "max_list_limit = 100"

definition clamp_limit :: "int \<Rightarrow> int" where
  "clamp_limit limit = (if limit \<le> 0 then default_list_limit else if max_list_limit < limit then max_list_limit else limit)"

definition normalize_params :: "list_params \<Rightarrow> vehicle_error + list_params" where
  "normalize_params p =
     (let p1 = p\<lparr>lp_cursor := (if lp_cursor p < 0 then 0 else lp_cursor p), lp_limit := clamp_limit (lp_limit p)\<rparr>
      in case (if lp_vin p = '''' then Inr '''' else normalize_vin (lp_vin p)) of Inl e \<Rightarrow> Inl e | Inr vin \<Rightarrow>
         case (if lp_plate p = '''' then Inr '''' else normalize_plate (lp_plate p)) of Inl e \<Rightarrow> Inl e | Inr plate \<Rightarrow>
         if lp_status p \<noteq> '''' \<and> \<not> valid_status (lp_status p)
         then Inl (VErrInvalidInput ('': unknown status '' @ quote (lp_status p)))
         else Inr (p1\<lparr>lp_vin := vin, lp_plate := plate\<rparr>))"

definition list_vehicles :: "vehicle_service \<Rightarrow> list_params \<Rightarrow> (vehicle_db, vehicle_error, vehicle_page) prog" where
  "list_vehicles S p = on_ok (lift_result (normalize_params p)) (\<lambda>p'. list_vehicle_rows (vs_env S) p')"

definition transfer_tx :: "vehicle_service \<Rightarrow> transfer_request \<Rightarrow> (vehicle_db, vehicle_error, unit) prog" where
  "transfer_tx S v =
     on_ok (unassign_vehicle (vs_env S) (vs_date S) (tv_vehicle_id v) (tv_from v) (tv_date v)) (\<lambda>_.
     on_ok (assign_vehicle_to_customer (vs_env S) (vs_date S) (tv_vehicle_id v) (tv_to v) (tv_date v)) (\<lambda>_.
     on_ok (now (vs_env S)) (\<lambda>t.
     on_ok (new_vehicle_event (vs_env S) VehicleTransferred t
       (ownership_payload (tv_vehicle_id v) (tv_to v) (Some (tv_from v)) (date_only (tv_date v)))) (\<lambda>ev.
     write_vehicle_event S topic_transfer_vehicle (format_int (tv_vehicle_id v)) ev))))"

definition transfer_vehicle :: "vehicle_service \<Rightarrow> transfer_request \<Rightarrow> (vehicle_db, vehicle_error, unit) prog" where
  "transfer_vehicle S v = in_vehicle_tx S (transfer_tx S v)"

end
