(* ===== verification/VehicleProofs.thy ===== *)
theory VehicleProofs
  imports VehicleService Transactions
begin

text \<open>The invariant of vehicle-service's tables, that every repository write and every operation keeps it, and that a
  failed transaction changes nothing: vehicle-service's instance of the transaction contract.\<close>

section \<open>The invariant\<close>

definition good_row :: "vehicle_row \<Rightarrow> bool" where
  "good_row r \<longleftrightarrow> valid_status (vh_status r) \<and> normalize_vin (vh_vin r) = Inr (vh_vin r) \<and>
     (\<forall>p. vh_plate r = Some p \<longrightarrow> p \<noteq> '''' \<and> normalize_plate p = Inr p)"

definition vehicles_ok :: "vehicle_row list \<Rightarrow> int \<Rightarrow> bool" where
  "vehicles_ok rows n \<longleftrightarrow> 0 < n \<and> distinct (map vh_id rows) \<and> (\<forall>r \<in> set rows. 0 < vh_id r \<and> vh_id r < n \<and> good_row r) \<and>
     distinct (map vh_vin rows) \<and> distinct (filter (\<lambda>p. p \<noteq> None) (map vh_plate rows))"

definition owners_ok :: "ownership_row list \<Rightarrow> int \<Rightarrow> int set \<Rightarrow> bool" where
  "owners_ok rows n ids \<longleftrightarrow> distinct (map ow_id rows) \<and>
     (\<forall>x \<in> set rows. ow_id x < n \<and> ow_vehicle_id x \<in> ids \<and> (ow_status x = Current \<longleftrightarrow> ow_to x = None) \<and>
        (\<forall>d. ow_to x = Some d \<longrightarrow> ow_from x \<le> d)) \<and>
     distinct (map ow_vehicle_id (filter (\<lambda>x. ow_status x = Current) rows))"

definition history_ok :: "history_row list \<Rightarrow> int set \<Rightarrow> bool" where
  "history_ok rows ids \<longleftrightarrow> distinct (map hs_appointment_id rows) \<and> hs_vehicle_id ` set rows \<subseteq> ids"

definition vehicle_inv :: "vehicle_db \<Rightarrow> bool" where
  "vehicle_inv s \<longleftrightarrow> vehicles_ok (vehicle_rows s) (vh_seq s) \<and>
     owners_ok (ownership_rows s) (ow_seq s) (vh_id ` set (vehicle_rows s)) \<and>
     history_ok (history_rows s) (vh_id ` set (vehicle_rows s)) \<and> outbox_ok s"

lemma vehicle_inv_tick [simp]: "vehicle_inv (step_tick s) = vehicle_inv s"
  by (simp add: vehicle_inv_def)

lemma tick_free_vehicle_inv [simp]: "tick_free vehicle_inv"
  by (simp add: tick_free_def vehicle_inv_def)

section \<open>Transactions\<close>

definition vehicle_later :: "vehicle_db \<Rightarrow> vehicle_db \<Rightarrow> bool" where
  "vehicle_later s t \<longleftrightarrow> vh_seq s \<le> vh_seq t \<and> ow_seq s \<le> ow_seq t \<and> outbox_seq s \<le> outbox_seq t \<and> kafka_log t = kafka_log s"

definition vehicle_same :: "vehicle_db \<Rightarrow> vehicle_db \<Rightarrow> bool" where
  "vehicle_same s t \<longleftrightarrow> vehicle_rows t = vehicle_rows s \<and> model_ids t = model_ids s \<and> ownership_rows t = ownership_rows s \<and>
     material_rows t = material_rows s \<and> history_rows t = history_rows s \<and> outbox_rows t = outbox_rows s \<and>
     kafka_log t = kafka_log s"

lemma vehicles_ok_mono: "vehicles_ok rows n \<Longrightarrow> n \<le> m \<Longrightarrow> vehicles_ok rows m"
  by (auto simp: vehicles_ok_def)

lemma owners_ok_mono: "owners_ok rows n ids \<Longrightarrow> n \<le> m \<Longrightarrow> ids \<subseteq> jds \<Longrightarrow> owners_ok rows m jds"
  by (auto simp: owners_ok_def)

lemma history_ok_mono: "history_ok rows ids \<Longrightarrow> ids \<subseteq> jds \<Longrightarrow> history_ok rows jds"
  by (auto simp: history_ok_def)

interpretation vehicle_tx: transactional vehicle_restore vehicle_later vehicle_same vehicle_inv
proof unfold_locales
  fix s t :: vehicle_db
  assume i: "vehicle_inv s" and l: "vehicle_later s t"
  have "outbox_ok (vehicle_restore s t)"
    by (rule outbox_ok_cong [of s]) (use i l in \<open>simp_all add: vehicle_inv_def vehicle_later_def\<close>)
  then show "vehicle_inv (vehicle_restore s t)"
    using i l vehicles_ok_mono [of "vehicle_rows s" "vh_seq s" "vh_seq t"]
      owners_ok_mono [of "ownership_rows s" "ow_seq s" "vh_id ` set (vehicle_rows s)" "ow_seq t", OF _ _ subset_refl]
    by (simp add: vehicle_inv_def vehicle_later_def)
qed (auto simp: vehicle_later_def vehicle_same_def)

lemma reads_only_vehicle [keeps_intros]:
  "reads_only (find_vehicle E vid)" "reads_only (get_vehicle_by_id E vid)" "reads_only (get_vehicle_for_update E vid)"
  "reads_only (list_vehicle_rows E p)" "reads_only (update_failure_reason E vid)" "reads_only (list_current_by_customer E cid)"
  "reads_only (get_current_by_vehicle E vid)" "reads_only (list_history E vid n)" "reads_only (list_materials E vid)"
  unfolding find_vehicle_def get_vehicle_by_id_def get_vehicle_for_update_def list_vehicle_rows_def update_failure_reason_def
    list_current_by_customer_def get_current_by_vehicle_def list_history_def list_materials_def
  by (intro keeps_intros)+

lemma grows_writes:
  "vehicle_tx.grows (create_vehicle E D v)" "vehicle_tx.grows (delete_vehicle E vid)" "vehicle_tx.grows (update_vehicle_row E D v)"
  "vehicle_tx.grows (assign_vehicle_to_customer E D vid cid d)" "vehicle_tx.grows (unassign_vehicle E D vid cid d)"
  "vehicle_tx.grows (record_history E e)" "vehicle_tx.grows (write_vehicle_event S topic key ev)"
  "vehicle_tx.grows (new_vehicle_event E etype t p)"
proof -
  show "vehicle_tx.grows (create_vehicle E D v)" unfolding create_vehicle_def Let_def
    by (intro vehicle_tx.grows_intros vehicle_tx.grows_sql) (simp add: vehicle_later_def split: option.splits)
  show "vehicle_tx.grows (delete_vehicle E vid)" unfolding delete_vehicle_def
    by (intro vehicle_tx.grows_intros vehicle_tx.grows_sql) (simp add: vehicle_later_def)
  show "vehicle_tx.grows (update_vehicle_row E D v)" unfolding update_vehicle_row_def
    by (intro vehicle_tx.grows_intros vehicle_tx.grows_sql vehicle_tx.grows_reads_only reads_only_vehicle)
      (simp add: update_statement_def vehicle_later_def split: list.splits option.splits)
  show "vehicle_tx.grows (assign_vehicle_to_customer E D vid cid d)" unfolding assign_vehicle_to_customer_def Let_def
    by (intro vehicle_tx.grows_intros vehicle_tx.grows_sql) (simp add: vehicle_later_def)
  show "vehicle_tx.grows (unassign_vehicle E D vid cid d)" unfolding unassign_vehicle_def
    by (intro vehicle_tx.grows_intros vehicle_tx.grows_sql) (simp add: vehicle_later_def)
  show "vehicle_tx.grows (record_history E e)" unfolding record_history_def Let_def
    by (intro vehicle_tx.grows_intros vehicle_tx.grows_sql) (simp add: vehicle_later_def)
  show "vehicle_tx.grows (write_vehicle_event S topic key ev)" unfolding write_vehicle_event_def outbox_create_def
    by (intro vehicle_tx.grows_intros vehicle_tx.grows_sql) (simp add: vehicle_later_def)
  show "vehicle_tx.grows (new_vehicle_event E etype t p)" unfolding new_vehicle_event_def
    by (intro vehicle_tx.grows_intros)
qed

lemma grows_bodies:
  "vehicle_tx.grows (assign_tx S vid cid d)" "vehicle_tx.grows (register_tx S v)" "vehicle_tx.grows (update_tx S vid u)"
  "vehicle_tx.grows (transfer_tx S x)"
  unfolding assign_tx_def register_tx_def update_tx_def transfer_tx_def Let_def
  by (intro vehicle_tx.grows_intros grows_writes vehicle_tx.grows_reads_only reads_only_vehicle)+

section \<open>Writes\<close>

lemma row_violation_None:
  "row_violation r others s = None \<longleftrightarrow> valid_status (vh_status r) \<and> vh_vin r \<notin> vh_vin ` set others \<and>
     (vh_plate r \<noteq> None \<longrightarrow> vh_plate r \<notin> vh_plate ` set others) \<and> vh_model_id r \<in> set (model_ids s)"
  by (auto simp: row_violation_def)

lemma row_violation_tick [simp]:
  "row_violation r rows (s\<lparr>tick := n\<rparr>) = row_violation r rows s" "row_violation r rows (step_tick s) = row_violation r rows s"
  by (simp_all add: row_violation_def)

lemma create_vehicle_Inr:
  assumes "create_vehicle E D v s = (Inr c, t)"
  obtains r n where "t = s\<lparr>tick := n, vh_seq := vh_seq s + 1, vehicle_rows := vehicle_rows s @ [r]\<rparr>"
    "row_violation r (vehicle_rows s) s = None" "vh_id r = vh_seq s" "vh_vin r = v_vin v"
    "vh_plate r = (if v_plate v = '''' then None else Some (v_plate v))" "vh_status r = v_status v"
    "vh_model_id r = v_model_id v" "vh_warranty r = map_option D (v_warranty v)" "v_id v = 0"
    "vh_updated r = db_time E (v_updated c)"
    "c = v\<lparr>v_id := vh_seq s, v_created := v_created c, v_updated := v_updated c, v_warranty := map_option calendar_date (v_warranty v)\<rparr>"
    "v_updated c = (if v_updated v = zero_time then clock E (tick s) else v_updated v)"
proof -
  define t0 where "t0 = clock E (tick s)"
  define v1 where "v1 = v\<lparr>v_created := if v_created v = zero_time then t0 else v_created v,
               v_updated := if v_updated v = zero_time then t0 else v_updated v\<rparr>"
  define r where "r = (to_vehicle_row D v1)\<lparr>vh_id := vh_seq s, vh_created := db_time E (v_created v1),
                          vh_updated := db_time E (v_updated v1)\<rparr>"
  have "v_id v = 0" using assms by (simp add: create_vehicle_def on_ok_Inr now_run sql_Inr Let_def split: if_splits)
  moreover from this have f: "row_violation r (vehicle_rows s) s = None"
    "t = s\<lparr>tick := Suc (Suc (tick s)), vh_seq := vh_seq s + 1, vehicle_rows := vehicle_rows s @ [r]\<rparr>"
    "c = v1\<lparr>v_id := vh_id r, v_warranty := map_option calendar_date (v_warranty v1)\<rparr>"
    using assms by (auto simp: create_vehicle_def on_ok_Inr now_run sql_Inr Let_def r_def v1_def t0_def step_tick_def
      split: option.splits)
  ultimately show thesis
    by (intro that [of r "Suc (Suc (tick s))"]) (simp_all add: r_def v1_def to_vehicle_row_def t0_def)
qed

lemma vehicles_ok_new:
  assumes "vehicles_ok rows n" "row_violation r rows s = None" "good_row r" "vh_id r = n"
  shows "vehicles_ok (rows @ [r]) (n + 1)"
proof -
  have "vh_id r \<notin> vh_id ` set rows" using assms(1,4) by (force simp: vehicles_ok_def)
  moreover have "\<forall>q \<in> set rows. vh_id q < n + 1" using assms(1) by (force simp: vehicles_ok_def)
  moreover have "vh_vin r \<notin> vh_vin ` set rows" "vh_plate r \<noteq> None \<Longrightarrow> vh_plate r \<notin> vh_plate ` set rows"
    using assms(2) by (simp_all add: row_violation_None)
  ultimately show ?thesis using assms(1,3,4) by (simp add: vehicles_ok_def)
qed

text \<open>Replacing one row by one that violates no constraint.\<close>

lemma vehicles_ok_replace:
  assumes ok: "vehicles_ok rows n" and v: "row_violation r' (filter (\<lambda>q. vh_id q \<noteq> i) rows) s = None" and g: "good_row r'"
    and r: "r \<in> set rows" "vh_id r = i" "vh_id r' = i"
  shows "vehicles_ok (map (\<lambda>q. if vh_id q = i then r' else q) rows) n"
proof -
  have d: "distinct (map vh_id rows)" "distinct (map vh_vin rows)" "distinct (filter (\<lambda>p. p \<noteq> None) (map vh_plate rows))"
    using ok by (simp_all add: vehicles_ok_def)
  have "map vh_id (map (\<lambda>q. if vh_id q = i then r' else q) rows) = map vh_id rows" using r(3) by simp
  moreover have "distinct (filter (\<lambda>_. True) (map vh_vin (map (\<lambda>q. if vh_id q = i then r' else q) rows)))"
    by (rule distinct_replaced) (use d v in \<open>simp_all add: row_violation_None\<close>)
  moreover have "distinct (filter (\<lambda>p. p \<noteq> None) (map vh_plate (map (\<lambda>q. if vh_id q = i then r' else q) rows)))"
    by (rule distinct_replaced) (use d v in \<open>simp_all add: row_violation_None\<close>)
  ultimately show ?thesis using ok g r unfolding vehicles_ok_def by (auto simp del: map_map)
qed

lemma set_columns_sel [simp]:
  "vh_id (set_columns E D t v r) = vh_id r" "vh_vin (set_columns E D t v r) = vh_vin r"
  "vh_plate (set_columns E D t v r) = (if v_plate v = '''' then None else Some (v_plate v))"
  "vh_status (set_columns E D t v r) = v_status v" "vh_model_id (set_columns E D t v r) = v_model_id v"
  "vh_warranty (set_columns E D t v r) = map_option D (v_warranty v)" "vh_updated (set_columns E D t v r) = db_time E t"
  "vh_created (set_columns E D t v r) = vh_created r"
  by (simp_all add: set_columns_def to_vehicle_row_def Let_def)

text \<open>A successful update hit the row with the id and the timestamp it was given, and replaced it.\<close>

lemma update_vehicle_row_Inr:
  assumes "update_vehicle_row E D v s = (Inr u, t)" "distinct (map vh_id (vehicle_rows s))"
  obtains r r' n where "r \<in> set (vehicle_rows s)" "same_version E v r" "r' = set_columns E D (clock E (tick s)) v r"
    "row_violation r' (filter (\<lambda>q. vh_id q \<noteq> v_id v) (vehicle_rows s)) s = None"
    "t = s\<lparr>tick := n, vehicle_rows := map (\<lambda>q. if vh_id q = v_id v then r' else q) (vehicle_rows s)\<rparr>"
proof -
  let ?t0 = "clock E (tick s)"
  obtain k u1 where u: "update_statement E D ?t0 v (step_tick (step_tick s)) = (Inr k, u1)"
    "(if k = 0 then update_failure_reason E (v_id v) else ok ()) u1 = (Inr u, t)"
    using assms(1) by (auto simp: update_vehicle_row_def on_ok_Inr now_run sql_Inr)
  have "k \<noteq> 0" using u(2) by (auto simp: update_failure_reason_def on_ok_Inr split: if_splits)
  then obtain r rs where rs: "filter (same_version E v) (vehicle_rows s) = r # rs" using u(1) by (auto simp: update_statement_def split: list.splits)
  let ?r = "set_columns E D ?t0 v r"
  have v: "row_violation ?r (filter (\<lambda>q. vh_id q \<noteq> v_id v) (vehicle_rows s)) s = None"
    "u1 = (step_tick (step_tick s))\<lparr>vehicle_rows := map (\<lambda>q. if same_version E v q then set_columns E D ?t0 v q else q) (vehicle_rows s)\<rparr>"
    using u(1) by (auto simp: update_statement_def rs split: option.splits)
  have r: "r \<in> set (vehicle_rows s)" "same_version E v r" using arg_cong [OF rs, of set] by auto
  have "vh_id q = vh_id r \<Longrightarrow> q = r" if "q \<in> set (vehicle_rows s)" for q
    using assms(2) inj_onD [of vh_id "set (vehicle_rows s)" q r] that r(1) by (simp add: distinct_map)
  then have "same_version E v q \<longleftrightarrow> vh_id q = v_id v" "same_version E v q \<Longrightarrow> q = r" if "q \<in> set (vehicle_rows s)" for q
    using that r(2) by (auto simp: same_version_def)
  then have m: "map (\<lambda>q. if same_version E v q then set_columns E D ?t0 v q else q) (vehicle_rows s) =
      map (\<lambda>q. if vh_id q = v_id v then ?r else q) (vehicle_rows s)" by (intro map_cong refl) auto
  have "t = s\<lparr>tick := Suc (Suc (tick s)), vehicle_rows := map (\<lambda>q. if vh_id q = v_id v then ?r else q) (vehicle_rows s)\<rparr>"
    using u(2) \<open>k \<noteq> 0\<close> v(2) unfolding m by (simp add: step_tick_def)
  then show thesis using r v(1) by (intro that [of r ?r]) auto
qed

lemma assign_vehicle_Inr:
  assumes "assign_vehicle_to_customer E D vid cid d s = (Inr u, t)"
  obtains x n where "t = s\<lparr>tick := n, ow_seq := ow_seq s + 1, ownership_rows := ownership_rows s @ [x]\<rparr>"
    "x = \<lparr>ow_id = ow_seq s, ow_customer_id = cid, ow_vehicle_id = vid, ow_from = D d, ow_to = None,
       ow_status = Current, ow_created = db_time E (clock E (tick s))\<rparr>"
    "\<forall>q \<in> set (ownership_rows s). ow_vehicle_id q = vid \<longrightarrow> ow_status q \<noteq> Current" "vid \<in> vh_id ` set (vehicle_rows s)"
proof -
  let ?x = "\<lparr>ow_id = ow_seq s, ow_customer_id = cid, ow_vehicle_id = vid, ow_from = D d, ow_to = None,
       ow_status = Current, ow_created = db_time E (clock E (tick s))\<rparr>"
  have "t = s\<lparr>tick := Suc (Suc (tick s)), ow_seq := ow_seq s + 1, ownership_rows := ownership_rows s @ [?x]\<rparr>"
    "\<forall>q \<in> set (ownership_rows s). ow_vehicle_id q = vid \<longrightarrow> ow_status q \<noteq> Current" "vid \<in> vh_id ` set (vehicle_rows s)"
    using assms by (auto simp: assign_vehicle_to_customer_def on_ok_Inr now_run sql_Inr Let_def step_tick_def split: if_splits)
  then show thesis using that by blast
qed

lemma owners_ok_new:
  assumes "owners_ok rows n ids" "ow_id x = n" "ow_status x = Current" "ow_to x = None" "ow_vehicle_id x \<in> ids"
    "\<forall>q \<in> set rows. ow_vehicle_id q = ow_vehicle_id x \<longrightarrow> ow_status q \<noteq> Current"
  shows "owners_ok (rows @ [x]) (n + 1) ids"
proof -
  have "n \<notin> ow_id ` set rows" "\<forall>q \<in> set rows. ow_id q < n + 1" using assms(1) by (force simp: owners_ok_def)+
  moreover have "ow_vehicle_id x \<notin> ow_vehicle_id ` {q \<in> set rows. ow_status q = Current}" using assms(6) by auto
  ultimately show ?thesis using assms by (simp add: owners_ok_def)
qed

definition ended :: "int \<Rightarrow> ownership_row \<Rightarrow> ownership_row" where
  "ended d x = x\<lparr>ow_to := Some d, ow_status := Transferred\<rparr>"

lemma unassign_vehicle_Inr:
  assumes "unassign_vehicle E D vid cid d s = (Inr u, t)" "distinct (map ow_id (ownership_rows s))"
  obtains x n where "x \<in> set (ownership_rows s)" "ow_vehicle_id x = vid" "ow_status x = Current" "ow_customer_id x = cid"
    "ow_from x \<le> D d"
    "t = s\<lparr>tick := n, ownership_rows := map (\<lambda>q. if ow_id q = ow_id x then ended (D d) q else q) (ownership_rows s)\<rparr>"
proof -
  obtain x xs where x: "current_ownership s vid = x # xs" "ow_customer_id x = cid"
    "\<not> (\<exists>q \<in> set (ownership_rows s). ow_id q = ow_id x \<and> D d < ow_from q)"
    "t = (step_tick (step_tick s))\<lparr>ownership_rows := map (\<lambda>q. if ow_id q = ow_id x then ended (D d) q else q) (ownership_rows s)\<rparr>"
    using assms(1) by (auto simp: unassign_vehicle_def on_ok_Inr query_Inr sql_Inr current_ownership_def ended_def
        split: list.splits if_splits)
  have "x \<in> set (current_ownership s vid)" using x(1) by simp
  then have "x \<in> set (ownership_rows s)" "ow_vehicle_id x = vid" "ow_status x = Current"
    by (auto simp: current_ownership_def dest!: in_set_takeD)
  then show thesis using x(2-4) by (intro that [of x "Suc (Suc (tick s))"]) (auto simp: step_tick_def not_less)
qed

lemma owners_ok_ended:
  assumes ok: "owners_ok rows n ids" and x: "x \<in> set rows" "ow_from x \<le> d"
  shows "owners_ok (map (\<lambda>q. if ow_id q = ow_id x then ended d q else q) rows) n ids"
proof -
  have "filter (\<lambda>q. ow_status q = Current) (map (\<lambda>q. if ow_id q = i then ended d q else q) qs) =
      filter (\<lambda>q. ow_id q \<noteq> i) (filter (\<lambda>q. ow_status q = Current) qs)" for i qs
    by (induction qs) (auto simp: ended_def)
  moreover have "distinct (map ow_vehicle_id (filter (\<lambda>q. ow_id q \<noteq> ow_id x) (filter (\<lambda>q. ow_status q = Current) rows)))"
    by (rule distinct_map_filter) (use ok in \<open>simp add: owners_ok_def\<close>)
  ultimately have "distinct (map ow_vehicle_id (filter (\<lambda>q. ow_status q = Current) (map (\<lambda>q. if ow_id q = ow_id x then ended d q else q) rows)))"
    by (simp only:)
  moreover have "map ow_id (map (\<lambda>q. if ow_id q = ow_id x then ended d q else q) rows) = map ow_id rows"
    by (simp add: ended_def)
  moreover have "ow_from q \<le> d" if "q \<in> set rows" "ow_id q = ow_id x" for q
    using ok inj_onD [of ow_id "set rows" q x] that x by (simp add: owners_ok_def distinct_map)
  ultimately show ?thesis using ok unfolding owners_ok_def by (auto simp: ended_def simp del: map_map)
qed

lemma record_history_Inr:
  assumes "record_history E e s = (Inr b, t)"
  obtains n where "b" "he_appointment_id e \<notin> hs_appointment_id ` set (history_rows s)"
      "he_vehicle_id e \<in> vh_id ` set (vehicle_rows s)"
      "t = s\<lparr>tick := n, hs_seq := hs_seq s + 1, history_rows := history_rows s @
         [\<lparr>hs_id = hs_seq s, hs_vehicle_id = he_vehicle_id e, hs_appointment_id = he_appointment_id e,
           hs_dealership_id = he_dealership_id e, hs_completed = db_time E (he_completed e),
           hs_services = JArr (map service_performed_json (he_services e)), hs_created = db_time E (clock E (tick s))\<rparr>]\<rparr>"
    | n where "\<not> b" "he_appointment_id e \<in> hs_appointment_id ` set (history_rows s)"
      "t = s\<lparr>tick := n, hs_seq := hs_seq s + 1\<rparr>"
  using assms by (auto simp: record_history_def on_ok_Inr now_run sql_Inr Let_def step_tick_def split: if_splits)

lemma write_vehicle_event_Inr:
  assumes "write_vehicle_event S topic key ev s = (Inr u, t)"
  obtains n r where "t = s\<lparr>tick := n, outbox_seq := outbox_seq s + 1, outbox_rows := outbox_rows s @ [r]\<rparr>"
    "ob_id r = outbox_seq s" "ob_topic r = topic" "ob_key r = key" "ob_payload r = ev" "ob_published r = None"
proof -
  let ?r = "\<lparr>ob_id = outbox_seq s, ob_topic = topic, ob_key = key, ob_payload = ev,
               ob_created = db_time (vs_env S) (clock (vs_env S) (tick s)), ob_published = None\<rparr>"
  have "t = s\<lparr>tick := Suc (Suc (tick s)), outbox_seq := outbox_seq s + 1, outbox_rows := outbox_rows s @ [?r]\<rparr>"
    using assms by (simp add: write_vehicle_event_def outbox_create_Inr new_message_def step_tick_def)
  then show thesis by (rule that) simp_all
qed

lemma write_vehicle_event_ok:
  assumes "write_vehicle_event S topic key ev s = (Inr u, t)" "outbox_ok s"
  shows "outbox_ok t"
proof -
  obtain n r where r: "t = s\<lparr>tick := n, outbox_seq := outbox_seq s + 1, outbox_rows := outbox_rows s @ [r]\<rparr>"
    "ob_id r = outbox_seq s" "ob_published r = None" by (rule write_vehicle_event_Inr [OF assms(1)])
  show ?thesis by (rule outbox_ok_append [OF assms(2), of _ r]) (simp_all add: r)
qed

lemma vehicle_inv_event:
  assumes "write_vehicle_event S topic key ev s = (Inr u, t)" "vehicle_inv s"
  shows "vehicle_inv t"
proof -
  have ok: "outbox_ok t" using write_vehicle_event_ok [OF assms(1)] assms(2) by (simp add: vehicle_inv_def)
  obtain n r where r: "t = s\<lparr>tick := n, outbox_seq := outbox_seq s + 1, outbox_rows := outbox_rows s @ [r]\<rparr>"
    by (rule write_vehicle_event_Inr [OF assms(1)])
  show ?thesis using assms(2) ok unfolding r by (simp add: vehicle_inv_def)
qed

lemma new_vehicle_event_Inr:
  "new_vehicle_event E etype t0 p s = (Inr ev, t) \<longleftrightarrow>
     ev = JObj [(''event_id'', JStr (uuid_at E (tick s))), (''event_type'', JStr (vehicle_event_text etype)),
        (''occurred_at'', stamp_json (utc t0)), (''vehicle'', p)] \<and> t = step_tick s"
  by (auto simp: new_vehicle_event_def on_ok_Inr new_uuid_run)

section \<open>Operations\<close>

lemma register_check_Inr:
  assumes "register_check v = Inr w"
  shows "normalize_vin (v_vin v) = Inr (v_vin w)" "normalize_plate (v_plate v) = Inr (v_plate w)" "valid_status (v_status w)"
    "v_status w = (if v_status v = '''' then status_active else v_status v)" "0 < v_model_id w"
    "w = v\<lparr>v_vin := v_vin w, v_plate := v_plate w, v_status := v_status w, v_warranty := map_option calendar_date (v_warranty v)\<rparr>"
  using assms by (auto simp: register_check_def Let_def split: sum.splits if_splits)

lemma normalize_plate_again: "normalize_plate p = Inr q \<Longrightarrow> normalize_plate q = Inr q"
  by (rule normalize_plate_fixed) (auto simp: normalize_plate_Inr list_all_iff)

lemma normalize_vin_again: "normalize_vin p = Inr q \<Longrightarrow> normalize_vin q = Inr q"
  by (rule normalize_vin_fixed) (auto simp: normalize_vin_Inr)

lemma vehicle_inv_create:
  assumes "vehicle_inv s" "create_vehicle E D v s = (Inr c, t)"
    and "normalize_vin (v_vin v) = Inr (v_vin v)" "normalize_plate (v_plate v) = Inr (v_plate v)" "valid_status (v_status v)"
  shows "vehicle_inv t"
proof -
  obtain r n where t: "t = s\<lparr>tick := n, vh_seq := vh_seq s + 1, vehicle_rows := vehicle_rows s @ [r]\<rparr>"
    and r: "row_violation r (vehicle_rows s) s = None" "vh_id r = vh_seq s" "vh_vin r = v_vin v"
      "vh_plate r = (if v_plate v = '''' then None else Some (v_plate v))" "vh_status r = v_status v"
    by (rule create_vehicle_Inr [OF assms(2)])
  have "good_row r" using r assms(3-5) by (simp add: good_row_def)
  then have "vehicles_ok (vehicle_rows s @ [r]) (vh_seq s + 1)"
    using r(1,2) assms(1) by (intro vehicles_ok_new) (simp_all add: vehicle_inv_def)
  moreover have "outbox_ok t" unfolding t
    by (rule outbox_ok_cong [of s]) (use assms(1) in \<open>simp_all add: vehicle_inv_def\<close>)
  moreover have sub: "vh_id ` set (vehicle_rows s) \<subseteq> vh_id ` set (vehicle_rows s @ [r])" by auto
  have "owners_ok (ownership_rows s) (ow_seq s) (vh_id ` set (vehicle_rows s @ [r]))"
    by (rule owners_ok_mono [OF _ order_refl sub]) (use assms(1) in \<open>simp add: vehicle_inv_def\<close>)
  moreover have "history_ok (history_rows s) (vh_id ` set (vehicle_rows s @ [r]))"
    by (rule history_ok_mono [OF _ sub]) (use assms(1) in \<open>simp add: vehicle_inv_def\<close>)
  ultimately show ?thesis unfolding t by (simp add: vehicle_inv_def)
qed

lemma vehicle_inv_update:
  assumes i: "vehicle_inv s" and run: "update_vehicle_row E D v s = (Inr u, t)"
    and old: "q \<in> set (vehicle_rows s)" "vh_id q = v_id v" "vh_plate q = (if v_plate v = '''' then None else Some (v_plate v))"
    and st: "valid_status (v_status v)"
  shows "vehicle_inv t"
proof -
  have d: "distinct (map vh_id (vehicle_rows s))" using i by (simp add: vehicle_inv_def vehicles_ok_def)
  obtain r r' n where r: "r \<in> set (vehicle_rows s)" "same_version E v r" "r' = set_columns E D (clock E (tick s)) v r"
      "row_violation r' (filter (\<lambda>q. vh_id q \<noteq> v_id v) (vehicle_rows s)) s = None"
    and t: "t = s\<lparr>tick := n, vehicle_rows := map (\<lambda>q. if vh_id q = v_id v then r' else q) (vehicle_rows s)\<rparr>"
    by (rule update_vehicle_row_Inr [OF run d])
  have "q = r" using inj_onD [of vh_id "set (vehicle_rows s)" q r] d old r(1,2) by (simp add: distinct_map same_version_def)
  moreover have "good_row q" using i old(1) by (simp add: vehicle_inv_def vehicles_ok_def)
  ultimately have "good_row r" "vh_plate r = (if v_plate v = '''' then None else Some (v_plate v))" using old(3) by simp_all
  then have "good_row r'" using st by (cases "v_plate v = ''''") (simp_all add: r(3) good_row_def)
  then have "vehicles_ok (map (\<lambda>q. if vh_id q = v_id v then r' else q) (vehicle_rows s)) (vh_seq s)"
    by (intro vehicles_ok_replace [OF _ r(4) _ r(1)]) (use i r(2) in \<open>simp_all add: vehicle_inv_def same_version_def r(3)\<close>)
  moreover have "vh_id r' = v_id v" using r(2,3) by (simp add: same_version_def)
  then have "map vh_id (map (\<lambda>q. if vh_id q = v_id v then r' else q) (vehicle_rows s)) = map vh_id (vehicle_rows s)" by simp
  then have "vh_id ` set (map (\<lambda>q. if vh_id q = v_id v then r' else q) (vehicle_rows s)) = vh_id ` set (vehicle_rows s)"
    by (metis set_map)
  moreover have "outbox_ok t" unfolding t
    by (rule outbox_ok_cong [of s]) (use i in \<open>simp_all add: vehicle_inv_def\<close>)
  ultimately show ?thesis using i unfolding t vehicle_inv_def by (simp del: set_map)
qed

lemma vehicle_inv_assign:
  assumes "vehicle_inv s" "assign_vehicle_to_customer E D vid cid d s = (Inr u, t)"
  shows "vehicle_inv t"
proof -
  obtain x n where x: "t = s\<lparr>tick := n, ow_seq := ow_seq s + 1, ownership_rows := ownership_rows s @ [x]\<rparr>"
    "x = \<lparr>ow_id = ow_seq s, ow_customer_id = cid, ow_vehicle_id = vid, ow_from = D d, ow_to = None,
       ow_status = Current, ow_created = db_time E (clock E (tick s))\<rparr>"
    "\<forall>q \<in> set (ownership_rows s). ow_vehicle_id q = vid \<longrightarrow> ow_status q \<noteq> Current" "vid \<in> vh_id ` set (vehicle_rows s)"
    by (rule assign_vehicle_Inr [OF assms(2)])
  have "owners_ok (ownership_rows s @ [x]) (ow_seq s + 1) (vh_id ` set (vehicle_rows s))"
    by (rule owners_ok_new) (use assms(1) x(3,4) in \<open>simp_all add: vehicle_inv_def x(2)\<close>)
  moreover have "outbox_ok t" unfolding x(1)
    by (rule outbox_ok_cong [of s]) (use assms(1) in \<open>simp_all add: vehicle_inv_def\<close>)
  ultimately show ?thesis using assms(1) unfolding x(1) by (simp add: vehicle_inv_def)
qed

lemma vehicle_inv_unassign:
  assumes "vehicle_inv s" "unassign_vehicle E D vid cid d s = (Inr u, t)"
  shows "vehicle_inv t"
proof -
  have d: "distinct (map ow_id (ownership_rows s))" using assms(1) by (simp add: vehicle_inv_def owners_ok_def)
  obtain x n where x: "x \<in> set (ownership_rows s)" "ow_from x \<le> D d"
    "t = s\<lparr>tick := n, ownership_rows := map (\<lambda>q. if ow_id q = ow_id x then ended (D d) q else q) (ownership_rows s)\<rparr>"
    by (rule unassign_vehicle_Inr [OF assms(2) d])
  have "owners_ok (map (\<lambda>q. if ow_id q = ow_id x then ended (D d) q else q) (ownership_rows s)) (ow_seq s) (vh_id ` set (vehicle_rows s))"
    by (rule owners_ok_ended) (use assms(1) x(1,2) in \<open>simp_all add: vehicle_inv_def\<close>)
  moreover have "outbox_ok t" unfolding x(3)
    by (rule outbox_ok_cong [of s]) (use assms(1) in \<open>simp_all add: vehicle_inv_def\<close>)
  ultimately show ?thesis using assms(1) unfolding x(3) by (simp add: vehicle_inv_def)
qed

lemma vehicle_inv_hs_seq [simp]: "vehicle_inv (s\<lparr>hs_seq := k\<rparr>) = vehicle_inv s"
  by (simp add: vehicle_inv_def outbox_ok_def outbox_valid_def outbox.delivered_def outbox_messages_def)

lemma vehicle_inv_history:
  assumes "vehicle_inv s" "hs_appointment_id h \<notin> hs_appointment_id ` set (history_rows s)"
    "hs_vehicle_id h \<in> vh_id ` set (vehicle_rows s)"
  shows "vehicle_inv (s\<lparr>hs_seq := k, history_rows := history_rows s @ [h]\<rparr>)"
  using assms
  by (simp add: vehicle_inv_def history_ok_def outbox_ok_def outbox_valid_def outbox.delivered_def outbox_messages_def)

lemma find_vehicle_Inr:
  assumes "find_vehicle E vid s = (Inr v, t)"
  obtains r where "r \<in> set (vehicle_rows s)" "vh_id r = vid" "v = to_vehicle_entity r" "t = step_tick s"
proof -
  obtain r rs where r: "filter (\<lambda>r. vh_id r = vid) (vehicle_rows s) = r # rs" "v = to_vehicle_entity r" "t = step_tick s"
    using assms by (auto simp: find_vehicle_def on_ok_Inr query_Inr split: list.splits)
  have "r \<in> set (vehicle_rows s) \<and> vh_id r = vid" using arg_cong [OF r(1), of set] by auto
  then show thesis using that r(2,3) by blast
qed

text \<open>The bodies of the transactions, step by step.\<close>

lemma register_tx_Inr:
  assumes "register_tx S w s = (Inr x, t)"
  obtains t1 ev t2 u where "create_vehicle (vs_env S) (vs_date S) w s = (Inr x, t1)"
    "new_vehicle_event (vs_env S) VehicleCreated (v_created x) (vehicle_state S x) t1 = (Inr ev, t2)"
    "write_vehicle_event S topic_vehicle_created (format_int (v_id x)) ev t2 = (Inr u, t)"
  using assms unfolding register_tx_def run_simps by clarify (rule that; assumption)

lemma register_vehicle_Inr:
  assumes "register_vehicle S v s = (Inr c, t)"
  obtains w t' where "register_check v = Inr w" "register_tx S w (step_tick s) = (Inr c, t')" "t = step_tick t'"
proof -
  obtain w where "register_check v = Inr w" "run_in_tx (vs_env S) VErrDb vehicle_restore (register_tx S w) s = (Inr c, t)"
    using assms by (cases "register_check v") (auto simp: register_vehicle_def on_ok_def lift_result_def)
  then show thesis using that committed by metis
qed

lemma update_vehicle_Inr:
  assumes "update_vehicle S vid u s = (Inr x, t)"
  obtains t' where "update_check u = Inr ()" "update_tx S vid u (step_tick s) = (Inr x, t')" "t = step_tick t'"
proof -
  have "update_check u = Inr ()" "run_in_tx (vs_env S) VErrDb vehicle_restore (update_tx S vid u) s = (Inr x, t)"
    using assms by (auto simp: update_vehicle_def on_ok_Inr)
  then show thesis using that committed by metis
qed

lemma assign_tx_Inr:
  assumes "assign_tx S vid cid d s = (Inr x, t)"
  obtains v t1 u t2 ev t4 u' where "find_vehicle (vs_env S) vid s = (Inr v, t1)" "v_status v \<noteq> status_scrapped"
    "assign_vehicle_to_customer (vs_env S) (vs_date S) vid cid d t1 = (Inr u, t2)"
    "new_vehicle_event (vs_env S) OwnerAssigned (clock (vs_env S) (tick t2)) (ownership_payload vid cid None (date_only d))
       (step_tick t2) = (Inr ev, t4)"
    "write_vehicle_event S topic_owner_assigned (format_int vid) ev t4 = (Inr u', t)"
  using assms unfolding assign_tx_def get_vehicle_for_update_def run_simps by clarify (rule that; assumption)

lemma transfer_tx_Inr:
  assumes "transfer_tx S x s = (Inr y, t)"
  obtains u t1 u' t2 ev t4 u'' where
    "unassign_vehicle (vs_env S) (vs_date S) (tv_vehicle_id x) (tv_from x) (tv_date x) s = (Inr u, t1)"
    "assign_vehicle_to_customer (vs_env S) (vs_date S) (tv_vehicle_id x) (tv_to x) (tv_date x) t1 = (Inr u', t2)"
    "new_vehicle_event (vs_env S) VehicleTransferred (clock (vs_env S) (tick t2))
       (ownership_payload (tv_vehicle_id x) (tv_to x) (Some (tv_from x)) (date_only (tv_date x))) (step_tick t2) = (Inr ev, t4)"
    "write_vehicle_event S topic_transfer_vehicle (format_int (tv_vehicle_id x)) ev t4 = (Inr u'', t)"
  using assms unfolding transfer_tx_def run_simps by clarify (rule that; assumption)

text \<open>Every successful operation keeps the invariant, and so does every failed one.\<close>

lemma register_keeps: "keeps vehicle_inv (register_vehicle S v)"
proof (cases "register_check v")
  case (Inl e)
  then show ?thesis by (simp add: register_vehicle_def keeps_def on_ok_def lift_result_def)
next
  case (Inr w)
  have w: "normalize_vin (v_vin w) = Inr (v_vin w)" "normalize_plate (v_plate w) = Inr (v_plate w)" "valid_status (v_status w)"
    using register_check_Inr [OF Inr] normalize_vin_again normalize_plate_again by blast+
  have "keeps vehicle_inv (run_in_tx (vs_env S) VErrDb vehicle_restore (register_tx S w))"
  proof (rule vehicle_tx.tx_keeps [OF grows_bodies(2)])
    fix s x t
    assume i: "vehicle_inv s" and run: "register_tx S w s = (Inr x, t)"
    obtain t1 ev t2 u where r: "create_vehicle (vs_env S) (vs_date S) w s = (Inr x, t1)"
      "new_vehicle_event (vs_env S) VehicleCreated (v_created x) (vehicle_state S x) t1 = (Inr ev, t2)"
      "write_vehicle_event S topic_vehicle_created (format_int (v_id x)) ev t2 = (Inr u, t)"
      by (rule register_tx_Inr [OF run])
    have "vehicle_inv t1" by (rule vehicle_inv_create [OF i r(1) w])
    then have "vehicle_inv t2" using r(2) by (simp add: new_vehicle_event_Inr)
    then show "vehicle_inv t" by (rule vehicle_inv_event [OF r(3)])
  qed
  then show ?thesis using Inr by (simp add: register_vehicle_def keeps_def on_ok_def lift_result_def)
qed

lemma assign_keeps: "keeps vehicle_inv (assign_initial_owner S vid cid d)"
proof -
  have tx: "keeps vehicle_inv (run_in_tx (vs_env S) VErrDb vehicle_restore (assign_tx S vid cid d))" for d
  proof (rule vehicle_tx.tx_keeps [OF grows_bodies(1)])
    fix s x t
    assume i: "vehicle_inv s" and run: "assign_tx S vid cid d s = (Inr x, t)"
    obtain v t1 u t2 ev t4 u' where r: "find_vehicle (vs_env S) vid s = (Inr v, t1)"
      "assign_vehicle_to_customer (vs_env S) (vs_date S) vid cid d t1 = (Inr u, t2)"
      "new_vehicle_event (vs_env S) OwnerAssigned (clock (vs_env S) (tick t2)) (ownership_payload vid cid None (date_only d))
         (step_tick t2) = (Inr ev, t4)"
      "write_vehicle_event S topic_owner_assigned (format_int vid) ev t4 = (Inr u', t)"
      by (rule assign_tx_Inr [OF run])
    have "t1 = step_tick s" by (rule find_vehicle_Inr [OF r(1)])
    then have "vehicle_inv t1" using i by simp
    then have "vehicle_inv t2" by (rule vehicle_inv_assign [OF _ r(2)])
    then have "vehicle_inv t4" using r(3) by (simp add: new_vehicle_event_Inr)
    then show "vehicle_inv t" by (rule vehicle_inv_event [OF r(4)])
  qed
  show ?thesis unfolding assign_initial_owner_def Let_def
    by (intro keeps_intros tx tick_free_vehicle_inv)
qed

lemma transfer_keeps: "keeps vehicle_inv (transfer_vehicle S x)"
  unfolding transfer_vehicle_def
proof (rule vehicle_tx.tx_keeps [OF grows_bodies(4)])
  fix s y t
  assume i: "vehicle_inv s" and run: "transfer_tx S x s = (Inr y, t)"
  obtain u t1 u' t2 ev t4 u'' where r:
    "unassign_vehicle (vs_env S) (vs_date S) (tv_vehicle_id x) (tv_from x) (tv_date x) s = (Inr u, t1)"
    "assign_vehicle_to_customer (vs_env S) (vs_date S) (tv_vehicle_id x) (tv_to x) (tv_date x) t1 = (Inr u', t2)"
    "new_vehicle_event (vs_env S) VehicleTransferred (clock (vs_env S) (tick t2))
       (ownership_payload (tv_vehicle_id x) (tv_to x) (Some (tv_from x)) (date_only (tv_date x))) (step_tick t2) = (Inr ev, t4)"
    "write_vehicle_event S topic_transfer_vehicle (format_int (tv_vehicle_id x)) ev t4 = (Inr u'', t)"
    by (rule transfer_tx_Inr [OF run])
  have "vehicle_inv t1" by (rule vehicle_inv_unassign [OF i r(1)])
  then have "vehicle_inv t2" by (rule vehicle_inv_assign [OF _ r(2)])
  then have "vehicle_inv t4" using r(3) by (simp add: new_vehicle_event_Inr)
  then show "vehicle_inv t" by (rule vehicle_inv_event [OF r(4)])
qed

lemma completed_keeps: "keeps vehicle_inv (record_service_completed S e)"
  unfolding record_service_completed_def record_history_def Let_def
  by (intro keeps_intros tick_free_vehicle_inv) (simp add: keeps_def vehicle_inv_history)

text \<open>An update that went through, step by step: either nothing differs, or the row is written and the change
  announced.\<close>

definition warranty_differs :: "vehicle_update \<Rightarrow> vehicle_entity \<Rightarrow> bool" where
  "warranty_differs u v \<longleftrightarrow> \<not> same_date (v_warranty (updated_vehicle u v)) (v_warranty v)"

definition differs :: "vehicle_update \<Rightarrow> vehicle_entity \<Rightarrow> bool" where
  "differs u v \<longleftrightarrow> v_status (updated_vehicle u v) \<noteq> v_status v \<or> warranty_differs u v"

lemma update_tx_Inr:
  assumes run: "update_tx S vid u s = (Inr x, t)"
  obtains (same) q where "q \<in> set (vehicle_rows s)" "vh_id q = vid" "vh_updated q = vu_updated u" "vh_status q \<noteq> status_scrapped"
      "\<not> differs u (to_vehicle_entity q)" "x = to_vehicle_entity q" "t = step_tick s"
    | (changed) q a t1 t2 ev b t3 where "q \<in> set (vehicle_rows s)" "vh_id q = vid" "vh_updated q = vu_updated u"
      "vh_status q \<noteq> status_scrapped" "differs u (to_vehicle_entity q)"
      "update_vehicle_row (vs_env S) (vs_date S) (updated_vehicle u (to_vehicle_entity q)) (step_tick s) = (Inr a, t1)"
      "find_vehicle (vs_env S) vid t1 = (Inr x, t2)"
      "new_vehicle_event (vs_env S) VehicleUpdated (v_updated x) (vehicle_state S x) t2 = (Inr ev, step_tick t2)"
      "write_vehicle_event S topic_vehicle_update (format_int vid) ev (step_tick t2) = (Inr b, t3)"
      "(if warranty_differs u (to_vehicle_entity q)
        then \<exists>ev' c. new_vehicle_event (vs_env S) WarrantyChanged (v_updated x)
               (warranty_change vid (format_date_opt (v_warranty (to_vehicle_entity q))) (format_date_opt (v_warranty x))) t3 =
               (Inr ev', step_tick t3) \<and> write_vehicle_event S topic_warranty_changed (format_int vid) ev' (step_tick t3) = (Inr c, t)
        else t = t3)"
proof -
  obtain v s1 where v: "find_vehicle (vs_env S) vid s = (Inr v, s1)" "v_updated v = vu_updated u" "v_status v \<noteq> status_scrapped"
    and rest: "(if \<not> (v_status (updated_vehicle u v) \<noteq> v_status v) \<and> same_date (v_warranty (updated_vehicle u v)) (v_warranty v)
       then ok v
       else on_ok (update_vehicle_row (vs_env S) (vs_date S) (updated_vehicle u v)) (\<lambda>_.
                  on_ok (find_vehicle (vs_env S) vid) (\<lambda>updated.
                  on_ok (new_vehicle_event (vs_env S) VehicleUpdated (v_updated updated) (vehicle_state S updated)) (\<lambda>ev.
                  on_ok (write_vehicle_event S topic_vehicle_update (format_int vid) ev) (\<lambda>_.
                  if \<not> same_date (v_warranty (updated_vehicle u v)) (v_warranty v)
                  then on_ok (new_vehicle_event (vs_env S) WarrantyChanged (v_updated updated)
                         (warranty_change vid (format_date_opt (v_warranty v)) (format_date_opt (v_warranty updated)))) (\<lambda>ev.
                       on_ok (write_vehicle_event S topic_warranty_changed (format_int vid) ev) (\<lambda>_. ok updated))
                  else ok updated))))) s1 = (Inr x, t)"
    using run unfolding update_tx_def get_vehicle_for_update_def get_vehicle_by_id_def Let_def
    by (auto simp only: on_ok_Inr if_fail_Inr not_not)
  obtain q where q: "q \<in> set (vehicle_rows s)" "vh_id q = vid" "v = to_vehicle_entity q" "s1 = step_tick s"
    by (rule find_vehicle_Inr [OF v(1)])
  have f: "vh_updated q = vu_updated u" "vh_status q \<noteq> status_scrapped" using v(2,3) q(3) by (simp_all add: to_vehicle_entity_def)
  show thesis
  proof (cases "differs u v")
    case False
    then show thesis using rest same [OF q(1,2) f] q(3,4) by (simp add: differs_def warranty_differs_def)
  next
    case True
    then have n: "\<not> (\<not> (v_status (updated_vehicle u v) \<noteq> v_status v) \<and> same_date (v_warranty (updated_vehicle u v)) (v_warranty v))"
      by (simp add: differs_def warranty_differs_def)
    obtain a t1 y t2 ev b t3 where r:
      "update_vehicle_row (vs_env S) (vs_date S) (updated_vehicle u v) s1 = (Inr a, t1)"
      "find_vehicle (vs_env S) vid t1 = (Inr y, t2)"
      "new_vehicle_event (vs_env S) VehicleUpdated (v_updated y) (vehicle_state S y) t2 = (Inr ev, step_tick t2)"
      "write_vehicle_event S topic_vehicle_update (format_int vid) ev (step_tick t2) = (Inr b, t3)"
      and w: "(if warranty_differs u v
                  then on_ok (new_vehicle_event (vs_env S) WarrantyChanged (v_updated y)
                         (warranty_change vid (format_date_opt (v_warranty v)) (format_date_opt (v_warranty y)))) (\<lambda>ev.
                       on_ok (write_vehicle_event S topic_warranty_changed (format_int vid) ev) (\<lambda>_. ok y))
                  else ok y) t3 = (Inr x, t)"
      using rest [unfolded if_not_P [OF n], unfolded on_ok_Inr, folded warranty_differs_def]
      by (fastforce simp: new_vehicle_event_Inr)
    have xy: "x = y" and W: "if warranty_differs u v
        then \<exists>ev' c. new_vehicle_event (vs_env S) WarrantyChanged (v_updated y)
               (warranty_change vid (format_date_opt (v_warranty v)) (format_date_opt (v_warranty y))) t3 =
               (Inr ev', step_tick t3) \<and> write_vehicle_event S topic_warranty_changed (format_int vid) ev' (step_tick t3) = (Inr c, t)
        else t = t3"
      using w by (auto simp: on_ok_Inr new_vehicle_event_Inr split: if_splits)
    show thesis
      by (rule changed [OF q(1,2) f True [unfolded q(3)] r(1) [unfolded q(3,4)] r(2-4) [folded xy] W [folded xy, unfolded q(3)]])
  qed
qed

lemma updated_vehicle_sel [simp]:
  "v_id (updated_vehicle u v) = v_id v" "v_plate (updated_vehicle u v) = v_plate v" "v_vin (updated_vehicle u v) = v_vin v"
  "v_model_id (updated_vehicle u v) = v_model_id v" "v_updated (updated_vehicle u v) = v_updated v"
  "v_status (updated_vehicle u v) = (case vu_status u of None \<Rightarrow> v_status v | Some st \<Rightarrow> st)"
  by (simp_all add: updated_vehicle_def)

lemma to_vehicle_entity_sel [simp]:
  "v_id (to_vehicle_entity r) = vh_id r" "v_vin (to_vehicle_entity r) = vh_vin r" "v_status (to_vehicle_entity r) = vh_status r"
  "v_model_id (to_vehicle_entity r) = vh_model_id r" "v_updated (to_vehicle_entity r) = vh_updated r"
  "v_plate (to_vehicle_entity r) = (case vh_plate r of None \<Rightarrow> '''' | Some p \<Rightarrow> p)"
  "v_warranty (to_vehicle_entity r) = map_option utc (vh_warranty r)" "v_created (to_vehicle_entity r) = vh_created r"
  by (simp_all add: to_vehicle_entity_def)

lemma only_row: "distinct (map vh_id rows) \<Longrightarrow> q \<in> set rows \<Longrightarrow> r \<in> set rows \<Longrightarrow> vh_id q = vh_id r \<Longrightarrow> q = r"
  by (simp add: distinct_map inj_on_def)

definition rewritten :: "vehicle_service \<Rightarrow> int \<Rightarrow> vehicle_entity \<Rightarrow> vehicle_row \<Rightarrow> vehicle_row" where
  "rewritten S t0 w r = r\<lparr>vh_warranty := map_option (vs_date S) (v_warranty w), vh_status := v_status w, vh_updated := t0\<rparr>"

lemma set_columns_rewritten:
  assumes "good_row q"
  shows "set_columns (vs_env S) (vs_date S) n (updated_vehicle u (to_vehicle_entity q)) q =
    rewritten S (db_time (vs_env S) n) (updated_vehicle u (to_vehicle_entity q)) q"
  using assms by (intro vehicle_row.equality) (auto simp: rewritten_def good_row_def split: option.splits)

text \<open>What a change that went through wrote: the row's warranty, status and timestamp.\<close>

lemma update_row_changed:
  assumes i: "vehicle_inv s" and q: "q \<in> set (vehicle_rows s)"
    and run: "update_vehicle_row (vs_env S) (vs_date S) (updated_vehicle u (to_vehicle_entity q)) s = (Inr a, t)"
  obtains n m where "t = s\<lparr>tick := m, vehicle_rows := map (\<lambda>r. if vh_id r = vh_id q
      then rewritten S (db_time (vs_env S) (clock (vs_env S) n)) (updated_vehicle u (to_vehicle_entity q)) r else r) (vehicle_rows s)\<rparr>"
proof -
  let ?v = "updated_vehicle u (to_vehicle_entity q)"
  have d: "distinct (map vh_id (vehicle_rows s))" and g: "good_row q"
    using i q by (simp_all add: vehicle_inv_def vehicles_ok_def)
  obtain r r' m where r: "r \<in> set (vehicle_rows s)" "same_version (vs_env S) ?v r"
      "r' = set_columns (vs_env S) (vs_date S) (clock (vs_env S) (tick s)) ?v r"
      "t = s\<lparr>tick := m, vehicle_rows := map (\<lambda>q. if vh_id q = v_id ?v then r' else q) (vehicle_rows s)\<rparr>"
    by (rule update_vehicle_row_Inr [OF run d])
  have rq: "r = q" using only_row [OF d r(1) q] r(2) by (simp add: same_version_def)
  have "(if vh_id p = vh_id q then r' else p) = (if vh_id p = vh_id q then rewritten S
      (db_time (vs_env S) (clock (vs_env S) (tick s))) ?v p else p)" if "p \<in> set (vehicle_rows s)" for p
    using only_row [OF d that q] set_columns_rewritten [OF g] r(3) rq by (cases "vh_id p = vh_id q") simp_all
  then have "t = s\<lparr>tick := m, vehicle_rows := map (\<lambda>p. if vh_id p = vh_id q
      then rewritten S (db_time (vs_env S) (clock (vs_env S) (tick s))) ?v p else p) (vehicle_rows s)\<rparr>"
    using r(4) by (simp cong: map_cong)
  then show thesis by (rule that)
qed

lemma update_keeps: "keeps vehicle_inv (update_vehicle S vid u)"
proof (cases "update_check u")
  case (Inl e)
  then show ?thesis by (simp add: update_vehicle_def keeps_def on_ok_def lift_result_def)
next
  case (Inr a)
  then have st: "vu_status u = Some s \<Longrightarrow> valid_status s" for s by (auto simp: update_check_def split: if_splits)
  have "keeps vehicle_inv (run_in_tx (vs_env S) VErrDb vehicle_restore (update_tx S vid u))"
  proof (rule vehicle_tx.tx_keeps [OF grows_bodies(3)])
    fix s x t
    assume i: "vehicle_inv s" and run: "update_tx S vid u s = (Inr x, t)"
    show "vehicle_inv t"
      using run
    proof (cases rule: update_tx_Inr)
      case (same q)
      then show ?thesis using i by simp
    next
      case (changed q a t1 t2 ev b t3)
      have g: "good_row q" using i changed(1) by (simp add: vehicle_inv_def vehicles_ok_def)
      have "vehicle_inv t1"
      proof (rule vehicle_inv_update [OF _ changed(6)])
        show "vh_plate q = (if v_plate (updated_vehicle u (to_vehicle_entity q)) = '''' then None
            else Some (v_plate (updated_vehicle u (to_vehicle_entity q))))"
          using g by (cases "vh_plate q") (auto simp: good_row_def)
        show "valid_status (v_status (updated_vehicle u (to_vehicle_entity q)))"
          using g st by (auto simp: good_row_def split: option.splits)
      qed (use i changed(1) in simp_all)
      moreover have "t2 = step_tick t1" by (rule find_vehicle_Inr [OF changed(7)])
      ultimately have "vehicle_inv (step_tick t2)" by simp
      then have "vehicle_inv t3" by (rule vehicle_inv_event [OF changed(9)])
      then show ?thesis using changed(10) vehicle_inv_event [of S _ _ _ "step_tick t3"]
        by (auto split: if_splits)
    qed
  qed
  then show ?thesis using Inr by (simp add: update_vehicle_def keeps_def on_ok_def lift_result_def)
qed

section \<open>Reachable states\<close>

text \<open>What can happen to the database: a call of the service, a consumed ServiceCompleted event, or one run of the
  relay. The environment varies from step to step.\<close>

datatype vehicle_operation =
    VRegister vehicle_service vehicle_entity
  | VUpdate vehicle_service int vehicle_update
  | VAssign vehicle_service int int stamp
  | VTransfer vehicle_service transfer_request
  | VCompleted vehicle_service completed_event
  | VRelay env

fun run_vehicle :: "vehicle_operation \<Rightarrow> vehicle_db \<Rightarrow> vehicle_db" where
  "run_vehicle (VRegister S v) s = snd (register_vehicle S v s)"
| "run_vehicle (VUpdate S vid u) s = snd (update_vehicle S vid u s)"
| "run_vehicle (VAssign S vid cid d) s = snd (assign_initial_owner S vid cid d s)"
| "run_vehicle (VTransfer S x) s = snd (transfer_vehicle S x s)"
| "run_vehicle (VCompleted S e) s = snd (record_service_completed S e s)"
| "run_vehicle (VRelay E) s = relay_once (fetch_unpublished E) (mark_published E) (publish E) s"

definition empty_vehicle_tables :: "vehicle_db \<Rightarrow> bool" where
  "empty_vehicle_tables s \<longleftrightarrow> vh_seq s = 1 \<and> vehicle_rows s = [] \<and> ownership_rows s = [] \<and> history_rows s = [] \<and> outbox_rows s = [] \<and> kafka_log s = []"

inductive vehicle_reachable :: "vehicle_db \<Rightarrow> bool" where
  migrated: "empty_vehicle_tables s \<Longrightarrow> vehicle_reachable s"
| operate: "vehicle_reachable s \<Longrightarrow> vehicle_reachable (run_vehicle x s)"

inductive_cases vehicle_reachableE: "vehicle_reachable s"

lemma empty_vehicle_inv: "empty_vehicle_tables s \<Longrightarrow> vehicle_inv s"
  by (simp add: empty_vehicle_tables_def vehicle_inv_def vehicles_ok_def owners_ok_def history_ok_def outbox_ok_def outbox_valid_def
      outbox.delivered_def outbox_messages_def)

lemma relay_keeps_vehicle:
  assumes "vehicle_inv s"
  shows "vehicle_inv (relay_once (fetch_unpublished E) (mark_published E) (publish E) s)" (is "vehicle_inv ?t")
proof -
  obtain n rows l where t: "?t = s\<lparr>tick := n, outbox_rows := rows, kafka_log := l\<rparr>"
    using outbox_frame_update [OF relay_once_frame] by blast
  have "outbox_ok ?t" by (rule relay_once_ok) (use assms in \<open>simp add: vehicle_inv_def\<close>)
  then show ?thesis using assms unfolding t by (simp add: vehicle_inv_def)
qed

lemma reachable_vehicle_inv: "vehicle_reachable s \<Longrightarrow> vehicle_inv s"
proof (induction rule: vehicle_reachable.induct)
  case (operate s x)
  then show ?case
    by (cases x) (simp_all add: keeps_snd register_keeps update_keeps assign_keeps transfer_keeps completed_keeps relay_keeps_vehicle)
qed (rule empty_vehicle_inv)

section \<open>Failures\<close>

lemma tx_fails_same:
  "vehicle_tx.grows m \<Longrightarrow> run_in_tx E VErrDb vehicle_restore m s = (Inl e, t) \<Longrightarrow> vehicle_same s t"
  by (rule vehicle_tx.tx_failed)

lemma register_fails: "register_vehicle S v s = (Inl e, t) \<Longrightarrow> vehicle_same s t"
  by (auto simp: register_vehicle_def on_ok_Inl vehicle_tx.same_at_tick dest: tx_fails_same [OF grows_bodies(2)])
    (simp add: vehicle_same_def)

lemma update_fails: "update_vehicle S vid u s = (Inl e, t) \<Longrightarrow> vehicle_same s t"
  by (auto simp: update_vehicle_def on_ok_Inl dest: tx_fails_same [OF grows_bodies(3)])
    (simp add: vehicle_same_def)

lemma transfer_fails: "transfer_vehicle S x s = (Inl e, t) \<Longrightarrow> vehicle_same s t"
  unfolding transfer_vehicle_def by (rule tx_fails_same [OF grows_bodies(4)])

lemma vehicle_same_step: "vehicle_same (step_tick s) t \<Longrightarrow> vehicle_same s t"
  by (simp add: vehicle_same_def)

lemma assign_fails: "assign_initial_owner S vid cid d s = (Inl e, t) \<Longrightarrow> vehicle_same s t"
  by (auto simp: assign_initial_owner_def on_ok_Inl now_run Let_def split: if_splits
      dest: tx_fails_same [OF grows_bodies(1)] intro: vehicle_same_step)
    (simp_all add: vehicle_same_def)

end
