(* ===== verification/VehicleHttp.thy ===== *)
theory VehicleHttp
  imports VehicleProofs
begin

text \<open>vehicle-service's HTTP side: the DTOs (\<open>http/dto\<close>), the handlers and the routes
  (\<open>http/handler/vehicle-handler.go\<close>, \<open>http/server.go\<close>). Reading a body is decoding its JSON value
  and checking the binding tags; the parser and the text of a binding error are fields of the server. The
  middleware is \<open>HttpAuth\<close>'s (this service drops the token it parsed).\<close>

record vehicle_server = auth_server +
  hv_service :: vehicle_service
  hv_parse :: "string \<Rightarrow> json option"
  hv_invalid :: "string \<Rightarrow> string"

section \<open>Request bodies\<close>

text \<open>\<open>Optional\<close> tells an absent field from \<open>null\<close>.\<close>

record 'a optional =
  opt_set :: bool
  opt_value :: "'a option"

definition unmarshal_optional :: "(json \<Rightarrow> 'a option) \<Rightarrow> json \<Rightarrow> 'a optional option" where
  "unmarshal_optional decode j =
     (if j = JNull then Some \<lparr>opt_set = True, opt_value = None\<rparr>
      else map_option (\<lambda>v. \<lparr>opt_set = True, opt_value = Some v\<rparr>) (decode j))"

definition optional_field :: "(json \<Rightarrow> 'a option) \<Rightarrow> string \<Rightarrow> json \<Rightarrow> 'a optional option" where
  "optional_field decode k j = (case field k j of
       None \<Rightarrow> Some \<lparr>opt_set = False, opt_value = None\<rparr>
     | Some v \<Rightarrow> unmarshal_optional decode v)"

record register_vehicle_dto =
  rv_vin :: string
  rv_plate :: string
  rv_model_id :: int
  rv_warranty :: "stamp option"
  rv_status :: string

record update_vehicle_dto =
  uv_status :: "string option"
  uv_warranty :: "stamp optional"
  uv_updated :: stamp

record transfer_vehicle_dto =
  td_vehicle_id :: int
  td_from :: int
  td_to :: int
  td_date :: "stamp option"

record assign_owner_dto =
  ao_customer_id :: int
  ao_date :: "stamp option"

text \<open>Decoding, then the \<open>binding\<close> tags: \<open>required\<close> refuses the zero value, \<open>gt=0\<close> what is not positive.\<close>

definition decode_register :: "json \<Rightarrow> register_vehicle_dto option" where
  "decode_register j =
     (case (string_field ''vin'' j, string_field ''license_plate'' j, int_field ''vehicle_model_id'' j,
            pointer_field decode_stamp ''warranty_end_date'' j, string_field ''status'' j) of
        (Some vin, Some plate, Some model, Some warranty, Some status) \<Rightarrow>
          if \<not> is_object j \<or> vin = '''' \<or> model \<le> 0 then None
          else Some \<lparr>rv_vin = vin, rv_plate = plate, rv_model_id = model, rv_warranty = warranty, rv_status = status\<rparr>
      | _ \<Rightarrow> None)"

definition decode_update :: "json \<Rightarrow> update_vehicle_dto option" where
  "decode_update j =
     (case (pointer_field decode_string ''status'' j, optional_field decode_stamp ''warranty_end_date'' j,
            stamp_field ''updated_at'' j) of
        (Some status, Some warranty, Some updated) \<Rightarrow>
          if \<not> is_object j \<or> sp_time updated = zero_time then None
          else Some \<lparr>uv_status = status, uv_warranty = warranty, uv_updated = updated\<rparr>
      | _ \<Rightarrow> None)"

definition decode_transfer :: "json \<Rightarrow> transfer_vehicle_dto option" where
  "decode_transfer j =
     (case (int_field ''vehicle_id'' j, int_field ''from'' j, int_field ''to'' j, pointer_field decode_stamp ''date'' j) of
        (Some vid, Some a, Some b, Some date) \<Rightarrow>
          if \<not> is_object j \<or> vid = 0 \<or> a = 0 \<or> b = 0 then None
          else Some \<lparr>td_vehicle_id = vid, td_from = a, td_to = b, td_date = date\<rparr>
      | _ \<Rightarrow> None)"

definition decode_assign :: "json \<Rightarrow> assign_owner_dto option" where
  "decode_assign j =
     (case (int_field ''customer_id'' j, pointer_field decode_stamp ''date'' j) of
        (Some cid, Some date) \<Rightarrow>
          if \<not> is_object j \<or> cid \<le> 0 then None else Some \<lparr>ao_customer_id = cid, ao_date = date\<rparr>
      | _ \<Rightarrow> None)"

section \<open>Responses\<close>

definition vehicle_fields :: "vehicle_service \<Rightarrow> vehicle_entity \<Rightarrow> (string \<times> json) list" where
  "vehicle_fields S v = [(''id'', JInt (v_id v)), (''vin'', JStr (v_vin v)), (''license_plate'', JStr (v_plate v)),
     (''vehicle_model_id'', JInt (v_model_id v)), (''warranty_end_date'', opt_json stamp_json (v_warranty v)),
     (''status'', JStr (v_status v)), (''created_at'', stamp_json (local S (v_created v))),
     (''updated_at'', stamp_json (local S (v_updated v)))]"

definition vehicle_dto :: "vehicle_service \<Rightarrow> vehicle_entity \<Rightarrow> json" where
  "vehicle_dto S v = JObj (vehicle_fields S v)"

definition vehicles_page_dto :: "vehicle_service \<Rightarrow> vehicle_page \<Rightarrow> json" where
  "vehicles_page_dto S p = JObj ((''vehicles'', JArr (map (vehicle_dto S) (pg_vehicles p)))
     # (if pg_next p = 0 then [] else [(''next_cursor'', JInt (pg_next p))]) @ [(''has_more'', JBool (pg_more p))])"

definition customer_vehicle_dto :: "vehicle_service \<Rightarrow> customer_vehicle \<Rightarrow> json" where
  "customer_vehicle_dto S o' = JObj (vehicle_fields S (cv_vehicle o') @ [(''owned_from'', stamp_json (cv_owned_from o'))])"

definition owner_dto :: "customer_vehicle \<Rightarrow> json" where
  "owner_dto o' = JObj [(''customer_id'', JInt (cv_customer_id o')), (''owned_from'', stamp_json (cv_owned_from o'))]"

definition vehicle_owner_dto :: "int \<Rightarrow> customer_vehicle option \<Rightarrow> json" where
  "vehicle_owner_dto vid owner = JObj [(''vehicle_id'', JInt vid), (''owner'', opt_json owner_dto owner)]"

definition warranty_dto :: "warranty \<Rightarrow> json" where
  "warranty_dto w = JObj [(''vehicle_id'', JInt (wa_vehicle_id w)), (''warranty_end_date'', opt_json stamp_json (wa_end w)),
     (''as_of'', JStr (date_only (wa_as_of w))), (''in_warranty'', JBool (wa_active w)), (''days_remaining'', JInt (wa_days w))]"

definition material_dto :: "vehicle_service \<Rightarrow> vehicle_material \<Rightarrow> json" where
  "material_dto S m = JObj ([(''id'', JInt (vm_id m)), (''material_id'', JInt (vm_material_id m))]
     @ (if vm_description m = '''' then [] else [(''description'', JStr (vm_description m))])
     @ [(''count'', JInt (vm_count m)), (''installed_at'', stamp_json (local S (vm_installed m)))])"

definition history_entry_dto :: "vehicle_service \<Rightarrow> history_entry \<Rightarrow> json" where
  "history_entry_dto S e = JObj [(''id'', JInt (he_id e)), (''appointment_id'', JInt (he_appointment_id e)),
     (''dealership_id'', JInt (he_dealership_id e)), (''completed_at'', stamp_json (local S (he_completed e))),
     (''services'', JArr (map service_performed_json (he_services e)))]"

section \<open>Handlers\<close>

type_synonym vehicle_handler = "vehicle_db \<Rightarrow> http_response \<times> vehicle_db"

fun vehicle_error_status :: "vehicle_error \<Rightarrow> int" where
  "vehicle_error_status (VErrInvalidInput d) = 400"
| "vehicle_error_status (VErrNotFound d) = 404"
| "vehicle_error_status (VErrConflict d) = 409"
| "vehicle_error_status (VErrInvalidState d) = 409"
| "vehicle_error_status (VErrDb e) = 500"
| "vehicle_error_status (VErrOther m) = 500"

definition vehicle_refusal :: "vehicle_error \<Rightarrow> http_response" where
  "vehicle_refusal e = reply (vehicle_error_status e)
     (error_body (if vehicle_error_status e = 500 then ''internal server error'' else vehicle_error_text e))"

definition labelled_id :: "string \<Rightarrow> string \<Rightarrow> http_response + int" where
  "labelled_id label param = (case parse_int64 param of
       None \<Rightarrow> Inl (reply 400 (error_body (''invalid '' @ label @ '' id'')))
     | Some i \<Rightarrow> if i \<le> 0 then Inl (reply 400 (error_body (''invalid '' @ label @ '' id''))) else Inr i)"

definition with_vehicle_id :: "string \<Rightarrow> (int \<Rightarrow> vehicle_handler) \<Rightarrow> vehicle_handler" where
  "with_vehicle_id param f s = (case labelled_id ''vehicle'' param of Inl r \<Rightarrow> (r, s) | Inr i \<Rightarrow> f i s)"

text \<open>\<open>ShouldBindJSON\<close>, a 400 when it fails.\<close>

definition bind_json :: "vehicle_server \<Rightarrow> (json \<Rightarrow> 'a option) \<Rightarrow> http_request \<Rightarrow> ('a \<Rightarrow> vehicle_handler) \<Rightarrow> vehicle_handler" where
  "bind_json V decode r f s = (case Option.bind (hv_parse V (hq_body r)) decode of
       None \<Rightarrow> (reply 400 (error_body (hv_invalid V (hq_body r))), s)
     | Some d \<Rightarrow> f d s)"

definition no_content :: "unit \<Rightarrow> json" where
  "no_content u = JNull"

abbreviation vrespond :: "int \<Rightarrow> ('a \<Rightarrow> json) \<Rightarrow> (vehicle_db, vehicle_error, 'a) prog \<Rightarrow> vehicle_handler" where
  "vrespond \<equiv> respond_with vehicle_refusal"

text \<open>The vehicle a request asks to register; the model's other fields are zero.\<close>

definition requested_vehicle :: "register_vehicle_dto \<Rightarrow> vehicle_entity" where
  "requested_vehicle d = \<lparr>v_id = 0, v_vin = rv_vin d, v_plate = rv_plate d, v_model_id = rv_model_id d,
     v_warranty = rv_warranty d, v_status = rv_status d, v_created = zero_time, v_updated = zero_time\<rparr>"

definition handle_register_vehicle :: "vehicle_server \<Rightarrow> http_request \<Rightarrow> vehicle_handler" where
  "handle_register_vehicle V r = bind_json V decode_register r (\<lambda>d s.
     case register_vehicle (hv_service V) (requested_vehicle d) s of
       (Inl e, t) \<Rightarrow> (vehicle_refusal e, t)
     | (Inr v, t) \<Rightarrow> ((reply 201 (vehicle_dto (hv_service V) v))
         \<lparr>hs_location := Some (''/api/v1/vehicle/'' @ format_int (v_id v))\<rparr>, t))"

definition handle_customer_vehicles :: "vehicle_server \<Rightarrow> string \<Rightarrow> vehicle_handler" where
  "handle_customer_vehicles V param s = (case labelled_id ''customer'' param of
       Inl resp \<Rightarrow> (resp, s)
     | Inr cid \<Rightarrow> vrespond 200 (\<lambda>os. JObj [(''vehicles'', JArr (map (customer_vehicle_dto (hv_service V)) os))])
         (get_customer_vehicles (hv_service V) cid) s)"

text \<open>The date of a request, \<open>time.Now()\<close> by default.\<close>

definition date_or_now :: "vehicle_service \<Rightarrow> stamp option \<Rightarrow> (vehicle_db, vehicle_error, stamp) prog" where
  "date_or_now S d = on_ok (now (vs_env S)) (\<lambda>t. ok (case d of None \<Rightarrow> local S t | Some x \<Rightarrow> x))"

definition handle_transfer_vehicle :: "vehicle_server \<Rightarrow> http_request \<Rightarrow> vehicle_handler" where
  "handle_transfer_vehicle V r = bind_json V decode_transfer r (\<lambda>d.
     vrespond 204 no_content (on_ok (date_or_now (hv_service V) (td_date d)) (\<lambda>date.
       transfer_vehicle (hv_service V)
         \<lparr>tv_date = date, tv_from = td_from d, tv_to = td_to d, tv_vehicle_id = td_vehicle_id d\<rparr>)))"

definition non_negative :: "string \<Rightarrow> int option" where
  "non_negative s = (case parse_int64 s of None \<Rightarrow> None | Some n \<Rightarrow> if n < 0 then None else Some n)"

definition handle_list_vehicles :: "vehicle_server \<Rightarrow> http_request \<Rightarrow> vehicle_handler" where
  "handle_list_vehicles V r s = (case non_negative (query_default ''0'' ''cursor'' r) of
       None \<Rightarrow> (reply 400 (error_body ''invalid cursor''), s)
     | Some cursor \<Rightarrow>
         (case non_negative (query_default ''0'' ''limit'' r) of
            None \<Rightarrow> (reply 400 (error_body ''invalid limit''), s)
          | Some limit \<Rightarrow> vrespond 200 (vehicles_page_dto (hv_service V)) (list_vehicles (hv_service V)
              \<lparr>lp_cursor = cursor, lp_limit = limit, lp_vin = query_value ''vin'' r, lp_plate = query_value ''plate'' r,
               lp_status = to_upper (query_value ''status'' r)\<rparr>) s))"

definition handle_get_vehicle :: "vehicle_server \<Rightarrow> string \<Rightarrow> vehicle_handler" where
  "handle_get_vehicle V param = with_vehicle_id param (\<lambda>vid.
     vrespond 200 (vehicle_dto (hv_service V)) (get_vehicle (hv_service V) vid))"

definition handle_update_vehicle :: "vehicle_server \<Rightarrow> string \<Rightarrow> http_request \<Rightarrow> vehicle_handler" where
  "handle_update_vehicle V param r = with_vehicle_id param (\<lambda>vid.
     bind_json V decode_update r (\<lambda>d.
     vrespond 200 (vehicle_dto (hv_service V)) (update_vehicle (hv_service V) vid
       \<lparr>vu_status = uv_status d, vu_warranty = opt_value (uv_warranty d),
        vu_clear = opt_set (uv_warranty d) \<and> opt_value (uv_warranty d) = None, vu_updated = sp_time (uv_updated d)\<rparr>)))"

definition handle_current_owner :: "vehicle_server \<Rightarrow> string \<Rightarrow> vehicle_handler" where
  "handle_current_owner V param = with_vehicle_id param (\<lambda>vid.
     vrespond 200 (vehicle_owner_dto vid) (get_current_owner (hv_service V) vid))"

definition handle_assign_owner :: "vehicle_server \<Rightarrow> string \<Rightarrow> http_request \<Rightarrow> vehicle_handler" where
  "handle_assign_owner V param r = with_vehicle_id param (\<lambda>vid.
     bind_json V decode_assign r (\<lambda>d.
     vrespond 204 no_content (on_ok (date_or_now (hv_service V) (ao_date d)) (\<lambda>date.
       assign_initial_owner (hv_service V) vid (ao_customer_id d) date))))"

definition handle_warranty :: "vehicle_server \<Rightarrow> string \<Rightarrow> http_request \<Rightarrow> vehicle_handler" where
  "handle_warranty V param r = with_vehicle_id param (\<lambda>vid s.
     let date = query_value ''date'' r
     in if date \<noteq> '''' \<and> parse_date date = None then (reply 400 (error_body ''date must be YYYY-MM-DD''), snd (now (vs_env (hv_service V)) s :: (vehicle_error + int) \<times> vehicle_db))
        else vrespond 200 warranty_dto (on_ok
          (date_or_now (hv_service V) (map_option (\<lambda>(y, m, d). utc (time_date y m d 0 0 0 0 UTC)) (if date = '''' then None else parse_date date)))
          (get_warranty (hv_service V) vid)) s)"

definition handle_service_history :: "vehicle_server \<Rightarrow> string \<Rightarrow> http_request \<Rightarrow> vehicle_handler" where
  "handle_service_history V param r = with_vehicle_id param (\<lambda>vid s.
     case non_negative (query_default ''0'' ''limit'' r) of
       None \<Rightarrow> (reply 400 (error_body ''invalid limit''), s)
     | Some limit \<Rightarrow> vrespond 200 (\<lambda>es. JObj [(''history'', JArr (map (history_entry_dto (hv_service V)) es))])
         (get_service_history (hv_service V) vid limit) s)"

definition handle_vehicle_materials :: "vehicle_server \<Rightarrow> string \<Rightarrow> vehicle_handler" where
  "handle_vehicle_materials V param = with_vehicle_id param (\<lambda>vid.
     vrespond 200 (\<lambda>ms. JObj [(''materials'', JArr (map (material_dto (hv_service V)) ms))])
       (get_vehicle_materials (hv_service V) vid))"

section \<open>Routes\<close>

datatype vehicle_endpoint =
    CustomerVehicles string | ListVehicles | GetVehicle string | GetWarranty string | GetHistory string | GetMaterials string
  | TransferVehicle | RegisterVehicle | UpdateVehicle string | GetOwner string | AssignOwner string

definition vehicle_route :: "string \<Rightarrow> string list \<Rightarrow> vehicle_endpoint option" where
  "vehicle_route method path =
     (if method = ''GET'' then
        (case path of
           [a] \<Rightarrow> if a = ''vehicle'' then Some ListVehicles else None
         | [a, i] \<Rightarrow> if a = ''vehicle'' then Some (GetVehicle i) else None
         | [a, i, b] \<Rightarrow> if a = ''customers'' \<and> b = ''vehicles'' then Some (CustomerVehicles i)
                       else if a = ''vehicle'' \<and> b = ''warranty'' then Some (GetWarranty i)
                       else if a = ''vehicle'' \<and> b = ''history'' then Some (GetHistory i)
                       else if a = ''vehicle'' \<and> b = ''materials'' then Some (GetMaterials i)
                       else if a = ''vehicle'' \<and> b = ''owner'' then Some (GetOwner i) else None
         | _ \<Rightarrow> None)
      else if method = ''POST'' then
        (case path of
           [a] \<Rightarrow> if a = ''transfer'' then Some TransferVehicle else if a = ''vehicle'' then Some RegisterVehicle else None
         | [a, i, b] \<Rightarrow> if a = ''vehicle'' \<and> b = ''owner'' then Some (AssignOwner i) else None
         | _ \<Rightarrow> None)
      else if method = ''PATCH'' then
        (case path of [a, i] \<Rightarrow> if a = ''vehicle'' then Some (UpdateVehicle i) else None | _ \<Rightarrow> None)
      else None)"

fun vehicle_staff_only :: "vehicle_endpoint \<Rightarrow> bool" where
  "vehicle_staff_only TransferVehicle = True"
| "vehicle_staff_only RegisterVehicle = True"
| "vehicle_staff_only (UpdateVehicle i) = True"
| "vehicle_staff_only (GetOwner i) = True"
| "vehicle_staff_only (AssignOwner i) = True"
| "vehicle_staff_only _ = False"

fun handle_vehicle :: "vehicle_server \<Rightarrow> http_request \<Rightarrow> vehicle_endpoint \<Rightarrow> vehicle_handler" where
  "handle_vehicle V r (CustomerVehicles i) = handle_customer_vehicles V i"
| "handle_vehicle V r ListVehicles = handle_list_vehicles V r"
| "handle_vehicle V r (GetVehicle i) = handle_get_vehicle V i"
| "handle_vehicle V r (GetWarranty i) = handle_warranty V i r"
| "handle_vehicle V r (GetHistory i) = handle_service_history V i r"
| "handle_vehicle V r (GetMaterials i) = handle_vehicle_materials V i"
| "handle_vehicle V r TransferVehicle = handle_transfer_vehicle V r"
| "handle_vehicle V r RegisterVehicle = handle_register_vehicle V r"
| "handle_vehicle V r (UpdateVehicle i) = handle_update_vehicle V i r"
| "handle_vehicle V r (GetOwner i) = handle_current_owner V i"
| "handle_vehicle V r (AssignOwner i) = handle_assign_owner V i r"

text \<open>The chain: CORS answers OPTIONS, then authentication, then the role check, then the handler. \<open>None\<close>
  is a path the router does not know.\<close>

definition serve_vehicle :: "vehicle_server \<Rightarrow> http_request \<Rightarrow> vehicle_db \<Rightarrow> (http_response \<times> vehicle_db) option" where
  "serve_vehicle V r s =
     (if hq_method r = ''OPTIONS'' then Some (reply 204 JNull, s)
      else case vehicle_route (hq_method r) (hq_path r) of
        None \<Rightarrow> None
      | Some e \<Rightarrow> Some (case require_auth V r of
            Inl resp \<Rightarrow> (resp, s)
          | Inr p \<Rightarrow> (case (if vehicle_staff_only e then require_role staff_roles p else None) of
                Some resp \<Rightarrow> (resp, s)
              | None \<Rightarrow> handle_vehicle V r e s)))"

end
