(* ===== verification/Claims.thy ===== *)
theory Claims
  imports Prelude
begin

text \<open>The loop over the messages of one Kafka claim, the same in every consumer (mapped to
  \<open>vehicle-service/internal/adapters/kafka/vehicle-consumer.go\<close>): a message is marked when its handler succeeds.
  Marking is sarama's, so the loop takes it as an argument.\<close>

fun consume_claim :: "('m \<Rightarrow> ('s, 'e, unit) prog) \<Rightarrow> ('p \<Rightarrow> 'm \<Rightarrow> 'p) \<Rightarrow> 'm list \<Rightarrow> 's \<Rightarrow> 'p \<Rightarrow> 's \<times> 'p" where
  "consume_claim handler mark [] s p = (s, p)"
| "consume_claim handler mark (m # ms) s p =
     (case handler m s of
        (Inl e, t) \<Rightarrow> consume_claim handler mark ms t p
      | (Inr u, t) \<Rightarrow> consume_claim handler mark ms t (mark p m))"

lemma consume_claim_keeps:
  assumes "\<And>m. keeps I (handler m)" "I s"
  shows "I (fst (consume_claim handler mark ms s p))"
  using assms(2)
proof (induction ms arbitrary: s p)
  case (Cons m ms)
  obtain r t where r: "handler m s = (r, t)" by fastforce
  have "I t" using keepsD [OF assms(1) r Cons(2)] .
  then show ?case using Cons(1) r by (cases r) simp_all
qed simp

end
