(* ===== verification/VehicleConsumer.thy ===== *)
theory VehicleConsumer
  imports VehicleHttp Claims
begin

text \<open>vehicle-service's Kafka consumer: the handler of scheduler-service's ServiceCompleted events
  (\<open>adapters/kafka/service-completed-handler.go\<close>), the dispatch by topic (\<open>application.go\<close>). A message's value is its
  JSON, \<open>None\<close> where the bytes are not JSON.\<close>

definition decode_services_field :: "json \<Rightarrow> service_performed list option" where
  "decode_services_field j = Option.bind (array_field ''services'' j) (\<lambda>js.
     case map_result decode_service_performed js of Inl e \<Rightarrow> None | Inr ps \<Rightarrow> Some ps)"

definition decode_completed :: "json \<Rightarrow> completed_event option" where
  "decode_completed j =
     Option.bind (string_field ''event_id'' j) (\<lambda>i.
     Option.bind (stamp_field ''occurred_at'' j) (\<lambda>occurred.
     Option.bind (int_field ''appointment_id'' j) (\<lambda>aid.
     Option.bind (int_field ''vehicle_id'' j) (\<lambda>vid.
     Option.bind (int_field ''customer_id'' j) (\<lambda>cid.
     Option.bind (int_field ''dealership_id'' j) (\<lambda>did.
     Option.bind (stamp_field ''completed_at'' j) (\<lambda>completed.
     Option.bind (decode_services_field j) (\<lambda>ps.
       if \<not> is_object j then None
       else Some \<lparr>ce_event_id = i, ce_occurred = sp_time occurred, ce_appointment_id = aid, ce_vehicle_id = vid,
         ce_customer_id = cid, ce_dealership_id = did, ce_completed = sp_time completed, ce_services = ps\<rparr>))))))))"

text \<open>A message that can never succeed is skipped; any other failure is returned.\<close>

definition service_completed_handler :: "vehicle_service \<Rightarrow> json option \<Rightarrow> (vehicle_db, vehicle_error, unit) prog" where
  "service_completed_handler S value s =
     (case Option.bind value decode_completed of
        None \<Rightarrow> (Inr (), s)
      | Some e \<Rightarrow>
          (case record_service_completed S e s of
             (Inl err, t) \<Rightarrow>
               (case err of
                  VErrInvalidInput d \<Rightarrow> (Inr (), t)
                | VErrNotFound d \<Rightarrow> (Inr (), t)
                | _ \<Rightarrow> (Inl err, t))
           | (Inr u, t) \<Rightarrow> (Inr u, t)))"

text \<open>Messages of the other topic the group subscribes to are only logged.\<close>

definition dispatch :: "vehicle_service \<Rightarrow> string \<Rightarrow> string \<times> json option \<Rightarrow> (vehicle_db, vehicle_error, unit) prog" where
  "dispatch S completed_topic m = (if fst m = completed_topic then service_completed_handler S (snd m) else ok ())"

section \<open>Facts\<close>

lemma handler_keeps: "keeps vehicle_inv (dispatch S topic m)"
proof -
  have "keeps vehicle_inv (service_completed_handler S v)" for v
  proof (rule keepsI)
    fix s r t
    assume i: "vehicle_inv s" and run: "service_completed_handler S v s = (r, t)"
    show "vehicle_inv t"
    proof (cases "Option.bind v decode_completed")
      case None
      then show ?thesis using run i by (simp add: service_completed_handler_def)
    next
      case (Some e)
      obtain q u where q: "record_service_completed S e s = (q, u)" by fastforce
      then have "vehicle_inv u" using keepsD [OF completed_keeps q i] by simp
      then show ?thesis
        using run Some q by (auto simp: service_completed_handler_def split: sum.splits vehicle_error.splits)
    qed
  qed
  then show ?thesis by (simp add: dispatch_def keeps_ok)
qed

text \<open>A recording that fails leaves the history as it was.\<close>

lemma completed_fails_history:
  assumes "fst (record_service_completed S e s) = Inl err"
  shows "history_rows (snd (record_service_completed S e s)) = history_rows s"
proof -
  have "history_rows t = history_rows s" if "record_history E h s = (Inl d, t)" for E h d t
    using that by (auto simp: record_history_def on_ok_Inl now_run map_err_Inl sql_Inl Let_def split: if_splits)
  moreover obtain t where "record_service_completed S e s = (Inl err, t)" using assms by (metis prod.collapse)
  ultimately show ?thesis by (auto simp: record_service_completed_def on_ok_Inl split: if_splits)
qed

end
