(* ===== verification/VehicleSample.thy ===== *)
theory VehicleSample
  imports VehicleConsumer
begin

text \<open>A concrete run of vehicle-service: a vehicle is registered, given an owner, updated, transferred and
  serviced. The witnesses of the properties are steps of this run.\<close>

definition v_env :: env where
  "v_env = \<lparr>clock = (\<lambda>n. int n * second_ns), fault = (\<lambda>n. None), uuid_at = (\<lambda>n. ''id''),
     collation = (\<lambda>x. x), db_time = (\<lambda>t. t), broker = (\<lambda>n. Acked)\<rparr>"

definition v_service :: vehicle_service where
  "v_service = \<lparr>vs_env = v_env, vs_local = UTC, vs_date = sp_time\<rparr>"

definition v_empty :: vehicle_db where
  "v_empty = \<lparr>tick = 0, outbox_rows = [], outbox_seq = 1, kafka_log = [], vehicle_rows = [], model_ids = [1],
     ownership_rows = [], material_rows = [], history_rows = [], vh_seq = 1, ow_seq = 1, hs_seq = 1\<rparr>"

definition v_car :: vehicle_entity where
  "v_car = \<lparr>v_id = 0, v_vin = '' 1hgcm82633a004352'', v_plate = ''51f-123.45'', v_model_id = 1,
     v_warranty = Some (utc 0), v_status = '''', v_created = zero_time, v_updated = zero_time\<rparr>"

definition v_day :: stamp where
  "v_day = utc 0"

definition v_checked :: vehicle_entity where
  "v_checked = \<lparr>v_id = 0, v_vin = ''1HGCM82633A004352'', v_plate = ''51F12345'', v_model_id = 1,
     v_warranty = Some (utc 0), v_status = ''ACTIVE'', v_created = zero_time, v_updated = zero_time\<rparr>"

definition v_row :: vehicle_row where
  "v_row = \<lparr>vh_id = 1, vh_vin = ''1HGCM82633A004352'', vh_plate = Some ''51F12345'', vh_model_id = 1,
     vh_warranty = Some 0, vh_status = ''ACTIVE'', vh_created = second_ns, vh_updated = second_ns\<rparr>"

definition v_registered :: vehicle_db where
  "v_registered = snd (register_vehicle v_service v_car v_empty)"

lemma v_epoch [simp]: "calendar_date (utc 0) = utc 0"
proof -
  have "sp_time (calendar_date (utc 0)) = 0" by code_simp
  then show ?thesis using calendar_date_utc [of "utc 0"] by simp
qed

lemma v_check: "register_check v_car = Inr v_checked"
proof -
  have "normalize_vin (v_vin v_car) = Inr ''1HGCM82633A004352''" "normalize_plate (v_plate v_car) = Inr ''51F12345''"
    by code_simp+
  then show ?thesis by (simp add: register_check_def v_car_def v_checked_def status_active_def valid_status_def)
qed

lemmas vrun_defs = on_ok_def ok_def fail_def map_err_def lift_result_def now_def new_uuid_def sql_def query_def
  step_tick_def run_in_tx_def v_env_def v_service_def

lemma v_zero: "zero_time \<noteq> second_ns" "second_ns \<noteq> zero_time" "zero_time \<noteq> 0"
  by code_simp+

lemma v_register:
  "\<exists>c ob. register_vehicle v_service v_car v_empty = (Inr c, v_registered) \<and>
     v_registered = v_empty\<lparr>tick := 7, outbox_seq := 2, outbox_rows := [ob], vh_seq := 2, vehicle_rows := [v_row]\<rparr>"
  unfolding v_registered_def
  by (simp add: register_vehicle_def v_check register_tx_def create_vehicle_def new_vehicle_event_def write_vehicle_event_def
      outbox_create_def vrun_defs v_empty_def v_checked_def v_row_def row_violation_def to_vehicle_row_def valid_status_def status_active_def v_zero Let_def)

definition v_msg :: outbox_row where
  "v_msg = hd (outbox_rows v_registered)"

lemma v_registered_eq: "v_registered = v_empty\<lparr>tick := 7, outbox_seq := 2, outbox_rows := [v_msg], vh_seq := 2, vehicle_rows := [v_row]\<rparr>"
proof -
  obtain ob where e: "v_registered = v_empty\<lparr>tick := 7, outbox_seq := 2, outbox_rows := [ob], vh_seq := 2, vehicle_rows := [v_row]\<rparr>"
    using v_register by blast
  have "v_msg = ob" unfolding v_msg_def by (subst e) simp
  with e show ?thesis by simp
qed

definition v_owner :: "int \<Rightarrow> ownership_row" where
  "v_owner t = \<lparr>ow_id = 1, ow_customer_id = 7, ow_vehicle_id = 1, ow_from = 0, ow_to = None, ow_status = Current, ow_created = t\<rparr>"

text \<open>The registered vehicle with a current owner, customer 7.\<close>

definition v_owned :: vehicle_db where
  "v_owned = snd (assign_initial_owner v_service 1 7 (utc 0) v_registered)"

lemma v_later: "sp_time (calendar_date \<lparr>sp_time = 7 * second_ns, sp_loc = UTC\<rparr>) = 0"
  by code_simp

lemma v_assign:
  "\<exists>ob n t0. assign_initial_owner v_service 1 7 (utc 0) v_registered = (Inr (), v_owned) \<and>
     v_owned = v_registered\<lparr>tick := n, outbox_seq := 3, outbox_rows := [v_msg, ob], ow_seq := 2, ownership_rows := [v_owner t0]\<rparr>"
  unfolding v_owned_def
  by (simp add: v_registered_eq assign_initial_owner_def assign_tx_def get_vehicle_for_update_def find_vehicle_def query_def
      assign_vehicle_to_customer_def new_vehicle_event_def write_vehicle_event_def outbox_create_def vrun_defs v_empty_def
      v_row_def v_owner_def to_vehicle_entity_def status_scrapped_def local_def v_later Let_def)

lemma v_rows: "vehicle_rows v_registered = [v_row]" "vehicle_rows v_owned = [v_row]" "length (ownership_rows v_owned) = 1"
  "ownership_rows v_registered = []" "history_rows v_registered = []"
proof -
  show r: "vehicle_rows v_registered = [v_row]" "ownership_rows v_registered = []" "history_rows v_registered = []"
    by (subst v_registered_eq, simp add: v_empty_def)+
  obtain ob n t0 where o: "v_owned = v_registered\<lparr>tick := n, outbox_seq := 3, outbox_rows := [v_msg, ob], ow_seq := 2, ownership_rows := [v_owner t0]\<rparr>"
    using v_assign by blast
  show "vehicle_rows v_owned = [v_row]" "length (ownership_rows v_owned) = 1"
    by (subst o, simp add: r)+
qed

definition v_transfer :: transfer_request where
  "v_transfer = \<lparr>tv_date = utc 0, tv_from = 7, tv_to = 8, tv_vehicle_id = 1\<rparr>"

lemma v_transfer_at:
  assumes "sp_time d = 0"
  shows "\<exists>t. transfer_vehicle v_service (v_transfer\<lparr>tv_date := d\<rparr>) (v_owned\<lparr>tick := k\<rparr>) = (Inr (), t) \<and> length (ownership_rows t) = 2"
proof -
  obtain ob n t0 where o: "v_owned = v_registered\<lparr>tick := n, outbox_seq := 3, outbox_rows := [v_msg, ob], ow_seq := 2, ownership_rows := [v_owner t0]\<rparr>"
    using v_assign by blast
  show ?thesis
    by (simp add: o assms v_registered_eq transfer_vehicle_def transfer_tx_def unassign_vehicle_def current_ownership_def query_def v_transfer_def
      assign_vehicle_to_customer_def new_vehicle_event_def write_vehicle_event_def outbox_create_def vrun_defs v_empty_def
      v_row_def v_owner_def Let_def)
qed

lemma v_transfer_run: "\<exists>t. transfer_vehicle v_service v_transfer v_owned = (Inr (), t)"
  using v_transfer_at [of "utc 0" "tick v_owned"] by (auto simp: v_transfer_def)

definition v_change :: vehicle_update where
  "v_change = \<lparr>vu_status = Some ''SOLD'', vu_warranty = None, vu_clear = True, vu_updated = second_ns\<rparr>"

lemma v_change_run: "\<exists>x t. update_vehicle v_service 1 v_change v_registered = (Inr x, t)"
  by (simp add: v_registered_eq update_vehicle_def update_check_def update_tx_def updated_vehicle_def get_vehicle_for_update_def
      get_vehicle_by_id_def find_vehicle_def query_def update_vehicle_row_def update_statement_def same_version_def set_columns_def
      row_violation_def to_vehicle_row_def same_date_def new_vehicle_event_def write_vehicle_event_def outbox_create_def
      vrun_defs v_empty_def v_row_def v_change_def v_zero to_vehicle_entity_def valid_status_def status_active_def
      status_sold_def status_scrapped_def Let_def)

text \<open>The service an hour later.\<close>

definition v_late :: env where
  "v_late = v_env\<lparr>clock := (\<lambda>n. hour_ns + int n * second_ns)\<rparr>"

definition v_service_late :: vehicle_service where
  "v_service_late = v_service\<lparr>vs_env := v_late\<rparr>"

lemma v_late_run: "\<exists>x t. update_vehicle v_service_late 1 v_change v_registered = (Inr x, t)"
  by (simp add: v_registered_eq update_vehicle_def update_check_def update_tx_def updated_vehicle_def get_vehicle_for_update_def
      get_vehicle_by_id_def find_vehicle_def query_def update_vehicle_row_def update_statement_def same_version_def set_columns_def
      row_violation_def to_vehicle_row_def same_date_def new_vehicle_event_def write_vehicle_event_def outbox_create_def
      vrun_defs v_service_late_def v_late_def v_empty_def v_row_def v_change_def v_zero to_vehicle_entity_def valid_status_def
      status_active_def status_sold_def status_scrapped_def Let_def)

lemma v_late_clock: "db_time (vs_env v_service_late) (clock (vs_env v_service_late) n) \<noteq> second_ns"
  by (simp add: v_service_late_def v_late_def v_env_def hour_ns_def minute_ns_def second_ns_def)

definition v_event :: completed_event where
  "v_event = \<lparr>ce_event_id = ''e'', ce_occurred = 0, ce_appointment_id = 5, ce_vehicle_id = 1, ce_customer_id = 7,
     ce_dealership_id = 2, ce_completed = 0, ce_services = [\<lparr>pf_service_id = 3, pf_name = ''Oil''\<rparr>]\<rparr>"

lemma v_event_run: "\<exists>t. record_service_completed v_service v_event v_registered = (Inr (), t)"
  using v_zero(3) by (simp add: v_registered_eq record_service_completed_def record_history_def vrun_defs v_empty_def v_row_def v_event_def Let_def)

lemma v_reachable: "vehicle_reachable v_empty" "vehicle_reachable v_registered" "vehicle_reachable v_owned"
proof -
  show e: "vehicle_reachable v_empty" by (rule migrated) (simp add: empty_vehicle_tables_def v_empty_def)
  show r: "vehicle_reachable v_registered"
    using operate [OF e, of "VRegister v_service v_car"] by (simp add: v_registered_def)
  show "vehicle_reachable v_owned"
    using operate [OF r, of "VAssign v_service 1 7 (utc 0)"] by (simp add: v_owned_def)
qed

end
