(* ===== verification/VehicleProps.thy ===== *)
theory VehicleProps
  imports VehicleSample
begin

text \<open>What vehicle-service guarantees, first part: the registry, registration, updates and transfers. Each property
  is checked on the sample run.\<close>

text \<open>C8. In every state the operations can reach, VINs and plates are unique and in canonical form, every status is
  one of the three, a vehicle has at most one current owner, an ended ownership has an end not before its start, and a
  completed appointment is in the history once, for a registered vehicle.\<close>

theorem vehicle_registry_consistent:
  assumes "vehicle_reachable s"
  shows "distinct (map vh_vin (vehicle_rows s)) \<and> distinct (filter (\<lambda>p. p \<noteq> None) (map vh_plate (vehicle_rows s))) \<and>
    (\<forall>r \<in> set (vehicle_rows s). valid_status (vh_status r) \<and> normalize_vin (vh_vin r) = Inr (vh_vin r) \<and>
       (\<forall>p. vh_plate r = Some p \<longrightarrow> p \<noteq> '''' \<and> normalize_plate p = Inr p)) \<and>
    distinct (map ow_vehicle_id (filter (\<lambda>x. ow_status x = Current) (ownership_rows s))) \<and>
    (\<forall>x \<in> set (ownership_rows s). ow_vehicle_id x \<in> vh_id ` set (vehicle_rows s) \<and>
       (ow_status x = Current \<longleftrightarrow> ow_to x = None) \<and> (\<forall>d. ow_to x = Some d \<longrightarrow> ow_from x \<le> d)) \<and>
    distinct (map hs_appointment_id (history_rows s)) \<and> hs_vehicle_id ` set (history_rows s) \<subseteq> vh_id ` set (vehicle_rows s)"
  using reachable_vehicle_inv [OF assms]
  by (simp add: vehicle_inv_def vehicles_ok_def owners_ok_def history_ok_def good_row_def)

lemma vehicle_registry_consistent_witness:
  "distinct (map vh_vin (vehicle_rows v_owned)) \<and> length (ownership_rows v_owned) = 1"
  using vehicle_registry_consistent [OF v_reachable(3)] v_rows by simp

text \<open>A registration that succeeds has written one row with the canonical VIN and plate, neither of them taken, for
  a known model, with the warranty as a calendar date, and one VehicleCreated event keyed by the new id.\<close>

theorem register_success:
  assumes "register_vehicle S v s = (Inr c, t)"
  shows "\<exists>r ob. vehicle_rows t = vehicle_rows s @ [r] \<and> vh_id r = v_id c \<and> v_id c = vh_seq s \<and>
    normalize_vin (v_vin v) = Inr (vh_vin r) \<and> vh_vin r \<notin> vh_vin ` set (vehicle_rows s) \<and>
    normalize_plate (v_plate v) = Inr (v_plate c) \<and> vh_plate r = (if v_plate c = '''' then None else Some (v_plate c)) \<and>
    (vh_plate r \<noteq> None \<longrightarrow> vh_plate r \<notin> vh_plate ` set (vehicle_rows s)) \<and>
    vh_status r = (if v_status v = '''' then status_active else v_status v) \<and> valid_status (vh_status r) \<and>
    vh_model_id r = v_model_id v \<and> v_model_id v \<in> set (model_ids s) \<and>
    vh_warranty r = map_option (\<lambda>d. vs_date S (calendar_date d)) (v_warranty v) \<and>
    outbox_rows t = outbox_rows s @ [ob] \<and> ob_topic ob = topic_vehicle_created \<and> ob_key ob = format_int (v_id c) \<and>
    field ''vehicle'' (ob_payload ob) = Some (vehicle_state S c) \<and>
    ownership_rows t = ownership_rows s \<and> history_rows t = history_rows s"
proof -
  obtain w t' where w: "register_check v = Inr w"
    and tx: "register_tx S w (step_tick s) = (Inr c, t')" "t = step_tick t'"
    by (rule register_vehicle_Inr [OF assms])
  obtain t1 ev t2 u where a: "create_vehicle (vs_env S) (vs_date S) w (step_tick s) = (Inr c, t1)"
    and b: "new_vehicle_event (vs_env S) VehicleCreated (v_created c) (vehicle_state S c) t1 = (Inr ev, t2)"
    and d: "write_vehicle_event S topic_vehicle_created (format_int (v_id c)) ev t2 = (Inr u, t')"
    by (rule register_tx_Inr [OF tx(1)])
  obtain r n where t1: "t1 = (step_tick s)\<lparr>tick := n, vh_seq := vh_seq (step_tick s) + 1, vehicle_rows := vehicle_rows (step_tick s) @ [r]\<rparr>"
    and r: "row_violation r (vehicle_rows (step_tick s)) (step_tick s) = None" "vh_id r = vh_seq (step_tick s)"
      "vh_vin r = v_vin w" "vh_plate r = (if v_plate w = '''' then None else Some (v_plate w))" "vh_status r = v_status w"
      "vh_model_id r = v_model_id w" "vh_warranty r = map_option (vs_date S) (v_warranty w)"
    and c: "c = w\<lparr>v_id := vh_seq (step_tick s), v_created := v_created c, v_updated := v_updated c,
        v_warranty := map_option calendar_date (v_warranty w)\<rparr>"
    by (rule create_vehicle_Inr [OF a])
  obtain m ob where t': "t' = t2\<lparr>tick := m, outbox_seq := outbox_seq t2 + 1, outbox_rows := outbox_rows t2 @ [ob]\<rparr>"
    and ob: "ob_topic ob = topic_vehicle_created" "ob_key ob = format_int (v_id c)" "ob_payload ob = ev"
    by (rule write_vehicle_event_Inr [OF d])
  have ev: "field ''vehicle'' ev = Some (vehicle_state S c)" "t2 = step_tick t1"
    using b by (simp_all add: new_vehicle_event_Inr)
  have cs: "v_id c = vh_seq s" "v_plate c = v_plate w" by (subst c, simp)+
  have ws: "v_model_id w = v_model_id v" "v_warranty w = map_option calendar_date (v_warranty v)"
    by (subst register_check_Inr(6) [OF w], simp)+
  have rows: "vehicle_rows t = vehicle_rows s @ [r]" "outbox_rows t = outbox_rows s @ [ob]"
      "ownership_rows t = ownership_rows s" "history_rows t = history_rows s"
    by (simp_all add: tx(2) t' ev(2) t1)
  have row: "vh_id r = v_id c" "vh_plate r = (if v_plate c = '''' then None else Some (v_plate c))" "vh_model_id r = v_model_id v"
      "vh_warranty r = map_option (\<lambda>d. vs_date S (calendar_date d)) (v_warranty v)"
    using r cs ws by (simp_all add: option.map_comp comp_def)
  have new: "vh_vin r \<notin> vh_vin ` set (vehicle_rows s)" "vh_plate r \<noteq> None \<longrightarrow> vh_plate r \<notin> vh_plate ` set (vehicle_rows s)"
      "vh_model_id r \<in> set (model_ids s)" "valid_status (vh_status r)"
    using r(1) unfolding row_violation_None by simp_all
  show ?thesis
    using rows row new cs(1) ob ev(1) register_check_Inr [OF w] r(3,5) cs(2) by (intro exI [of _ r] exI [of _ ob]) simp
qed

lemma register_success_witness: "\<exists>r. vehicle_rows v_registered = [r] \<and> normalize_vin (v_vin v_car) = Inr (vh_vin r)"
proof -
  obtain c where "register_vehicle v_service v_car v_empty = (Inr c, v_registered)" using v_register by blast
  from register_success [OF this] show ?thesis by (auto simp: v_empty_def)
qed

text \<open>A registration, update, assignment or transfer that fails leaves every table, the outbox and the topics as
  they were.\<close>

theorem vehicle_failures_change_nothing:
  assumes "(\<exists>e. register_vehicle S v s = (Inl e, t)) \<or> (\<exists>e. update_vehicle S vid u s = (Inl e, t)) \<or>
    (\<exists>e. assign_initial_owner S vid cid d s = (Inl e, t)) \<or> (\<exists>e. transfer_vehicle S x s = (Inl e, t))"
  shows "vehicle_rows t = vehicle_rows s \<and> ownership_rows t = ownership_rows s \<and> material_rows t = material_rows s \<and>
    history_rows t = history_rows s \<and> outbox_rows t = outbox_rows s \<and> kafka_log t = kafka_log s"
  using assms register_fails update_fails assign_fails transfer_fails unfolding vehicle_same_def by metis

lemma vehicle_failures_change_nothing_witness:
  "outbox_rows (snd (transfer_vehicle v_service v_transfer v_registered)) = outbox_rows v_registered"
proof -
  have "fst (transfer_vehicle v_service v_transfer v_registered) = Inl (VErrNotFound '''')"
    by (simp add: v_registered_eq transfer_vehicle_def transfer_tx_def unassign_vehicle_def current_ownership_def query_def vrun_defs v_empty_def)
  then have "transfer_vehicle v_service v_transfer v_registered =
      (Inl (VErrNotFound ''''), snd (transfer_vehicle v_service v_transfer v_registered))" by (simp add: prod_eq_iff)
  then show ?thesis using vehicle_failures_change_nothing [of v_service v_car v_registered _ 1 v_change 7 v_day v_transfer] by blast
qed

text \<open>The effect of an update that succeeds: nothing, where nothing differs, or the one row rewritten and announced.\<close>

lemma update_vehicle_effect:
  assumes inv: "vehicle_inv s" and up: "update_vehicle S vid u s = (Inr x, t)"
  obtains (same) q where "q \<in> set (vehicle_rows s)" "vh_id q = vid" "vh_updated q = vu_updated u" "vh_status q \<noteq> status_scrapped"
      "\<not> differs u (to_vehicle_entity q)" "x = to_vehicle_entity q" "vehicle_rows t = vehicle_rows s" "outbox_rows t = outbox_rows s"
    | (changed) q n new where "q \<in> set (vehicle_rows s)" "vh_id q = vid" "vh_updated q = vu_updated u"
      "vh_status q \<noteq> status_scrapped" "differs u (to_vehicle_entity q)"
      "vehicle_rows t = map (\<lambda>r. if vh_id r = vid then rewritten S (db_time (vs_env S) (clock (vs_env S) n))
         (updated_vehicle u (to_vehicle_entity q)) r else r) (vehicle_rows s)"
      "outbox_rows t = outbox_rows s @ new" "map ob_key new = map (\<lambda>_. format_int vid) new"
      "map ob_topic new = topic_vehicle_update # (if warranty_differs u (to_vehicle_entity q) then [topic_warranty_changed] else [])"
proof -
  obtain t' where run: "update_tx S vid u (step_tick s) = (Inr x, t')" "t = step_tick t'" by (rule update_vehicle_Inr [OF up])
  show ?thesis
    using run(1)
  proof (cases rule: update_tx_Inr)
    case (same q)
    then show ?thesis by (intro that(1) [of q]) (simp_all add: run(2))
  next
    case (changed q a t1 t2 ev b t3)
    obtain n m where t1: "t1 = (step_tick (step_tick s))\<lparr>tick := m, vehicle_rows := map (\<lambda>r. if vh_id r = vh_id q
      then rewritten S (db_time (vs_env S) (clock (vs_env S) n)) (updated_vehicle u (to_vehicle_entity q)) r else r)
        (vehicle_rows (step_tick (step_tick s)))\<rparr>"
      using update_row_changed [OF _ _ changed(6)] inv changed(1) by auto
    have t2: "t2 = step_tick t1" by (rule find_vehicle_Inr [OF changed(7)])
    obtain k ob where t3: "t3 = (step_tick t2)\<lparr>tick := k, outbox_seq := outbox_seq (step_tick t2) + 1,
        outbox_rows := outbox_rows (step_tick t2) @ [ob]\<rparr>" and ob: "ob_topic ob = topic_vehicle_update" "ob_key ob = format_int vid"
      by (rule write_vehicle_event_Inr [OF changed(9)])
    have rows3: "vehicle_rows t3 = vehicle_rows t1" "outbox_rows t3 = outbox_rows s @ [ob]" using t1 t2 t3 by simp_all
    note go = that(2) [of q n, OF _ changed(2-5)]
    show ?thesis
    proof (cases "warranty_differs u (to_vehicle_entity q)")
      case True
      then obtain ev' c where w: "write_vehicle_event S topic_warranty_changed (format_int vid) ev' (step_tick t3) = (Inr c, t')"
        using changed(10) by auto
      obtain k' ob' where "t' = (step_tick t3)\<lparr>tick := k', outbox_seq := outbox_seq (step_tick t3) + 1,
          outbox_rows := outbox_rows (step_tick t3) @ [ob']\<rparr>" "ob_topic ob' = topic_warranty_changed" "ob_key ob' = format_int vid"
        by (rule write_vehicle_event_Inr [OF w])
      then show ?thesis using True rows3 ob changed(1,2) by (intro go [of "[ob, ob']"]) (simp_all add: run(2) t1)
    next
      case False
      then show ?thesis using changed(1,2,10) rows3 ob by (intro go [of "[ob]"]) (simp_all add: run(2) t1)
    qed
  qed
qed





text \<open>C30. A transfer that succeeds ends the ownership of exactly the customer named as the current owner and starts the
  new owner's on the same day, so the vehicle has that one current owner, and announces it.\<close>

theorem transfer_success:
  assumes "vehicle_reachable s" "transfer_vehicle S x s = (Inr u, t)"
  shows "\<exists>old new ob. old \<in> set (ownership_rows s) \<and> ow_vehicle_id old = tv_vehicle_id x \<and> ow_status old = Current \<and>
    ow_customer_id old = tv_from x \<and> ow_from old \<le> vs_date S (tv_date x) \<and>
    ownership_rows t = map (\<lambda>q. if ow_id q = ow_id old
      then q\<lparr>ow_to := Some (vs_date S (tv_date x)), ow_status := Transferred\<rparr> else q) (ownership_rows s) @ [new] \<and>
    ow_vehicle_id new = tv_vehicle_id x \<and> ow_customer_id new = tv_to x \<and> ow_from new = vs_date S (tv_date x) \<and>
    filter (\<lambda>q. ow_vehicle_id q = tv_vehicle_id x \<and> ow_status q = Current) (ownership_rows t) = [new] \<and>
    outbox_rows t = outbox_rows s @ [ob] \<and> ob_topic ob = topic_transfer_vehicle \<and> ob_key ob = format_int (tv_vehicle_id x) \<and>
    vehicle_rows t = vehicle_rows s"
proof -
  have d: "distinct (map ow_id (ownership_rows (step_tick s)))"
    using reachable_vehicle_inv [OF assms(1)] by (simp add: vehicle_inv_def owners_ok_def)
  obtain t' where tx: "transfer_tx S x (step_tick s) = (Inr u, t')" "t = step_tick t'"
    using committed [OF assms(2) [unfolded transfer_vehicle_def]] by blast
  obtain v1 t1 v2 t2 ev t4 v3 where a:
      "unassign_vehicle (vs_env S) (vs_date S) (tv_vehicle_id x) (tv_from x) (tv_date x) (step_tick s) = (Inr v1, t1)"
    and b: "assign_vehicle_to_customer (vs_env S) (vs_date S) (tv_vehicle_id x) (tv_to x) (tv_date x) t1 = (Inr v2, t2)"
    and c: "new_vehicle_event (vs_env S) VehicleTransferred (clock (vs_env S) (tick t2))
       (ownership_payload (tv_vehicle_id x) (tv_to x) (Some (tv_from x)) (date_only (tv_date x))) (step_tick t2) = (Inr ev, t4)"
    and w: "write_vehicle_event S topic_transfer_vehicle (format_int (tv_vehicle_id x)) ev t4 = (Inr v3, t')"
    by (rule transfer_tx_Inr [OF tx(1)])
  obtain old n where o: "old \<in> set (ownership_rows (step_tick s))" "ow_vehicle_id old = tv_vehicle_id x" "ow_status old = Current"
      "ow_customer_id old = tv_from x" "ow_from old \<le> vs_date S (tv_date x)"
    and t1: "t1 = (step_tick s)\<lparr>tick := n, ownership_rows := map (\<lambda>q. if ow_id q = ow_id old
        then ended (vs_date S (tv_date x)) q else q) (ownership_rows (step_tick s))\<rparr>"
    by (rule unassign_vehicle_Inr [OF a d])
  obtain new m where t2: "t2 = t1\<lparr>tick := m, ow_seq := ow_seq t1 + 1, ownership_rows := ownership_rows t1 @ [new]\<rparr>"
    and new: "new = \<lparr>ow_id = ow_seq t1, ow_customer_id = tv_to x, ow_vehicle_id = tv_vehicle_id x, ow_from = vs_date S (tv_date x),
        ow_to = None, ow_status = Current, ow_created = db_time (vs_env S) (clock (vs_env S) (tick t1))\<rparr>"
    and free: "\<forall>q \<in> set (ownership_rows t1). ow_vehicle_id q = tv_vehicle_id x \<longrightarrow> ow_status q \<noteq> Current"
    by (rule assign_vehicle_Inr [OF b])
  obtain k ob where t': "t' = t4\<lparr>tick := k, outbox_seq := outbox_seq t4 + 1, outbox_rows := outbox_rows t4 @ [ob]\<rparr>"
    and ob: "ob_topic ob = topic_transfer_vehicle" "ob_key ob = format_int (tv_vehicle_id x)"
    by (rule write_vehicle_event_Inr [OF w])
  have t4: "t4 = step_tick (step_tick t2)" using c by (simp add: new_vehicle_event_Inr)
  have rows: "ownership_rows t = ownership_rows t1 @ [new]" "outbox_rows t = outbox_rows s @ [ob]" "vehicle_rows t = vehicle_rows s"
    by (simp_all add: tx(2) t' t4 t2 t1)
  have "filter (\<lambda>q. ow_vehicle_id q = tv_vehicle_id x \<and> ow_status q = Current) (ownership_rows t) = [new]"
    using free by (simp add: rows(1) filter_empty_conv) (simp add: new)
  moreover have "ownership_rows t = map (\<lambda>q. if ow_id q = ow_id old
      then q\<lparr>ow_to := Some (vs_date S (tv_date x)), ow_status := Transferred\<rparr> else q) (ownership_rows s) @ [new]"
    by (simp add: rows(1) t1 ended_def)
  moreover have "ow_vehicle_id new = tv_vehicle_id x" "ow_customer_id new = tv_to x" "ow_from new = vs_date S (tv_date x)"
    by (simp_all add: new)
  moreover have "old \<in> set (ownership_rows s)" using o(1) by simp
  ultimately show ?thesis using o(2-5) rows(2,3) ob by (intro exI [of _ old] exI [of _ new] exI [of _ ob] conjI)
qed

lemma transfer_success_witness:
  "\<exists>t new. transfer_vehicle v_service v_transfer v_owned = (Inr (), t) \<and> ow_customer_id new = 8 \<and>
     filter (\<lambda>q. ow_vehicle_id q = 1 \<and> ow_status q = Current) (ownership_rows t) = [new]"
proof -
  obtain t where r: "transfer_vehicle v_service v_transfer v_owned = (Inr (), t)" using v_transfer_run by blast
  from transfer_success [OF v_reachable(3) r] r show ?thesis by (auto simp: v_transfer_def)
qed

end
