(* ===== verification/VehicleEventProps.thy ===== *)
theory VehicleEventProps
  imports VehicleSample SchedEvents
begin

text \<open>What vehicle-service guarantees, second part: the service history it builds from scheduler-service's events, the
  listings, warranty and the HTTP side.\<close>

definition v_appointment :: "dec appointment" where
  "v_appointment = \<lparr>ap_id = 5, ap_hub_id = 2, ap_customer_id = 7, ap_vehicle_id = 1, ap_bay_id = 1, ap_start = 0, ap_end = 0,
     ap_status = Completed, ap_total = Dec 0 0, ap_services = [\<lparr>as_service_id = 3, as_name = ''Oil'', as_fee = Dec 4500 (- 2)\<rparr>], ap_created = 0, ap_updated = 0\<rparr>"

section \<open>Service history\<close>

lemma service_completed_cases:
  assumes "record_service_completed S e s = (Inr u, t)"
  shows "0 < ce_appointment_id e \<and> 0 < ce_vehicle_id e \<and>
    (history_rows t = history_rows s \<and> ce_appointment_id e \<in> hs_appointment_id ` set (history_rows s) \<or>
     (\<exists>h. history_rows t = history_rows s @ [h] \<and> ce_appointment_id e \<notin> hs_appointment_id ` set (history_rows s) \<and>
        hs_appointment_id h = ce_appointment_id e \<and> hs_vehicle_id h = ce_vehicle_id e \<and>
        hs_dealership_id h = ce_dealership_id e \<and> hs_completed h = db_time (vs_env S) (ce_completed e) \<and>
        hs_services h = JArr (map service_performed_json (ce_services e))))"
proof -
  have pos: "0 < ce_appointment_id e" "0 < ce_vehicle_id e"
    using assms by (auto simp: record_service_completed_def split: if_splits)
  obtain b where r: "record_history (vs_env S) \<lparr>he_id = 0, he_vehicle_id = ce_vehicle_id e, he_appointment_id = ce_appointment_id e,
      he_dealership_id = ce_dealership_id e, he_completed = ce_completed e, he_services = ce_services e,
      he_created = zero_time\<rparr> s = (Inr b, t)"
    using assms by (auto simp: record_service_completed_def on_ok_Inr split: if_splits)
  show ?thesis by (rule record_history_Inr [OF r]) (use pos in simp_all)
qed

text \<open>C31. A ServiceCompleted event is recorded once: after a successful run the appointment is in the history of its
  vehicle, and running the event again at any later state whose history still has it changes nothing in the history,
  whatever happens then.\<close>

theorem service_completed_once:
  assumes "record_service_completed S e s = (Inr u, t)" "vehicle_reachable s"
  shows "(\<exists>h \<in> set (history_rows t). hs_appointment_id h = ce_appointment_id e) \<and> set (history_rows s) \<subseteq> set (history_rows t) \<and>
    length (filter (\<lambda>h. hs_appointment_id h = ce_appointment_id e) (history_rows t)) = 1 \<and>
    (\<forall>S' t'. set (history_rows t) \<subseteq> set (history_rows t') \<longrightarrow>
       history_rows (snd (record_service_completed S' e t')) = history_rows t')"
proof -
  have "vehicle_inv t" using keepsD [OF completed_keeps assms(1)] reachable_vehicle_inv [OF assms(2)] .
  then have d: "distinct (map hs_appointment_id (history_rows t))" by (simp add: vehicle_inv_def history_ok_def)
  have h: "\<exists>h \<in> set (history_rows t). hs_appointment_id h = ce_appointment_id e"
    and sub: "set (history_rows s) \<subseteq> set (history_rows t)"
    using service_completed_cases [OF assms(1)] by auto
  have "length (filter (\<lambda>h. hs_appointment_id h = ce_appointment_id e) (history_rows t)) = 1"
    using h d by (rule once_distinct)
  moreover have "history_rows (snd (record_service_completed S' e t')) = history_rows t'"
    if "set (history_rows t) \<subseteq> set (history_rows t')" for S' t'
  proof (cases "fst (record_service_completed S' e t')")
    case (Inl err)
    then show ?thesis by (rule completed_fails_history)
  next
    case (Inr v)
    then have "record_service_completed S' e t' = (Inr v, snd (record_service_completed S' e t'))" by (simp add: prod_eq_iff)
    from service_completed_cases [OF this] show ?thesis
    proof (elim conjE disjE exE)
      assume "ce_appointment_id e \<notin> hs_appointment_id ` set (history_rows t')"
      moreover have "ce_appointment_id e \<in> hs_appointment_id ` set (history_rows t')" using h that by (force simp: image_iff)
      ultimately show ?thesis by contradiction
    qed
  qed
  ultimately show ?thesis using h sub by blast
qed

lemma service_completed_once_witness:
  "\<exists>t. record_service_completed v_service v_event v_registered = (Inr (), t) \<and>
     history_rows (snd (record_service_completed v_service v_event t)) = history_rows t"
proof -
  obtain t where r: "record_service_completed v_service v_event v_registered = (Inr (), t)" using v_event_run by blast
  from service_completed_once [OF r v_reachable(2)] r show ?thesis by blast
qed

lemma decode_stamp_wire:
  assumes "date_in UTC t = (y, m, d)" "0 \<le> y" "y \<le> 9999"
  shows "map_option sp_time (stamp_field k (JObj ((k, time_json (new_time t)) # fs))) = Some (new_time t)"
proof (cases "new_time t = zero_time")
  case False
  have "parse_rfc3339 (format_wire (new_time t)) = Some (new_time (new_time t))"
    using assms by (intro parse_format_wire) (simp_all add: date_in_new_time)
  then show ?thesis
    using False by (auto simp: stamp_field_def time_json_def decode_stamp_def parse_rfc3339_def new_time_idem)
qed (simp add: stamp_field_def time_json_def decode_stamp_def)

lemma decode_lines:
  assumes "map_result (completed_line_of D cur) xs = Inr lines" "\<forall>x \<in> set xs. in_int64 (as_service_id x)"
  shows "map_result decode_service_performed (map completed_line_json lines) =
    Inr (map (\<lambda>x. \<lparr>pf_service_id = as_service_id x, pf_name = as_name x\<rparr>) xs)"
  using assms
proof (induction xs arbitrary: lines)
  case (Cons x xs)
  obtain l ls where l: "completed_line_of D cur x = Inr l" "map_result (completed_line_of D cur) xs = Inr ls" "lines = l # ls"
    using Cons(2) by (auto split: sum.splits)
  have "cl_service_id l = as_service_id x" "cl_name l = as_name x"
    using l(1) by (auto simp: completed_line_of_def split: sum.splits)
  then have "decode_service_performed (completed_line_json l) = Inr \<lparr>pf_service_id = as_service_id x, pf_name = as_name x\<rparr>"
    using Cons(3) by (simp add: decode_service_performed_def completed_line_json_def int_field_def string_field_def is_object_def)
  then show ?case using Cons l by simp
qed simp

text \<open>C17. What scheduler-service announces is what vehicle-service reads: the JSON of a ServiceCompleted event decodes
  to the same appointment, vehicle, customer, dealership and time (to the millisecond), and to one line per service of
  the appointment, in order.\<close>

theorem completed_event_crosses:
  assumes "new_service_completed_event E D occ a cur s = (Inr e, s')"
    and "in_int64 (ap_id a)" "in_int64 (ap_vehicle_id a)" "in_int64 (ap_customer_id a)" "in_int64 (ap_hub_id a)"
    and "\<forall>x \<in> set (ap_services a). in_int64 (as_service_id x)"
    and "date_in UTC occ = (y, m, d)" "0 \<le> y" "y \<le> 9999"
  shows "decode_completed (service_completed_json e) = Some
    \<lparr>ce_event_id = uuid_at E (tick s), ce_occurred = new_time occ, ce_appointment_id = ap_id a, ce_vehicle_id = ap_vehicle_id a,
     ce_customer_id = ap_customer_id a, ce_dealership_id = ap_hub_id a, ce_completed = new_time occ,
     ce_services = map (\<lambda>x. \<lparr>pf_service_id = as_service_id x, pf_name = as_name x\<rparr>) (ap_services a)\<rparr>"
proof -
  obtain lines where l: "map_result (completed_line_of D cur) (ap_services a) = Inr lines"
    and e: "e = \<lparr>sc_event_id = uuid_at E (tick s), sc_event_type = ServiceCompleted, sc_occurred_at = new_time occ,
         sc_appointment_id = ap_id a, sc_vehicle_id = ap_vehicle_id a, sc_customer_id = ap_customer_id a,
         sc_dealership_id = ap_hub_id a, sc_completed_at = new_time occ, sc_currency = cur, sc_services = lines\<rparr>"
    using assms(1) by (auto simp: new_service_completed_Inr)
  note t = decode_stamp_wire [OF assms(7-9)]
  obtain o1 where o: "stamp_field ''occurred_at'' (service_completed_json e) = Some o1" "sp_time o1 = new_time occ"
    using t [of "''occurred_at''"] by (auto simp: e service_completed_json_def stamp_field_def)
  obtain o2 where c: "stamp_field ''completed_at'' (service_completed_json e) = Some o2" "sp_time o2 = new_time occ"
    using t [of "''completed_at''"] by (auto simp: e service_completed_json_def stamp_field_def)
  have "decode_services_field (service_completed_json e) = Some (map (\<lambda>x. \<lparr>pf_service_id = as_service_id x, pf_name = as_name x\<rparr>) (ap_services a))"
    using decode_lines [OF l assms(6)] by (simp add: decode_services_field_def array_field_def e service_completed_json_def)
  then show ?thesis
    unfolding decode_completed_def using o c assms(2-5)
    by (simp add: e service_completed_json_def string_field_def int_field_def is_object_def)
qed

lemma completed_event_crosses_witness:
  "\<exists>e. fst (new_service_completed_event v_env dec_ops 0 v_appointment ''USD'' v_empty) = Inr e \<and>
     map_option ce_services (decode_completed (service_completed_json e)) = Some [\<lparr>pf_service_id = 3, pf_name = ''Oil''\<rparr>]"
proof -
  have "\<not> isl (map_result (completed_line_of dec_ops ''USD'') (ap_services v_appointment))" by code_simp
  then obtain lines where "map_result (completed_line_of dec_ops ''USD'') (ap_services v_appointment) = Inr lines"
    by (cases "map_result (completed_line_of dec_ops ''USD'') (ap_services v_appointment)") auto
  then obtain e t where e: "new_service_completed_event v_env dec_ops 0 v_appointment ''USD'' v_empty = (Inr e, t)"
    by (auto simp: new_service_completed_Inr)
  have "date_in UTC 0 = (1970, 1, 1)" by code_simp
  with completed_event_crosses [OF e] e show ?thesis by (simp add: v_appointment_def in_int64_def min_int64_def max_int64_def)
qed

section \<open>Listing\<close>

definition matching :: "list_params \<Rightarrow> vehicle_row list \<Rightarrow> vehicle_row list" where
  "matching p rows = sort_key vh_id (filter (\<lambda>r.
     (0 < lp_cursor p \<longrightarrow> lp_cursor p < vh_id r) \<and> (lp_vin p \<noteq> '''' \<longrightarrow> vh_vin r = lp_vin p) \<and>
     (lp_plate p \<noteq> '''' \<longrightarrow> vh_plate r = Some (lp_plate p)) \<and> (lp_status p \<noteq> '''' \<longrightarrow> vh_status r = lp_status p)) rows)"

lemma matching_ascending:
  assumes "distinct (map vh_id rows)"
  shows "sorted_wrt (<) (map vh_id (matching p rows))"
proof -
  have "distinct (map vh_id (matching p rows))" using assms
    by (simp add: matching_def distinct_map inj_on_def)
  then show ?thesis by (simp add: matching_def strict_sorted_iff)
qed

lemma after_cursor: "sorted_wrt (<) (map f xs) \<Longrightarrow> 0 < n \<Longrightarrow> n < length xs \<Longrightarrow>
    filter (\<lambda>x. f (last (take n xs)) < (f x :: int)) xs = drop n xs"
proof -
  assume s: "sorted_wrt (<) (map f xs)" and n: "0 < n" "n < length xs"
  have l: "last (take n xs) = xs ! (n - 1)" using n by (subst last_conv_nth) (auto simp: min_def)
  have lt: "f (xs ! i) < f (xs ! j)" if "i < j" "j < length xs" for i j
    using sorted_wrt_nth_less [OF s that(1)] that by simp
  have le: "f (xs ! i) \<le> f (xs ! (n - 1))" if "i < n" for i
  proof -
    have "i = n - 1 \<or> i < n - 1" using that by linarith
    moreover have "n - 1 < length xs" using n by simp
    ultimately show ?thesis using lt [of i "n - 1"] by (elim disjE) simp_all
  qed
  have "filter (\<lambda>x. f (xs ! (n - 1)) < f x) (take n xs) = []"
    using le n by (auto simp: filter_empty_conv in_set_conv_nth not_less)
  moreover have "filter (\<lambda>x. f (xs ! (n - 1)) < f x) (drop n xs) = drop n xs"
    using lt n by (intro filter_True) (auto simp: in_set_conv_nth)
  ultimately have "filter (\<lambda>x. f (xs ! (n - 1)) < f x) (take n xs @ drop n xs) = drop n xs"
    by (simp only: filter_append append_Nil)
  then show ?thesis using l by simp
qed

lemma matching_next:
  assumes "0 \<le> lp_cursor p" "lp_cursor p \<le> c" "0 < c"
  shows "matching (p\<lparr>lp_cursor := c\<rparr>) rows = filter (\<lambda>r. c < vh_id r) (matching p rows)"
  unfolding matching_def filter_sort filter_filter using assms
  by (intro arg_cong [of _ _ "sort_key vh_id"] filter_cong refl) auto

text \<open>C35. A page of a listing holds the first vehicles, by ascending id, that match the normalised filters, at most 100;
  \<open>has_more\<close> says whether there are others, and asking again from \<open>next_cursor\<close> gives exactly those others:
  following the cursors lists every match once.\<close>

theorem list_pages:
  assumes "vehicle_reachable s" "list_vehicles S p s = (Inr pg, t)"
  shows "\<exists>p'. normalize_params p = Inr p' \<and> 1 \<le> lp_limit p' \<and> lp_limit p' \<le> 100 \<and>
    sorted_wrt (<) (map vh_id (matching p' (vehicle_rows s))) \<and>
    pg_vehicles pg = map to_vehicle_entity (take (nat (lp_limit p')) (matching p' (vehicle_rows s))) \<and>
    pg_more pg = (nat (lp_limit p') < length (matching p' (vehicle_rows s))) \<and>
    (pg_more pg \<longrightarrow> matching (p'\<lparr>lp_cursor := pg_next pg\<rparr>) (vehicle_rows s) =
       drop (nat (lp_limit p')) (matching p' (vehicle_rows s)))"
proof -
  have d: "distinct (map vh_id (vehicle_rows s))" and pos: "\<forall>r \<in> set (vehicle_rows s). 0 < vh_id r"
    using reachable_vehicle_inv [OF assms(1)] by (simp_all add: vehicle_inv_def vehicles_ok_def)
  obtain p' where p': "normalize_params p = Inr p'" and run: "list_vehicle_rows (vs_env S) p' s = (Inr pg, t)"
    using assms(2) by (cases "normalize_params p") (auto simp: list_vehicles_def on_ok_def lift_result_def)
  have lim: "1 \<le> lp_limit p'" "lp_limit p' \<le> 100" and cur: "0 \<le> lp_cursor p'"
    using p' by (auto simp: normalize_params_def Let_def clamp_limit_def default_list_limit_def max_list_limit_def
        split: sum.splits if_splits)
  define L where "L = matching p' (vehicle_rows s)"
  define n where "n = nat (lp_limit p')"
  have n: "0 < n" "nat (lp_limit p' + 1) = Suc n" "int n = lp_limit p'" using lim by (simp_all add: n_def)
  have pg: "pg = page_of (lp_limit p') (take (Suc n) L)"
    using run n(2) by (auto simp: list_vehicle_rows_def on_ok_Inr query_Inr list_rows_def L_def matching_def)
  have more: "pg_more pg = (n < length L)" unfolding pg page_of_def Let_def n(3) [symmetric] by auto
  have kept: "(if pg_more pg then take n (take (Suc n) L) else take (Suc n) L) = take n L"
    unfolding more by (auto simp: min_def)
  have vs: "pg_vehicles pg = map to_vehicle_entity (take n L)"
    using kept unfolding more by (simp add: pg page_of_def Let_def n(3) [symmetric])
  have asc: "sorted_wrt (<) (map vh_id L)" unfolding L_def by (rule matching_ascending [OF d])
  have "matching (p'\<lparr>lp_cursor := pg_next pg\<rparr>) (vehicle_rows s) = drop n L" if m: "pg_more pg"
  proof -
    have nl: "n < length L" using m more by simp
    have ne: "take n L \<noteq> []" using n(1) nl by auto
    have next_id: "pg_next pg = vh_id (last (take n L))"
      using m vs ne unfolding more by (simp add: pg page_of_def Let_def n(3) [symmetric] last_map min_def)
    have "last (take n L) \<in> set L" using ne in_set_takeD last_in_set by metis
    then have "0 < vh_id (last (take n L))" "lp_cursor p' \<le> vh_id (last (take n L))"
      using pos cur unfolding L_def matching_def by (cases "lp_cursor p' = 0"; auto)+
    then have "0 < pg_next pg" "lp_cursor p' \<le> pg_next pg" unfolding next_id .
    then show ?thesis
      using matching_next [OF cur, of "pg_next pg"] after_cursor [OF asc n(1) nl] unfolding next_id L_def by simp
  qed
  then show ?thesis using p' lim asc vs more unfolding L_def n_def by (intro exI [of _ p'] conjI impI)
qed

lemma v_list: "\<exists>pg t. list_vehicles v_service \<lparr>lp_cursor = 0, lp_limit = 0, lp_vin = '''', lp_plate = '''', lp_status = ''''\<rparr> v_registered = (Inr pg, t)"
  by (simp add: list_vehicles_def normalize_params_def list_vehicle_rows_def query_def vrun_defs Let_def)

lemma list_pages_witness:
  "\<exists>pg t. list_vehicles v_service \<lparr>lp_cursor = 0, lp_limit = 0, lp_vin = '''', lp_plate = '''', lp_status = ''''\<rparr> v_registered = (Inr pg, t) \<and>
     pg_vehicles pg = [to_vehicle_entity v_row]"
proof -
  let ?p = "\<lparr>lp_cursor = 0, lp_limit = 0, lp_vin = '''', lp_plate = '''', lp_status = ''''\<rparr>"
  obtain pg t where r: "list_vehicles v_service ?p v_registered = (Inr pg, t)" using v_list by blast
  have "normalize_params ?p = Inr (?p\<lparr>lp_limit := 20\<rparr>)"
    by (simp add: normalize_params_def clamp_limit_def default_list_limit_def Let_def)
  moreover have "matching (?p\<lparr>lp_limit := 20\<rparr>) (vehicle_rows v_registered) = [v_row]" by (simp add: matching_def v_rows)
  ultimately have "pg_vehicles pg = [to_vehicle_entity v_row]" using list_pages [OF v_reachable(2) r] by auto
  then show ?thesis using r by (intro exI conjI)
qed

section \<open>Warranty\<close>

lemma calendar_date_day: "sp_time (calendar_date t) mod (24 * hour_ns) = 0"
proof -
  obtain y m d where c: "date_in (sp_loc t) (sp_time t) = (y, m, d)" by (cases "date_in (sp_loc t) (sp_time t)") auto
  have "sp_time (calendar_date t) = days_of_civil y m d * (24 * hour_ns)"
    using calendar_date_midnight(1) [OF c] by (simp add: hour_ns_def minute_ns_def second_ns_def)
  then show ?thesis by simp
qed

text \<open>For a vehicle whose warranty ends on a given day, a warranty query answers active up to and including that
  day, with the number of days from the day asked about to it; \<open>max_int64\<close> nanoseconds is what a duration holds.\<close>

theorem warranty_days:
  assumes "vehicle_reachable s" "get_warranty S vid as_of s = (Inr w, t)"
    and "r \<in> set (vehicle_rows s)" "vh_id r = vid" "vh_warranty r = Some e" "e mod (24 * hour_ns) = 0"
    and "e - sp_time (calendar_date as_of) \<le> max_int64"
  shows "wa_active w = (sp_time (calendar_date as_of) \<le> e) \<and>
    (wa_active w \<longrightarrow> wa_days w * (24 * hour_ns) = e - sp_time (calendar_date as_of)) \<and>
    (\<not> wa_active w \<longrightarrow> wa_days w = 0) \<and> wa_end w = Some (utc e)"
proof -
  let ?day = "sp_time (calendar_date as_of)"
  have d: "distinct (map vh_id (vehicle_rows s))"
    using reachable_vehicle_inv [OF assms(1)] by (simp add: vehicle_inv_def vehicles_ok_def)
  obtain v t1 where v: "find_vehicle (vs_env S) vid s = (Inr v, t1)"
    and w: "w = (let wn = \<lparr>wa_vehicle_id = vid, wa_end = v_warranty v, wa_as_of = calendar_date as_of, wa_active = False, wa_days = 0\<rparr>
      in case v_warranty v of None \<Rightarrow> wn
        | Some e \<Rightarrow> if \<not> sp_time e < ?day then wn\<lparr>wa_active := True, wa_days := quot (time_sub (sp_time e) ?day) (24 * hour_ns)\<rparr> else wn)"
    using assms(2) by (auto simp: get_warranty_def get_vehicle_by_id_def on_ok_Inr Let_def)
  obtain q where q: "q \<in> set (vehicle_rows s)" "vh_id q = vid" "v = to_vehicle_entity q" by (rule find_vehicle_Inr [OF v])
  have "q = r" using only_row [OF d q(1) assms(3)] q(2) assms(4) by simp
  then have e: "v_warranty v = Some (utc e)" using q(3) assms(5) by simp
  show ?thesis
  proof (cases "e < ?day")
    case False
    define n where "n = e - ?day"
    have n: "0 \<le> n" "n \<le> max_int64" using False assms(7) by (simp_all add: n_def)
    have h: "0 < 24 * hour_ns" by (simp add: hour_ns_def minute_ns_def second_ns_def)
    have "n mod (24 * hour_ns) = 0" using mod_diff_eq [of e "24 * hour_ns" ?day] assms(6) calendar_date_day [of as_of] by (simp add: n_def)
    then have "n div (24 * hour_ns) * (24 * hour_ns) = n" by (metis add.right_neutral div_mult_mod_eq)
    moreover have "time_sub e ?day = n" using n by (simp add: time_sub_def n_def min_int64_def max_int64_def)
    ultimately show ?thesis using False n(1) h by (simp add: w e Let_def quot_nonneg) (simp add: n_def)
  qed (simp add: w e Let_def)
qed

lemma warranty_days_witness:
  "\<exists>w t. get_warranty v_service 1 (utc 0) v_registered = (Inr w, t) \<and> wa_active w \<and> wa_days w = 0"
proof -
  have "\<exists>w t. get_warranty v_service 1 (utc 0) v_registered = (Inr w, t)"
    by (simp add: get_warranty_def get_vehicle_by_id_def find_vehicle_def query_def vrun_defs v_rows v_row_def Let_def)
  then obtain w t where r: "get_warranty v_service 1 (utc 0) v_registered = (Inr w, t)" by blast
  have "wa_active w \<and> wa_days w * (24 * hour_ns) = 0"
    using warranty_days [OF v_reachable(2) r, of v_row 0] by (simp add: v_rows v_row_def max_int64_def)
  then have "wa_active w \<and> wa_days w = 0" by (simp add: hour_ns_def minute_ns_def second_ns_def)
  then show ?thesis using r by (intro exI [of _ w] exI [of _ t]) simp
qed

section \<open>The HTTP side\<close>

lemma same_refl: "vehicle_same s s"
  by (simp add: vehicle_same_def)

lemma same_reads: "reads_only m \<Longrightarrow> m s = (r, t) \<Longrightarrow> vehicle_same s t"
  using reads_onlyD by (fastforce simp: vehicle_same_def)

lemma reads_only_services:
  "reads_only (get_customer_vehicles S cid)" "reads_only (list_vehicles S p)" "reads_only (get_vehicle S vid)"
  "reads_only (get_warranty S vid d)" "reads_only (get_service_history S vid n)" "reads_only (get_vehicle_materials S vid)"
  "reads_only (date_or_now S x)"
  unfolding get_customer_vehicles_def list_vehicles_def get_vehicle_def get_warranty_def get_service_history_def
    get_vehicle_materials_def date_or_now_def Let_def
  by (intro keeps_intros reads_only_vehicle)+

lemma reads_only_owner: "reads_only (get_current_owner S vid)"
proof -
  have "reads_only (\<lambda>s. case get_current_by_vehicle (vs_env S) vid s of
         (Inl e, t) \<Rightarrow> (case e of VErrNotFound d \<Rightarrow> (Inr None, t) | _ \<Rightarrow> (Inl e, t))
       | (Inr o', t) \<Rightarrow> (Inr (Some o'), t))" (is "reads_only ?m")
    unfolding reads_only_def
  proof
    fix s
    obtain r t where r: "get_current_by_vehicle (vs_env S) vid s = (r, t)" by fastforce
    have "snd (?m s) = t" using r by (cases r) (auto split: vehicle_error.splits)
    moreover have "\<exists>n. t = s\<lparr>tick := n\<rparr>" by (rule reads_onlyD [OF reads_only_vehicle(7) r])
    ultimately show "\<exists>n. snd (?m s) = s\<lparr>tick := n\<rparr>" by simp
  qed
  then show ?thesis unfolding get_current_owner_def get_vehicle_by_id_def
    by (intro reads_only_on_ok reads_only_vehicle)
qed

lemma vehicle_respond_reads: "reads_only m \<Longrightarrow> respond_with f status enc m s = (resp, t) \<Longrightarrow> vehicle_same s t"
  by (cases "m s") (auto dest!: respond_with_state intro: same_reads)

lemma vehicle_respond_writes:
  "(\<And>e. m s = (Inl e, t) \<Longrightarrow> vehicle_same s t) \<Longrightarrow> respond_with vehicle_refusal status enc m s = (resp, t) \<Longrightarrow>
     vehicle_same s t \<or> hs_status resp = status"
  by (cases "m s") (auto simp: respond_with_def reply_def split: sum.splits)

lemma read_handlers:
  "handle_customer_vehicles V i s = (resp, t) \<Longrightarrow> vehicle_same s t" "handle_list_vehicles V r s = (resp, t) \<Longrightarrow> vehicle_same s t"
  "handle_get_vehicle V i s = (resp, t) \<Longrightarrow> vehicle_same s t" "handle_warranty V i r s = (resp, t) \<Longrightarrow> vehicle_same s t"
  "handle_service_history V i r s = (resp, t) \<Longrightarrow> vehicle_same s t" "handle_vehicle_materials V i s = (resp, t) \<Longrightarrow> vehicle_same s t"
  "handle_current_owner V i s = (resp, t) \<Longrightarrow> vehicle_same s t"
proof -
  note intros = same_refl reads_only_services reads_only_owner reads_only_on_ok
  show "handle_customer_vehicles V i s = (resp, t) \<Longrightarrow> vehicle_same s t"
    by (auto simp: handle_customer_vehicles_def intro: intros dest: vehicle_respond_reads [rotated] split: sum.splits)
  show "handle_list_vehicles V r s = (resp, t) \<Longrightarrow> vehicle_same s t"
    by (auto simp: handle_list_vehicles_def intro: intros dest: vehicle_respond_reads [rotated] split: option.splits)
  show "handle_get_vehicle V i s = (resp, t) \<Longrightarrow> vehicle_same s t"
    by (auto simp: handle_get_vehicle_def with_vehicle_id_def intro: intros dest: vehicle_respond_reads [rotated] split: sum.splits)
  show "handle_warranty V i r s = (resp, t) \<Longrightarrow> vehicle_same s t"
    by (auto simp: handle_warranty_def with_vehicle_id_def Let_def now_def vehicle_same_def [of s "step_tick s"]
      intro: intros dest: vehicle_respond_reads [rotated] split: sum.splits if_splits)
  show "handle_service_history V i r s = (resp, t) \<Longrightarrow> vehicle_same s t"
    by (auto simp: handle_service_history_def with_vehicle_id_def intro: intros dest: vehicle_respond_reads [rotated] split: sum.splits option.splits)
  show "handle_vehicle_materials V i s = (resp, t) \<Longrightarrow> vehicle_same s t"
    by (auto simp: handle_vehicle_materials_def with_vehicle_id_def intro: intros dest: vehicle_respond_reads [rotated] split: sum.splits)
  show "handle_current_owner V i s = (resp, t) \<Longrightarrow> vehicle_same s t"
    by (auto simp: handle_current_owner_def with_vehicle_id_def intro: intros dest: vehicle_respond_reads [rotated] split: sum.splits)
qed

definition changing :: "vehicle_endpoint \<Rightarrow> bool" where
  "changing e \<longleftrightarrow> (case e of TransferVehicle \<Rightarrow> True | RegisterVehicle \<Rightarrow> True | UpdateVehicle i \<Rightarrow> True | AssignOwner i \<Rightarrow> True
     | _ \<Rightarrow> False)"

lemma on_now_fails:
  assumes "reads_only m" "\<And>x s e t. f x s = (Inl e, t) \<Longrightarrow> vehicle_same s t" "on_ok m f s = (Inl e, t)"
  shows "vehicle_same s t"
proof -
  obtain r u where m: "m s = (r, u)" by fastforce
  have su: "vehicle_same s u" by (rule same_reads [OF assms(1) m])
  show ?thesis
  proof (cases r)
    case (Inr x)
    then have "f x u = (Inl e, t)" using assms(3) m by (simp add: on_ok_def)
    then show ?thesis using assms(2) [of x u e t] su by (simp add: vehicle_same_def)
  qed (use assms(3) m su in \<open>simp add: on_ok_def\<close>)
qed

lemma now_fails:
  "on_ok (date_or_now S d) (\<lambda>x. transfer_vehicle S (f x)) s = (Inl e, t) \<Longrightarrow> vehicle_same s t"
  "on_ok (date_or_now S d) (\<lambda>x. assign_initial_owner S vid cid x) s = (Inl e, t) \<Longrightarrow> vehicle_same s t"
  by (erule on_now_fails [OF reads_only_services(7), rotated], erule transfer_fails)
    (erule on_now_fails [OF reads_only_services(7), rotated], erule assign_fails)

lemma write_handlers:
  "handle_transfer_vehicle V r s = (resp, t) \<Longrightarrow> vehicle_same s t \<or> hs_status resp = 204"
  "handle_register_vehicle V r s = (resp, t) \<Longrightarrow> vehicle_same s t \<or> hs_status resp = 201"
  "handle_update_vehicle V i r s = (resp, t) \<Longrightarrow> vehicle_same s t \<or> hs_status resp = 200"
  "handle_assign_owner V i r s = (resp, t) \<Longrightarrow> vehicle_same s t \<or> hs_status resp = 204"
proof -
  show "handle_transfer_vehicle V r s = (resp, t) \<Longrightarrow> vehicle_same s t \<or> hs_status resp = 204"
    by (auto simp: handle_transfer_vehicle_def bind_json_def same_refl split: option.splits
      dest!: vehicle_respond_writes [rotated] dest: now_fails)
  show "handle_register_vehicle V r s = (resp, t) \<Longrightarrow> vehicle_same s t \<or> hs_status resp = 201"
    by (auto simp: handle_register_vehicle_def bind_json_def same_refl reply_def split: option.splits prod.splits sum.splits
      dest: register_fails)
  show "handle_update_vehicle V i r s = (resp, t) \<Longrightarrow> vehicle_same s t \<or> hs_status resp = 200"
    by (auto simp: handle_update_vehicle_def with_vehicle_id_def bind_json_def same_refl split: option.splits sum.splits
      dest!: vehicle_respond_writes [rotated] dest: update_fails)
  show "handle_assign_owner V i r s = (resp, t) \<Longrightarrow> vehicle_same s t \<or> hs_status resp = 204"
    by (auto simp: handle_assign_owner_def with_vehicle_id_def bind_json_def same_refl split: option.splits sum.splits
      dest!: vehicle_respond_writes [rotated] dest: now_fails)
qed

text \<open>C32. A request changes the tables of vehicle-service only if it carries a valid token of a staff member, names one
  of the four changing routes, and is answered 200, 201 or 204.\<close>

theorem vehicle_http_authorised:
  assumes "serve_vehicle V r s = Some (resp, t)"
    and "\<not> (vehicle_rows t = vehicle_rows s \<and> ownership_rows t = ownership_rows s \<and> material_rows t = material_rows s \<and>
      history_rows t = history_rows s \<and> outbox_rows t = outbox_rows s \<and> model_ids t = model_ids s \<and> kafka_log t = kafka_log s)"
  shows "\<exists>p e. require_auth V r = Inr p \<and> pr_role p \<in> {role_technician, role_manager, role_admin} \<and>
    vehicle_route (hq_method r) (hq_path r) = Some e \<and> changing e \<and> hs_status resp \<in> {200, 201, 204}"
proof -
  have ns: "\<not> vehicle_same s t" using assms(2) by (auto simp: vehicle_same_def)
  then have st: "s \<noteq> t" using same_refl by blast
  obtain e where e: "vehicle_route (hq_method r) (hq_path r) = Some e" "hq_method r \<noteq> ''OPTIONS''"
    using assms(1) st by (auto simp: serve_vehicle_def split: if_splits option.splits)
  obtain p where p: "require_auth V r = Inr p"
    using assms(1) st e by (auto simp: serve_vehicle_def split: sum.splits)
  have h: "handle_vehicle V r e s = (resp, t)" "vehicle_staff_only e \<Longrightarrow> pr_role p \<in> set staff_roles"
    using assms(1) st e p by (auto simp: serve_vehicle_def require_role_def split: if_splits)
  have c: "changing e" using h(1) ns by (cases e) (auto simp: changing_def dest: read_handlers)
  then have "vehicle_staff_only e" by (cases e) (simp_all add: changing_def)
  then have "pr_role p \<in> {role_technician, role_manager, role_admin}" using h(2) by (simp add: staff_roles_def)
  moreover have "hs_status resp \<in> {200, 201, 204}"
    using h(1) ns c by (cases e) (auto simp: changing_def dest: write_handlers)
  ultimately show ?thesis using p e c by blast
qed

definition v_server :: vehicle_server where
  "v_server = \<lparr>sv_secret = ''k'', sv_issuer = ''i'', sv_parse_claims = (\<lambda>k i t. Some \<lparr>cl_subject = ''u'', cl_role = ''ADMIN''\<rparr>),
     hv_service = v_service, hv_parse = (\<lambda>b. Some (JObj [(''vehicle_id'', JInt 1), (''from'', JInt 7), (''to'', JInt 8),
       (''date'', JStr ''1970-01-01T00:00:00Z'')])), hv_invalid = (\<lambda>b. ''invalid'')\<rparr>"

definition v_request :: http_request where
  "v_request = \<lparr>hq_method = ''POST'', hq_path = [''transfer''], hq_authorization = ''Bearer t'', hq_query = [], hq_body = ''''\<rparr>"

lemma vehicle_http_authorised_witness:
  "\<exists>resp t. serve_vehicle v_server v_request v_owned = Some (resp, t) \<and> hs_status resp \<in> {200, 201, 204} \<and> v_owned \<noteq> t"
proof -
  let ?j = "JObj [(''vehicle_id'', JInt 1), (''from'', JInt 7), (''to'', JInt 8), (''date'', JStr ''1970-01-01T00:00:00Z'')]"
  have auth: "require_auth v_server v_request = Inr \<lparr>pr_user_id = ''u'', pr_role = ''ADMIN'', pr_token = ''t''\<rparr>"
    "vehicle_route (hq_method v_request) (hq_path v_request) = Some TransferVehicle" by code_simp+
  have "map_option (map_option sp_time) (pointer_field decode_stamp ''date'' ?j) = Some (Some 0)" by code_simp
  then obtain d where d: "pointer_field decode_stamp ''date'' ?j = Some (Some d)" "sp_time d = 0" by auto
  have dto: "decode_transfer ?j = Some \<lparr>td_vehicle_id = 1, td_from = 7, td_to = 8, td_date = Some d\<rparr>"
    by (simp add: decode_transfer_def d(1) int_field_def is_object_def in_int64_def min_int64_def max_int64_def)
  obtain t where t: "transfer_vehicle v_service (v_transfer\<lparr>tv_date := d\<rparr>) (v_owned\<lparr>tick := Suc (tick v_owned)\<rparr>) = (Inr (), t)"
      "length (ownership_rows t) = 2"
    using v_transfer_at [OF d(2)] by blast
  have "serve_vehicle v_server v_request v_owned = Some (reply 204 JNull, t)"
    using t(1) by (simp add: serve_vehicle_def auth require_role_def staff_roles_def role_admin_def handle_transfer_vehicle_def
        bind_json_def dto respond_with_def on_ok_def date_or_now_def now_def ok_def no_content_def step_tick_def v_transfer_def)
      (simp add: v_server_def v_request_def dto respond_with_def on_ok_def date_or_now_def now_def ok_def no_content_def step_tick_def
        v_transfer_def)
  moreover have n: "ownership_rows t \<noteq> ownership_rows v_owned" using t(2) v_rows(3) by force
  ultimately have "hs_status (reply 204 JNull) \<in> {200, 201, 204}"
    using vehicle_http_authorised [of v_server v_request v_owned "reply 204 JNull" t] by blast
  moreover have "v_owned \<noteq> t" using n by auto
  ultimately show ?thesis using \<open>serve_vehicle v_server v_request v_owned = Some (reply 204 JNull, t)\<close> by blast
qed

section \<open>The consumer\<close>


definition v_broken :: vehicle_service where
  "v_broken = v_service\<lparr>vs_env := v_env\<lparr>fault := (\<lambda>n. if n = 8 then Some ''timeout'' else None)\<rparr>\<rparr>"

definition v_value :: "int \<Rightarrow> json" where
  "v_value i = JObj [(''appointment_id'', JInt i), (''vehicle_id'', JInt 1), (''completed_at'', JStr ''1970-01-01T00:00:00Z'')]"

lemma v_decoded: "in_int64 i \<Longrightarrow> \<exists>e. decode_completed (v_value i) = Some e \<and> ce_appointment_id e = i \<and> ce_vehicle_id e = 1 \<and> ce_completed e = 0"
proof -
  assume i: "in_int64 i"
  have "map_option sp_time (decode_stamp (JStr ''1970-01-01T00:00:00Z'')) = Some 0" by code_simp
  then obtain x where "decode_stamp (JStr ''1970-01-01T00:00:00Z'') = Some x" "sp_time x = 0" by auto
  then show ?thesis using i
    by (simp add: decode_completed_def v_value_def stamp_field_def string_field_def int_field_def decode_services_field_def
        array_field_def is_object_def in_int64_def min_int64_def max_int64_def)
qed


end
