(* ===== verification/CustomerData.thy ===== *)
theory CustomerData
  imports Stamps Outbox
begin

text \<open>customer-service's data: the entity, the pagination records and the sentinel errors
  (\<open>internal/domain\<close>), the row (\<open>database/models/customer-models.go\<close> and \<open>migrations/*.sql\<close>), and the
  database with the Redis cache beside it. A calendar date in a row is the instant of its midnight UTC.\<close>

section \<open>Status values and errors\<close>

definition customer_active :: string where "customer_active = ''ACTIVE''"
definition customer_inactive :: string where "customer_inactive = ''INACTIVE''"
definition customer_banned :: string where "customer_banned = ''BANNED''"

text \<open>The CHECK of the status column.\<close>

definition customer_status_ok :: "string \<Rightarrow> bool" where
  "customer_status_ok s \<longleftrightarrow> s = customer_active \<or> s = customer_inactive \<or> s = customer_banned"

text \<open>The sentinels (invalid input with the text \<open>fmt.Errorf\<close> appends), a database error, and an error made on the spot.\<close>

datatype customer_error =
    CErrNotFound
  | CErrConflict
  | CErrInvalidInput string
  | CErrDb db_error
  | CErrOther string

text \<open>What \<open>Cache.Get\<close> fails with.\<close>

datatype cache_error = CacheMiss | CacheFailed string

section \<open>Entities\<close>

record customer_entity =
  ct_id :: int
  ct_user_id :: string
  ct_name :: string
  ct_email :: string
  ct_phone :: string
  ct_birth_day :: stamp
  ct_status :: string
  ct_created :: stamp
  ct_updated :: stamp

definition zero_customer :: customer_entity where
  "zero_customer = \<lparr>ct_id = 0, ct_user_id = '''', ct_name = '''', ct_email = '''', ct_phone = '''',
     ct_birth_day = utc zero_time, ct_status = '''', ct_created = utc zero_time, ct_updated = utc zero_time\<rparr>"

record customer_params =
  lc_cursor :: int
  lc_limit :: int
  lc_email :: string

record customer_page =
  cp_customers :: "customer_entity list"
  cp_next :: int
  cp_more :: bool

section \<open>Rows\<close>

record customer_row =
  cw_id :: int
  cw_user_id :: "string option"
  cw_name :: string
  cw_email :: string
  cw_phone :: string
  cw_birthday :: "int option"
  cw_status :: string
  cw_created :: int
  cw_updated :: int
  cw_deleted :: "int option"

text \<open>A cache entry is its key, the JSON it holds and the instant it expires.\<close>

record customer_db = outbox_db +
  customer_rows :: "customer_row list"
  cw_seq :: int
  cache_entries :: "(string \<times> json \<times> int) list"

text \<open>ROLLBACK: every table as at BEGIN; the clock, the sequences, the broker and the cache keep what happened.\<close>

definition customer_restore :: "customer_db \<Rightarrow> customer_db \<Rightarrow> customer_db" where
  "customer_restore s t = t\<lparr>outbox_rows := outbox_rows s, customer_rows := customer_rows s\<rparr>"

lemma customer_tick [simp]:
  "customer_rows (step_tick s) = customer_rows s" "cw_seq (step_tick s) = cw_seq s"
  "cache_entries (step_tick s) = cache_entries s"
  by (simp_all add: step_tick_def)

lemma customer_restore_sel [simp]:
  "outbox_rows (customer_restore s t) = outbox_rows s" "customer_rows (customer_restore s t) = customer_rows s"
  "cw_seq (customer_restore s t) = cw_seq t" "cache_entries (customer_restore s t) = cache_entries t"
  "outbox_seq (customer_restore s t) = outbox_seq t" "kafka_log (customer_restore s t) = kafka_log t"
  "tick (customer_restore s t) = tick t"
  by (simp_all add: customer_restore_def)

section \<open>The process\<close>

text \<open>The environment, the process's time zone, what the driver stores in a \<open>date\<close> column, the canonical form of a
  UUID (\<open>None\<close> for what the database refuses as one), and the case folding of \<open>ILIKE\<close>.\<close>

record customer_service =
  cs_env :: env
  cs_local :: location
  cs_date :: "stamp \<Rightarrow> int"
  cs_uuid :: "string \<Rightarrow> string option"
  cs_fold :: "char \<Rightarrow> char"

definition local_stamp :: "customer_service \<Rightarrow> int \<Rightarrow> stamp" where
  "local_stamp S t = \<lparr>sp_time = t, sp_loc = cs_local S\<rparr>"

text \<open>The zero \<open>time.Time\<close> as reflection sees it, which gorm and the validator go by.\<close>

definition unset_stamp :: "stamp \<Rightarrow> bool" where
  "unset_stamp t \<longleftrightarrow> sp_time t = zero_time \<and> offset_at (sp_loc t) (unix_seconds zero_time) = 0"

end
