(* ===== verification/CustomerRepo.thy ===== *)
theory CustomerRepo
  imports CustomerData
begin

text \<open>customer-service's repository (\<open>adapters/repository/customer-repository.go\<close>), statement by statement, with the
  constraints of \<open>migrations/*.sql\<close>, and the Redis cache (\<open>adapters/cache/redis.go\<close>). gorm adds
  \<open>delete_at IS NULL\<close> to every query and update, and stamps \<open>updated_at\<close> on every update.\<close>

section \<open>Rows\<close>

definition customer_duplicate_key :: "db_error \<Rightarrow> bool" where
  "customer_duplicate_key e = (case e of UniqueViolation c \<Rightarrow> True | _ \<Rightarrow> False)"

definition customer_write_error :: "db_error \<Rightarrow> customer_error" where
  "customer_write_error e = (if customer_duplicate_key e then CErrConflict else CErrDb e)"

definition live :: "customer_row \<Rightarrow> bool" where
  "live r \<longleftrightarrow> cw_deleted r = None"

text \<open>\<open>toModels\<close> and the driver: no row for a user id that is not a UUID.\<close>

definition to_customer_row :: "customer_service \<Rightarrow> customer_entity \<Rightarrow> customer_row option" where
  "to_customer_row S c =
     map_option (\<lambda>u. \<lparr>cw_id = ct_id c, cw_user_id = u, cw_name = ct_name c, cw_email = ct_email c, cw_phone = ct_phone c,
        cw_birthday = (if sp_time (ct_birth_day c) = zero_time then None else Some (cs_date S (ct_birth_day c))),
        cw_status = ct_status c, cw_created = db_time (cs_env S) (sp_time (ct_created c)),
        cw_updated = db_time (cs_env S) (sp_time (ct_updated c)), cw_deleted = None\<rparr>)
       (if ct_user_id c = '''' then Some None else map_option Some (cs_uuid S (ct_user_id c)))"

definition to_customer :: "customer_service \<Rightarrow> customer_row \<Rightarrow> customer_entity" where
  "to_customer S r =
     \<lparr>ct_id = cw_id r, ct_user_id = (case cw_user_id r of None \<Rightarrow> '''' | Some u \<Rightarrow> u), ct_name = cw_name r,
      ct_email = cw_email r, ct_phone = cw_phone r,
      ct_birth_day = utc (case cw_birthday r of None \<Rightarrow> zero_time | Some d \<Rightarrow> d), ct_status = cw_status r,
      ct_created = local_stamp S (cw_created r), ct_updated = local_stamp S (cw_updated r)\<rparr>"

text \<open>What a row violates beside the others: the CHECK, then the unique indexes. Deleted rows count.\<close>

definition customer_violation :: "customer_row \<Rightarrow> customer_row list \<Rightarrow> db_error option" where
  "customer_violation r others =
     (if \<not> customer_status_ok (cw_status r) then Some (CheckViolation ''customer_status_check'')
      else if cw_email r \<in> cw_email ` set others then Some (UniqueViolation ''customer_email_key'')
      else if cw_user_id r \<noteq> None \<and> cw_user_id r \<in> cw_user_id ` set others
      then Some (UniqueViolation ''idx_customer_user_id'')
      else None)"

definition bad_uuid :: db_error where
  "bad_uuid = DriverError ''invalid input syntax for type uuid''"

section \<open>Writes\<close>

text \<open>\<open>Create\<close>: gorm stamps the model before the INSERT, and the id comes back with it.\<close>

definition insert_customer :: "customer_service \<Rightarrow> customer_entity \<Rightarrow> (customer_db, db_error, int) prog" where
  "insert_customer S c = (\<lambda>s.
     case to_customer_row S c of
       None \<Rightarrow> (Inl bad_uuid, s)
     | Some r0 \<Rightarrow>
         if ct_id c \<noteq> 0 then (Inl (DriverError ''cannot insert a non-DEFAULT value into column \"id\"''), s)
         else let r = r0\<lparr>cw_id := cw_seq s\<rparr>; s' = s\<lparr>cw_seq := cw_seq s + 1\<rparr>
              in case customer_violation r (customer_rows s) of
                   Some e \<Rightarrow> (Inl e, s')
                 | None \<Rightarrow> (Inr (cw_id r), s'\<lparr>customer_rows := customer_rows s @ [r]\<rparr>))"

definition stamped :: "customer_service \<Rightarrow> int \<Rightarrow> customer_entity \<Rightarrow> customer_entity" where
  "stamped S t c = c\<lparr>ct_created := if unset_stamp (ct_created c) then local_stamp S t else ct_created c,
     ct_updated := if unset_stamp (ct_updated c) then local_stamp S t else ct_updated c\<rparr>"

definition create_customer_row :: "customer_service \<Rightarrow> customer_entity \<Rightarrow> (customer_db, customer_error, customer_entity) prog" where
  "create_customer_row S c =
     on_ok (now (cs_env S)) (\<lambda>t.
     on_ok (map_err customer_write_error (sql (cs_env S) (insert_customer S (stamped S t c)))) (\<lambda>i.
     ok ((stamped S t c)\<lparr>ct_id := i\<rparr>)))"

text \<open>\<open>SoftDelete\<close>; \<open>Delete\<close> is the same code.\<close>

definition soft_delete :: "customer_service \<Rightarrow> int \<Rightarrow> (customer_db, customer_error, unit) prog" where
  "soft_delete S cid =
     on_ok (now (cs_env S)) (\<lambda>t.
     on_ok (map_err CErrDb (sql (cs_env S) (\<lambda>s.
       (Inr (length (filter (\<lambda>r. cw_id r = cid \<and> live r) (customer_rows s))),
        s\<lparr>customer_rows := map (\<lambda>r. if cw_id r = cid \<and> live r
            then r\<lparr>cw_deleted := Some (db_time (cs_env S) t)\<rparr> else r) (customer_rows s)\<rparr>)))) (\<lambda>n.
     if n = 0 then fail CErrNotFound else ok ()))"

definition delete_customer :: "customer_service \<Rightarrow> int \<Rightarrow> (customer_db, customer_error, unit) prog" where
  "delete_customer S cid = soft_delete S cid"

text \<open>\<open>LinkUserByEmail\<close>: one UPDATE over the live unlinked rows with the email, returning them.\<close>

definition link_row :: "env \<Rightarrow> int \<Rightarrow> string \<Rightarrow> customer_row \<Rightarrow> customer_row" where
  "link_row E t u r = r\<lparr>cw_user_id := Some u, cw_updated := db_time E t\<rparr>"

definition unlinked :: "string \<Rightarrow> customer_row \<Rightarrow> bool" where
  "unlinked email r \<longleftrightarrow> cw_email r = email \<and> cw_user_id r = None \<and> live r"

definition link_statement ::
    "customer_service \<Rightarrow> int \<Rightarrow> string \<Rightarrow> string \<Rightarrow> (customer_db, db_error, customer_row list) prog" where
  "link_statement S t uid email = (\<lambda>s.
     case cs_uuid S uid of
       None \<Rightarrow> (Inl bad_uuid, s)
     | Some u \<Rightarrow>
         (case filter (unlinked email) (customer_rows s) of
            [] \<Rightarrow> (Inr [], s)
          | r # rs \<Rightarrow>
              if rs \<noteq> [] \<or> Some u \<in> cw_user_id ` set (customer_rows s)
              then (Inl (UniqueViolation ''idx_customer_user_id''), s)
              else (Inr [link_row (cs_env S) t u r], s\<lparr>customer_rows := map (\<lambda>q.
                     if unlinked email q then link_row (cs_env S) t u q else q) (customer_rows s)\<rparr>)))"

definition link_user_by_email ::
    "customer_service \<Rightarrow> string \<Rightarrow> string \<Rightarrow> (customer_db, customer_error, customer_entity) prog" where
  "link_user_by_email S uid email =
     on_ok (now (cs_env S)) (\<lambda>t.
     on_ok (map_err customer_write_error (sql (cs_env S) (link_statement S t uid email))) (\<lambda>rows.
     case rows of [] \<Rightarrow> fail CErrNotFound | r # _ \<Rightarrow> ok (to_customer S r)))"

section \<open>Reads\<close>

definition find_customer ::
    "customer_service \<Rightarrow> (customer_row \<Rightarrow> bool) \<Rightarrow> (customer_db, customer_error, customer_entity) prog" where
  "find_customer S P =
     on_ok (map_err CErrDb (query (cs_env S) (\<lambda>s.
       take 1 (sort_key cw_id (filter (\<lambda>r. P r \<and> live r) (customer_rows s)))))) (\<lambda>rs.
     case rs of [] \<Rightarrow> fail CErrNotFound | r # _ \<Rightarrow> ok (to_customer S r))"

definition get_customer_by_id :: "customer_service \<Rightarrow> int \<Rightarrow> (customer_db, customer_error, customer_entity) prog" where
  "get_customer_by_id S cid = find_customer S (\<lambda>r. cw_id r = cid)"

definition get_by_user_id :: "customer_service \<Rightarrow> string \<Rightarrow> (customer_db, customer_error, customer_entity) prog" where
  "get_by_user_id S uid =
     (case cs_uuid S uid of
        None \<Rightarrow> map_err CErrDb (sql (cs_env S) (\<lambda>s. (Inl bad_uuid, s)))
      | Some u \<Rightarrow> find_customer S (\<lambda>r. cw_user_id r = Some u))"

text \<open>\<open>likeEscaper\<close>, and PostgreSQL's \<open>LIKE\<close> with \<open>ESCAPE '\'\<close>; \<open>ILIKE\<close> folds both sides first.\<close>

definition like_escape :: "string \<Rightarrow> string" where
  "like_escape s = concat (map (\<lambda>c.
     if c = CHR 0x5C \<or> c = CHR ''%'' \<or> c = CHR ''_'' then [CHR 0x5C, c] else [c]) s)"

fun like :: "string \<Rightarrow> string \<Rightarrow> bool" where
  "like [] s = (s = [])"
| "like (c # p) s =
     (if c = CHR ''%'' then like p s \<or> (case s of [] \<Rightarrow> False | d # t \<Rightarrow> like (c # p) t)
      else if c = CHR ''_'' then (case s of [] \<Rightarrow> False | d # t \<Rightarrow> like p t)
      else if c = CHR 0x5C then (case p of [] \<Rightarrow> False | e # q \<Rightarrow> (case s of [] \<Rightarrow> False | d # t \<Rightarrow> d = e \<and> like q t))
      else (case s of [] \<Rightarrow> False | d # t \<Rightarrow> d = c \<and> like p t))"

definition ilike :: "(char \<Rightarrow> char) \<Rightarrow> string \<Rightarrow> string \<Rightarrow> bool" where
  "ilike f pattern s = like (map f pattern) (map f s)"

text \<open>\<open>List\<close>: keyset pagination by id, one row past the limit.\<close>

definition customer_list_rows :: "customer_service \<Rightarrow> customer_params \<Rightarrow> customer_db \<Rightarrow> customer_row list" where
  "customer_list_rows S p s = take (nat (lc_limit p + 1)) (sort_key cw_id (filter (\<lambda>r.
     live r \<and> (0 < lc_cursor p \<longrightarrow> lc_cursor p < cw_id r) \<and>
     (lc_email p \<noteq> '''' \<longrightarrow> ilike (cs_fold S) (''%'' @ like_escape (lc_email p) @ ''%'') (cw_email r)))
     (customer_rows s)))"

definition customer_page_of :: "customer_service \<Rightarrow> int \<Rightarrow> customer_row list \<Rightarrow> customer_page" where
  "customer_page_of S limit rows =
     (let more = limit < int (length rows); kept = (if more then take (nat limit) rows else rows);
          cs = map (to_customer S) kept
      in \<lparr>cp_customers = cs, cp_next = (if more then ct_id (last cs) else 0), cp_more = more\<rparr>)"

definition list_customer_rows ::
    "customer_service \<Rightarrow> customer_params \<Rightarrow> (customer_db, customer_error, customer_page) prog" where
  "list_customer_rows S p =
     on_ok (map_err CErrDb (query (cs_env S) (customer_list_rows S p))) (\<lambda>rows.
     ok (customer_page_of S (lc_limit p) rows))"

section \<open>Update\<close>

definition customer_update_failure :: "customer_service \<Rightarrow> int \<Rightarrow> (customer_db, customer_error, unit) prog" where
  "customer_update_failure S cid =
     on_ok (map_err CErrDb (query (cs_env S) (\<lambda>s.
       length (filter (\<lambda>r. cw_id r = cid \<and> live r) (customer_rows s))))) (\<lambda>n.
     if n = 0 then fail CErrNotFound else fail CErrConflict)"

text \<open>\<open>Updates\<close> with a struct sets its non-zero fields, and \<open>updated_at\<close> to now whatever the struct holds.\<close>

definition set_customer_columns ::
    "customer_service \<Rightarrow> int \<Rightarrow> customer_entity \<Rightarrow> customer_row \<Rightarrow> customer_row \<Rightarrow> customer_row" where
  "set_customer_columns S t c m r =
     r\<lparr>cw_user_id := (if ct_user_id c = '''' then cw_user_id r else cw_user_id m),
       cw_name := (if ct_name c = '''' then cw_name r else cw_name m),
       cw_email := (if ct_email c = '''' then cw_email r else cw_email m),
       cw_phone := (if ct_phone c = '''' then cw_phone r else cw_phone m),
       cw_birthday := (if unset_stamp (ct_birth_day c) then cw_birthday r else Some (cs_date S (ct_birth_day c))),
       cw_status := (if ct_status c = '''' then cw_status r else cw_status m),
       cw_created := (if unset_stamp (ct_created c) then cw_created r else cw_created m),
       cw_updated := db_time (cs_env S) t\<rparr>"

definition customer_version :: "customer_service \<Rightarrow> customer_entity \<Rightarrow> customer_row \<Rightarrow> bool" where
  "customer_version S c r \<longleftrightarrow>
     cw_id r = ct_id c \<and> cw_updated r = db_time (cs_env S) (sp_time (ct_updated c)) \<and> live r"

definition customer_update_statement ::
    "customer_service \<Rightarrow> int \<Rightarrow> customer_entity \<Rightarrow> (customer_db, db_error, nat) prog" where
  "customer_update_statement S t c = (\<lambda>s.
     case to_customer_row S c of
       None \<Rightarrow> (Inl bad_uuid, s)
     | Some m \<Rightarrow>
         (case filter (customer_version S c) (customer_rows s) of
            [] \<Rightarrow> (Inr 0, s)
          | r # rs \<Rightarrow>
              (case customer_violation (set_customer_columns S t c m r) (filter (\<lambda>q. cw_id q \<noteq> ct_id c) (customer_rows s)) of
                 Some e \<Rightarrow> (Inl e, s)
               | None \<Rightarrow> (Inr (Suc (length rs)), s\<lparr>customer_rows := map (\<lambda>q.
                   if customer_version S c q then set_customer_columns S t c m q else q) (customer_rows s)\<rparr>))))"

definition update_customer_row :: "customer_service \<Rightarrow> customer_entity \<Rightarrow> (customer_db, customer_error, unit) prog" where
  "update_customer_row S c =
     on_ok (now (cs_env S)) (\<lambda>t.
     on_ok (map_err customer_write_error (sql (cs_env S) (customer_update_statement S t c))) (\<lambda>n.
     if n = 0 then customer_update_failure S (ct_id c) else ok ()))"

section \<open>The cache\<close>

text \<open>Redis keeps the last value set under a key until it expires; a call may fail.\<close>

definition cache_get :: "env \<Rightarrow> string \<Rightarrow> (customer_db, cache_error, json) prog" where
  "cache_get E key = (\<lambda>s.
     (case fault E (tick s) of
        Some msg \<Rightarrow> Inl (CacheFailed msg)
      | None \<Rightarrow> (case map_of (cache_entries s) key of
            None \<Rightarrow> Inl CacheMiss
          | Some (v, expires) \<Rightarrow> if clock E (tick s) < expires then Inr v else Inl CacheMiss),
      step_tick s))"

definition cache_set :: "env \<Rightarrow> string \<Rightarrow> json \<Rightarrow> int \<Rightarrow> (customer_db, cache_error, unit) prog" where
  "cache_set E key v ttl = (\<lambda>s.
     case fault E (tick s) of
       Some msg \<Rightarrow> (Inl (CacheFailed msg), step_tick s)
     | None \<Rightarrow> (Inr (), step_tick (s\<lparr>cache_entries := (key, v, clock E (tick s) + ttl) # cache_entries s\<rparr>)))"

end
