(* ===== verification/CustomerService.thy ===== *)
theory CustomerService
  imports CustomerRepo
begin

text \<open>customer-service's operations (\<open>domain/services/customer-service.go\<close>) and its events
  (\<open>domain/events/customer.go\<close>). Log lines are left out.\<close>

abbreviation in_customer_tx ::
    "customer_service \<Rightarrow> (customer_db, customer_error, 'a) prog \<Rightarrow> (customer_db, customer_error, 'a) prog" where
  "in_customer_tx S \<equiv> run_in_tx (cs_env S) CErrDb customer_restore"

section \<open>Events\<close>

definition topic_customer_created :: string where
  "topic_customer_created = ''customer.account.created.v1''"
definition topic_customer_update :: string where
  "topic_customer_update = ''customer.account.updated.v1''"
definition topic_customer_delete :: string where
  "topic_customer_delete = ''customer.account.deleted.v1''"

datatype customer_event_type = CustomerCreated | CustomerUpdated | CustomerDeleted

fun customer_event_text :: "customer_event_type \<Rightarrow> string" where
  "customer_event_text CustomerCreated = ''CustomerCreated''"
| "customer_event_text CustomerUpdated = ''CustomerUpdated''"
| "customer_event_text CustomerDeleted = ''CustomerDeleted''"

text \<open>\<open>NewCustomerEvent\<close> around the JSON of a payload; \<open>times.NewTime\<close> keeps milliseconds.\<close>

definition new_customer_event ::
    "env \<Rightarrow> customer_event_type \<Rightarrow> int \<Rightarrow> json \<Rightarrow> (customer_db, customer_error, json) prog" where
  "new_customer_event E etype occurred payload =
     on_ok (new_uuid E) (\<lambda>i.
     ok (JObj [(''event_id'', JStr i), (''event_type'', JStr (customer_event_text etype)),
        (''occurred_at'', time_json (new_time occurred)), (''customer'', payload)]))"

definition omit_empty :: "string \<Rightarrow> string \<Rightarrow> (string \<times> json) list" where
  "omit_empty k v = (if v = '''' then [] else [(k, JStr v)])"

definition new_customer_state :: "customer_entity \<Rightarrow> json" where
  "new_customer_state c = JObj ([(''id'', JInt (ct_id c))] @ omit_empty ''user_id'' (ct_user_id c)
     @ [(''name'', JStr (ct_name c)), (''email'', JStr (ct_email c))] @ omit_empty ''phone'' (ct_phone c)
     @ omit_empty ''birth_day'' (if sp_time (ct_birth_day c) = zero_time then '''' else date_only (ct_birth_day c))
     @ [(''status'', JStr (ct_status c)), (''created_at'', time_json (new_time (sp_time (ct_created c)))),
        (''updated_at'', time_json (new_time (sp_time (ct_updated c))))])"

definition customer_deletion :: "int \<Rightarrow> int \<Rightarrow> json" where
  "customer_deletion cid t = JObj [(''id'', JInt cid), (''deleted_at'', time_json (new_time t))]"

text \<open>The tail of every transaction: the event into the outbox.\<close>

definition write_customer_event ::
    "customer_service \<Rightarrow> string \<Rightarrow> customer_event_type \<Rightarrow> int \<Rightarrow> int \<Rightarrow> json \<Rightarrow> (customer_db, customer_error, unit) prog" where
  "write_customer_event S topic etype cid occurred payload =
     on_ok (new_customer_event (cs_env S) etype occurred payload) (\<lambda>ev.
     map_err CErrDb (outbox_create (cs_env S) (new_message topic (format_int cid) ev)))"

section \<open>Profiles\<close>

definition delete_tx :: "customer_service \<Rightarrow> int \<Rightarrow> (customer_db, customer_error, unit) prog" where
  "delete_tx S cid =
     on_ok (soft_delete S cid) (\<lambda>_.
     on_ok (now (cs_env S)) (\<lambda>t.
     write_customer_event S topic_customer_delete CustomerDeleted cid t (customer_deletion cid t)))"

definition delete_profile :: "customer_service \<Rightarrow> int \<Rightarrow> (customer_db, customer_error, unit) prog" where
  "delete_profile S cid = in_customer_tx S (delete_tx S cid)"

definition update_profile_tx :: "customer_service \<Rightarrow> customer_entity \<Rightarrow> (customer_db, customer_error, unit) prog" where
  "update_profile_tx S c =
     on_ok (update_customer_row S c) (\<lambda>_.
     on_ok (now (cs_env S)) (\<lambda>t.
     if t < sp_time (ct_birth_day c) then fail (CErrOther ''birthday must be before current date'')
     else on_ok (get_customer_by_id S (ct_id c)) (\<lambda>updated.
          write_customer_event S topic_customer_update CustomerUpdated (ct_id c) (sp_time (ct_updated updated))
            (new_customer_state updated))))"

definition update_profile :: "customer_service \<Rightarrow> int \<Rightarrow> customer_entity \<Rightarrow> (customer_db, customer_error, unit) prog" where
  "update_profile S cid payload =
     (if ct_name payload = '''' \<and> sp_time (ct_birth_day payload) = zero_time
      then fail (CErrInvalidInput '': nothing to update'')
      else in_customer_tx S (update_profile_tx S (payload\<lparr>ct_id := cid\<rparr>)))"

definition create_customer_tx :: "customer_service \<Rightarrow> customer_entity \<Rightarrow> (customer_db, customer_error, customer_entity) prog" where
  "create_customer_tx S c =
     on_ok (create_customer_row S c) (\<lambda>created.
     on_ok (write_customer_event S topic_customer_created CustomerCreated (ct_id created) (sp_time (ct_created created))
       (new_customer_state created)) (\<lambda>_. ok created))"

definition create_customer :: "customer_service \<Rightarrow> customer_entity \<Rightarrow> (customer_db, customer_error, customer_entity) prog" where
  "create_customer S c = in_customer_tx S (create_customer_tx S (c\<lparr>ct_status := customer_active\<rparr>))"

definition get_customer :: "customer_service \<Rightarrow> int \<Rightarrow> (customer_db, customer_error, customer_entity) prog" where
  "get_customer S cid = get_customer_by_id S cid"

definition get_customer_by_user_id :: "customer_service \<Rightarrow> string \<Rightarrow> (customer_db, customer_error, customer_entity) prog" where
  "get_customer_by_user_id S uid = get_by_user_id S uid"

section \<open>Linking identity users\<close>

text \<open>\<open>strings.Cut(email, "@")\<close>, its first part.\<close>

definition local_part :: "string \<Rightarrow> string" where
  "local_part email = (case cut_at CHR ''@'' email of None \<Rightarrow> email | Some (a, b) \<Rightarrow> a)"

text \<open>The profile made for a user no customer has the email of.\<close>

definition sign_up :: "string \<Rightarrow> string \<Rightarrow> customer_entity" where
  "sign_up uid email = zero_customer\<lparr>ct_user_id := uid, ct_name := local_part email, ct_email := email,
     ct_status := customer_active\<rparr>"

text \<open>Claim a customer with the email, or create one: the result, and which of the two it was.\<close>

definition claim_or_create ::
    "customer_service \<Rightarrow> string \<Rightarrow> string \<Rightarrow> (customer_db, customer_error, customer_entity \<times> customer_event_type \<times> string) prog" where
  "claim_or_create S uid email = (\<lambda>s.
     case link_user_by_email S uid email s of
       (Inr c, t) \<Rightarrow> (Inr (c, CustomerUpdated, topic_customer_update), t)
     | (Inl e, t) \<Rightarrow>
         if e = CErrNotFound
         then on_ok (create_customer_row S (sign_up uid email)) (\<lambda>c. ok (c, CustomerCreated, topic_customer_created)) t
         else (Inl e, t))"

definition link_tx :: "customer_service \<Rightarrow> string \<Rightarrow> string \<Rightarrow> (customer_db, customer_error, customer_entity) prog" where
  "link_tx S uid email =
     on_ok (claim_or_create S uid email) (\<lambda>(c, etype, topic).
     on_ok (write_customer_event S topic etype (ct_id c) (sp_time (ct_updated c)) (new_customer_state c)) (\<lambda>_. ok c))"

definition link_user :: "customer_service \<Rightarrow> string \<Rightarrow> string \<Rightarrow> (customer_db, customer_error, customer_entity) prog" where
  "link_user S uid email = (\<lambda>s.
     case get_by_user_id S uid s of
       (Inr existing, t) \<Rightarrow> (Inr existing, t)
     | (Inl e, t) \<Rightarrow> if e = CErrNotFound then in_customer_tx S (link_tx S uid email) t else (Inl e, t))"

section \<open>Listings\<close>

definition default_customers_limit :: int where "default_customers_limit = 20"
definition max_customers_limit :: int where "max_customers_limit = 100"

definition customers_page_cache_ttl :: int where
  "customers_page_cache_ttl = 30 * second_ns"

definition customers_page_cache_key :: "customer_params \<Rightarrow> string" where
  "customers_page_cache_key p = ''customers:list:cursor='' @ format_int (lc_cursor p) @ '':limit='' @ format_int (lc_limit p)"

definition clamp_params :: "customer_params \<Rightarrow> customer_params" where
  "clamp_params p =
     \<lparr>lc_cursor = (if lc_cursor p < 0 then 0 else lc_cursor p),
      lc_limit = (if lc_limit p \<le> 0 then default_customers_limit
                  else if max_customers_limit < lc_limit p then max_customers_limit else lc_limit p),
      lc_email = trim_space (lc_email p)\<rparr>"

text \<open>\<open>json.Marshal\<close> and \<open>json.Unmarshal\<close> of \<open>ports.CustomerPage\<close>, whose structs carry no tags.\<close>

definition customer_json :: "customer_entity \<Rightarrow> json" where
  "customer_json c = JObj [(''ID'', JInt (ct_id c)), (''UserID'', JStr (ct_user_id c)), (''Name'', JStr (ct_name c)),
     (''Email'', JStr (ct_email c)), (''Phone'', JStr (ct_phone c)), (''BirthDay'', stamp_json (ct_birth_day c)),
     (''Status'', JStr (ct_status c)), (''CreatedAt'', stamp_json (ct_created c)), (''UpdatedAt'', stamp_json (ct_updated c))]"

definition customer_page_json :: "customer_page \<Rightarrow> json" where
  "customer_page_json p = JObj [(''Customers'', JArr (map customer_json (cp_customers p))), (''NextCursor'', JInt (cp_next p)),
     (''HasMore'', JBool (cp_more p))]"

definition bool_field :: "string \<Rightarrow> json \<Rightarrow> bool option" where
  "bool_field k j = (case field k j of
       None \<Rightarrow> Some False
     | Some JNull \<Rightarrow> Some False
     | Some (JBool b) \<Rightarrow> Some b
     | Some _ \<Rightarrow> None)"

definition decode_cached_customer :: "json \<Rightarrow> customer_entity option" where
  "decode_cached_customer j =
     Option.bind (int_field ''ID'' j) (\<lambda>i.
     Option.bind (string_field ''UserID'' j) (\<lambda>u.
     Option.bind (string_field ''Name'' j) (\<lambda>n.
     Option.bind (string_field ''Email'' j) (\<lambda>e.
     Option.bind (string_field ''Phone'' j) (\<lambda>p.
     Option.bind (stamp_field ''BirthDay'' j) (\<lambda>b.
     Option.bind (string_field ''Status'' j) (\<lambda>st.
     Option.bind (stamp_field ''CreatedAt'' j) (\<lambda>c.
     Option.bind (stamp_field ''UpdatedAt'' j) (\<lambda>up.
       if \<not> is_object j then None
       else Some \<lparr>ct_id = i, ct_user_id = u, ct_name = n, ct_email = e, ct_phone = p, ct_birth_day = b, ct_status = st,
                  ct_created = c, ct_updated = up\<rparr>)))))))))"

definition decode_customer_page :: "json \<Rightarrow> customer_page option" where
  "decode_customer_page j =
     Option.bind (array_field ''Customers'' j) (\<lambda>js.
     Option.bind (those (map decode_cached_customer js)) (\<lambda>cs.
     Option.bind (int_field ''NextCursor'' j) (\<lambda>n.
     Option.bind (bool_field ''HasMore'' j) (\<lambda>m.
       if \<not> is_object j then None else Some \<lparr>cp_customers = cs, cp_next = n, cp_more = m\<rparr>))))"

text \<open>A listing that was not in the cache; a cache that fails to store it is only logged.\<close>

definition list_and_cache :: "customer_service \<Rightarrow> customer_params \<Rightarrow> (customer_db, customer_error, customer_page) prog" where
  "list_and_cache S p = on_ok (list_customer_rows S p) (\<lambda>page s.
     (Inr page, snd (cache_set (cs_env S) (customers_page_cache_key p) (customer_page_json page) customers_page_cache_ttl s)))"

definition get_customers :: "customer_service \<Rightarrow> customer_params \<Rightarrow> (customer_db, customer_error, customer_page) prog" where
  "get_customers S params =
     (let p = clamp_params params
      in if lc_email p \<noteq> '''' then list_customer_rows S p
         else (\<lambda>s. case cache_get (cs_env S) (customers_page_cache_key p) s of
             (Inl e, t) \<Rightarrow> list_and_cache S p t
           | (Inr v, t) \<Rightarrow> (case decode_customer_page v of
                 None \<Rightarrow> list_and_cache S p t
               | Some page \<Rightarrow> (Inr page, t))))"

end
