(* ===== verification/CustomerProofs.thy ===== *)
theory CustomerProofs
  imports CustomerService Transactions
begin

text \<open>The invariant of customer-service's tables, that every operation keeps it, and that a failed transaction
  changes nothing: customer-service's instance of the transaction contract.\<close>

section \<open>The invariant\<close>

definition customers_ok :: "customer_row list \<Rightarrow> int \<Rightarrow> bool" where
  "customers_ok rows n \<longleftrightarrow> 0 < n \<and> distinct (map cw_id rows) \<and>
     (\<forall>r \<in> set rows. 0 < cw_id r \<and> cw_id r < n \<and> customer_status_ok (cw_status r)) \<and>
     distinct (map cw_email rows) \<and> distinct (filter (\<lambda>u. u \<noteq> None) (map cw_user_id rows))"

definition customer_inv :: "customer_db \<Rightarrow> bool" where
  "customer_inv s \<longleftrightarrow> customers_ok (customer_rows s) (cw_seq s) \<and> outbox_ok s"

lemma customer_inv_tick [simp]: "customer_inv (step_tick s) = customer_inv s"
  by (simp add: customer_inv_def)

lemma tick_free_customer_inv [simp]: "tick_free customer_inv"
  by (simp add: tick_free_def customer_inv_def)

section \<open>Transactions\<close>

definition customer_later :: "customer_db \<Rightarrow> customer_db \<Rightarrow> bool" where
  "customer_later s t \<longleftrightarrow> cw_seq s \<le> cw_seq t \<and> outbox_seq s \<le> outbox_seq t \<and> kafka_log t = kafka_log s \<and>
     cache_entries t = cache_entries s"

definition customer_same :: "customer_db \<Rightarrow> customer_db \<Rightarrow> bool" where
  "customer_same s t \<longleftrightarrow> customer_rows t = customer_rows s \<and> outbox_rows t = outbox_rows s \<and>
     kafka_log t = kafka_log s \<and> cache_entries t = cache_entries s"

lemma customers_ok_mono: "customers_ok rows n \<Longrightarrow> n \<le> m \<Longrightarrow> customers_ok rows m"
  by (auto simp: customers_ok_def)

interpretation customer_tx: transactional customer_restore customer_later customer_same customer_inv
proof unfold_locales
  fix s t :: customer_db
  assume i: "customer_inv s" and l: "customer_later s t"
  have "outbox_ok (customer_restore s t)"
    by (rule outbox_ok_cong [of s]) (use i l in \<open>simp_all add: customer_inv_def customer_later_def\<close>)
  then show "customer_inv (customer_restore s t)"
    using i l customers_ok_mono [of "customer_rows s" "cw_seq s" "cw_seq t"]
    by (simp add: customer_inv_def customer_later_def)
qed (auto simp: customer_later_def customer_same_def)

lemma reads_only_customer [keeps_intros]:
  "reads_only (find_customer S P)" "reads_only (get_customer_by_id S cid)" "reads_only (get_by_user_id S uid)"
  "reads_only (list_customer_rows S p)" "reads_only (customer_update_failure S cid)"
proof -
  show f: "reads_only (find_customer S P)" for P unfolding find_customer_def by (intro keeps_intros)
  show "reads_only (get_customer_by_id S cid)" unfolding get_customer_by_id_def by (rule f)
  have "reads_only (sql (cs_env S) (\<lambda>s. (Inl bad_uuid :: db_error + customer_entity, s)))"
    by (auto simp: reads_only_def sql_def step_tick_set split: option.splits)
  then show "reads_only (get_by_user_id S uid)" unfolding get_by_user_id_def by (intro keeps_intros f)
  show "reads_only (list_customer_rows S p)" "reads_only (customer_update_failure S cid)"
    unfolding list_customer_rows_def customer_update_failure_def by (intro keeps_intros)+
qed

lemma grows_customer_writes:
  "customer_tx.grows (create_customer_row S c)" "customer_tx.grows (soft_delete S cid)"
  "customer_tx.grows (link_user_by_email S uid email)" "customer_tx.grows (update_customer_row S c)"
  "customer_tx.grows (write_customer_event S topic etype cid t p)"
proof -
  show "customer_tx.grows (create_customer_row S c)" unfolding create_customer_row_def
    by (intro customer_tx.grows_intros customer_tx.grows_sql) (simp add: insert_customer_def Let_def customer_later_def split: option.splits)
  show "customer_tx.grows (soft_delete S cid)" unfolding soft_delete_def
    by (intro customer_tx.grows_intros customer_tx.grows_sql) (simp add: customer_later_def)
  show "customer_tx.grows (link_user_by_email S uid email)" unfolding link_user_by_email_def
    by (intro customer_tx.grows_intros customer_tx.grows_sql) (simp add: link_statement_def customer_later_def split: option.splits list.splits)
  show "customer_tx.grows (update_customer_row S c)" unfolding update_customer_row_def
    by (intro customer_tx.grows_intros customer_tx.grows_sql customer_tx.grows_reads_only reads_only_customer)
      (simp add: customer_update_statement_def customer_later_def split: list.splits option.splits)
  show "customer_tx.grows (write_customer_event S topic etype cid t p)"
    unfolding write_customer_event_def new_customer_event_def outbox_create_def
    by (intro customer_tx.grows_intros customer_tx.grows_sql) (simp add: customer_later_def)
qed

lemma grows_claim: "customer_tx.grows (claim_or_create S uid email)"
proof (rule customer_tx.growsI)
  fix s r t
  assume run: "claim_or_create S uid email s = (r, t)"
  obtain q u where q: "link_user_by_email S uid email s = (q, u)" by fastforce
  have l: "customer_later s u" by (rule customer_tx.growsD [OF grows_customer_writes(3) q])
  have c: "customer_tx.grows (on_ok (create_customer_row S (sign_up uid email)) (\<lambda>c. ok (c, CustomerCreated, topic_customer_created)))"
    by (intro customer_tx.grows_intros grows_customer_writes)
  show "customer_later s t"
  proof (cases "q = Inl CErrNotFound")
    case True
    then show ?thesis using run q customer_tx.later_trans [OF l customer_tx.growsD [OF c]] by (simp add: claim_or_create_def)
  next
    case False
    then show ?thesis using run q l by (cases q) (auto simp: claim_or_create_def)
  qed
qed

lemma grows_customer_bodies:
  "customer_tx.grows (delete_tx S cid)" "customer_tx.grows (update_profile_tx S c)"
  "customer_tx.grows (create_customer_tx S c)" "customer_tx.grows (link_tx S uid email)"
proof -
  show "customer_tx.grows (delete_tx S cid)" "customer_tx.grows (create_customer_tx S c)"
    unfolding delete_tx_def create_customer_tx_def by (intro customer_tx.grows_intros grows_customer_writes)+
  show "customer_tx.grows (update_profile_tx S c)" unfolding update_profile_tx_def
    by (intro customer_tx.grows_intros grows_customer_writes customer_tx.grows_reads_only reads_only_customer)
  show "customer_tx.grows (link_tx S uid email)" unfolding link_tx_def
    by (intro customer_tx.grows_on_ok grows_claim)
      (auto split: prod.splits intro!: customer_tx.grows_intros grows_customer_writes)
qed

section \<open>Rows\<close>

lemma customer_violation_None:
  "customer_violation r others = None \<longleftrightarrow> customer_status_ok (cw_status r) \<and> cw_email r \<notin> cw_email ` set others \<and>
     (cw_user_id r \<noteq> None \<longrightarrow> cw_user_id r \<notin> cw_user_id ` set others)"
  by (auto simp: customer_violation_def)

lemma customers_ok_new:
  assumes "customers_ok rows n" "customer_violation r rows = None" "cw_id r = n"
  shows "customers_ok (rows @ [r]) (n + 1)"
proof -
  have "cw_id r \<notin> cw_id ` set rows" using assms(1,3) by (force simp: customers_ok_def)
  moreover have "\<forall>q \<in> set rows. cw_id q < n + 1" using assms(1) by (force simp: customers_ok_def)
  moreover have "cw_email r \<notin> cw_email ` set rows" "cw_user_id r \<noteq> None \<Longrightarrow> cw_user_id r \<notin> cw_user_id ` set rows"
    "customer_status_ok (cw_status r)" using assms(2) by (simp_all add: customer_violation_None)
  ultimately show ?thesis using assms(1,3) by (simp add: customers_ok_def)
qed

lemma customers_ok_replace:
  assumes ok: "customers_ok rows n" and v: "customer_violation r' (filter (\<lambda>q. cw_id q \<noteq> cw_id r) rows) = None"
    and r: "r \<in> set rows" "cw_id r' = cw_id r"
  shows "customers_ok (map (\<lambda>q. if cw_id q = cw_id r then r' else q) rows) n"
proof -
  have d: "distinct (map cw_id rows)" "distinct (map cw_email rows)" "distinct (filter (\<lambda>u. u \<noteq> None) (map cw_user_id rows))"
    using ok by (simp_all add: customers_ok_def)
  have "map cw_id (map (\<lambda>q. if cw_id q = cw_id r then r' else q) rows) = map cw_id rows" using r(2) by simp
  moreover have "distinct (filter (\<lambda>_. True) (map cw_email (map (\<lambda>q. if cw_id q = cw_id r then r' else q) rows)))"
    by (rule distinct_replaced) (use d v in \<open>simp_all add: customer_violation_None\<close>)
  moreover have "distinct (filter (\<lambda>u. u \<noteq> None) (map cw_user_id (map (\<lambda>q. if cw_id q = cw_id r then r' else q) rows)))"
    by (rule distinct_replaced) (use d v in \<open>simp_all add: customer_violation_None\<close>)
  ultimately show ?thesis using ok v r unfolding customers_ok_def by (auto simp del: map_map simp: customer_violation_None)
qed

lemma only_customer: "customers_ok rows n \<Longrightarrow> q \<in> set rows \<Longrightarrow> r \<in> set rows \<Longrightarrow> cw_id q = cw_id r \<Longrightarrow> q = r"
  by (simp add: customers_ok_def distinct_map inj_on_def)

lemma only_email: "customers_ok rows n \<Longrightarrow> q \<in> set rows \<Longrightarrow> r \<in> set rows \<Longrightarrow> cw_email q = cw_email r \<Longrightarrow> q = r"
  by (simp add: customers_ok_def distinct_map inj_on_def)

lemma only_user:
  assumes "customers_ok rows n" "q \<in> set rows" "r \<in> set rows" "cw_user_id q = Some u" "cw_user_id r = Some u"
  shows "q = r"
proof -
  have "distinct (map cw_user_id (filter (\<lambda>r. cw_user_id r \<noteq> None) rows))"
    using assms(1) by (simp add: customers_ok_def filter_map o_def)
  then have "inj_on cw_user_id (set (filter (\<lambda>r. cw_user_id r \<noteq> None) rows))" by (simp add: distinct_map)
  then show ?thesis by (rule inj_onD) (use assms(2-5) in simp_all)
qed

text \<open>An update of the one row a condition picks.\<close>

lemma map_one_row:
  assumes "r \<in> set rows" "P r" "\<And>q. q \<in> set rows \<Longrightarrow> P q \<Longrightarrow> q = r" "\<And>q. q \<in> set rows \<Longrightarrow> cw_id q = cw_id r \<Longrightarrow> q = r"
  shows "map (\<lambda>q. if P q then f q else q) rows = map (\<lambda>q. if cw_id q = cw_id r then f r else q) rows"
proof (rule map_cong [OF refl])
  fix q
  assume q: "q \<in> set rows"
  show "(if P q then f q else q) = (if cw_id q = cw_id r then f r else q)"
  proof (cases "P q")
    case True
    then have "q = r" by (rule assms(3) [OF q])
    then show ?thesis using assms(2) by simp
  next
    case False
    then have "cw_id q \<noteq> cw_id r" using assms(2) assms(4) [OF q] by metis
    then show ?thesis using False by simp
  qed
qed

section \<open>Statements\<close>

lemma insert_customer_Inr:
  assumes "insert_customer S c s = (Inr i, t)"
  obtains r0 r where "to_customer_row S c = Some r0" "r = r0\<lparr>cw_id := cw_seq s\<rparr>" "ct_id c = 0" "i = cw_seq s"
    "customer_violation r (customer_rows s) = None" "t = s\<lparr>cw_seq := cw_seq s + 1, customer_rows := customer_rows s @ [r]\<rparr>"
proof (cases "to_customer_row S c")
  case (Some r0)
  let ?r = "r0\<lparr>cw_id := cw_seq s\<rparr>"
  have z: "ct_id c = 0" using assms Some by (simp add: insert_customer_def split: if_splits)
  then have v: "customer_violation ?r (customer_rows s) = None"
    using assms Some by (simp add: insert_customer_def Let_def split: option.splits)
  have "insert_customer S c s = (Inr (cw_seq s), s\<lparr>cw_seq := cw_seq s + 1, customer_rows := customer_rows s @ [?r]\<rparr>)"
    using Some z v by (simp add: insert_customer_def Let_def)
  then have e: "(Inr i :: db_error + int, t) = (Inr (cw_seq s), s\<lparr>cw_seq := cw_seq s + 1, customer_rows := customer_rows s @ [?r]\<rparr>)"
    by (rule trans [OF assms [symmetric]])
  from e have i: "i = cw_seq s" by simp
  from e have t: "t = s\<lparr>cw_seq := cw_seq s + 1, customer_rows := customer_rows s @ [?r]\<rparr>" by simp
  from i v t show thesis by (rule that [OF Some refl z])
qed (use assms in \<open>simp add: insert_customer_def\<close>)

lemma stamped_sel [simp]:
  "ct_id (stamped S t c) = ct_id c" "ct_user_id (stamped S t c) = ct_user_id c" "ct_email (stamped S t c) = ct_email c"
  "ct_name (stamped S t c) = ct_name c" "ct_phone (stamped S t c) = ct_phone c" "ct_status (stamped S t c) = ct_status c"
  "ct_birth_day (stamped S t c) = ct_birth_day c"
  by (simp_all add: stamped_def)

lemma create_customer_row_Inr:
  assumes "create_customer_row S c s = (Inr x, t)"
  obtains c1 r0 r n where "c1 = stamped S (clock (cs_env S) (tick s)) c" "to_customer_row S c1 = Some r0"
    "r = r0\<lparr>cw_id := cw_seq s\<rparr>" "ct_id c = 0" "x = c1\<lparr>ct_id := cw_seq s\<rparr>" "customer_violation r (customer_rows s) = None"
    "t = s\<lparr>tick := n, cw_seq := cw_seq s + 1, customer_rows := customer_rows s @ [r]\<rparr>"
proof -
  let ?c = "stamped S (clock (cs_env S) (tick s)) c"
  obtain i where i: "insert_customer S ?c (step_tick (step_tick s)) = (Inr i, t)" "x = ?c\<lparr>ct_id := i\<rparr>"
    using assms by (auto simp: create_customer_row_def on_ok_Inr now_run sql_Inr)
  obtain r0 r where r: "to_customer_row S ?c = Some r0" "r = r0\<lparr>cw_id := cw_seq (step_tick (step_tick s))\<rparr>" "ct_id ?c = 0"
    "i = cw_seq (step_tick (step_tick s))" "customer_violation r (customer_rows (step_tick (step_tick s))) = None"
    "t = (step_tick (step_tick s))\<lparr>cw_seq := cw_seq (step_tick (step_tick s)) + 1,
        customer_rows := customer_rows (step_tick (step_tick s)) @ [r]\<rparr>"
    by (rule insert_customer_Inr [OF i(1)])
  show thesis
    by (rule that [OF refl r(1), of r "Suc (Suc (tick s))"]) (use r i(2) in \<open>simp_all add: step_tick_def\<close>)
qed

lemma to_customer_row_sel:
  assumes "to_customer_row S c = Some r"
  shows "cw_email r = ct_email c" "cw_name r = ct_name c" "cw_status r = ct_status c" "cw_phone r = ct_phone c"
    "cw_deleted r = None" "cw_user_id r = (if ct_user_id c = '''' then None else cs_uuid S (ct_user_id c))"
    "ct_user_id c \<noteq> '''' \<Longrightarrow> cw_user_id r \<noteq> None" "cw_updated r = db_time (cs_env S) (sp_time (ct_updated c))"
  using assms by (auto simp: to_customer_row_def split: if_splits)

lemma find_customer_Inr:
  assumes "find_customer S P s = (Inr x, t)"
  obtains r where "r \<in> set (customer_rows s)" "P r" "live r" "x = to_customer S r" "t = step_tick s"
proof -
  let ?rs = "sort_key cw_id (filter (\<lambda>r. P r \<and> live r) (customer_rows s))"
  obtain r rs where r: "take 1 ?rs = r # rs" "x = to_customer S r" "t = step_tick s"
    using assms by (auto simp: find_customer_def on_ok_Inr query_Inr split: list.splits)
  have "r \<in> set (take 1 ?rs)" unfolding r(1) by simp
  then have "r \<in> set ?rs" by (rule in_set_takeD)
  then have "r \<in> set (customer_rows s)" "P r" "live r" by auto
  then show thesis using r(2,3) by (rule that)
qed

lemma find_customer_missing:
  assumes "find_customer S P s = (Inl CErrNotFound, t)"
  shows "t = step_tick s" "\<forall>r \<in> set (customer_rows s). P r \<longrightarrow> \<not> live r"
proof -
  let ?rs = "sort_key cw_id (filter (\<lambda>r. P r \<and> live r) (customer_rows s))"
  have n: "take 1 ?rs = []" "t = step_tick s"
    using assms by (auto simp: find_customer_def on_ok_Inl query_Inr map_err_Inl split: list.splits)
  then show "t = step_tick s" by simp
  have "?rs = []" using n(1) by (cases ?rs) simp_all
  then have "set ?rs = {}" by (simp only: list.set)
  then show "\<forall>r \<in> set (customer_rows s). P r \<longrightarrow> \<not> live r" by auto
qed

lemma soft_delete_Inr:
  assumes "soft_delete S cid s = (Inr u, t)"
  obtains n d where "t = s\<lparr>tick := n, customer_rows := map (\<lambda>r. if cw_id r = cid \<and> live r
        then r\<lparr>cw_deleted := Some d\<rparr> else r) (customer_rows s)\<rparr>"
    "\<exists>r \<in> set (customer_rows s). cw_id r = cid \<and> live r"
proof -
  let ?d = "db_time (cs_env S) (clock (cs_env S) (tick s))"
  have "t = s\<lparr>tick := Suc (Suc (tick s)), customer_rows := map (\<lambda>r. if cw_id r = cid \<and> live r
        then r\<lparr>cw_deleted := Some ?d\<rparr> else r) (customer_rows s)\<rparr>"
    "filter (\<lambda>r. cw_id r = cid \<and> live r) (customer_rows s) \<noteq> []"
    using assms by (auto simp: soft_delete_def on_ok_Inr now_run sql_Inr step_tick_def split: if_splits)
  then show thesis by (intro that) (auto simp: filter_empty_conv)
qed

lemma link_statement_Inr:
  assumes "link_statement S t0 uid email s = (Inr (r' # rs), t)"
  obtains u r where "cs_uuid S uid = Some u" "filter (unlinked email) (customer_rows s) = [r]"
    "Some u \<notin> cw_user_id ` set (customer_rows s)" "r' = link_row (cs_env S) t0 u r"
    "t = s\<lparr>customer_rows := map (\<lambda>q. if unlinked email q then link_row (cs_env S) t0 u q else q) (customer_rows s)\<rparr>"
  using assms by (auto simp: link_statement_def split: option.splits list.splits if_splits)

lemma link_user_by_email_Inr:
  assumes "link_user_by_email S uid email s = (Inr x, t)" "customers_ok (customer_rows s) k"
  obtains r r' u n where "r \<in> set (customer_rows s)" "unlinked email r" "cs_uuid S uid = Some u"
    "r' = link_row (cs_env S) (clock (cs_env S) (tick s)) u r" "x = to_customer S r'"
    "Some u \<notin> cw_user_id ` set (customer_rows s)"
    "t = s\<lparr>tick := n, customer_rows := map (\<lambda>q. if cw_id q = cw_id r then r' else q) (customer_rows s)\<rparr>"
proof -
  let ?t0 = "clock (cs_env S) (tick s)"
  obtain qs t1 where qs: "link_statement S ?t0 uid email (step_tick (step_tick s)) = (Inr qs, t1)"
    "(case qs of [] \<Rightarrow> fail CErrNotFound | r # _ \<Rightarrow> ok (to_customer S r)) t1 = (Inr x, t)"
    using assms(1) unfolding link_user_by_email_def on_ok_Inr now_run map_err_Inr sql_Inr sum.inject by auto
  obtain q rs where q: "link_statement S ?t0 uid email (step_tick (step_tick s)) = (Inr (q # rs), t)" "x = to_customer S q"
    using qs by (cases qs) simp_all
  obtain u r where u: "cs_uuid S uid = Some u"
    and r0: "filter (unlinked email) (customer_rows (step_tick (step_tick s))) = [r]"
      "Some u \<notin> cw_user_id ` set (customer_rows (step_tick (step_tick s)))" "q = link_row (cs_env S) ?t0 u r"
      "t = (step_tick (step_tick s))\<lparr>customer_rows := map (\<lambda>q. if unlinked email q then link_row (cs_env S) ?t0 u q else q)
         (customer_rows (step_tick (step_tick s)))\<rparr>"
    by (rule link_statement_Inr [OF q(1)])
  have r: "filter (unlinked email) (customer_rows s) = [r]" "Some u \<notin> cw_user_id ` set (customer_rows s)"
      "x = to_customer S (link_row (cs_env S) ?t0 u r)"
      "t = (step_tick (step_tick s))\<lparr>customer_rows := map (\<lambda>q. if unlinked email q then link_row (cs_env S) ?t0 u q else q) (customer_rows s)\<rparr>"
    using r0 q(2) by simp_all
  have m: "r \<in> set (customer_rows s)" "unlinked email r" using arg_cong [OF r(1), of set] by auto
  have "map (\<lambda>q. if unlinked email q then link_row (cs_env S) ?t0 u q else q) (customer_rows s) =
      map (\<lambda>q. if cw_id q = cw_id r then link_row (cs_env S) ?t0 u r else q) (customer_rows s)"
  proof (rule map_one_row [of r "customer_rows s" "unlinked email", OF m])
    fix q
    assume q: "q \<in> set (customer_rows s)"
    show "q = r" if "unlinked email q"
      by (rule only_email [OF assms(2) q m(1)]) (use that m(2) in \<open>simp add: unlinked_def\<close>)
    show "q = r" if "cw_id q = cw_id r" by (rule only_customer [OF assms(2) q m(1) that])
  qed
  then show thesis using r(4)
    by (intro that [OF m u refl r(3) r(2), of "Suc (Suc (tick s))"]) (simp add: step_tick_def)
qed

lemma update_customer_row_Inr:
  assumes "update_customer_row S c s = (Inr u, t)" "customers_ok (customer_rows s) k"
  obtains r m r' n where "r \<in> set (customer_rows s)" "customer_version S c r" "to_customer_row S c = Some m"
    "r' = set_customer_columns S (clock (cs_env S) (tick s)) c m r"
    "customer_violation r' (filter (\<lambda>q. cw_id q \<noteq> cw_id r) (customer_rows s)) = None"
    "t = s\<lparr>tick := n, customer_rows := map (\<lambda>q. if cw_id q = cw_id r then r' else q) (customer_rows s)\<rparr>"
proof -
  let ?t0 = "clock (cs_env S) (tick s)"
  obtain i u1 where u: "customer_update_statement S ?t0 c (step_tick (step_tick s)) = (Inr i, u1)"
    "(if i = 0 then customer_update_failure S (ct_id c) else ok ()) u1 = (Inr u, t)"
    using assms(1) by (auto simp: update_customer_row_def on_ok_Inr now_run sql_Inr)
  have i: "i \<noteq> 0" using u(2) by (auto simp: customer_update_failure_def on_ok_Inr split: if_splits)
  obtain m where m: "to_customer_row S c = Some m"
    using u(1) by (auto simp: customer_update_statement_def split: option.splits)
  obtain r rs where rs: "filter (customer_version S c) (customer_rows s) = r # rs"
    using u(1) i by (auto simp: customer_update_statement_def m split: list.splits)
  have r: "r \<in> set (customer_rows s)" "customer_version S c r" using arg_cong [OF rs, of set] by auto
  let ?r = "set_customer_columns S ?t0 c m r"
  have v: "customer_violation ?r (filter (\<lambda>q. cw_id q \<noteq> ct_id c) (customer_rows s)) = None"
    "u1 = (step_tick (step_tick s))\<lparr>customer_rows := map (\<lambda>q. if customer_version S c q then set_customer_columns S ?t0 c m q else q) (customer_rows s)\<rparr>"
    using u(1) by (auto simp: customer_update_statement_def m rs split: option.splits)
  have e: "map (\<lambda>q. if customer_version S c q then set_customer_columns S ?t0 c m q else q) (customer_rows s) =
      map (\<lambda>q. if cw_id q = cw_id r then ?r else q) (customer_rows s)"
  proof (rule map_one_row [of r "customer_rows s" "customer_version S c", OF r])
    fix q
    assume q: "q \<in> set (customer_rows s)"
    show "q = r" if "cw_id q = cw_id r" by (rule only_customer [OF assms(2) q r(1) that])
    then show "q = r" if "customer_version S c q" using that r(2) by (simp add: customer_version_def)
  qed
  have "ct_id c = cw_id r" using r(2) by (simp add: customer_version_def)
  then have v1: "customer_violation ?r (filter (\<lambda>q. cw_id q \<noteq> cw_id r) (customer_rows s)) = None" using v(1) by simp
  have "t = s\<lparr>tick := Suc (Suc (tick s)), customer_rows := map (\<lambda>q. if cw_id q = cw_id r then ?r else q) (customer_rows s)\<rparr>"
    using u(2) i v(2) unfolding e by (simp add: step_tick_def)
  then show thesis by (rule that [OF r m refl v1])
qed

section \<open>Events\<close>

definition customer_message :: "customer_service \<Rightarrow> string \<Rightarrow> customer_event_type \<Rightarrow> int \<Rightarrow> int \<Rightarrow> json \<Rightarrow> outbox_row \<Rightarrow> bool" where
  "customer_message S topic etype cid occurred payload r \<longleftrightarrow>
     ob_topic r = topic \<and> ob_key r = format_int cid \<and> ob_published r = None \<and>
     (\<exists>i. ob_payload r = JObj [(''event_id'', JStr i), (''event_type'', JStr (customer_event_text etype)),
        (''occurred_at'', time_json (new_time occurred)), (''customer'', payload)])"

lemma write_customer_event_Inr:
  assumes "write_customer_event S topic etype cid t0 p s = (Inr u, t)"
  obtains n r where "t = s\<lparr>tick := n, outbox_seq := outbox_seq s + 1, outbox_rows := outbox_rows s @ [r]\<rparr>"
    "ob_id r = outbox_seq s" "customer_message S topic etype cid t0 p r"
proof -
  let ?ev = "JObj [(''event_id'', JStr (uuid_at (cs_env S) (tick s))), (''event_type'', JStr (customer_event_text etype)),
        (''occurred_at'', time_json (new_time t0)), (''customer'', p)]"
  let ?r = "\<lparr>ob_id = outbox_seq s, ob_topic = topic, ob_key = format_int cid, ob_payload = ?ev,
               ob_created = db_time (cs_env S) (clock (cs_env S) (tick (step_tick s))), ob_published = None\<rparr>"
  have "t = s\<lparr>tick := Suc (Suc (Suc (tick s))), outbox_seq := outbox_seq s + 1, outbox_rows := outbox_rows s @ [?r]\<rparr>"
    using assms by (auto simp: write_customer_event_def new_customer_event_def on_ok_Inr new_uuid_run outbox_create_Inr
      new_message_def step_tick_def)
  then show thesis by (rule that) (simp_all add: customer_message_def)
qed

lemma customer_inv_event:
  assumes "write_customer_event S topic etype cid t0 p s = (Inr u, t)" "customer_inv s"
  shows "customer_inv t"
proof -
  obtain n r where r: "t = s\<lparr>tick := n, outbox_seq := outbox_seq s + 1, outbox_rows := outbox_rows s @ [r]\<rparr>"
    "ob_id r = outbox_seq s" "customer_message S topic etype cid t0 p r" by (rule write_customer_event_Inr [OF assms(1)])
  have "outbox_ok t"
    by (rule outbox_ok_append [of s t r]) (use assms(2) r in \<open>simp_all add: customer_inv_def customer_message_def\<close>)
  then show ?thesis using assms(2) unfolding r(1) by (simp add: customer_inv_def)
qed

lemma customer_inv_rows:
  assumes "customer_inv s" "customers_ok rows m"
  shows "customer_inv (s\<lparr>tick := n, cw_seq := m, customer_rows := rows\<rparr>)"
    "m = cw_seq s \<Longrightarrow> customer_inv (s\<lparr>tick := n, customer_rows := rows\<rparr>)"
proof -
  have "outbox_ok (s\<lparr>tick := n, cw_seq := m, customer_rows := rows\<rparr>)" "outbox_ok (s\<lparr>tick := n, customer_rows := rows\<rparr>)"
    using assms(1) by (auto intro!: outbox_ok_cong [of s] simp: customer_inv_def)
  then show "customer_inv (s\<lparr>tick := n, cw_seq := m, customer_rows := rows\<rparr>)"
    "m = cw_seq s \<Longrightarrow> customer_inv (s\<lparr>tick := n, customer_rows := rows\<rparr>)"
    using assms(2) by (simp_all add: customer_inv_def)
qed

section \<open>The statements keep the invariant\<close>

lemma customer_inv_create:
  assumes "create_customer_row S c s = (Inr x, t)" "customer_inv s"
  shows "customer_inv t"
proof -
  obtain c1 r0 r n where r: "to_customer_row S c1 = Some r0" "r = r0\<lparr>cw_id := cw_seq s\<rparr>"
    "customer_violation r (customer_rows s) = None"
    "t = s\<lparr>tick := n, cw_seq := cw_seq s + 1, customer_rows := customer_rows s @ [r]\<rparr>"
    by (rule create_customer_row_Inr [OF assms(1)])
  have "customers_ok (customer_rows s @ [r]) (cw_seq s + 1)"
    by (rule customers_ok_new [OF _ r(3)]) (use assms(2) r(2) in \<open>simp_all add: customer_inv_def\<close>)
  then show ?thesis unfolding r(4) by (rule customer_inv_rows(1) [OF assms(2)])
qed

lemma customer_inv_delete:
  assumes "soft_delete S cid s = (Inr u, t)" "customer_inv s"
  shows "customer_inv t"
proof -
  obtain n d where t: "t = s\<lparr>tick := n, customer_rows := map (\<lambda>r. if cw_id r = cid \<and> live r
        then r\<lparr>cw_deleted := Some d\<rparr> else r) (customer_rows s)\<rparr>" by (rule soft_delete_Inr [OF assms(1)])
  let ?f = "\<lambda>r. if cw_id r = cid \<and> live r then r\<lparr>cw_deleted := Some d\<rparr> else r"
  have m: "map cw_id (map ?f rows) = map cw_id rows" "map cw_email (map ?f rows) = map cw_email rows"
    "map cw_user_id (map ?f rows) = map cw_user_id rows" for rows by simp_all
  have "customers_ok (map ?f (customer_rows s)) (cw_seq s)"
    using assms(2) unfolding customer_inv_def customers_ok_def m by auto
  then show ?thesis unfolding t by (intro customer_inv_rows(2) [OF assms(2)]) simp_all
qed

lemma customer_inv_link:
  assumes "link_user_by_email S uid email s = (Inr x, t)" "customer_inv s"
  shows "customer_inv t"
proof -
  have ok: "customers_ok (customer_rows s) (cw_seq s)" using assms(2) by (simp add: customer_inv_def)
  obtain r r' u n where r: "r \<in> set (customer_rows s)" "unlinked email r"
    "r' = link_row (cs_env S) (clock (cs_env S) (tick s)) u r" "Some u \<notin> cw_user_id ` set (customer_rows s)"
    "t = s\<lparr>tick := n, customer_rows := map (\<lambda>q. if cw_id q = cw_id r then r' else q) (customer_rows s)\<rparr>"
    by (rule link_user_by_email_Inr [OF assms(1) ok])
  have "cw_email q \<noteq> cw_email r" if "q \<in> set (customer_rows s)" "cw_id q \<noteq> cw_id r" for q
    using only_email [OF ok that(1) r(1)] that(2) by auto
  then have "cw_email r \<notin> cw_email ` set (filter (\<lambda>q. cw_id q \<noteq> cw_id r) (customer_rows s))" by force
  moreover have "Some u \<notin> cw_user_id ` set (filter (\<lambda>q. cw_id q \<noteq> cw_id r) (customer_rows s))" using r(4) by auto
  moreover have "customer_status_ok (cw_status r)" using ok r(1) by (simp add: customers_ok_def)
  ultimately have "customer_violation r' (filter (\<lambda>q. cw_id q \<noteq> cw_id r) (customer_rows s)) = None"
    by (simp add: customer_violation_None r(3) link_row_def)
  then have "customers_ok (map (\<lambda>q. if cw_id q = cw_id r then r' else q) (customer_rows s)) (cw_seq s)"
    by (rule customers_ok_replace [OF ok _ r(1)]) (simp add: r(3) link_row_def)
  then show ?thesis unfolding r(5) by (intro customer_inv_rows(2) [OF assms(2)]) simp_all
qed

lemma customer_inv_update:
  assumes "update_customer_row S c s = (Inr u, t)" "customer_inv s"
  shows "customer_inv t"
proof -
  have ok: "customers_ok (customer_rows s) (cw_seq s)" using assms(2) by (simp add: customer_inv_def)
  obtain r m r' n where r: "r \<in> set (customer_rows s)" "r' = set_customer_columns S (clock (cs_env S) (tick s)) c m r"
    "customer_violation r' (filter (\<lambda>q. cw_id q \<noteq> cw_id r) (customer_rows s)) = None"
    "t = s\<lparr>tick := n, customer_rows := map (\<lambda>q. if cw_id q = cw_id r then r' else q) (customer_rows s)\<rparr>"
    by (rule update_customer_row_Inr [OF assms(1) ok])
  have "customers_ok (map (\<lambda>q. if cw_id q = cw_id r then r' else q) (customer_rows s)) (cw_seq s)"
    by (rule customers_ok_replace [OF ok r(3,1)]) (simp add: r(2) set_customer_columns_def)
  then show ?thesis unfolding r(4) by (intro customer_inv_rows(2) [OF assms(2)]) simp_all
qed

section \<open>Operations\<close>

lemma create_customer_tx_Inr:
  assumes "create_customer_tx S c s = (Inr x, t)"
  obtains t1 u where "create_customer_row S c s = (Inr x, t1)"
    "write_customer_event S topic_customer_created CustomerCreated (ct_id x) (sp_time (ct_created x)) (new_customer_state x) t1 = (Inr u, t)"
  using assms unfolding create_customer_tx_def run_simps by clarify (rule that; assumption)

lemma delete_tx_Inr:
  assumes "delete_tx S cid s = (Inr x, t)"
  obtains u t1 t0 where "soft_delete S cid s = (Inr u, t1)"
    "write_customer_event S topic_customer_delete CustomerDeleted cid t0 (customer_deletion cid t0) (step_tick t1) = (Inr x, t)"
  using assms unfolding delete_tx_def run_simps by clarify (rule that; assumption)

lemma update_profile_tx_Inr:
  assumes "update_profile_tx S c s = (Inr x, t)"
  obtains u t1 up t2 where "update_customer_row S c s = (Inr u, t1)"
    "\<not> clock (cs_env S) (tick t1) < sp_time (ct_birth_day c)" "get_customer_by_id S (ct_id c) (step_tick t1) = (Inr up, t2)"
    "write_customer_event S topic_customer_update CustomerUpdated (ct_id c) (sp_time (ct_updated up)) (new_customer_state up) t2 = (Inr x, t)"
  using assms unfolding update_profile_tx_def run_simps by clarify (rule that; assumption)

text \<open>Linking: the claimed row, or the created one.\<close>

lemma claim_or_create_Inr:
  assumes "claim_or_create S uid email s = (Inr y, t)"
  obtains (claimed) x where "y = (x, CustomerUpdated, topic_customer_update)" "link_user_by_email S uid email s = (Inr x, t)"
    | (created) x t1 where "y = (x, CustomerCreated, topic_customer_created)"
        "link_user_by_email S uid email s = (Inl CErrNotFound, t1)" "create_customer_row S (sign_up uid email) t1 = (Inr x, t)"
proof -
  obtain q t1 where q: "link_user_by_email S uid email s = (q, t1)" by fastforce
  show thesis
  proof (cases q)
    case (Inl e)
    then have e: "e = CErrNotFound" using assms q by (auto simp: claim_or_create_def split: if_splits)
    then obtain x where "create_customer_row S (sign_up uid email) t1 = (Inr x, t)" "y = (x, CustomerCreated, topic_customer_created)"
      using assms q Inl by (auto simp: claim_or_create_def on_ok_Inr)
    then show thesis using created q Inl e by blast
  next
    case (Inr x)
    then show thesis using assms q claimed by (auto simp: claim_or_create_def)
  qed
qed

lemma link_missing:
  assumes "link_user_by_email S uid email s = (Inl CErrNotFound, t)"
  shows "\<exists>n. t = s\<lparr>tick := n\<rparr>" "\<forall>r \<in> set (customer_rows s). \<not> unlinked email r"
proof -
  let ?m = "map_err customer_write_error (sql (cs_env S) (link_statement S (clock (cs_env S) (tick s)) uid email))"
  have "CErrNotFound \<noteq> customer_write_error d" for d by (simp add: customer_write_error_def)
  then have "?m (step_tick s) \<noteq> (Inl CErrNotFound, t)" by (auto simp: map_err_Inl)
  then obtain rows t1 where rows: "?m (step_tick s) = (Inr rows, t1)"
    "(case rows of [] \<Rightarrow> fail CErrNotFound | r # _ \<Rightarrow> ok (to_customer S r)) t1 = (Inl CErrNotFound, t)"
    using assms unfolding link_user_by_email_def on_ok_Inl now_run by auto
  then have "rows = []" "t = t1" by (cases rows; simp)+
  then have "link_statement S (clock (cs_env S) (tick s)) uid email (step_tick (step_tick s)) = (Inr [], t)"
    using rows(1) by (simp add: sql_Inr)
  then have "t = step_tick (step_tick s) \<and> filter (unlinked email) (customer_rows s) = []"
    by (auto simp: link_statement_def split: option.splits list.splits if_splits)
  then show "\<exists>n. t = s\<lparr>tick := n\<rparr>" "\<forall>r \<in> set (customer_rows s). \<not> unlinked email r"
    by (auto simp: step_tick_def filter_empty_conv)
qed

lemma link_tx_Inr:
  assumes "link_tx S uid email s = (Inr x, t)"
  obtains etype topic t1 u where "claim_or_create S uid email s = (Inr (x, etype, topic), t1)"
    "write_customer_event S topic etype (ct_id x) (sp_time (ct_updated x)) (new_customer_state x) t1 = (Inr u, t)"
proof -
  let ?f = "\<lambda>(c, etype, topic). on_ok (write_customer_event S topic etype (ct_id c) (sp_time (ct_updated c)) (new_customer_state c))
       (\<lambda>_. ok c)"
  have "\<exists>y t1. claim_or_create S uid email s = (Inr y, t1) \<and> ?f y t1 = (Inr x, t)"
    using assms unfolding link_tx_def by (rule iffD1 [OF on_ok_Inr])
  then obtain y t1 where y: "claim_or_create S uid email s = (Inr y, t1)" "?f y t1 = (Inr x, t)" by (elim exE conjE)
  obtain c etype topic where c: "y = (c, etype, topic)" by (cases y)
  obtain u where w: "write_customer_event S topic etype (ct_id c) (sp_time (ct_updated c)) (new_customer_state c) t1 = (Inr u, t)" "x = c"
    using y(2) by (auto simp: c on_ok_Inr)
  show thesis by (rule that [OF y(1) [unfolded c w(2) [symmetric]] w(1) [folded w(2)]])
qed

lemma customer_inv_claim:
  assumes "claim_or_create S uid email s = (Inr y, t)" "customer_inv s"
  shows "customer_inv t"
  using assms(1)
proof (cases rule: claim_or_create_Inr)
  case (claimed x)
  show ?thesis by (rule customer_inv_link [OF claimed(2) assms(2)])
next
  case (created x t1)
  obtain n where "t1 = s\<lparr>tick := n\<rparr>" using link_missing(1) [OF created(2)] by blast
  then have "customer_inv t1" using assms(2) by (simp add: customer_inv_def)
  then show ?thesis by (rule customer_inv_create [OF created(3)])
qed

lemma create_customer_keeps: "keeps customer_inv (create_customer S c)"
  unfolding create_customer_def
  by (rule customer_tx.tx_keeps [OF grows_customer_bodies(3)])
    (blast elim: create_customer_tx_Inr intro: customer_inv_create customer_inv_event)

lemma delete_profile_keeps: "keeps customer_inv (delete_profile S cid)"
  unfolding delete_profile_def
proof (rule customer_tx.tx_keeps [OF grows_customer_bodies(1)])
  fix s x t
  assume i: "customer_inv s" and run: "delete_tx S cid s = (Inr x, t)"
  obtain u t1 t0 where r: "soft_delete S cid s = (Inr u, t1)"
    "write_customer_event S topic_customer_delete CustomerDeleted cid t0 (customer_deletion cid t0) (step_tick t1) = (Inr x, t)"
    by (rule delete_tx_Inr [OF run])
  have "customer_inv (step_tick t1)" using customer_inv_delete [OF r(1) i] by simp
  then show "customer_inv t" by (rule customer_inv_event [OF r(2)])
qed

lemma update_profile_keeps: "keeps customer_inv (update_profile S cid c)"
proof -
  have "keeps customer_inv (run_in_tx (cs_env S) CErrDb customer_restore (update_profile_tx S d))" for d
  proof (rule customer_tx.tx_keeps [OF grows_customer_bodies(2)])
    fix s x t
    assume i: "customer_inv s" and run: "update_profile_tx S d s = (Inr x, t)"
    obtain u t1 up t2 where r: "update_customer_row S d s = (Inr u, t1)" "get_customer_by_id S (ct_id d) (step_tick t1) = (Inr up, t2)"
      "write_customer_event S topic_customer_update CustomerUpdated (ct_id d) (sp_time (ct_updated up)) (new_customer_state up) t2 = (Inr x, t)"
      by (rule update_profile_tx_Inr [OF run])
    have "customer_inv (step_tick t1)" using customer_inv_update [OF r(1) i] by simp
    then have "customer_inv t2"
      using keepsD [OF keeps_reads_only [OF tick_free_customer_inv reads_only_customer(2)] r(2)] by blast
    then show "customer_inv t" by (rule customer_inv_event [OF r(3)])
  qed
  then show ?thesis by (simp add: update_profile_def keeps_fail)
qed

lemma link_tx_keeps: "keeps customer_inv (run_in_tx (cs_env S) CErrDb customer_restore (link_tx S uid email))"
  by (rule customer_tx.tx_keeps [OF grows_customer_bodies(4)])
    (blast elim: link_tx_Inr intro: customer_inv_claim customer_inv_event)

text \<open>A linking either answers with the customer already linked, or is the transaction after a lookup that found
  nothing; only the latter writes.\<close>

lemma link_user_cases:
  assumes "link_user S uid email s = (r, t)"
  obtains (linked) n x where "r = Inr x" "get_by_user_id S uid s = (Inr x, t)" "t = s\<lparr>tick := n\<rparr>"
    | (refused) n e where "r = Inl e" "t = s\<lparr>tick := n\<rparr>"
    | (tx) n where "get_by_user_id S uid s = (Inl CErrNotFound, s\<lparr>tick := n\<rparr>)"
        "run_in_tx (cs_env S) CErrDb customer_restore (link_tx S uid email) (s\<lparr>tick := n\<rparr>) = (r, t)"
proof -
  obtain q u where q: "get_by_user_id S uid s = (q, u)" by fastforce
  obtain n where n: "u = s\<lparr>tick := n\<rparr>" using reads_onlyD [OF reads_only_customer(3) q] by blast
  show thesis
  proof (cases q)
    case (Inr x)
    then have "r = Inr x" "t = u" using assms q by (simp_all add: link_user_def)
    then show thesis using linked q n Inr by simp
  next
    case (Inl e)
    show thesis
    proof (cases "e = CErrNotFound")
      case True
      then show thesis using assms q n Inl tx by (simp add: link_user_def)
    next
      case False
      then have "r = Inl e" "t = u" using assms q Inl by (simp_all add: link_user_def)
      then show thesis using refused n by simp
    qed
  qed
qed

lemma customer_inv_set_tick [simp]: "customer_inv (s\<lparr>tick := n\<rparr>) = customer_inv s"
  by (simp add: customer_inv_def)

lemma link_user_keeps: "keeps customer_inv (link_user S uid email)"
proof (rule keepsI)
  fix s r t
  assume i: "customer_inv s" and run: "link_user S uid email s = (r, t)"
  from run show "customer_inv t"
  proof (cases rule: link_user_cases)
    case (tx n)
    then show ?thesis using keepsD [OF link_tx_keeps tx(2)] i by simp
  qed (use i in simp_all)
qed

section \<open>Reachable states\<close>

text \<open>What can happen to the database and the cache: a call of the service (a listing fills the cache), the cache
  dropping an entry, or one run of the relay. The environment varies from step to step.\<close>

datatype customer_operation =
    CCreate customer_service customer_entity
  | CUpdate customer_service int customer_entity
  | CDelete customer_service int
  | CLink customer_service string string
  | CList customer_service customer_params
  | CEvict string
  | CRelay env

fun run_customer :: "customer_operation \<Rightarrow> customer_db \<Rightarrow> customer_db" where
  "run_customer (CCreate S c) s = snd (create_customer S c s)"
| "run_customer (CUpdate S cid c) s = snd (update_profile S cid c s)"
| "run_customer (CDelete S cid) s = snd (delete_profile S cid s)"
| "run_customer (CLink S uid email) s = snd (link_user S uid email s)"
| "run_customer (CList S p) s = snd (get_customers S p s)"
| "run_customer (CEvict key) s = s\<lparr>cache_entries := filter (\<lambda>(k, v). k \<noteq> key) (cache_entries s)\<rparr>"
| "run_customer (CRelay E) s = relay_once (fetch_unpublished E) (mark_published E) (publish E) s"

definition empty_customer_tables :: "customer_db \<Rightarrow> bool" where
  "empty_customer_tables s \<longleftrightarrow> cw_seq s = 1 \<and> customer_rows s = [] \<and> cache_entries s = [] \<and> outbox_rows s = [] \<and> kafka_log s = []"

inductive customer_reachable :: "customer_db \<Rightarrow> bool" where
  migrated: "empty_customer_tables s \<Longrightarrow> customer_reachable s"
| operate: "customer_reachable s \<Longrightarrow> customer_reachable (run_customer x s)"

lemma empty_customer_inv: "empty_customer_tables s \<Longrightarrow> customer_inv s"
  by (simp add: empty_customer_tables_def customer_inv_def customers_ok_def outbox_ok_def outbox_valid_def
      outbox.delivered_def outbox_messages_def)

lemma relay_keeps_customer:
  assumes "customer_inv s"
  shows "customer_inv (relay_once (fetch_unpublished E) (mark_published E) (publish E) s)" (is "customer_inv ?t")
proof -
  obtain n rows l where t: "?t = s\<lparr>tick := n, outbox_rows := rows, kafka_log := l\<rparr>"
    using outbox_frame_update [OF relay_once_frame] by blast
  have "outbox_ok ?t" by (rule relay_once_ok) (use assms in \<open>simp add: customer_inv_def\<close>)
  then show ?thesis using assms unfolding t by (simp add: customer_inv_def)
qed

text \<open>A listing changes the cache and the clock only.\<close>

lemma list_and_cache_frame:
  assumes "list_and_cache S p s = (r, t)"
  shows "\<exists>n c. t = s\<lparr>tick := n, cache_entries := c\<rparr>"
proof -
  obtain q u where q: "list_customer_rows S p s = (q, u)" by fastforce
  obtain n where n: "u = s\<lparr>tick := n\<rparr>" using reads_onlyD [OF reads_only_customer(4) q] by blast
  have set: "\<exists>m c. snd (cache_set E k v ttl u) = u\<lparr>tick := m, cache_entries := c\<rparr>" for E k v ttl
  proof (cases "fault E (tick u)")
    case (Some msg)
    have "snd (cache_set E k v ttl u) = u\<lparr>tick := Suc (tick u), cache_entries := cache_entries u\<rparr>"
      using Some by (simp add: cache_set_def step_tick_def)
    then show ?thesis by (intro exI)
  next
    case None
    then have "snd (cache_set E k v ttl u) =
        u\<lparr>tick := Suc (tick u), cache_entries := (k, v, clock E (tick u) + ttl) # cache_entries u\<rparr>"
      by (simp add: cache_set_def step_tick_def)
    then show ?thesis by (intro exI)
  qed
  show ?thesis
  proof (cases q)
    case (Inl e)
    then have "t = u" using assms q by (simp add: list_and_cache_def on_ok_def)
    then have "t = s\<lparr>tick := n, cache_entries := cache_entries s\<rparr>" unfolding n by simp
    then show ?thesis by (intro exI)
  next
    case (Inr page)
    obtain m c where "snd (cache_set (cs_env S) (customers_page_cache_key p) (customer_page_json page)
        customers_page_cache_ttl u) = u\<lparr>tick := m, cache_entries := c\<rparr>" using set by blast
    then have "t = s\<lparr>tick := m, cache_entries := c\<rparr>" using assms q n Inr by (simp add: list_and_cache_def on_ok_def)
    then show ?thesis by (intro exI)
  qed
qed

lemma get_customers_frame:
  assumes "get_customers S params s = (r, t)"
  shows "\<exists>n c. t = s\<lparr>tick := n, cache_entries := c\<rparr>"
proof -
  let ?p = "clamp_params params"
  have same: "\<exists>n' c. s\<lparr>tick := n\<rparr> = s\<lparr>tick := n', cache_entries := c\<rparr>" for n by (intro exI [of _ n] exI [of _ "cache_entries s"]) simp
  show ?thesis
  proof (cases "lc_email ?p = ''''")
    case False
    then have "list_customer_rows S ?p s = (r, t)" using assms by (simp add: get_customers_def Let_def)
    then show ?thesis using reads_onlyD [OF reads_only_customer(4)] same by metis
  next
    case True
    obtain q u where q: "cache_get (cs_env S) (customers_page_cache_key ?p) s = (q, u)" by fastforce
    have u: "u = s\<lparr>tick := Suc (tick s)\<rparr>" using q by (simp add: cache_get_def step_tick_def)
    have "t = u \<or> list_and_cache S ?p u = (r, t)"
      using assms q True by (auto simp: get_customers_def Let_def split: sum.splits option.splits)
    then show ?thesis
    proof
      assume "list_and_cache S ?p u = (r, t)"
      from list_and_cache_frame [OF this] show ?thesis unfolding u by auto
    qed (use u same in simp)
  qed
qed

lemma customer_inv_frame: "customer_inv (s\<lparr>tick := n, cache_entries := c\<rparr>) = customer_inv s"
  "customer_inv (s\<lparr>cache_entries := c\<rparr>) = customer_inv s"
  by (simp_all add: customer_inv_def outbox_ok_def outbox_valid_def outbox.delivered_def outbox_messages_def)

lemma reachable_customer_inv: "customer_reachable s \<Longrightarrow> customer_inv s"
proof (induction rule: customer_reachable.induct)
  case (operate s x)
  have "customer_inv (snd (get_customers S p s))" for S p
    using get_customers_frame [of S p s] operate(2) customer_inv_frame(1) by (metis prod.collapse)
  then show ?case using operate(2)
    by (cases x) (simp_all add: keeps_snd create_customer_keeps update_profile_keeps delete_profile_keeps link_user_keeps
        relay_keeps_customer customer_inv_frame)
qed (rule empty_customer_inv)

section \<open>Failures\<close>

lemma customer_same_set_tick: "customer_same (s\<lparr>tick := n\<rparr>) t \<Longrightarrow> customer_same s t"
  by (simp add: customer_same_def)

lemma customer_tx_fails:
  "customer_tx.grows m \<Longrightarrow> run_in_tx E CErrDb customer_restore m s = (Inl e, t) \<Longrightarrow> customer_same s t"
  by (rule customer_tx.tx_failed)

lemma create_customer_fails: "create_customer S c s = (Inl e, t) \<Longrightarrow> customer_same s t"
  unfolding create_customer_def by (rule customer_tx_fails [OF grows_customer_bodies(3)])

lemma delete_profile_fails: "delete_profile S cid s = (Inl e, t) \<Longrightarrow> customer_same s t"
  unfolding delete_profile_def by (rule customer_tx_fails [OF grows_customer_bodies(1)])

lemma update_profile_fails: "update_profile S cid c s = (Inl e, t) \<Longrightarrow> customer_same s t"
  by (auto simp: update_profile_def customer_same_def split: if_splits dest: customer_tx_fails [OF grows_customer_bodies(2)])

lemma link_user_fails:
  assumes "link_user S uid email s = (Inl e, t)"
  shows "customer_same s t"
  using assms
proof (cases rule: link_user_cases)
  case (tx n)
  show ?thesis by (rule customer_same_set_tick [OF customer_tx_fails [OF grows_customer_bodies(4) tx(2)]])
qed (simp_all add: customer_same_def)

end
