(* ===== verification/CustomerHttp.thy ===== *)
theory CustomerHttp
  imports CustomerProofs
begin

text \<open>customer-service's HTTP side (\<open>http/dto\<close>, \<open>http/handler/customer-handler.go\<close>, \<open>http/server.go\<close>) and its
  consumer of identity-service's user events (\<open>domain/events/consumer.go\<close>, \<open>http/handler/consumer-handler.go\<close>). The
  JSON parser, the texts of a binding error and of a database error, and the validator's notion of an email address
  are fields of the server. The middleware is \<open>HttpAuth\<close>'s.\<close>

record customer_server = auth_server +
  hc_service :: customer_service
  hc_parse :: "string \<Rightarrow> json option"
  hc_invalid :: "string \<Rightarrow> string"
  hc_db_text :: "db_error \<Rightarrow> string"
  hc_email :: "string \<Rightarrow> bool"

type_synonym customer_handler = "customer_db \<Rightarrow> http_response \<times> customer_db"

section \<open>Bodies\<close>

record create_customer_dto =
  dc_name :: string
  dc_email :: string
  dc_phone :: string
  dc_birth_day :: stamp

record update_profile_dto =
  dp_name :: string
  dp_birth_day :: stamp
  dp_updated :: stamp

definition decode_create_customer :: "customer_server \<Rightarrow> json \<Rightarrow> create_customer_dto option" where
  "decode_create_customer V j =
     (case (string_field ''name'' j, string_field ''email'' j, string_field ''phone'' j, stamp_field ''birth_day'' j) of
        (Some name, Some email, Some phone, Some birth) \<Rightarrow>
          if \<not> is_object j \<or> name = '''' \<or> email = '''' \<or> \<not> hc_email V email \<or> unset_stamp birth then None
          else Some \<lparr>dc_name = name, dc_email = email, dc_phone = phone, dc_birth_day = birth\<rparr>
      | _ \<Rightarrow> None)"

definition decode_update_profile :: "json \<Rightarrow> update_profile_dto option" where
  "decode_update_profile j =
     (case (string_field ''name'' j, stamp_field ''birth_day'' j, stamp_field ''updated_at'' j) of
        (Some name, Some birth, Some updated) \<Rightarrow>
          if \<not> is_object j \<or> unset_stamp updated then None
          else Some \<lparr>dp_name = name, dp_birth_day = birth, dp_updated = updated\<rparr>
      | _ \<Rightarrow> None)"

definition to_customer_dto :: "customer_entity \<Rightarrow> json" where
  "to_customer_dto c = JObj [(''id'', JInt (ct_id c)), (''name'', JStr (ct_name c)), (''email'', JStr (ct_email c)),
     (''phone'', JStr (ct_phone c)), (''birth_day'', stamp_json (ct_birth_day c)), (''status'', JStr (ct_status c)),
     (''created_at'', stamp_json (ct_created c)), (''updated_at'', stamp_json (ct_updated c))]"

definition customers_page_dto :: "customer_page \<Rightarrow> json" where
  "customers_page_dto p = JObj ((''customers'', JArr (map to_customer_dto (cp_customers p)))
     # (if cp_next p = 0 then [] else [(''next_cursor'', JInt (cp_next p))]) @ [(''has_more'', JBool (cp_more p))])"

section \<open>Handlers\<close>

fun customer_error_text :: "customer_server \<Rightarrow> customer_error \<Rightarrow> string" where
  "customer_error_text V CErrNotFound = ''customer: not found''"
| "customer_error_text V CErrConflict = ''customer: conflict''"
| "customer_error_text V (CErrInvalidInput d) = ''customer: invalid input'' @ d"
| "customer_error_text V (CErrDb e) = hc_db_text V e"
| "customer_error_text V (CErrOther m) = m"

text \<open>Each handler maps the sentinels it expects and answers 500 with the error's text for the rest.\<close>

definition customer_refusal :: "customer_server \<Rightarrow> (customer_error \<Rightarrow> int) \<Rightarrow> customer_error \<Rightarrow> http_response" where
  "customer_refusal V status e = reply (status e) (error_body (customer_error_text V e))"

definition create_status :: "customer_error \<Rightarrow> int" where
  "create_status e = (if e = CErrConflict then 409 else 500)"

definition lookup_status :: "customer_error \<Rightarrow> int" where
  "lookup_status e = (if e = CErrNotFound then 404 else 500)"

fun update_status_of :: "customer_error \<Rightarrow> int" where
  "update_status_of (CErrInvalidInput d) = 400"
| "update_status_of CErrNotFound = 404"
| "update_status_of CErrConflict = 409"
| "update_status_of (CErrDb e) = 500"
| "update_status_of (CErrOther m) = 500"

definition bind_customer ::
    "customer_server \<Rightarrow> (json \<Rightarrow> 'a option) \<Rightarrow> http_request \<Rightarrow> ('a \<Rightarrow> customer_handler) \<Rightarrow> customer_handler" where
  "bind_customer V decode r f s = (case Option.bind (hc_parse V (hq_body r)) decode of
       None \<Rightarrow> (reply 400 (error_body (hc_invalid V (hq_body r))), s)
     | Some d \<Rightarrow> f d s)"

definition with_customer_id :: "string \<Rightarrow> string \<Rightarrow> (int \<Rightarrow> customer_handler) \<Rightarrow> customer_handler" where
  "with_customer_id msg param f s = (case parse_int64 param of
       None \<Rightarrow> (reply 400 (error_body msg), s)
     | Some i \<Rightarrow> f i s)"

abbreviation crespond ::
    "customer_server \<Rightarrow> (customer_error \<Rightarrow> int) \<Rightarrow> int \<Rightarrow> ('a \<Rightarrow> json) \<Rightarrow> (customer_db, customer_error, 'a) prog \<Rightarrow> customer_handler" where
  "crespond V status \<equiv> respond_with (customer_refusal V status)"

definition handle_create_customer :: "customer_server \<Rightarrow> http_request \<Rightarrow> customer_handler" where
  "handle_create_customer V r = bind_customer V (decode_create_customer V) r (\<lambda>d.
     crespond V create_status 201 to_customer_dto (create_customer (hc_service V)
       (zero_customer\<lparr>ct_name := dc_name d, ct_email := dc_email d, ct_phone := dc_phone d, ct_birth_day := dc_birth_day d\<rparr>)))"

definition handle_get_customer :: "customer_server \<Rightarrow> string \<Rightarrow> customer_handler" where
  "handle_get_customer V param = with_customer_id ''invalid customer id'' param (\<lambda>cid.
     crespond V lookup_status 200 to_customer_dto (get_customer (hc_service V) cid))"

definition handle_my_profile :: "customer_server \<Rightarrow> principal \<Rightarrow> customer_handler" where
  "handle_my_profile V p = respond_with (\<lambda>e. if e = CErrNotFound
       then reply 404 (error_body ''no customer profile is linked to this account'') else customer_refusal V lookup_status e)
     200 to_customer_dto (get_customer_by_user_id (hc_service V) (pr_user_id p))"

definition handle_update_profile :: "customer_server \<Rightarrow> string \<Rightarrow> http_request \<Rightarrow> customer_handler" where
  "handle_update_profile V param r = with_customer_id ''invalided customer id'' param (\<lambda>cid.
     bind_customer V decode_update_profile r (\<lambda>d.
     crespond V update_status_of 204 (\<lambda>u. JNull) (update_profile (hc_service V) cid
       (zero_customer\<lparr>ct_name := dp_name d, ct_birth_day := dp_birth_day d, ct_updated := dp_updated d\<rparr>))))"

definition handle_list_customers :: "customer_server \<Rightarrow> http_request \<Rightarrow> customer_handler" where
  "handle_list_customers V r s = (case parse_int64 (query_default ''0'' ''cursor'' r) of
       None \<Rightarrow> (reply 400 (error_body ''invalid cursor''), s)
     | Some cursor \<Rightarrow>
         if cursor < 0 then (reply 400 (error_body ''invalid cursor''), s)
         else (case parse_int64 (query_default ''0'' ''limit'' r) of
             None \<Rightarrow> (reply 400 (error_body ''invalid limit''), s)
           | Some limit \<Rightarrow>
               if limit < 0 then (reply 400 (error_body ''invalid limit''), s)
               else crespond V (\<lambda>e. 500) 200 customers_page_dto (get_customers (hc_service V)
                 \<lparr>lc_cursor = cursor, lc_limit = limit, lc_email = query_value ''email'' r\<rparr>) s))"

definition handle_delete_profile :: "customer_server \<Rightarrow> string \<Rightarrow> customer_handler" where
  "handle_delete_profile V param = with_customer_id ''invalid customer id'' param (\<lambda>cid.
     crespond V lookup_status 204 (\<lambda>u. JNull) (delete_profile (hc_service V) cid))"

section \<open>Routes\<close>

datatype customer_endpoint =
    MyProfile | CreateCustomer | ListCustomers | GetCustomer string | UpdateCustomer string | DeleteCustomer string

definition customer_route :: "string \<Rightarrow> string list \<Rightarrow> customer_endpoint option" where
  "customer_route method path =
     (case path of
        [a] \<Rightarrow> if a \<noteq> ''customer'' then None
               else if method = ''GET'' then Some ListCustomers
               else if method = ''POST'' then Some CreateCustomer else None
      | [a, i] \<Rightarrow> if a \<noteq> ''customer'' then None
               else if method = ''GET'' then Some (if i = ''me'' then MyProfile else GetCustomer i)
               else if method = ''PUT'' then Some (UpdateCustomer i)
               else if method = ''DELETE'' then Some (DeleteCustomer i) else None
      | _ \<Rightarrow> None)"

text \<open>The role checks of a route, in order.\<close>

fun customer_roles :: "customer_endpoint \<Rightarrow> string list list" where
  "customer_roles MyProfile = []"
| "customer_roles (DeleteCustomer i) = [staff_roles, [role_manager, role_admin]]"
| "customer_roles _ = [staff_roles]"

fun require_roles :: "string list list \<Rightarrow> principal \<Rightarrow> http_response option" where
  "require_roles [] p = None"
| "require_roles (roles # rest) p = (case require_role roles p of Some resp \<Rightarrow> Some resp | None \<Rightarrow> require_roles rest p)"

fun handle_customer :: "customer_server \<Rightarrow> http_request \<Rightarrow> principal \<Rightarrow> customer_endpoint \<Rightarrow> customer_handler" where
  "handle_customer V r p MyProfile = handle_my_profile V p"
| "handle_customer V r p CreateCustomer = handle_create_customer V r"
| "handle_customer V r p ListCustomers = handle_list_customers V r"
| "handle_customer V r p (GetCustomer i) = handle_get_customer V i"
| "handle_customer V r p (UpdateCustomer i) = handle_update_profile V i r"
| "handle_customer V r p (DeleteCustomer i) = handle_delete_profile V i"

text \<open>The chain: CORS answers OPTIONS, then authentication, then the role checks, then the handler. \<open>None\<close> is a path
  the router does not know.\<close>

definition serve_customer :: "customer_server \<Rightarrow> http_request \<Rightarrow> customer_db \<Rightarrow> (http_response \<times> customer_db) option" where
  "serve_customer V r s =
     (if hq_method r = ''OPTIONS'' then Some (reply 204 JNull, s)
      else case customer_route (hq_method r) (hq_path r) of
        None \<Rightarrow> None
      | Some e \<Rightarrow> Some (case require_auth V r of
            Inl resp \<Rightarrow> (resp, s)
          | Inr p \<Rightarrow> (case require_roles (customer_roles e) p of
                Some resp \<Rightarrow> (resp, s)
              | None \<Rightarrow> handle_customer V r p e s)))"

section \<open>Consuming user events\<close>

definition user_created :: string where "user_created = ''UserCreated''"
definition user_updated :: string where "user_updated = ''UserUpdated''"
definition user_role_customer :: string where "user_role_customer = ''CUSTOMER''"

record message_event =
  me_event_id :: string
  me_event_type :: string

record user_state =
  us_id :: string
  us_email :: string
  us_role :: string
  us_status :: string

record user_event = message_event +
  ue_occurred :: int
  ue_user :: user_state

definition decode_message_event :: "json \<Rightarrow> message_event option" where
  "decode_message_event j = (case (string_field ''event_id'' j, string_field ''event_type'' j) of
       (Some i, Some e) \<Rightarrow> if is_object j then Some \<lparr>me_event_id = i, me_event_type = e\<rparr> else None
     | _ \<Rightarrow> None)"

definition decode_user_state :: "json \<Rightarrow> user_state option" where
  "decode_user_state j = (case (string_field ''id'' j, string_field ''email'' j, string_field ''role'' j, string_field ''status'' j) of
       (Some i, Some e, Some r, Some st) \<Rightarrow>
         if is_object j then Some \<lparr>us_id = i, us_email = e, us_role = r, us_status = st\<rparr> else None
     | _ \<Rightarrow> None)"

definition decode_user_event :: "json \<Rightarrow> user_event option" where
  "decode_user_event j =
     (case (decode_message_event j, time_field ''occurred_at'' j,
            decode_user_state (case field ''user'' j of None \<Rightarrow> JNull | Some v \<Rightarrow> v)) of
        (Some m, Some t, Some u) \<Rightarrow>
          Some \<lparr>me_event_id = me_event_id m, me_event_type = me_event_type m, ue_occurred = t, ue_user = u\<rparr>
      | _ \<Rightarrow> None)"

text \<open>\<open>identifyHandle\<close>: a conflict can't be mended by retrying, so it is passed over.\<close>

definition identify_handle :: "customer_service \<Rightarrow> json \<Rightarrow> (customer_db, customer_error, unit) prog" where
  "identify_handle S value s =
     (case decode_user_event value of
        None \<Rightarrow> (Inr (), s)
      | Some e \<Rightarrow>
          let u = ue_user e
          in if us_role u \<noteq> user_role_customer \<or> us_id u = '''' \<or> us_email u = '''' then (Inr (), s)
             else (case link_user S (us_id u) (us_email u) s of
                 (Inl err, t) \<Rightarrow> if err = CErrConflict then (Inr (), t) else (Inl err, t)
               | (Inr c, t) \<Rightarrow> (Inr (), t)))"

text \<open>\<open>NewMessageHandler\<close> over the handlers of a topic, and the handlers \<open>RegisterConsumer\<close> wires. A message's value is
  its JSON, \<open>None\<close> where the bytes are not JSON.\<close>

definition new_message_handler ::
    "(string \<times> (json \<Rightarrow> ('s, 'e, unit) prog)) list \<Rightarrow> json option \<Rightarrow> ('s, 'e, unit) prog" where
  "new_message_handler handlers value =
     (case value of
        None \<Rightarrow> ok ()
      | Some j \<Rightarrow> (case decode_message_event j of
            None \<Rightarrow> ok ()
          | Some m \<Rightarrow> (case map_of handlers (me_event_type m) of
                None \<Rightarrow> ok ()
              | Some handle \<Rightarrow> handle j)))"

definition register_consumer :: "customer_service \<Rightarrow> (string \<times> (json \<Rightarrow> (customer_db, customer_error, unit) prog)) list" where
  "register_consumer S = [(user_created, identify_handle S), (user_updated, identify_handle S)]"

end
