(* ===== verification/CustomerSample.thy ===== *)
theory CustomerSample
  imports CustomerHttp
begin

text \<open>A concrete run of customer-service: staff create a customer, an identity user with the same email is linked to
  it, the customer list is read. The witnesses of the properties are steps of this run.\<close>

definition c_env :: env where
  "c_env = \<lparr>clock = (\<lambda>n. int n * second_ns), fault = (\<lambda>n. None), uuid_at = (\<lambda>n. ''id''),
     collation = (\<lambda>x. x), db_time = (\<lambda>t. t), broker = (\<lambda>n. Acked)\<rparr>"

definition c_service :: customer_service where
  "c_service = \<lparr>cs_env = c_env, cs_local = UTC, cs_date = sp_time, cs_uuid = Some, cs_fold = (\<lambda>c. c)\<rparr>"

definition c_empty :: customer_db where
  "c_empty = \<lparr>tick = 0, outbox_rows = [], outbox_seq = 1, kafka_log = [], customer_rows = [], cw_seq = 1, cache_entries = []\<rparr>"

definition c_ann :: customer_entity where
  "c_ann = zero_customer\<lparr>ct_name := ''Ann'', ct_email := ''ann@x'', ct_birth_day := utc 0\<rparr>"

definition c_row :: customer_row where
  "c_row = \<lparr>cw_id = 1, cw_user_id = None, cw_name = ''Ann'', cw_email = ''ann@x'', cw_phone = '''', cw_birthday = Some 0,
     cw_status = ''ACTIVE'', cw_created = second_ns, cw_updated = second_ns, cw_deleted = None\<rparr>"

definition c_created :: customer_db where
  "c_created = snd (create_customer c_service c_ann c_empty)"

lemmas crun_defs = on_ok_def ok_def fail_def map_err_def lift_result_def now_def new_uuid_def sql_def query_def
  step_tick_def run_in_tx_def c_env_def c_service_def

lemma c_zero: "unset_stamp (utc zero_time)" "zero_time \<noteq> 0" "zero_time \<noteq> second_ns"
  by code_simp+

lemma c_create:
  "\<exists>c ob. create_customer c_service c_ann c_empty = (Inr c, c_created) \<and>
     c_created = c_empty\<lparr>tick := 7, outbox_seq := 2, outbox_rows := [ob], cw_seq := 2, customer_rows := [c_row]\<rparr>"
  unfolding c_created_def
  by (simp add: create_customer_def create_customer_tx_def create_customer_row_def insert_customer_def stamped_def
      write_customer_event_def new_customer_event_def outbox_create_def crun_defs c_empty_def c_ann_def c_row_def zero_customer_def
      customer_violation_def to_customer_row_def customer_status_ok_def customer_active_def local_stamp_def
      c_zero c_zero(2) [symmetric] c_zero(3) [symmetric] Let_def)

definition c_msg :: outbox_row where
  "c_msg = hd (outbox_rows c_created)"

lemma c_created_eq:
  "c_created = c_empty\<lparr>tick := 7, outbox_seq := 2, outbox_rows := [c_msg], cw_seq := 2, customer_rows := [c_row]\<rparr>"
proof -
  obtain ob where e: "c_created = c_empty\<lparr>tick := 7, outbox_seq := 2, outbox_rows := [ob], cw_seq := 2, customer_rows := [c_row]\<rparr>"
    using c_create by blast
  have "c_msg = ob" unfolding c_msg_def by (subst e) simp
  with e show ?thesis by simp
qed

definition c_linked :: customer_db where
  "c_linked = snd (link_user c_service ''u1'' ''ann@x'' c_created)"

definition c_row_linked :: "int \<Rightarrow> customer_row" where
  "c_row_linked t = c_row\<lparr>cw_user_id := Some ''u1'', cw_updated := t\<rparr>"

lemma c_link:
  "\<exists>c ob n t0. link_user c_service ''u1'' ''ann@x'' c_created = (Inr c, c_linked) \<and>
     c_linked = c_created\<lparr>tick := n, outbox_seq := 3, outbox_rows := [c_msg, ob], customer_rows := [c_row_linked t0]\<rparr>"
  unfolding c_linked_def
  by (simp add: c_created_eq link_user_def get_by_user_id_def find_customer_def link_tx_def claim_or_create_def
      link_user_by_email_def link_statement_def link_row_def unlinked_def live_def write_customer_event_def new_customer_event_def
      outbox_create_def crun_defs c_empty_def c_row_def c_row_linked_def Let_def)

lemma c_linked_rows: "\<exists>t0. customer_rows c_linked = [c_row_linked t0]"
proof -
  obtain ob n t0 where e: "c_linked = c_created\<lparr>tick := n, outbox_seq := 3, outbox_rows := [c_msg, ob], customer_rows := [c_row_linked t0]\<rparr>"
    using c_link by blast
  have "customer_rows c_linked = [c_row_linked t0]" by (subst e) simp
  then show ?thesis by (rule exI)
qed

lemma c_rows: "customer_rows c_created = [c_row]" "cache_entries c_created = []" "tick c_created = 7"
  by (subst c_created_eq, simp add: c_empty_def)+

lemma c_reachable: "customer_reachable c_empty" "customer_reachable c_created" "customer_reachable c_linked"
proof -
  show e: "customer_reachable c_empty" by (rule customer_reachable.migrated) (simp add: empty_customer_tables_def c_empty_def)
  show c: "customer_reachable c_created"
    using customer_reachable.operate [OF e, of "CCreate c_service c_ann"] by (simp add: c_created_def)
  show "customer_reachable c_linked"
    using customer_reachable.operate [OF c, of "CLink c_service ''u1'' ''ann@x''"] by (simp add: c_linked_def)
qed

end
