(* ===== verification/CustomerProps.thy ===== *)
theory CustomerProps
  imports CustomerSample
begin

text \<open>What customer-service guarantees of its tables: identities, linking, updates and failures.\<close>

text \<open>C26. In every state the operations can reach, no two customers (deleted ones included) share an id, an email or a
  linked identity user, and every status is one of the three.\<close>

theorem customer_identities_unique:
  assumes "customer_reachable s"
  shows "distinct (map cw_id (customer_rows s)) \<and> distinct (map cw_email (customer_rows s)) \<and>
    distinct (filter (\<lambda>u. u \<noteq> None) (map cw_user_id (customer_rows s))) \<and>
    (\<forall>r \<in> set (customer_rows s). cw_status r = customer_active \<or> cw_status r = customer_inactive \<or> cw_status r = customer_banned)"
  using reachable_customer_inv [OF assms] by (simp add: customer_inv_def customers_ok_def customer_status_ok_def)

lemma customer_identities_unique_witness:
  "distinct (filter (\<lambda>u. u \<noteq> None) (map cw_user_id (customer_rows c_linked))) \<and> map cw_user_id (customer_rows c_linked) = [Some ''u1'']"
  using customer_identities_unique [OF c_reachable(3)] c_linked_rows by (auto simp: c_row_linked_def)

section \<open>Linking\<close>

text \<open>What a successful linking did: nothing, for a user already linked; or the one live customer with the email, not
  linked to anyone, got the user id; or a customer with a new email was created for the user.\<close>

definition claimed_row :: "customer_service \<Rightarrow> string \<Rightarrow> string \<Rightarrow> customer_row \<Rightarrow> customer_row \<Rightarrow> bool" where
  "claimed_row S u email q r \<longleftrightarrow> unlinked email q \<and> (\<exists>t0. r = link_row (cs_env S) t0 u q)"

definition signed_up_row :: "string \<Rightarrow> string \<Rightarrow> int \<Rightarrow> customer_row \<Rightarrow> bool" where
  "signed_up_row u email i r \<longleftrightarrow> cw_id r = i \<and> cw_user_id r = Some u \<and> cw_email r = email \<and> cw_name r = local_part email \<and>
     cw_status r = customer_active \<and> live r"

lemma claim_or_create_effect:
  assumes run: "claim_or_create S uid email s = (Inr (x, etype, topic), t)" and ok: "customers_ok (customer_rows s) (cw_seq s)"
    and u: "cs_uuid S uid = Some u" "uid \<noteq> ''''"
  obtains (claimed) q r n where "etype = CustomerUpdated" "topic = topic_customer_update" "q \<in> set (customer_rows s)"
      "claimed_row S u email q r" "x = to_customer S r"
      "t = s\<lparr>tick := n, customer_rows := map (\<lambda>p. if cw_id p = cw_id q then r else p) (customer_rows s)\<rparr>"
    | (created) r n where "etype = CustomerCreated" "topic = topic_customer_created" "email \<notin> cw_email ` set (customer_rows s)"
      "signed_up_row u email (ct_id x) r" "ct_id x = cw_seq s"
      "t = s\<lparr>tick := n, cw_seq := cw_seq s + 1, customer_rows := customer_rows s @ [r]\<rparr>"
  using run
proof (cases rule: claim_or_create_Inr)
  case (claimed y)
  obtain q r u' n where q: "q \<in> set (customer_rows s)" "unlinked email q" "cs_uuid S uid = Some u'"
    "r = link_row (cs_env S) (clock (cs_env S) (tick s)) u' q" "y = to_customer S r"
    "t = s\<lparr>tick := n, customer_rows := map (\<lambda>p. if cw_id p = cw_id q then r else p) (customer_rows s)\<rparr>"
    by (rule link_user_by_email_Inr [OF claimed(2) ok])
  have "claimed_row S u email q r" using q(2-4) u(1) by (auto simp: claimed_row_def)
  then show ?thesis using claimed(1) by (intro that(1) [OF _ _ q(1) _ _ q(6)]) (simp_all add: q(5))
next
  case (created y t1)
  obtain k where k: "t1 = s\<lparr>tick := k\<rparr>" using link_missing(1) [OF created(2)] by blast
  obtain c1 r0 r n where r: "c1 = stamped S (clock (cs_env S) (tick t1)) (sign_up uid email)" "to_customer_row S c1 = Some r0"
    "r = r0\<lparr>cw_id := cw_seq t1\<rparr>" "y = c1\<lparr>ct_id := cw_seq t1\<rparr>" "customer_violation r (customer_rows t1) = None"
    "t = t1\<lparr>tick := n, cw_seq := cw_seq t1 + 1, customer_rows := customer_rows t1 @ [r]\<rparr>"
    by (rule create_customer_row_Inr [OF created(3)])
  have c1: "ct_user_id c1 = uid" "ct_email c1 = email" "ct_name c1 = local_part email" "ct_status c1 = customer_active"
    by (simp_all add: r(1) sign_up_def)
  have "signed_up_row u email (cw_seq s) r"
    using to_customer_row_sel [OF r(2)] u by (simp add: signed_up_row_def r(3) k c1 live_def)
  moreover have "email \<notin> cw_email ` set (customer_rows s)"
    using r(5) to_customer_row_sel(1) [OF r(2)] by (simp add: customer_violation_None r(3) k c1)
  ultimately show ?thesis using created(1) r(4,6) by (intro that(2) [of r n]) (simp_all add: k)
qed

lemma link_user_effect:
  assumes i: "customer_inv s" and run: "link_user S uid email s = (Inr x, t)" and u: "cs_uuid S uid = Some u" "uid \<noteq> ''''"
  obtains (linked) r where "r \<in> set (customer_rows s)" "cw_user_id r = Some u" "live r" "x = to_customer S r"
      "customer_rows t = customer_rows s" "outbox_rows t = outbox_rows s"
    | (claimed) q r ob t0 where "q \<in> set (customer_rows s)" "claimed_row S u email q r" "x = to_customer S r"
      "customer_rows t = map (\<lambda>p. if cw_id p = cw_id q then r else p) (customer_rows s)"
      "outbox_rows t = outbox_rows s @ [ob]" "customer_message S topic_customer_update CustomerUpdated (ct_id x) t0 (new_customer_state x) ob"
    | (created) r ob t0 where "email \<notin> cw_email ` set (customer_rows s)" "signed_up_row u email (ct_id x) r"
      "customer_rows t = customer_rows s @ [r]"
      "outbox_rows t = outbox_rows s @ [ob]" "customer_message S topic_customer_created CustomerCreated (ct_id x) t0 (new_customer_state x) ob"
  using run
proof (cases rule: link_user_cases)
  case (linked n y)
  have "find_customer S (\<lambda>r. cw_user_id r = Some u) s = (Inr x, t)" using linked(1,2) u(1) by (simp add: get_by_user_id_def)
  then obtain r where r: "r \<in> set (customer_rows s)" "cw_user_id r = Some u" "live r" "x = to_customer S r" "t = step_tick s"
    by (rule find_customer_Inr)
  show ?thesis by (rule that(1) [OF r(1-4)]) (simp_all add: r(5))
next
  case (tx n)
  define s0 where "s0 = step_tick (s\<lparr>tick := n\<rparr>)"
  obtain t' where t': "link_tx S uid email s0 = (Inr x, t')" "t = step_tick t'"
    unfolding s0_def by (rule committed [OF tx(2)])
  have ok: "customers_ok (customer_rows s0) (cw_seq s0)" using i by (simp add: s0_def customer_inv_def)
  have s0: "customer_rows s0 = customer_rows s" "outbox_rows s0 = outbox_rows s" by (simp_all add: s0_def)
  obtain etype topic t1 w where l: "claim_or_create S uid email s0 = (Inr (x, etype, topic), t1)"
    "write_customer_event S topic etype (ct_id x) (sp_time (ct_updated x)) (new_customer_state x) t1 = (Inr w, t')"
    by (rule link_tx_Inr [OF t'(1)])
  obtain m ob where ob: "t' = t1\<lparr>tick := m, outbox_seq := outbox_seq t1 + 1, outbox_rows := outbox_rows t1 @ [ob]\<rparr>"
    "customer_message S topic etype (ct_id x) (sp_time (ct_updated x)) (new_customer_state x) ob"
    by (rule write_customer_event_Inr [OF l(2)])
  show ?thesis
  proof (rule claim_or_create_effect [OF l(1) ok u])
    fix q r k
    assume c: "etype = CustomerUpdated" "topic = topic_customer_update" "q \<in> set (customer_rows s0)" "claimed_row S u email q r"
      "x = to_customer S r"
      "t1 = s0\<lparr>tick := k, customer_rows := map (\<lambda>p. if cw_id p = cw_id q then r else p) (customer_rows s0)\<rparr>"
    show ?thesis
      by (rule that(2) [OF c(3) [unfolded s0] c(4,5) _ _ ob(2) [unfolded c(1,2)]]) (simp_all add: t'(2) ob(1) c(6) s0)
  next
    fix r k
    assume c: "etype = CustomerCreated" "topic = topic_customer_created" "email \<notin> cw_email ` set (customer_rows s0)"
      "signed_up_row u email (ct_id x) r" "ct_id x = cw_seq s0"
      "t1 = s0\<lparr>tick := k, cw_seq := cw_seq s0 + 1, customer_rows := customer_rows s0 @ [r]\<rparr>"
    show ?thesis
      by (rule that(3) [OF c(3) [unfolded s0] c(4) _ _ ob(2) [unfolded c(1,2)]]) (simp_all add: t'(2) ob(1) c(6) s0)
  qed
qed simp

text \<open>However it succeeded, the answer is the one live customer of the user.\<close>

lemma link_user_linked:
  assumes "customer_inv s" "link_user S uid email s = (Inr x, t)" "cs_uuid S uid = Some u" "uid \<noteq> ''''"
  shows "\<exists>r \<in> set (customer_rows t). cw_id r = ct_id x \<and> cw_user_id r = Some u \<and> live r"
proof (rule link_user_effect [OF assms])
  fix r assume "r \<in> set (customer_rows s)" "cw_user_id r = Some u" "live r" "x = to_customer S r" "customer_rows t = customer_rows s"
  then show ?thesis by (auto simp: to_customer_def)
next
  fix q r assume a: "q \<in> set (customer_rows s)" "claimed_row S u email q r" "x = to_customer S r"
    "customer_rows t = map (\<lambda>p. if cw_id p = cw_id q then r else p) (customer_rows s)"
  have "r \<in> set (customer_rows t)" unfolding a(4) using a(1) by force
  then show ?thesis using a(2,3) by (auto simp: claimed_row_def link_row_def unlinked_def live_def to_customer_def)
next
  fix r assume "signed_up_row u email (ct_id x) r" "customer_rows t = customer_rows s @ [r]"
  then show ?thesis by (auto simp: signed_up_row_def)
qed

text \<open>C27. Linking a user either finds their customer and writes nothing, or claims the live customer with the user's email
  that nobody is linked to, or creates one named after the local part of an email no customer has; it leaves exactly that
  customer linked to the user, and announces the change in one event keyed by its id.\<close>

theorem link_user_success:
  assumes "customer_reachable s" "link_user S uid email s = (Inr x, t)" "cs_uuid S uid = Some u" "uid \<noteq> ''''"
  shows "(\<exists>r \<in> set (customer_rows t). cw_id r = ct_id x \<and> cw_user_id r = Some u \<and> live r) \<and>
    ((customer_rows t = customer_rows s \<and> outbox_rows t = outbox_rows s) \<or>
     (\<exists>q t0 ob t1. q \<in> set (customer_rows s) \<and> cw_email q = email \<and> cw_user_id q = None \<and> live q \<and>
        customer_rows t = map (\<lambda>p. if cw_id p = cw_id q then link_row (cs_env S) t0 u q else p) (customer_rows s) \<and>
        outbox_rows t = outbox_rows s @ [ob] \<and>
        customer_message S topic_customer_update CustomerUpdated (ct_id x) t1 (new_customer_state x) ob) \<or>
     (email \<notin> cw_email ` set (customer_rows s) \<and>
      (\<exists>r ob t1. signed_up_row u email (ct_id x) r \<and> customer_rows t = customer_rows s @ [r] \<and>
        outbox_rows t = outbox_rows s @ [ob] \<and>
        customer_message S topic_customer_created CustomerCreated (ct_id x) t1 (new_customer_state x) ob)))"
    (is "_ \<and> (_ \<or> ?claimed \<or> ?created)")
proof (rule conjI)
  have i: "customer_inv s" by (rule reachable_customer_inv [OF assms(1)])
  show "\<exists>r \<in> set (customer_rows t). cw_id r = ct_id x \<and> cw_user_id r = Some u \<and> live r"
    by (rule link_user_linked [OF i assms(2-4)])
  show "(customer_rows t = customer_rows s \<and> outbox_rows t = outbox_rows s) \<or> ?claimed \<or> ?created"
  proof (rule link_user_effect [OF i assms(2-4)])
    fix q r ob t0
    assume a: "q \<in> set (customer_rows s)" "claimed_row S u email q r"
      "customer_rows t = map (\<lambda>p. if cw_id p = cw_id q then r else p) (customer_rows s)" "outbox_rows t = outbox_rows s @ [ob]"
      "customer_message S topic_customer_update CustomerUpdated (ct_id x) t0 (new_customer_state x) ob"
    obtain t1 where r: "r = link_row (cs_env S) t1 u q" "unlinked email q" using a(2) by (auto simp: claimed_row_def)
    from r(2) have "cw_email q = email" "cw_user_id q = None" "live q" by (simp_all add: unlinked_def)
    with a(1,4,5) a(3) [unfolded r(1)] have ?claimed by (intro exI conjI)
    then show ?thesis by (intro disjI2 disjI1)
  qed blast+
qed

lemma link_user_success_witness:
  "\<exists>x r. link_user c_service ''u1'' ''ann@x'' c_created = (Inr x, c_linked) \<and> r \<in> set (customer_rows c_linked) \<and>
     cw_user_id r = Some ''u1'' \<and> cw_id r = ct_id x"
proof -
  obtain x where x: "link_user c_service ''u1'' ''ann@x'' c_created = (Inr x, c_linked)" using c_link by blast
  have "cs_uuid c_service ''u1'' = Some ''u1''" by (simp add: c_service_def)
  from link_user_success [OF c_reachable(2) x this] x show ?thesis by auto
qed

text \<open>C28. A redelivered user event is harmless: linking a user again, whatever the email and the faults, changes no
  customer and writes no event, and answers with the same customer when it answers.\<close>

theorem link_user_again:
  assumes "customer_reachable s" "link_user S uid email s = (Inr x, t)" "cs_uuid S uid = Some u" "uid \<noteq> ''''"
    and "cs_uuid S' = cs_uuid S" "link_user S' uid email' t = (r, t')"
  shows "customer_rows t' = customer_rows t \<and> outbox_rows t' = outbox_rows t \<and> (\<forall>y. r = Inr y \<longrightarrow> ct_id y = ct_id x)"
proof -
  have i: "customer_inv s" by (rule reachable_customer_inv [OF assms(1)])
  have it: "customers_ok (customer_rows t) (cw_seq t)"
    using keepsD [OF link_user_keeps assms(2) i] by (simp add: customer_inv_def)
  obtain q where q: "q \<in> set (customer_rows t)" "cw_id q = ct_id x" "cw_user_id q = Some u" "live q"
    using link_user_linked [OF i assms(2-4)] by blast
  have g: "get_by_user_id S' uid = find_customer S' (\<lambda>r. cw_user_id r = Some u)"
    using assms(3,5) by (simp add: get_by_user_id_def)
  from assms(6) show ?thesis
  proof (cases rule: link_user_cases)
    case (linked n y)
    obtain p where p: "p \<in> set (customer_rows t)" "cw_user_id p = Some u" "y = to_customer S' p"
      using linked(2) unfolding g by (rule find_customer_Inr)
    have "p = q" by (rule only_user [OF it p(1) q(1) p(2) q(3)])
    then show ?thesis using linked(1,3) p(3) q(2) by (simp add: to_customer_def)
  next
    case (tx n)
    then show ?thesis using find_customer_missing(2) [of S' "\<lambda>r. cw_user_id r = Some u" t] q unfolding g by blast
  qed simp
qed

lemma link_user_again_witness:
  "customer_rows (snd (link_user c_service ''u1'' ''other@x'' c_linked)) = customer_rows c_linked"
proof -
  obtain x where x: "link_user c_service ''u1'' ''ann@x'' c_created = (Inr x, c_linked)" using c_link by blast
  have "cs_uuid c_service ''u1'' = Some ''u1''" by (simp add: c_service_def)
  from link_user_again [OF c_reachable(2) x this _ refl surjective_pairing, of "''other@x''"] show ?thesis by simp
qed

section \<open>Failures\<close>

text \<open>A creation, update, deletion or linking that fails leaves the customers, the outbox, what was sent and the cache
  as they were, at whatever step it failed.\<close>

theorem customer_failures_change_nothing:
  assumes "create_customer S c s = (Inl e, t) \<or> update_profile S cid c s = (Inl e, t) \<or> delete_profile S cid s = (Inl e, t) \<or>
    link_user S uid email s = (Inl e, t)"
  shows "customer_rows t = customer_rows s \<and> outbox_rows t = outbox_rows s \<and> kafka_log t = kafka_log s \<and>
    cache_entries t = cache_entries s"
proof -
  have "customer_same s t"
    using assms by (elim disjE) (rule create_customer_fails update_profile_fails delete_profile_fails link_user_fails, assumption)+
  then show ?thesis by (simp add: customer_same_def)
qed

lemma c_duplicate: "fst (create_customer c_service c_ann c_created) = Inl CErrConflict"
  by (simp add: c_created_eq create_customer_def create_customer_tx_def create_customer_row_def insert_customer_def stamped_def
      crun_defs c_empty_def c_ann_def c_row_def zero_customer_def customer_violation_def to_customer_row_def customer_status_ok_def
      customer_active_def local_stamp_def customer_write_error_def customer_duplicate_key_def c_zero Let_def)

lemma customer_failures_change_nothing_witness:
  "customer_rows (snd (create_customer c_service c_ann c_created)) = customer_rows c_created"
  using customer_failures_change_nothing [of c_service c_ann c_created CErrConflict "snd (create_customer c_service c_ann c_created)"]
    c_duplicate by (metis prod.collapse)

section \<open>Updates\<close>

text \<open>A successful profile update was of the version the caller read, of a live customer, with something to change and
  a birthday that is not in the future; it changed the name and birthday it was given and nothing else, stamped the
  row, and announced the row as stored in one CustomerUpdated event.\<close>

theorem profile_update_success:
  assumes "customer_reachable s"
    and "update_profile S cid (zero_customer\<lparr>ct_name := name, ct_birth_day := birth, ct_updated := version\<rparr>) s = (Inr v, t)"
  shows "\<exists>r r' t0 n ob. r \<in> set (customer_rows s) \<and> cw_id r = cid \<and> live r \<and>
    cw_updated r = db_time (cs_env S) (sp_time version) \<and> (name \<noteq> '''' \<or> sp_time birth \<noteq> zero_time) \<and>
    sp_time birth \<le> clock (cs_env S) n \<and>
    r' = r\<lparr>cw_name := if name = '''' then cw_name r else name,
           cw_birthday := if unset_stamp birth then cw_birthday r else Some (cs_date S birth), cw_updated := db_time (cs_env S) t0\<rparr> \<and>
    customer_rows t = map (\<lambda>q. if cw_id q = cid then r' else q) (customer_rows s) \<and>
    outbox_rows t = outbox_rows s @ [ob] \<and>
    customer_message S topic_customer_update CustomerUpdated cid (cw_updated r') (new_customer_state (to_customer S r')) ob"
proof -
  let ?c = "zero_customer\<lparr>ct_name := name, ct_birth_day := birth, ct_updated := version\<rparr>\<lparr>ct_id := cid\<rparr>"
  have g: "name \<noteq> '''' \<or> sp_time birth \<noteq> zero_time"
    and tx: "run_in_tx (cs_env S) CErrDb customer_restore (update_profile_tx S ?c) s = (Inr v, t)"
    using assms(2) by (auto simp: update_profile_def split: if_splits)
  obtain t' where t': "update_profile_tx S ?c (step_tick s) = (Inr v, t')" "t = step_tick t'" by (rule committed [OF tx])
  obtain w t1 up t2 where p: "update_customer_row S ?c (step_tick s) = (Inr w, t1)"
    "\<not> clock (cs_env S) (tick t1) < sp_time (ct_birth_day ?c)" "get_customer_by_id S (ct_id ?c) (step_tick t1) = (Inr up, t2)"
    "write_customer_event S topic_customer_update CustomerUpdated (ct_id ?c) (sp_time (ct_updated up)) (new_customer_state up) t2 = (Inr v, t')"
    by (rule update_profile_tx_Inr [OF t'(1)])
  have ok: "customers_ok (customer_rows (step_tick s)) (cw_seq s)"
    using reachable_customer_inv [OF assms(1)] by (simp add: customer_inv_def)
  obtain r m r' k where r: "r \<in> set (customer_rows (step_tick s))" "customer_version S ?c r" "to_customer_row S ?c = Some m"
    "r' = set_customer_columns S (clock (cs_env S) (tick (step_tick s))) ?c m r"
    "t1 = (step_tick s)\<lparr>tick := k, customer_rows := map (\<lambda>q. if cw_id q = cw_id r then r' else q) (customer_rows (step_tick s))\<rparr>"
    by (rule update_customer_row_Inr [OF p(1) ok])
  have cid: "cw_id r = cid" "cw_id r' = cid" "live r" "cw_updated r = db_time (cs_env S) (sp_time version)"
    using r(2) by (simp_all add: customer_version_def r(4) set_customer_columns_def)
  have unset: "unset_stamp (utc zero_time)" by code_simp
  have r': "r' = r\<lparr>cw_name := if name = '''' then cw_name r else name,
      cw_birthday := if unset_stamp birth then cw_birthday r else Some (cs_date S birth),
      cw_updated := db_time (cs_env S) (clock (cs_env S) (tick (step_tick s)))\<rparr>"
    using to_customer_row_sel(2) [OF r(3)] by (simp add: r(4) set_customer_columns_def zero_customer_def unset)
  have rows: "customer_rows t1 = map (\<lambda>q. if cw_id q = cid then r' else q) (customer_rows s)" by (simp add: r(5) cid(1))
  obtain q where q: "q \<in> set (customer_rows (step_tick t1))" "cw_id q = cid" "up = to_customer S q" "t2 = step_tick (step_tick t1)"
    using p(3) by (auto simp: get_customer_by_id_def elim: find_customer_Inr)
  have "q = r'" using q(1,2) by (auto simp: rows split: if_splits)
  then have up: "up = to_customer S r'" "sp_time (ct_updated up) = cw_updated r'" using q(3) by (simp_all add: to_customer_def local_stamp_def)
  obtain j ob where ob: "t' = t2\<lparr>tick := j, outbox_seq := outbox_seq t2 + 1, outbox_rows := outbox_rows t2 @ [ob]\<rparr>"
    "customer_message S topic_customer_update CustomerUpdated (ct_id ?c) (sp_time (ct_updated up)) (new_customer_state up) ob"
    by (rule write_customer_event_Inr [OF p(4)])
  have "customer_rows t = map (\<lambda>q. if cw_id q = cid then r' else q) (customer_rows s)" "outbox_rows t = outbox_rows s @ [ob]"
    using rows by (simp_all add: t'(2) ob(1) q(4) r(5))
  moreover have "customer_message S topic_customer_update CustomerUpdated cid (cw_updated r') (new_customer_state (to_customer S r')) ob"
    using ob(2) [unfolded up(2), unfolded up(1)] by simp
  moreover have "sp_time birth \<le> clock (cs_env S) (tick t1)" "r \<in> set (customer_rows s)" using p(2) r(1) by simp_all
  ultimately show ?thesis using cid(1,3,4) g r' by (intro exI conjI)
qed

definition c_renamed :: customer_db where
  "c_renamed = snd (update_profile c_service 1
     (zero_customer\<lparr>ct_name := ''Anna'', ct_birth_day := utc zero_time, ct_updated := utc second_ns\<rparr>) c_created)"

lemma c_update:
  "fst (update_profile c_service 1 (zero_customer\<lparr>ct_name := ''Anna'', ct_birth_day := utc zero_time, ct_updated := utc second_ns\<rparr>)
     c_created) = Inr ()"
proof -
  have z: "\<not> 10 * second_ns < zero_time" by code_simp
  show ?thesis
    by (simp add: c_created_eq update_profile_def update_profile_tx_def update_customer_row_def customer_update_statement_def
        customer_version_def live_def set_customer_columns_def get_customer_by_id_def find_customer_def write_customer_event_def
        new_customer_event_def outbox_create_def crun_defs c_empty_def c_row_def zero_customer_def customer_violation_def
        to_customer_row_def customer_status_ok_def customer_active_def c_zero z Let_def)
qed

lemma profile_update_success_witness:
  "\<exists>r'. map cw_id (customer_rows c_renamed) = [1] \<and> r' \<in> set (customer_rows c_renamed) \<and> cw_name r' = ''Anna''"
proof -
  have run: "update_profile c_service 1 (zero_customer\<lparr>ct_name := ''Anna'', ct_birth_day := utc zero_time, ct_updated := utc second_ns\<rparr>)
      c_created = (Inr (), c_renamed)" using c_update by (simp add: c_renamed_def prod_eq_iff)
  obtain r r' t0 where r: "cw_id r = 1"
    "r' = r\<lparr>cw_name := if ''Anna'' = '''' then cw_name r else ''Anna'', cw_birthday := if unset_stamp (utc zero_time)
       then cw_birthday r else Some (cs_date c_service (utc zero_time)), cw_updated := db_time (cs_env c_service) t0\<rparr>"
    "customer_rows c_renamed = map (\<lambda>q. if cw_id q = 1 then r' else q) (customer_rows c_created)"
    using profile_update_success [OF c_reachable(2) run] by (elim exE conjE) (rule that; assumption)
  have "cw_name r' = ''Anna''" "cw_id r' = 1" using r(1) by (simp_all add: r(2))
  then show ?thesis using r(3) by (simp add: c_rows c_row_def)
qed

end
