(* ===== verification/CustomerQueryProps.thy ===== *)
theory CustomerQueryProps
  imports CustomerProps SchedClient "HOL-Library.Sublist"
begin

text \<open>What customer-service guarantees of its answers: the cached listing, the search, the version a client sends back,
  and the profile scheduler-service asks for.\<close>

section \<open>The cache\<close>

text \<open>A history of the database, latest state first.\<close>

inductive customer_history :: "customer_db list \<Rightarrow> bool" where
  begins: "empty_customer_tables s \<Longrightarrow> customer_history [s]"
| goes_on: "customer_history (s # h) \<Longrightarrow> customer_history (run_customer x s # s # h)"

inductive_cases customer_historyE: "customer_history h"

definition listing :: "customer_service \<Rightarrow> customer_params \<Rightarrow> customer_db \<Rightarrow> customer_page" where
  "listing S p s = customer_page_of S (lc_limit p) (customer_list_rows S p s)"

text \<open>Where a cache entry comes from: a listing without search of some earlier state, filled in two ticks after it.\<close>

definition filled_from :: "customer_db list \<Rightarrow> string \<Rightarrow> json \<Rightarrow> int \<Rightarrow> bool" where
  "filled_from h key v expires \<longleftrightarrow> (\<exists>s \<in> set h. \<exists>S p. key = customers_page_cache_key p \<and> lc_email p = '''' \<and>
     v = customer_page_json (listing S p s) \<and>
     expires = clock (cs_env S) (Suc (Suc (tick s))) + customers_page_cache_ttl)"

definition cache_ok :: "customer_db list \<Rightarrow> customer_db \<Rightarrow> bool" where
  "cache_ok h s \<longleftrightarrow> (\<forall>(key, v, expires) \<in> set (cache_entries s). filled_from h key v expires)"

lemma tx_cache:
  assumes "customer_tx.grows m"
  shows "cache_entries (snd (run_in_tx E f customer_restore m s)) = cache_entries s"
proof -
  obtain r t where m: "m (step_tick s) = (r, t)" by fastforce
  have "cache_entries t = cache_entries s" using customer_tx.growsD [OF assms m] by (simp add: customer_later_def)
  then show ?thesis by (simp add: run_in_tx_def m split: option.splits sum.splits)
qed

lemma link_user_cache: "cache_entries (snd (link_user S uid email s)) = cache_entries s"
proof -
  obtain r t where run: "link_user S uid email s = (r, t)" by fastforce
  then show ?thesis
  proof (cases rule: link_user_cases)
    case (tx n)
    then show ?thesis using tx_cache [OF grows_customer_bodies(4), of "cs_env S" CErrDb S uid email "s\<lparr>tick := n\<rparr>"] run by simp
  qed (use run in simp_all)
qed

lemma list_customer_rows_Inr:
  "list_customer_rows S p s = (Inr page, t) \<longleftrightarrow> fault (cs_env S) (tick s) = None \<and> page = listing S p s \<and> t = step_tick s"
  by (auto simp: list_customer_rows_def on_ok_Inr query_Inr listing_def customer_list_rows_def)

text \<open>What a listing leaves in the cache: nothing new, or the page it found under its key.\<close>

lemma list_and_cache_entries:
  assumes "list_and_cache S p s = (r, t)"
  shows "cache_entries t = cache_entries s \<or> cache_entries t = (customers_page_cache_key p, customer_page_json (listing S p s),
      clock (cs_env S) (Suc (tick s)) + customers_page_cache_ttl) # cache_entries s"
proof -
  obtain q u where q: "list_customer_rows S p s = (q, u)" by fastforce
  show ?thesis
  proof (cases q)
    case (Inl e)
    then have "t = u" using assms q by (simp add: list_and_cache_def on_ok_def)
    then show ?thesis using reads_onlyD [OF reads_only_customer(4) q] by auto
  next
    case (Inr page)
    then have "page = listing S p s" "u = step_tick s" using q by (simp_all add: list_customer_rows_Inr)
    then show ?thesis using assms q Inr
      by (auto simp: list_and_cache_def on_ok_def cache_set_def step_tick_def split: option.splits)
  qed
qed

lemma listing_frame: "listing S p (s\<lparr>tick := n\<rparr>) = listing S p s" "listing S p (step_tick s) = listing S p s"
  by (simp_all add: listing_def customer_list_rows_def)

lemma get_customers_entries:
  assumes "get_customers S params s = (r, t)"
  shows "cache_entries t = cache_entries s \<or> lc_email (clamp_params params) = '''' \<and>
    cache_entries t = (customers_page_cache_key (clamp_params params), customer_page_json (listing S (clamp_params params) s),
      clock (cs_env S) (Suc (Suc (tick s))) + customers_page_cache_ttl) # cache_entries s"
proof (cases "lc_email (clamp_params params) = ''''")
  case False
  then have "list_customer_rows S (clamp_params params) s = (r, t)" using assms by (simp add: get_customers_def Let_def)
  from reads_onlyD [OF reads_only_customer(4) this] show ?thesis by auto
next
  case True
  let ?p = "clamp_params params"
  have "t = step_tick s \<or> list_and_cache S ?p (step_tick s) = (r, t)"
    using assms True by (auto simp: get_customers_def Let_def cache_get_def split: sum.splits option.splits prod.splits if_splits)
  then show ?thesis
    using list_and_cache_entries [of S ?p "step_tick s" r t] True by (auto simp: listing_frame) (simp_all add: step_tick_def)
qed

lemma cache_ok_mono: "cache_ok h s \<Longrightarrow> set h \<subseteq> set h' \<Longrightarrow> set (cache_entries t) \<subseteq> set (cache_entries s) \<Longrightarrow> cache_ok h' t"
  unfolding cache_ok_def filled_from_def by fast

lemma history_cache_ok: "customer_history h \<Longrightarrow> cache_ok h (hd h)"
proof (induction rule: customer_history.induct)
  case (begins s)
  then show ?case by (simp add: cache_ok_def empty_customer_tables_def)
next
  case (goes_on s h x)
  let ?t = "run_customer x s"
  have s: "cache_ok (s # h) s" using goes_on(2) by simp
  have same: "cache_ok (?t # s # h) ?t" if "set (cache_entries ?t) \<subseteq> set (cache_entries s)"
    by (rule cache_ok_mono [OF s _ that]) auto
  show ?case
  proof (cases "\<exists>S p. x = CList S p")
    case True
    then obtain S p where x: "x = CList S p" by blast
    have e: "cache_ok (?t # s # h) ?t \<or> lc_email (clamp_params p) = '''' \<and>
        cache_entries ?t = (customers_page_cache_key (clamp_params p), customer_page_json (listing S (clamp_params p) s),
        clock (cs_env S) (Suc (Suc (tick s))) + customers_page_cache_ttl) # cache_entries s"
      using get_customers_entries [of S p s "fst (get_customers S p s)" ?t] same by (auto simp: x)
    moreover have "cache_ok (?t # s # h) s" by (rule cache_ok_mono [OF s]) auto
    moreover have "filled_from (?t # s # h) (customers_page_cache_key (clamp_params p)) (customer_page_json (listing S (clamp_params p) s))
        (clock (cs_env S) (Suc (Suc (tick s))) + customers_page_cache_ttl)" if "lc_email (clamp_params p) = ''''"
      unfolding filled_from_def using that by (intro bexI [of _ s] exI [of _ S] exI [of _ "clamp_params p"]) simp_all
    ultimately show ?thesis by (auto simp: cache_ok_def)
  next
    case False
    have "set (cache_entries ?t) \<subseteq> set (cache_entries s)"
    proof (cases x)
      case (CRelay E)
      obtain n rows l where "?t = s\<lparr>tick := n, outbox_rows := rows, kafka_log := l\<rparr>"
        using outbox_frame_update [OF relay_once_frame] unfolding CRelay run_customer.simps by blast
      then show ?thesis by simp
    qed (use False in \<open>simp_all add: create_customer_def update_profile_def delete_profile_def tx_cache [OF grows_customer_bodies(1)]
        tx_cache [OF grows_customer_bodies(2)] tx_cache [OF grows_customer_bodies(3)] link_user_cache fail_def\<close>)
    then show ?thesis using same by simp
  qed
qed

text \<open>A key names the cursor and the limit.\<close>

lemma colon_free: "CHR '':'' \<notin> set (format_int n)"
proof -
  have "CHR '':'' \<notin> set (digits k)" for k
    using parse_nat_digits [OF parse_digits [of 0 k]] by (auto simp: digit_of_def)
  then show ?thesis by (simp add: format_int_def)
qed

lemma cache_key_inj:
  assumes "customers_page_cache_key p = customers_page_cache_key q" "lc_email p = lc_email q"
  shows "p = q"
proof -
  let ?rest = "\<lambda>r. ''limit='' @ format_int (lc_limit r)"
  have e: "format_int (lc_cursor p) @ CHR '':'' # ?rest p = format_int (lc_cursor q) @ CHR '':'' # ?rest q"
    using assms(1) by (simp add: customers_page_cache_key_def)
  have c: "cut_at CHR '':'' (format_int (lc_cursor r) @ CHR '':'' # ?rest r) = Some (format_int (lc_cursor r), ?rest r)" for r
    by (simp only: cut_at_Some colon_free) simp
  have "Some (format_int (lc_cursor p), ?rest p) = Some (format_int (lc_cursor q), ?rest q)"
    using c [of p] c [of q] unfolding e by (simp only:)
  then have "lc_cursor p = lc_cursor q" "lc_limit p = lc_limit q" by simp_all
  then show ?thesis using assms(2) by (intro customer_params.equality) simp_all
qed


definition c_first_page :: customer_params where
  "c_first_page = \<lparr>lc_cursor = 0, lc_limit = 0, lc_email = ''''\<rparr>"

lemma c_history: "customer_history [c_created, c_empty]"
proof -
  have "customer_history [c_empty]" by (rule customer_history.begins) (simp add: empty_customer_tables_def c_empty_def)
  from customer_history.goes_on [OF this, of "CCreate c_service c_ann"] show ?thesis by (simp add: c_created_def)
qed

lemma c_list: "\<exists>page t. get_customers c_service c_first_page c_created = (Inr page, t)"
  by (simp add: get_customers_def Let_def c_first_page_def clamp_params_def trim_space_def cache_get_def c_rows
      list_and_cache_def list_customer_rows_def crun_defs)


section \<open>The search\<close>

lemma like_percent: "like (CHR ''%'' # p) s \<longleftrightarrow> (\<exists>a b. s = a @ b \<and> like p b)"
proof (induction s)
  case (Cons d s)
  have "like (CHR ''%'' # p) (d # s) \<longleftrightarrow> like p (d # s) \<or> like (CHR ''%'' # p) s" by simp
  also have "\<dots> \<longleftrightarrow> (\<exists>a b. d # s = a @ b \<and> like p b)"
    unfolding Cons by (metis append_Cons append_Nil append_eq_Cons_conv)
  finally show ?case .
qed simp

definition wildcard :: "char \<Rightarrow> bool" where
  "wildcard c \<longleftrightarrow> c = CHR 0x5C \<or> c = CHR ''%'' \<or> c = CHR ''_''"

lemma like_escape_simps:
  "like_escape [] = []" "like_escape (c # e) = (if wildcard c then CHR 0x5C # c # like_escape e else c # like_escape e)"
  by (simp_all add: like_escape_def wildcard_def)

lemma like_escaped: "like (like_escape e @ p) s \<longleftrightarrow> (\<exists>b. s = e @ b \<and> like p b)"
proof (induction e arbitrary: s)
  case (Cons c e)
  have "like (like_escape (c # e) @ p) s \<longleftrightarrow> (\<exists>t. s = c # t \<and> like (like_escape e @ p) t)"
    by (cases s) (auto simp: like_escape_simps wildcard_def)
  then show ?case by (auto simp: Cons)
qed (simp add: like_escape_simps)

text \<open>What \<open>ILIKE\<close>'s folding does not touch: the wildcards and the escape.\<close>

definition plain_folding :: "(char \<Rightarrow> char) \<Rightarrow> bool" where
  "plain_folding f \<longleftrightarrow> (\<forall>c. wildcard (f c) = wildcard c) \<and> f CHR 0x5C = CHR 0x5C \<and> f CHR ''%'' = CHR ''%''"

lemma fold_escape: "plain_folding f \<Longrightarrow> map f (like_escape e) = like_escape (map f e)"
  by (induction e) (auto simp: like_escape_simps plain_folding_def)

lemma ilike_contains:
  assumes "plain_folding f"
  shows "ilike f (''%'' @ like_escape e @ ''%'') s \<longleftrightarrow> sublist (map f e) (map f s)"
proof -
  have "like ''%'' b" for b using like_percent [of "[]" b] by (metis append_Nil2 like.simps(1))
  then show ?thesis
    using assms fold_escape [OF assms, of e] like_percent [of "like_escape (map f e) @ ''%''" "map f s"]
    by (simp add: ilike_def plain_folding_def like_escaped sublist_def del: like.simps) blast
qed

text \<open>C34. A search finds the live customers past the cursor whose email contains the text as it was typed (its \<open>%\<close>, \<open>_\<close>
  and backslashes taken literally, case folded), in id order: the first page of them, saying whether there are more; it does not
  read or write the cache.\<close>

theorem search_is_substring:
  assumes "customer_reachable s" "plain_folding (cs_fold S)" "trim_space (lc_email params) \<noteq> ''''"
    and "get_customers S params s = (Inr page, t)"
    and "p = clamp_params params"
    and "hits = sort_key cw_id (filter (\<lambda>r. cw_deleted r = None \<and> lc_cursor p < cw_id r \<and>
      sublist (map (cs_fold S) (trim_space (lc_email params))) (map (cs_fold S) (cw_email r))) (customer_rows s))"
  shows "cp_customers page = map (to_customer S) (take (nat (lc_limit p)) hits) \<and>
    (cp_more page \<longleftrightarrow> nat (lc_limit p) < length hits) \<and> 0 < lc_limit p \<and> lc_limit p \<le> 100 \<and>
    cache_entries t = cache_entries s"
proof -
  have e: "lc_email p = trim_space (lc_email params)" by (simp add: assms(5) clamp_params_def)
  have run: "list_customer_rows S p s = (Inr page, t)" using assms(3-5) e by (simp add: get_customers_def Let_def)
  have l: "0 < lc_limit p" "lc_limit p \<le> 100" "0 \<le> lc_cursor p"
    by (simp_all add: assms(5) clamp_params_def default_customers_limit_def max_customers_limit_def)
  have pos: "\<forall>r \<in> set (customer_rows s). 0 < cw_id r"
    using reachable_customer_inv [OF assms(1)] by (simp add: customer_inv_def customers_ok_def)
  have "filter (\<lambda>r. live r \<and> (0 < lc_cursor p \<longrightarrow> lc_cursor p < cw_id r) \<and>
      (lc_email p \<noteq> '''' \<longrightarrow> ilike (cs_fold S) (''%'' @ like_escape (lc_email p) @ ''%'') (cw_email r))) (customer_rows s) =
    filter (\<lambda>r. cw_deleted r = None \<and> lc_cursor p < cw_id r \<and>
      sublist (map (cs_fold S) (trim_space (lc_email params))) (map (cs_fold S) (cw_email r))) (customer_rows s)"
    using pos l(3) assms(3)
    by (intro filter_cong refl) (auto simp: live_def e ilike_contains [OF assms(2), unfolded append_Cons append_Nil])
  then have rows: "customer_list_rows S p s = take (nat (lc_limit p + 1)) hits" by (simp add: customer_list_rows_def assms(6))
  have page: "page = customer_page_of S (lc_limit p) (take (nat (lc_limit p + 1)) hits)" "t = step_tick s"
    using run by (simp_all add: list_customer_rows_Inr listing_def rows)
  have n: "nat (lc_limit p + 1) = Suc (nat (lc_limit p))" using l(1) by simp
  have "cp_customers page = map (to_customer S) (take (nat (lc_limit p)) hits) \<and> (cp_more page \<longleftrightarrow> nat (lc_limit p) < length hits)"
    unfolding page(1) n using l(1) by (auto simp: customer_page_of_def Let_def min_def)
  then show ?thesis using l page(2) by simp
qed

definition c_search :: customer_params where
  "c_search = \<lparr>lc_cursor = 0, lc_limit = 0, lc_email = '' n_@x ''\<rparr>"

lemma c_search_run: "\<exists>page t. get_customers c_service c_search c_created = (Inr page, t)"
proof -
  have "trim_space (lc_email c_search) \<noteq> ''''" by code_simp
  then show ?thesis
    by (simp add: get_customers_def Let_def clamp_params_def list_customer_rows_def crun_defs)
qed

lemma search_is_substring_witness:
  "\<exists>page t. get_customers c_service c_search c_created = (Inr page, t) \<and> cp_customers page = []"
proof -
  obtain page t where run: "get_customers c_service c_search c_created = (Inr page, t)" using c_search_run by blast
  have t: "trim_space (lc_email c_search) = ''n_@x''" by code_simp
  have f: "plain_folding (cs_fold c_service)" by (simp add: plain_folding_def c_service_def)
  have "\<not> sublist ''n_@x'' ''ann@x''" by code_simp
  then have "filter (\<lambda>r. cw_deleted r = None \<and> lc_cursor (clamp_params c_search) < cw_id r \<and>
      sublist (map (cs_fold c_service) (trim_space (lc_email c_search))) (map (cs_fold c_service) (cw_email r))) (customer_rows c_created) = []"
    by (simp add: c_rows t) (simp add: c_service_def c_row_def)
  then show ?thesis using search_is_substring [OF c_reachable(2) f _ run refl refl] run t by auto
qed

end
