(* ===== verification/IdentityData.thy ===== *)
theory IdentityData
  imports Stamps Outbox
begin

text \<open>identity-service's data: roles and statuses (\<open>internal/constants\<close>), the entities and sentinel errors
  (\<open>internal/domain\<close>), the \<open>app_user\<close> row (\<open>database/models/user-model.go\<close>, \<open>migrations/00001_baseline.sql\<close>), and the
  database with the Redis keyspace beside it.\<close>

section \<open>Roles and statuses\<close>

definition self_registerable :: "string \<Rightarrow> bool" where
  "self_registerable r \<longleftrightarrow> r = role_customer"

definition role_valid :: "string \<Rightarrow> bool" where
  "role_valid r \<longleftrightarrow> r \<in> {role_customer, role_technician, role_manager, role_admin}"

definition user_active :: string where "user_active = ''ACTIVE''"
definition user_inactive :: string where "user_inactive = ''INACTIVE''"
definition user_locked :: string where "user_locked = ''LOCKED''"

definition user_status_valid :: "string \<Rightarrow> bool" where
  "user_status_valid s \<longleftrightarrow> s = user_active \<or> s = user_inactive \<or> s = user_locked"

section \<open>Errors\<close>

text \<open>The sentinels (invalid input with the text \<open>fmt.Errorf\<close> appends), a database error, and any other error.\<close>

datatype identity_error =
    IErrNotFound
  | IErrConflict
  | IErrInvalidCredentials
  | IErrInvalidToken
  | IErrUserInactive
  | IErrRoleNotAllowed
  | IErrForbidden
  | IErrInvalidInput string
  | IErrDb db_error
  | IErrOther string

section \<open>Entities\<close>

record identity_user =
  iu_id :: string
  iu_email :: string
  iu_hash :: string
  iu_role :: string
  iu_status :: string
  iu_created :: stamp
  iu_updated :: stamp

record register_input =
  rg_email :: string
  rg_password :: string
  rg_role :: string

record token_pair =
  tp_access :: string
  tp_access_expires :: int
  tp_refresh :: string
  tp_refresh_expires :: int

text \<open>What an access token says: the claims \<open>IssueAccessToken\<close> signs, its dates in Unix seconds.\<close>

record jwt_claims =
  jw_role :: string
  jw_subject :: string
  jw_issuer :: string
  jw_issued :: int
  jw_expires :: int

section \<open>Rows and Redis\<close>

record user_row =
  au_id :: string
  au_email :: string
  au_hash :: string
  au_role :: string
  au_status :: string
  au_created :: int
  au_updated :: int

text \<open>A Redis key holds a string and, where it has one, the millisecond it expires at.\<close>

type_synonym redis_store = "string \<Rightarrow> (string \<times> int option) option"

record identity_db = outbox_db +
  user_rows :: "user_row list"
  redis :: redis_store

text \<open>ROLLBACK: every table as at BEGIN; the clock, the sequences, the broker and Redis keep what happened.\<close>

definition identity_restore :: "identity_db \<Rightarrow> identity_db \<Rightarrow> identity_db" where
  "identity_restore s t = t\<lparr>outbox_rows := outbox_rows s, user_rows := user_rows s\<rparr>"

lemma identity_tick [simp]: "user_rows (step_tick s) = user_rows s" "redis (step_tick s) = redis s"
  by (simp_all add: step_tick_def)

lemma identity_restore_sel [simp]:
  "outbox_rows (identity_restore s t) = outbox_rows s" "user_rows (identity_restore s t) = user_rows s"
  "redis (identity_restore s t) = redis t" "outbox_seq (identity_restore s t) = outbox_seq t"
  "kafka_log (identity_restore s t) = kafka_log t" "tick (identity_restore s t) = tick t"
  by (simp_all add: identity_restore_def)

section \<open>The process\<close>

text \<open>The environment and the configuration, with the code that is not the service's own: bcrypt (the hash made at a tick,
  and whether a password matches one), SHA-256, the random bytes of a tick, the signing of a token, \<open>uuid.Validate\<close>, the
  canonical form the database gives a UUID (\<open>None\<close> for what it refuses as one), and what becomes of each Redis command.\<close>

record identity_service =
  is_env :: env
  is_redis :: "nat \<Rightarrow> delivery"
  is_local :: location
  is_topic :: string
  is_refresh_ttl :: int
  is_access_ttl :: int
  is_secret :: string
  is_issuer :: string
  is_dummy_hash :: string
  is_hash :: "nat \<Rightarrow> string \<Rightarrow> string + string"
  is_compare :: "string \<Rightarrow> string \<Rightarrow> bool"
  is_sha256 :: "string \<Rightarrow> string"
  is_random :: "nat \<Rightarrow> string + nat list"
  is_sign :: "string \<Rightarrow> jwt_claims \<Rightarrow> string + string"
  is_uuid_valid :: "string \<Rightarrow> bool"
  is_uuid :: "string \<Rightarrow> string option"

definition identity_stamp :: "identity_service \<Rightarrow> int \<Rightarrow> stamp" where
  "identity_stamp S t = \<lparr>sp_time = t, sp_loc = is_local S\<rparr>"

end
