(* ===== verification/IdentityRepo.thy ===== *)
theory IdentityRepo
  imports IdentityData
begin

text \<open>identity-service's repository (\<open>adapters/repository/user-repository.go\<close>), statement by statement, with the
  constraints of \<open>migrations/00001_baseline.sql\<close>, and its Redis stores (\<open>adapters/cache/redis.go\<close>).\<close>

section \<open>Rows\<close>

definition is_duplicate_key_error :: "db_error \<Rightarrow> bool" where
  "is_duplicate_key_error e = (case e of UniqueViolation c \<Rightarrow> True | _ \<Rightarrow> False)"

text \<open>\<open>toModel\<close> and the driver: no row for an id that is not a UUID.\<close>

definition to_user_model :: "identity_service \<Rightarrow> identity_user \<Rightarrow> user_row option" where
  "to_user_model S u = map_option (\<lambda>i.
     \<lparr>au_id = i, au_email = iu_email u, au_hash = iu_hash u, au_role = iu_role u, au_status = iu_status u,
      au_created = db_time (is_env S) (sp_time (iu_created u)), au_updated = db_time (is_env S) (sp_time (iu_updated u))\<rparr>)
     (is_uuid S (iu_id u))"

definition to_user :: "identity_service \<Rightarrow> user_row \<Rightarrow> identity_user" where
  "to_user S r =
     \<lparr>iu_id = au_id r, iu_email = au_email r, iu_hash = au_hash r, iu_role = au_role r, iu_status = au_status r,
      iu_created = identity_stamp S (au_created r), iu_updated = identity_stamp S (au_updated r)\<rparr>"

text \<open>What a row violates beside the others: the CHECKs, then the unique indexes.\<close>

definition user_violation :: "user_row \<Rightarrow> user_row list \<Rightarrow> db_error option" where
  "user_violation r others =
     (if \<not> role_valid (au_role r) then Some (CheckViolation ''app_user_role_check'')
      else if \<not> user_status_valid (au_status r) then Some (CheckViolation ''app_user_status_check'')
      else if au_id r \<in> au_id ` set others then Some (UniqueViolation ''app_user_pkey'')
      else if to_lower (au_email r) \<in> (\<lambda>q. to_lower (au_email q)) ` set others
      then Some (UniqueViolation ''uq_app_user_email'')
      else None)"

definition not_a_uuid :: db_error where
  "not_a_uuid = DriverError ''invalid input syntax for type uuid''"

section \<open>Writes\<close>

definition insert_user :: "identity_service \<Rightarrow> identity_user \<Rightarrow> (identity_db, db_error, unit) prog" where
  "insert_user S u = (\<lambda>s.
     case to_user_model S u of
       None \<Rightarrow> (Inl not_a_uuid, s)
     | Some r \<Rightarrow> (case user_violation r (user_rows s) of
           Some e \<Rightarrow> (Inl e, s)
         | None \<Rightarrow> (Inr (), s\<lparr>user_rows := user_rows s @ [r]\<rparr>)))"

text \<open>\<open>Create\<close> answers with the model it inserted, which is the user it was given: both times are set already.\<close>

definition create_user_row :: "identity_service \<Rightarrow> identity_user \<Rightarrow> (identity_db, identity_error, identity_user) prog" where
  "create_user_row S u =
     on_ok (map_err (\<lambda>e. if is_duplicate_key_error e then IErrConflict else IErrDb e) (sql (is_env S) (insert_user S u)))
       (\<lambda>_. ok u)"

section \<open>Reads\<close>

definition first_user ::
    "identity_service \<Rightarrow> (user_row \<Rightarrow> bool) \<Rightarrow> (identity_db, identity_error, identity_user) prog" where
  "first_user S P =
     on_ok (map_err IErrDb (query (is_env S) (\<lambda>s. take 1 (sort_key au_id (filter P (user_rows s)))))) (\<lambda>rs.
     case rs of [] \<Rightarrow> fail IErrNotFound | r # _ \<Rightarrow> ok (to_user S r))"

text \<open>\<open>WHERE id = ?\<close>, with what the database makes of the parameter.\<close>

definition first_with_id :: "identity_service \<Rightarrow> string \<Rightarrow> (identity_db, identity_error, identity_user) prog" where
  "first_with_id S i = (case is_uuid S i of
       None \<Rightarrow> map_err IErrDb (sql (is_env S) (\<lambda>s. (Inl not_a_uuid, s)))
     | Some u \<Rightarrow> first_user S (\<lambda>r. au_id r = u))"

definition get_user_by_id :: "identity_service \<Rightarrow> string \<Rightarrow> (identity_db, identity_error, identity_user) prog" where
  "get_user_by_id S i = (if \<not> is_uuid_valid S i then fail IErrNotFound else first_with_id S i)"

definition get_user_by_email :: "identity_service \<Rightarrow> string \<Rightarrow> (identity_db, identity_error, identity_user) prog" where
  "get_user_by_email S email = first_user S (\<lambda>r. to_lower (au_email r) = to_lower email)"

definition get_by_id_for_update :: "identity_service \<Rightarrow> string \<Rightarrow> (identity_db, identity_error, identity_user) prog" where
  "get_by_id_for_update S i = (if \<not> is_uuid_valid S i then fail IErrNotFound else first_with_id S i)"

definition exists_with_role :: "identity_service \<Rightarrow> string \<Rightarrow> (identity_db, identity_error, bool) prog" where
  "exists_with_role S role =
     map_err IErrDb (query (is_env S) (\<lambda>s. 0 < length (filter (\<lambda>r. au_role r = role) (user_rows s))))"

text \<open>\<open>UpdateStatus\<close>: the UPDATE, then the row as it is now.\<close>

definition set_status_columns :: "env \<Rightarrow> string \<Rightarrow> int \<Rightarrow> user_row \<Rightarrow> user_row" where
  "set_status_columns E status t r = r\<lparr>au_status := status, au_updated := db_time E t\<rparr>"

definition status_statement ::
    "identity_service \<Rightarrow> string \<Rightarrow> string \<Rightarrow> int \<Rightarrow> (identity_db, db_error, nat) prog" where
  "status_statement S i status t = (\<lambda>s.
     case is_uuid S i of
       None \<Rightarrow> (Inl not_a_uuid, s)
     | Some u \<Rightarrow>
         (let n = length (filter (\<lambda>r. au_id r = u) (user_rows s))
          in if 0 < n \<and> \<not> user_status_valid status then (Inl (CheckViolation ''app_user_status_check''), s)
             else (Inr n, s\<lparr>user_rows := map (\<lambda>r.
               if au_id r = u then set_status_columns (is_env S) status t r else r) (user_rows s)\<rparr>)))"

definition update_user_status ::
    "identity_service \<Rightarrow> string \<Rightarrow> string \<Rightarrow> int \<Rightarrow> (identity_db, identity_error, identity_user) prog" where
  "update_user_status S i status t =
     (if \<not> is_uuid_valid S i then fail IErrNotFound
      else on_ok (map_err IErrDb (sql (is_env S) (status_statement S i status t))) (\<lambda>n.
           if n = 0 then fail IErrNotFound else first_with_id S i))"

section \<open>Redis\<close>

text \<open>One round trip to Redis: a command (or a script, or a pipeline) at the server's clock. The connection may fail before
  or after the server has run it; the server itself may refuse it.\<close>

definition redis_ms :: "int \<Rightarrow> int" where
  "redis_ms t = t div millisecond"

definition redis_call ::
    "identity_service \<Rightarrow> (int \<Rightarrow> redis_store \<Rightarrow> (string + 'a) \<times> redis_store) \<Rightarrow> (identity_db, string, 'a) prog" where
  "redis_call S f = (\<lambda>s.
     let (r, m) = f (redis_ms (clock (is_env S) (tick s))) (redis s)
     in case is_redis S (tick s) of
          Acked \<Rightarrow> (r, step_tick (s\<lparr>redis := m\<rparr>))
        | Refused msg \<Rightarrow> (Inl msg, step_tick s)
        | LostAck msg \<Rightarrow> (Inl msg, step_tick (s\<lparr>redis := m\<rparr>)))"

text \<open>An expired key is as good as gone.\<close>

definition redis_get :: "int \<Rightarrow> redis_store \<Rightarrow> string \<Rightarrow> (string \<times> int option) option" where
  "redis_get t m k = (case m k of
       None \<Rightarrow> None
     | Some (v, e) \<Rightarrow> (case e of None \<Rightarrow> Some (v, e) | Some x \<Rightarrow> if t < x then Some (v, e) else None))"

text \<open>Commands over a store: \<open>SET\<close> with a time to live (none for one that is not positive), \<open>GETDEL\<close>, \<open>DEL\<close>.\<close>

definition ttl_ms :: "int \<Rightarrow> int" where
  "ttl_ms ttl = (if ttl < millisecond then 1 else ttl div millisecond)"

definition redis_set :: "string \<Rightarrow> string \<Rightarrow> int \<Rightarrow> int \<Rightarrow> redis_store \<Rightarrow> (string + unit) \<times> redis_store" where
  "redis_set k v ttl t m = (Inr (), m(k \<mapsto> (v, if 0 < ttl then Some (t + ttl_ms ttl) else None)))"

definition redis_getdel :: "string \<Rightarrow> int \<Rightarrow> redis_store \<Rightarrow> (string + string option) \<times> redis_store" where
  "redis_getdel k t m = (Inr (map_option fst (redis_get t m k)), m(k := None))"

definition redis_del :: "string \<Rightarrow> int \<Rightarrow> redis_store \<Rightarrow> (string + unit) \<times> redis_store" where
  "redis_del k t m = (Inr (), m(k := None))"

section \<open>Refresh tokens\<close>

definition refresh_token_key_prefix :: string where "refresh_token_key_prefix = ''refresh:''"

definition save_refresh :: "identity_service \<Rightarrow> string \<Rightarrow> string \<Rightarrow> int \<Rightarrow> (identity_db, identity_error, unit) prog" where
  "save_refresh S token_hash user_id ttl =
     map_err IErrOther (redis_call S (redis_set (refresh_token_key_prefix @ token_hash) user_id ttl))"

definition consume_refresh :: "identity_service \<Rightarrow> string \<Rightarrow> (identity_db, identity_error, string) prog" where
  "consume_refresh S token_hash =
     on_ok (map_err IErrOther (redis_call S (redis_getdel (refresh_token_key_prefix @ token_hash)))) (\<lambda>v.
     case v of None \<Rightarrow> fail IErrInvalidToken | Some user_id \<Rightarrow> ok user_id)"

definition delete_refresh :: "identity_service \<Rightarrow> string \<Rightarrow> (identity_db, identity_error, unit) prog" where
  "delete_refresh S token_hash = map_err IErrOther (redis_call S (redis_del (refresh_token_key_prefix @ token_hash)))"

section \<open>Attempts\<close>

definition attempt_key_prefix :: string where "attempt_key_prefix = ''attempts:''"

text \<open>\<open>GET\<close> and \<open>PTTL\<close> in one pipeline; a count that is not a number is an error of \<open>Int()\<close>.\<close>

definition redis_attempts :: "string \<Rightarrow> int \<Rightarrow> redis_store \<Rightarrow> (string + int \<times> int) \<times> redis_store" where
  "redis_attempts k t m =
     ((case redis_get t m k of
         None \<Rightarrow> Inr (0, 0)
       | Some (v, e) \<Rightarrow> (case parse_int64 v of
             None \<Rightarrow> Inl ''strconv.Atoi: invalid syntax''
           | Some n \<Rightarrow> Inr (n, case e of None \<Rightarrow> 0 | Some x \<Rightarrow> (x - t) * millisecond))), m)"

definition attempts :: "identity_service \<Rightarrow> string \<Rightarrow> (identity_db, string, int \<times> int) prog" where
  "attempts S key = redis_call S (redis_attempts (attempt_key_prefix @ key))"

text \<open>\<open>addAttemptScript\<close>: \<open>INCR\<close>, which keeps the expiry and takes only integers as it writes them, and \<open>PEXPIRE\<close> on
  the first increment, which drops the key when the time is not positive.\<close>

definition redis_integer :: "string \<Rightarrow> int option" where
  "redis_integer v = (case parse_int64 v of None \<Rightarrow> None | Some n \<Rightarrow> if format_int n = v then Some n else None)"

definition redis_incr :: "string \<Rightarrow> int \<Rightarrow> redis_store \<Rightarrow> (string + int) \<times> redis_store" where
  "redis_incr k t m =
     (case redis_get t m k of
        None \<Rightarrow> (Inr 1, m(k \<mapsto> (format_int 1, None)))
      | Some (v, e) \<Rightarrow> (case redis_integer v of
            None \<Rightarrow> (Inl ''ERR value is not an integer or out of range'', m)
          | Some n \<Rightarrow>
              if n = max_int64 then (Inl ''ERR increment or decrement would overflow'', m)
              else (Inr (n + 1), m(k \<mapsto> (format_int (n + 1), e)))))"

definition redis_pexpire :: "string \<Rightarrow> int \<Rightarrow> int \<Rightarrow> redis_store \<Rightarrow> redis_store" where
  "redis_pexpire k ms t m =
     (if ms \<le> 0 then m(k := None)
      else m(k := map_option (\<lambda>(v, e). (v, Some (t + ms))) (m k)))"

definition add_attempt_script :: "string \<Rightarrow> int \<Rightarrow> int \<Rightarrow> redis_store \<Rightarrow> (string + int) \<times> redis_store" where
  "add_attempt_script k ms t m =
     (case redis_incr k t m of
        (Inl e, m1) \<Rightarrow> (Inl e, m1)
      | (Inr n, m1) \<Rightarrow> (Inr n, if n = 1 then redis_pexpire k ms t m1 else m1))"

definition add_attempt :: "identity_service \<Rightarrow> string \<Rightarrow> int \<Rightarrow> (identity_db, string, unit) prog" where
  "add_attempt S key window =
     on_ok (redis_call S (add_attempt_script (attempt_key_prefix @ key) (quot window millisecond))) (\<lambda>_. ok ())"

definition reset_attempts :: "identity_service \<Rightarrow> string \<Rightarrow> (identity_db, string, unit) prog" where
  "reset_attempts S key = redis_call S (redis_del (attempt_key_prefix @ key))"

end
