(* ===== verification/IdentityService.thy ===== *)
theory IdentityService
  imports IdentityRepo
begin

text \<open>identity-service's operations: \<open>domain/services/user-writer.go\<close>, \<open>auth-service.go\<close> and \<open>admin-service.go\<close>, the access
  tokens of \<open>adapters/security/jwt.go\<close>, and the bootstrap of \<open>application/application.go\<close>. Log lines are left out.\<close>

abbreviation in_identity_tx ::
    "identity_service \<Rightarrow> (identity_db, identity_error, 'a) prog \<Rightarrow> (identity_db, identity_error, 'a) prog" where
  "in_identity_tx S \<equiv> run_in_tx (is_env S) IErrDb identity_restore"

section \<open>Writing users\<close>

definition user_events_topic :: string where "user_events_topic = ''identity.user-events''"

datatype user_event_type = UserCreated | UserUpdated

fun user_event_text :: "user_event_type \<Rightarrow> string" where
  "user_event_text UserCreated = ''UserCreated''"
| "user_event_text UserUpdated = ''UserUpdated''"

definition user_event_payload :: "identity_user \<Rightarrow> json" where
  "user_event_payload u = JObj [(''id'', JStr (iu_id u)), (''email'', JStr (iu_email u)), (''role'', JStr (iu_role u)),
     (''status'', JStr (iu_status u))]"

definition user_event_json :: "string \<Rightarrow> user_event_type \<Rightarrow> int \<Rightarrow> identity_user \<Rightarrow> json" where
  "user_event_json i etype occurred u = JObj [(''event_id'', JStr i), (''event_type'', JStr (user_event_text etype)),
     (''occurred_at'', stamp_json (utc occurred)), (''user'', user_event_payload u)]"

definition write_user_event ::
    "identity_service \<Rightarrow> user_event_type \<Rightarrow> identity_user \<Rightarrow> int \<Rightarrow> (identity_db, identity_error, unit) prog" where
  "write_user_event S etype u occurred =
     on_ok (new_uuid (is_env S)) (\<lambda>i.
     map_err IErrDb (outbox_create (is_env S) (new_message (is_topic S) (iu_id u) (user_event_json i etype occurred u))))"

definition normalize_email :: "string \<Rightarrow> string" where
  "normalize_email email = to_lower (trim_space email)"

definition hash_password :: "identity_service \<Rightarrow> string \<Rightarrow> (identity_db, identity_error, string) prog" where
  "hash_password S password = (\<lambda>s.
     (case is_hash S (tick s) password of Inl e \<Rightarrow> Inl (IErrOther e) | Inr h \<Rightarrow> Inr h, step_tick s))"

text \<open>The user \<open>createUser\<close> makes of the input.\<close>

definition registered_user :: "string \<Rightarrow> string \<Rightarrow> int \<Rightarrow> register_input \<Rightarrow> identity_user" where
  "registered_user i h t reg =
     \<lparr>iu_id = i, iu_email = normalize_email (rg_email reg), iu_hash = h, iu_role = rg_role reg, iu_status = user_active,
      iu_created = utc t, iu_updated = utc t\<rparr>"

definition create_user_tx :: "identity_service \<Rightarrow> identity_user \<Rightarrow> int \<Rightarrow> (identity_db, identity_error, identity_user) prog" where
  "create_user_tx S u t =
     on_ok (create_user_row S u) (\<lambda>created.
     on_ok (write_user_event S UserCreated created t) (\<lambda>_. ok created))"

definition create_user :: "identity_service \<Rightarrow> register_input \<Rightarrow> (identity_db, identity_error, identity_user) prog" where
  "create_user S reg =
     on_ok (hash_password S (rg_password reg)) (\<lambda>h.
     on_ok (now (is_env S)) (\<lambda>t.
     on_ok (new_uuid (is_env S)) (\<lambda>i.
     in_identity_tx S (create_user_tx S (registered_user i h t reg) t))))"

section \<open>Tokens\<close>

definition identity_min_secret_length :: nat where "identity_min_secret_length = 32"

definition new_jwt_issuer :: "string \<Rightarrow> string \<Rightarrow> int \<Rightarrow> string + (string \<times> string \<times> int)" where
  "new_jwt_issuer secret issuer ttl =
     (if length secret < identity_min_secret_length then Inl ''JWT_SECRET must be at least 32 bytes''
      else Inr (secret, issuer, ttl))"

definition access_claims_for :: "identity_service \<Rightarrow> identity_user \<Rightarrow> int \<Rightarrow> jwt_claims" where
  "access_claims_for S u t =
     \<lparr>jw_role = iu_role u, jw_subject = iu_id u, jw_issuer = is_issuer S, jw_issued = unix_seconds t,
      jw_expires = unix_seconds (t + is_access_ttl S)\<rparr>"

definition issue_access_token :: "identity_service \<Rightarrow> identity_user \<Rightarrow> (identity_db, identity_error, string \<times> int) prog" where
  "issue_access_token S u =
     on_ok (now (is_env S)) (\<lambda>t.
     case is_sign S (is_secret S) (access_claims_for S u t) of
       Inl e \<Rightarrow> fail (IErrOther e)
     | Inr token \<Rightarrow> ok (token, t + is_access_ttl S))"

definition new_refresh_token :: "identity_service \<Rightarrow> (identity_db, identity_error, string) prog" where
  "new_refresh_token S = (\<lambda>s.
     (case is_random S (tick s) of Inl e \<Rightarrow> Inl (IErrOther e) | Inr b \<Rightarrow> Inr (base64_raw_url b), step_tick s))"

definition hash_refresh_token :: "identity_service \<Rightarrow> string \<Rightarrow> string" where
  "hash_refresh_token S token = hex_encode (is_sha256 S token)"

definition issue_token_pair :: "identity_service \<Rightarrow> identity_user \<Rightarrow> (identity_db, identity_error, token_pair) prog" where
  "issue_token_pair S u =
     on_ok (issue_access_token S u) (\<lambda>(access, expires).
     on_ok (new_refresh_token S) (\<lambda>refresh.
     on_ok (save_refresh S (hash_refresh_token S refresh) (iu_id u) (is_refresh_ttl S)) (\<lambda>_.
     on_ok (now (is_env S)) (\<lambda>t.
     ok \<lparr>tp_access = access, tp_access_expires = expires, tp_refresh = refresh, tp_refresh_expires = t + is_refresh_ttl S\<rparr>))))"

section \<open>Registration and sessions\<close>

definition register_user :: "identity_service \<Rightarrow> register_input \<Rightarrow> (identity_db, identity_error, identity_user) prog" where
  "register_user S reg =
     (let r = (if rg_role reg = '''' then reg\<lparr>rg_role := role_customer\<rparr> else reg)
      in if \<not> self_registerable (rg_role r) then fail IErrRoleNotAllowed else create_user S r)"

text \<open>\<open>Login\<close>: an unknown email costs a comparison too, and answers as a wrong password does.\<close>

definition login :: "identity_service \<Rightarrow> string \<Rightarrow> string \<Rightarrow> (identity_db, identity_error, token_pair) prog" where
  "login S email password = (\<lambda>s.
     case get_user_by_email S (normalize_email email) s of
       (Inl e, t) \<Rightarrow> if e = IErrNotFound then (Inl IErrInvalidCredentials, t) else (Inl e, t)
     | (Inr u, t) \<Rightarrow>
         if \<not> is_compare S (iu_hash u) password then (Inl IErrInvalidCredentials, t)
         else if iu_status u \<noteq> user_active then (Inl IErrUserInactive, t)
         else issue_token_pair S u t)"

definition refresh_session :: "identity_service \<Rightarrow> string \<Rightarrow> (identity_db, identity_error, token_pair) prog" where
  "refresh_session S token =
     on_ok (consume_refresh S (hash_refresh_token S token)) (\<lambda>user_id s.
     case get_user_by_id S user_id s of
       (Inl e, t) \<Rightarrow> if e = IErrNotFound then (Inl IErrInvalidToken, t) else (Inl e, t)
     | (Inr u, t) \<Rightarrow> if iu_status u \<noteq> user_active then (Inl IErrUserInactive, t) else issue_token_pair S u t)"

definition logout :: "identity_service \<Rightarrow> string \<Rightarrow> (identity_db, identity_error, unit) prog" where
  "logout S token = delete_refresh S (hash_refresh_token S token)"

definition me :: "identity_service \<Rightarrow> string \<Rightarrow> (identity_db, identity_error, identity_user) prog" where
  "me S user_id = get_user_by_id S user_id"

section \<open>Administration\<close>

definition require_admin :: "identity_service \<Rightarrow> string \<Rightarrow> (identity_db, identity_error, unit) prog" where
  "require_admin S actor = (\<lambda>s.
     case get_user_by_id S actor s of
       (Inl e, t) \<Rightarrow> if e = IErrNotFound then (Inl IErrForbidden, t) else (Inl e, t)
     | (Inr u, t) \<Rightarrow> if iu_role u \<noteq> role_admin \<or> iu_status u \<noteq> user_active then (Inl IErrForbidden, t) else (Inr (), t))"

definition admin_create_user :: "identity_service \<Rightarrow> string \<Rightarrow> register_input \<Rightarrow> (identity_db, identity_error, identity_user) prog" where
  "admin_create_user S actor reg =
     (if \<not> role_valid (rg_role reg) then fail (IErrInvalidInput ('': unknown role '' @ quote (rg_role reg)))
      else on_ok (require_admin S actor) (\<lambda>_. create_user S reg))"

definition set_status_tx :: "identity_service \<Rightarrow> string \<Rightarrow> string \<Rightarrow> (identity_db, identity_error, identity_user) prog" where
  "set_status_tx S user_id status =
     on_ok (get_by_id_for_update S user_id) (\<lambda>current.
     if iu_status current = status then ok current
     else on_ok (now (is_env S)) (\<lambda>t.
          on_ok (update_user_status S user_id status t) (\<lambda>updated.
          on_ok (write_user_event S UserUpdated updated t) (\<lambda>_. ok updated))))"

definition set_user_status ::
    "identity_service \<Rightarrow> string \<Rightarrow> string \<Rightarrow> string \<Rightarrow> (identity_db, identity_error, identity_user) prog" where
  "set_user_status S actor user_id status =
     (if \<not> user_status_valid status then fail (IErrInvalidInput ('': unknown status '' @ quote status))
      else if actor = user_id then fail (IErrInvalidInput ('': you can'' @ CHR 0x27 # ''t change your own status''))
      else on_ok (require_admin S actor) (\<lambda>_. in_identity_tx S (set_status_tx S user_id status)))"

text \<open>\<open>BootstrapAdmin\<close>: an account that is there already is never promoted.\<close>

definition bootstrap_admin :: "identity_service \<Rightarrow> string \<Rightarrow> string \<Rightarrow> (identity_db, identity_error, bool) prog" where
  "bootstrap_admin S email password =
     on_ok (exists_with_role S role_admin) (\<lambda>there s.
     if there then (Inr False, s)
     else (case create_user S \<lparr>rg_email = email, rg_password = password, rg_role = role_admin\<rparr> s of
         (Inr u, t) \<Rightarrow> (Inr True, t)
       | (Inl e, t) \<Rightarrow>
           if e = IErrConflict
           then (case get_user_by_email S (normalize_email email) t of
               (Inr u, t') \<Rightarrow> (if iu_role u = role_admin then Inr False else Inl IErrConflict, t')
             | (Inl e', t') \<Rightarrow> (Inl IErrConflict, t'))
           else (Inl e, t)))"

text \<open>What the application does with it when it starts.\<close>

definition start_bootstrap :: "identity_service \<Rightarrow> string \<Rightarrow> string \<Rightarrow> identity_db \<Rightarrow> identity_db" where
  "start_bootstrap S email password s =
     (if email = '''' \<or> password = '''' then s else snd (bootstrap_admin S email password s))"

end
