(* ===== verification/IdentityHttp.thy ===== *)
theory IdentityHttp
  imports IdentityService
begin

text \<open>identity-service's HTTP side (\<open>http/dto/auth-dto.go\<close>, \<open>http/handler/*.go\<close>, \<open>http/server.go\<close>): the bodies, the rate
  limits, the refresh-token cookie, the handlers and the routes. The JSON parser, the text of a binding error and the
  validator's notion of an email address are fields of the server; \<open>RequireAuth\<close> is \<open>HttpAuth\<close>'s.\<close>

section \<open>Requests and responses\<close>

text \<open>What this service reads and writes beside the rest: the CSRF header, the refresh cookie, the client's address and
  origin; \<open>Retry-After\<close>, the cookie it sets and the origin it allows.\<close>

record identity_request = http_request +
  iq_requested_with :: string
  iq_cookie :: "string option"
  iq_ip :: string
  iq_origin :: string

record refresh_cookie =
  rc_value :: string
  rc_expires :: "int option"
  rc_max_age :: int
  rc_secure :: bool

record identity_response = http_response +
  ir_retry_after :: "int option"
  ir_cookie :: "refresh_cookie option"
  ir_allow_origin :: "string option"

definition plain :: "http_response \<Rightarrow> identity_response" where
  "plain r = http_response.extend r (identity_response.fields None None None)"

record rate_limits =
  rl_login_per_email :: int
  rl_login_per_ip :: int
  rl_login_window :: int
  rl_register_per_ip :: int
  rl_register_window :: int

record identity_server = auth_server +
  hi_service :: identity_service
  hi_parse :: "string \<Rightarrow> json option"
  hi_invalid :: "string \<Rightarrow> string"
  hi_email :: "string \<Rightarrow> bool"
  hi_throttle :: "rate_limits option"
  hi_secure :: bool
  hi_origins :: "string list"

type_synonym identity_handler = "identity_db \<Rightarrow> identity_response \<times> identity_db"

section \<open>Bodies\<close>

record login_request =
  lg_email :: string
  lg_password :: string

text \<open>\<open>binding:"required,email,max=255"\<close> and \<open>"required,min=8,max=72"\<close>; lengths count runes.\<close>

definition valid_credentials :: "identity_server \<Rightarrow> string \<Rightarrow> string \<Rightarrow> bool" where
  "valid_credentials V email password \<longleftrightarrow>
     email \<noteq> '''' \<and> hi_email V email \<and> rune_count email \<le> 255 \<and>
     password \<noteq> '''' \<and> 8 \<le> rune_count password \<and> rune_count password \<le> 72"

definition decode_credentials :: "json \<Rightarrow> register_input option" where
  "decode_credentials j =
     (case (string_field ''email'' j, string_field ''password'' j, string_field ''role'' j) of
        (Some email, Some password, Some role) \<Rightarrow>
          if is_object j then Some \<lparr>rg_email = email, rg_password = password, rg_role = role\<rparr> else None
      | _ \<Rightarrow> None)"

definition decode_registration :: "identity_server \<Rightarrow> json \<Rightarrow> register_input option" where
  "decode_registration V j = Option.bind (decode_credentials j) (\<lambda>d.
     if valid_credentials V (rg_email d) (rg_password d) \<and> (rg_role d = '''' \<or> role_valid (rg_role d)) then Some d else None)"

definition decode_create_user :: "identity_server \<Rightarrow> json \<Rightarrow> register_input option" where
  "decode_create_user V j = Option.bind (decode_credentials j) (\<lambda>d.
     if valid_credentials V (rg_email d) (rg_password d) \<and> role_valid (rg_role d) then Some d else None)"

definition decode_user_status :: "json \<Rightarrow> string option" where
  "decode_user_status j = Option.bind (string_field ''status'' j) (\<lambda>st.
     if is_object j \<and> user_status_valid st then Some st else None)"

definition decode_login :: "json \<Rightarrow> login_request option" where
  "decode_login j = (case (string_field ''email'' j, string_field ''password'' j) of
       (Some email, Some password) \<Rightarrow>
         if is_object j \<and> email \<noteq> '''' \<and> password \<noteq> '''' then Some \<lparr>lg_email = email, lg_password = password\<rparr> else None
     | _ \<Rightarrow> None)"

definition token_response :: "token_pair \<Rightarrow> int \<Rightarrow> json" where
  "token_response p t = JObj [(''access_token'', JStr (tp_access p)), (''token_type'', JStr ''Bearer''),
     (''expires_in'', JInt (quot (time_sub (tp_access_expires p) t) second_ns))]"

definition user_response :: "identity_user \<Rightarrow> json" where
  "user_response u = JObj [(''id'', JStr (iu_id u)), (''email'', JStr (iu_email u)), (''role'', JStr (iu_role u)),
     (''status'', JStr (iu_status u)), (''created_at'', stamp_json (utc (sp_time (iu_created u)))),
     (''updated_at'', stamp_json (utc (sp_time (iu_updated u))))]"

fun identity_refusal :: "identity_error \<Rightarrow> http_response" where
  "identity_refusal IErrConflict = reply 409 (error_body ''an account with this email already exists'')"
| "identity_refusal IErrRoleNotAllowed = reply 403 (error_body ''auth: role cannot be self-registered'')"
| "identity_refusal IErrInvalidCredentials = reply 401 (error_body ''auth: invalid email or password'')"
| "identity_refusal IErrInvalidToken = reply 401 (error_body invalid_token)"
| "identity_refusal IErrUserInactive = reply 403 (error_body ''auth: user is not active'')"
| "identity_refusal IErrForbidden = reply 403 (error_body ''auth: forbidden'')"
| "identity_refusal (IErrInvalidInput d) = reply 400 (error_body (''invalid input'' @ d))"
| "identity_refusal IErrNotFound = reply 404 (error_body ''user: not found'')"
| "identity_refusal (IErrDb e) = reply 500 (error_body ''internal server error'')"
| "identity_refusal (IErrOther m) = reply 500 (error_body ''internal server error'')"

section \<open>Rate limits\<close>

record rate_limit =
  li_key :: string
  li_max :: int

definition login_email_key :: "identity_service \<Rightarrow> string \<Rightarrow> string" where
  "login_email_key S email = ''login:email:'' @ hex_encode (is_sha256 S (normalize_email email))"

definition login_limits :: "identity_service \<Rightarrow> rate_limits \<Rightarrow> string \<Rightarrow> string \<Rightarrow> rate_limit list" where
  "login_limits S cfg ip email =
     [\<lparr>li_key = ''login:ip:'' @ ip, li_max = rl_login_per_ip cfg\<rparr>,
      \<lparr>li_key = login_email_key S email, li_max = rl_login_per_email cfg\<rparr>]"

definition register_limits :: "rate_limits \<Rightarrow> string \<Rightarrow> rate_limit list" where
  "register_limits cfg ip = [\<lparr>li_key = ''register:ip:'' @ ip, li_max = rl_register_per_ip cfg\<rparr>]"

text \<open>The loop of \<open>blocked\<close>: the longest wait so far and whether a limit was used up. A count that cannot be had is
  passed over, and so is a limit of 0 or less.\<close>

fun blocked_from :: "identity_service \<Rightarrow> rate_limit list \<Rightarrow> int \<Rightarrow> bool \<Rightarrow> identity_db \<Rightarrow> (int \<times> bool) \<times> identity_db" where
  "blocked_from S [] wait b s = ((wait, b), s)"
| "blocked_from S (l # ls) wait b s =
     (if li_max l \<le> 0 then blocked_from S ls wait b s
      else case attempts S (li_key l) s of
        (Inl e, t) \<Rightarrow> blocked_from S ls wait b t
      | (Inr (count, reset_in), t) \<Rightarrow>
          if li_max l \<le> count then blocked_from S ls (max wait reset_in) True t else blocked_from S ls wait b t)"

definition blocked :: "identity_service \<Rightarrow> rate_limit list \<Rightarrow> identity_db \<Rightarrow> (int \<times> bool) \<times> identity_db" where
  "blocked S limits = blocked_from S limits 0 False"

fun add_attempts :: "identity_service \<Rightarrow> rate_limit list \<Rightarrow> int \<Rightarrow> identity_db \<Rightarrow> identity_db" where
  "add_attempts S [] window s = s"
| "add_attempts S (l # ls) window s =
     (if li_max l \<le> 0 then add_attempts S ls window s
      else add_attempts S ls window (snd (add_attempt S (li_key l) window s)))"

definition reset_limit :: "identity_service \<Rightarrow> string \<Rightarrow> identity_db \<Rightarrow> identity_db" where
  "reset_limit S key s = snd (reset_attempts S key s)"

text \<open>\<open>Retry-After\<close> in whole seconds, rounded up, at least 1.\<close>

definition retry_after :: "int \<Rightarrow> int" where
  "retry_after wait = max (- ((- wait) div second_ns)) 1"

definition too_many_requests :: "int \<Rightarrow> identity_response" where
  "too_many_requests wait =
     (plain (reply 429 (error_body ''too many attempts, try again later'')))\<lparr>ir_retry_after := Some (retry_after wait)\<rparr>"

section \<open>The refresh cookie\<close>

definition set_cookie :: "identity_server \<Rightarrow> string \<Rightarrow> int \<Rightarrow> int \<Rightarrow> refresh_cookie" where
  "set_cookie V token expires t =
     \<lparr>rc_value = token, rc_expires = Some expires, rc_max_age = max (quot (time_sub expires t) second_ns) 1, rc_secure = hi_secure V\<rparr>"

definition cleared_cookie :: "identity_server \<Rightarrow> refresh_cookie" where
  "cleared_cookie V = \<lparr>rc_value = '''', rc_expires = None, rc_max_age = -1, rc_secure = hi_secure V\<rparr>"

definition read_cookie :: "identity_request \<Rightarrow> bool \<Rightarrow> identity_response + string" where
  "read_cookie r required =
     (if iq_requested_with r = '''' then Inl (plain (reply 403 (error_body ''missing X-Requested-With header'')))
      else let token = (case iq_cookie r of None \<Rightarrow> '''' | Some v \<Rightarrow> v)
           in if token = '''' \<and> required then Inl (plain (reply 401 (error_body invalid_token))) else Inr token)"

section \<open>Handlers\<close>

definition identity_bind ::
    "identity_server \<Rightarrow> (json \<Rightarrow> 'a option) \<Rightarrow> identity_request \<Rightarrow> ('a \<Rightarrow> identity_handler) \<Rightarrow> identity_handler" where
  "identity_bind V decode r f s = (case Option.bind (hi_parse V (hq_body r)) decode of
       None \<Rightarrow> (plain (reply 400 (error_body (hi_invalid V (hq_body r)))), s)
     | Some d \<Rightarrow> f d s)"

definition identity_answer ::
    "int \<Rightarrow> ('a \<Rightarrow> json) \<Rightarrow> (identity_db, identity_error, 'a) prog \<Rightarrow> identity_handler" where
  "identity_answer status enc m s = (let (resp, t) = respond_with identity_refusal status enc m s in (plain resp, t))"

definition handle_register :: "identity_server \<Rightarrow> identity_request \<Rightarrow> identity_handler" where
  "handle_register V r = identity_bind V (decode_registration V) r (\<lambda>d s.
     case hi_throttle V of
       None \<Rightarrow> identity_answer 201 user_response (register_user (hi_service V) d) s
     | Some cfg \<Rightarrow>
         (let limits = register_limits cfg (iq_ip r); ((wait, stop), t) = blocked (hi_service V) limits s
          in if stop then (too_many_requests wait, t)
             else identity_answer 201 user_response (register_user (hi_service V) d)
                    (add_attempts (hi_service V) limits (rl_register_window cfg) t)))"

text \<open>A pair of tokens: the refresh token as the cookie, the access token in the body; two readings of the clock.\<close>

definition send_pair :: "identity_server \<Rightarrow> token_pair \<Rightarrow> identity_handler" where
  "send_pair V p s =
     (let E = is_env (hi_service V); c = set_cookie V (tp_refresh p) (tp_refresh_expires p) (clock E (tick s)); t = step_tick s
      in ((plain (reply 200 (token_response p (clock E (tick t)))))\<lparr>ir_cookie := Some c\<rparr>, step_tick t))"

text \<open>A login that the limits let through, and what it adds to them or clears.\<close>

definition count_login ::
    "identity_service \<Rightarrow> rate_limits option \<Rightarrow> string \<Rightarrow> string \<Rightarrow> identity_error + token_pair \<Rightarrow> identity_db \<Rightarrow> identity_db" where
  "count_login S throttle ip email res s = (case throttle of
       None \<Rightarrow> s
     | Some cfg \<Rightarrow> (case res of
           Inl e \<Rightarrow> if e = IErrInvalidCredentials then add_attempts S (login_limits S cfg ip email) (rl_login_window cfg) s else s
         | Inr p \<Rightarrow> reset_limit S (login_email_key S email) s))"

definition login_checked :: "identity_server \<Rightarrow> identity_request \<Rightarrow> login_request \<Rightarrow> identity_handler" where
  "login_checked V r d s =
     (let (res, t) = login (hi_service V) (lg_email d) (lg_password d) s;
          u = count_login (hi_service V) (hi_throttle V) (iq_ip r) (lg_email d) res t
      in case res of Inl e \<Rightarrow> (plain (identity_refusal e), u) | Inr p \<Rightarrow> send_pair V p u)"

definition handle_login :: "identity_server \<Rightarrow> identity_request \<Rightarrow> identity_handler" where
  "handle_login V r = identity_bind V decode_login r (\<lambda>d s.
     case hi_throttle V of
       None \<Rightarrow> login_checked V r d s
     | Some cfg \<Rightarrow>
         (let ((wait, stop), t) = blocked (hi_service V) (login_limits (hi_service V) cfg (iq_ip r) (lg_email d)) s
          in if stop then (too_many_requests wait, t) else login_checked V r d t))"

definition handle_refresh :: "identity_server \<Rightarrow> identity_request \<Rightarrow> identity_handler" where
  "handle_refresh V r s = (case read_cookie r True of
       Inl resp \<Rightarrow> (resp, s)
     | Inr token \<Rightarrow> (case refresh_session (hi_service V) token s of
           (Inr p, t) \<Rightarrow> send_pair V p t
         | (Inl e, t) \<Rightarrow>
             ((plain (identity_refusal e))\<lparr>ir_cookie := (if e = IErrInvalidToken \<or> e = IErrUserInactive
                then Some (cleared_cookie V) else None)\<rparr>, t)))"

definition handle_logout :: "identity_server \<Rightarrow> identity_request \<Rightarrow> identity_handler" where
  "handle_logout V r s = (case read_cookie r False of
       Inl resp \<Rightarrow> (resp, s)
     | Inr token \<Rightarrow>
         (let bye = (plain (reply 204 JNull))\<lparr>ir_cookie := Some (cleared_cookie V)\<rparr>
          in if token = '''' then (bye, s)
             else (case logout (hi_service V) token s of
                 (Inl e, t) \<Rightarrow> (plain (identity_refusal e), t)
               | (Inr _, t) \<Rightarrow> (bye, t))))"

definition handle_me :: "identity_server \<Rightarrow> principal \<Rightarrow> identity_handler" where
  "handle_me V p s = (let (resp, t) = respond_with
       (\<lambda>e. identity_refusal (if e = IErrNotFound then IErrInvalidToken else e)) 200 user_response (me (hi_service V) (pr_user_id p)) s
     in (plain resp, t))"

definition handle_create_user :: "identity_server \<Rightarrow> principal \<Rightarrow> identity_request \<Rightarrow> identity_handler" where
  "handle_create_user V p r = identity_bind V (decode_create_user V) r (\<lambda>d.
     identity_answer 201 user_response (admin_create_user (hi_service V) (pr_user_id p) d))"

definition handle_user_status :: "identity_server \<Rightarrow> principal \<Rightarrow> string \<Rightarrow> identity_request \<Rightarrow> identity_handler" where
  "handle_user_status V p i r = identity_bind V decode_user_status r (\<lambda>status.
     identity_answer 200 user_response (set_user_status (hi_service V) (pr_user_id p) i status))"

section \<open>Routes\<close>

datatype identity_endpoint = Register | Login | Refresh | Logout | Me | AdminCreate | AdminStatus string

definition auth_route :: "string \<Rightarrow> string list \<Rightarrow> identity_endpoint option" where
  "auth_route method path =
     (if method = ''POST'' \<and> path = [''auth'', ''register''] then Some Register
      else if method = ''POST'' \<and> path = [''auth'', ''login''] then Some Login
      else if method = ''POST'' \<and> path = [''auth'', ''refresh''] then Some Refresh
      else if method = ''POST'' \<and> path = [''auth'', ''logout''] then Some Logout
      else if method = ''GET'' \<and> path = [''me''] then Some Me else None)"

definition admin_route :: "string \<Rightarrow> string list \<Rightarrow> identity_endpoint option" where
  "admin_route method path =
     (case path of
        [a, b] \<Rightarrow> if method = ''POST'' \<and> a = ''admin'' \<and> b = ''users'' then Some AdminCreate else None
      | [a, b, i] \<Rightarrow> if method = ''PATCH'' \<and> a = ''admin'' \<and> b = ''users'' then Some (AdminStatus i) else None
      | _ \<Rightarrow> None)"

definition identity_require_role :: "string list \<Rightarrow> principal \<Rightarrow> http_response option" where
  "identity_require_role roles p = (if pr_role p \<notin> set roles then Some (reply 403 (error_body ''auth: forbidden'')) else None)"

definition authenticated ::
    "identity_server \<Rightarrow> identity_request \<Rightarrow> (principal \<Rightarrow> identity_handler) \<Rightarrow> identity_handler" where
  "authenticated V r f s = (case require_auth V (http_request.truncate r) of Inl resp \<Rightarrow> (plain resp, s) | Inr p \<Rightarrow> f p s)"

definition as_admin :: "identity_server \<Rightarrow> identity_request \<Rightarrow> (principal \<Rightarrow> identity_handler) \<Rightarrow> identity_handler" where
  "as_admin V r f = authenticated V r (\<lambda>p s. case identity_require_role [role_admin] p of
       Some resp \<Rightarrow> (plain resp, s)
     | None \<Rightarrow> f p s)"

fun handle_identity :: "identity_server \<Rightarrow> identity_request \<Rightarrow> identity_endpoint \<Rightarrow> identity_handler" where
  "handle_identity V r Register = handle_register V r"
| "handle_identity V r Login = handle_login V r"
| "handle_identity V r Refresh = handle_refresh V r"
| "handle_identity V r Logout = handle_logout V r"
| "handle_identity V r Me = authenticated V r (handle_me V)"
| "handle_identity V r AdminCreate = as_admin V r (\<lambda>p. handle_create_user V p r)"
| "handle_identity V r (AdminStatus i) = as_admin V r (\<lambda>p. handle_user_status V p i r)"

text \<open>CORS around all of it: a listed origin is named in the response, and \<open>OPTIONS\<close> ends here.\<close>

definition allow_origin :: "identity_server \<Rightarrow> identity_request \<Rightarrow> identity_response \<Rightarrow> identity_response" where
  "allow_origin V r resp =
     resp\<lparr>ir_allow_origin := (if iq_origin r \<in> set (hi_origins V) then Some (iq_origin r) else None)\<rparr>"

definition serve_identity :: "identity_server \<Rightarrow> identity_request \<Rightarrow> identity_db \<Rightarrow> (identity_response \<times> identity_db) option" where
  "serve_identity V r s =
     (if hq_method r = ''OPTIONS'' then Some (allow_origin V r (plain (reply 204 JNull)), s)
      else case (case auth_route (hq_method r) (hq_path r) of
                   None \<Rightarrow> admin_route (hq_method r) (hq_path r) | Some e \<Rightarrow> Some e) of
        None \<Rightarrow> None
      | Some e \<Rightarrow> (let (resp, t) = handle_identity V r e s in Some (allow_origin V r resp, t)))"

end
