(* ===== verification/IdentityProofs.thy ===== *)
theory IdentityProofs
  imports IdentityHttp Transactions
begin

text \<open>What identity-service's statements do: the invariant of its tables, that every transaction keeps it and changes
  nothing when it fails (its instance of the transaction contract), and the effect of each successful run.\<close>

section \<open>The invariant\<close>

text \<open>Ids unique, emails unique whatever their case and stored as \<open>normalizeEmail\<close> makes them, roles and statuses valid.\<close>

definition users_ok :: "user_row list \<Rightarrow> bool" where
  "users_ok rows \<longleftrightarrow> distinct (map au_id rows) \<and> distinct (map (\<lambda>r. to_lower (au_email r)) rows) \<and>
     (\<forall>r \<in> set rows. role_valid (au_role r) \<and> user_status_valid (au_status r) \<and> au_email r = normalize_email (au_email r))"

text \<open>What an event says of its user; every user has its one \<open>UserCreated\<close>, in order, and its last event tells its status.\<close>

definition said :: "string \<Rightarrow> json \<Rightarrow> json option" where
  "said k p = Option.bind (field ''user'' p) (field k)"

definition about :: "string \<Rightarrow> json \<Rightarrow> bool" where
  "about email p \<longleftrightarrow> said ''email'' p = Some (JStr email)"

definition creation :: "json \<Rightarrow> bool" where
  "creation p \<longleftrightarrow> field ''event_type'' p = Some (JStr ''UserCreated'')"

definition announced :: "user_row list \<Rightarrow> json list \<Rightarrow> bool" where
  "announced rows ps \<longleftrightarrow>
     map (\<lambda>p. (said ''email'' p, said ''role'' p)) (filter creation ps) =
       map (\<lambda>r. (Some (JStr (au_email r)), Some (JStr (au_role r)))) rows \<and>
     (\<forall>r \<in> set rows. said ''status'' (last (filter (about (au_email r)) ps)) = Some (JStr (au_status r)))"

definition identity_payloads :: "identity_db \<Rightarrow> json list" where
  "identity_payloads s = map (\<lambda>(topic, key, p). p) (outbox_facts s)"

definition identity_inv :: "identity_db \<Rightarrow> bool" where
  "identity_inv s \<longleftrightarrow> users_ok (user_rows s) \<and> announced (user_rows s) (identity_payloads s) \<and> outbox_ok s"

lemma identity_payloads_alt: "identity_payloads s = map ob_payload (outbox_rows s)"
  by (simp add: identity_payloads_def outbox_facts_def)

lemma identity_inv_tick [simp]: "identity_inv (step_tick s) = identity_inv s"
  by (simp add: identity_inv_def identity_payloads_alt)

lemma tick_free_identity_inv [simp]: "tick_free identity_inv"
  by (simp add: tick_free_def identity_inv_def identity_payloads_alt)

section \<open>Transactions\<close>

definition identity_later :: "identity_db \<Rightarrow> identity_db \<Rightarrow> bool" where
  "identity_later s t \<longleftrightarrow> outbox_seq s \<le> outbox_seq t \<and> kafka_log t = kafka_log s \<and> redis t = redis s"

definition identity_same :: "identity_db \<Rightarrow> identity_db \<Rightarrow> bool" where
  "identity_same s t \<longleftrightarrow> user_rows t = user_rows s \<and> outbox_rows t = outbox_rows s \<and> kafka_log t = kafka_log s \<and> redis t = redis s"

interpretation identity_tx: transactional identity_restore identity_later identity_same identity_inv
proof unfold_locales
  fix s t :: identity_db
  assume i: "identity_inv s" and l: "identity_later s t"
  have "outbox_ok (identity_restore s t)"
    by (rule outbox_ok_cong [of s]) (use i l in \<open>simp_all add: identity_inv_def identity_later_def\<close>)
  then show "identity_inv (identity_restore s t)" using i by (simp add: identity_inv_def identity_payloads_alt)
qed (auto simp: identity_later_def identity_same_def)

lemma reads_only_first [keeps_intros]: "reads_only (first_user S P)" "reads_only (first_with_id S i)"
proof -
  show f: "reads_only (first_user S P)" for P unfolding first_user_def by (intro keeps_intros)
  have "reads_only (sql (is_env S) (\<lambda>s. (Inl not_a_uuid :: db_error + identity_user, s)))"
    by (auto simp: reads_only_def sql_def step_tick_set split: option.splits)
  then show "reads_only (first_with_id S i)" unfolding first_with_id_def by (intro keeps_intros f)
qed

lemma reads_only_users [keeps_intros]:
  "reads_only (get_user_by_id S i)" "reads_only (get_user_by_email S e)" "reads_only (get_by_id_for_update S i)"
  "reads_only (exists_with_role S role)"
  unfolding get_user_by_id_def get_user_by_email_def get_by_id_for_update_def exists_with_role_def
  by (intro keeps_intros)+

lemma reads_only_admin [keeps_intros]: "reads_only (require_admin S actor)"
  unfolding reads_only_def
proof
  fix s
  obtain r t where g: "get_user_by_id S actor s = (r, t)" by fastforce
  obtain n where "t = s\<lparr>tick := n\<rparr>" using reads_onlyD [OF reads_only_users(1) g] by blast
  then show "\<exists>n. snd (require_admin S actor s) = s\<lparr>tick := n\<rparr>" using g by (cases r) (auto simp: require_admin_def)
qed

lemma reads_only_tokens [keeps_intros]:
  "reads_only (hash_password S pw)" "reads_only (new_refresh_token S)" "reads_only (issue_access_token S u)"
proof -
  show "reads_only (hash_password S pw)" "reads_only (new_refresh_token S)"
    by (simp_all add: reads_only_def hash_password_def new_refresh_token_def step_tick_set)
  have "reads_only (case x of Inl e \<Rightarrow> fail (IErrOther e) | Inr token \<Rightarrow> ok (token, d))" for x d
    by (cases x) (simp_all add: reads_only_ok)
  then show "reads_only (issue_access_token S u)" unfolding issue_access_token_def by (intro keeps_intros)
qed

lemma grows_user_writes:
  "identity_tx.grows (create_user_row S u)" "identity_tx.grows (write_user_event S etype u t)"
  "identity_tx.grows (update_user_status S i status t)"
proof -
  show "identity_tx.grows (create_user_row S u)" unfolding create_user_row_def
    by (intro identity_tx.grows_intros identity_tx.grows_sql) (simp add: insert_user_def identity_later_def split: option.splits)
  show "identity_tx.grows (write_user_event S etype u t)" unfolding write_user_event_def outbox_create_def
    by (intro identity_tx.grows_intros identity_tx.grows_sql) (simp add: identity_later_def)
  show "identity_tx.grows (update_user_status S i status t)" unfolding update_user_status_def
    by (intro identity_tx.grows_intros identity_tx.grows_sql identity_tx.grows_reads_only reads_only_first)
      (simp add: status_statement_def identity_later_def Let_def split: option.splits)
qed

lemma grows_identity_bodies:
  "identity_tx.grows (create_user_tx S u t)" "identity_tx.grows (set_status_tx S i status)"
  unfolding create_user_tx_def set_status_tx_def
  by (intro identity_tx.grows_intros grows_user_writes identity_tx.grows_reads_only reads_only_users)+

section \<open>Statements\<close>

lemma create_user_row_Inr:
  assumes "create_user_row S u s = (Inr x, t)"
  obtains r where "x = u" "to_user_model S u = Some r" "user_violation r (user_rows s) = None"
    "t = s\<lparr>tick := Suc (tick s), user_rows := user_rows s @ [r]\<rparr>"
proof -
  have i: "insert_user S u (step_tick s) = (Inr (), t)" "x = u"
    using assms by (auto simp: create_user_row_def on_ok_Inr map_err_Inr sql_Inr)
  obtain r where r: "to_user_model S u = Some r" using i(1) by (auto simp: insert_user_def split: option.splits)
  have "user_violation r (user_rows s) = None" "t = (step_tick s)\<lparr>user_rows := user_rows s @ [r]\<rparr>"
    using i(1) by (auto simp: insert_user_def r split: option.splits)
  then show thesis by (intro that [OF i(2) r]) (simp_all add: step_tick_def)
qed

text \<open>The outbox row of an event.\<close>

definition user_message :: "identity_service \<Rightarrow> user_event_type \<Rightarrow> identity_user \<Rightarrow> int \<Rightarrow> outbox_row \<Rightarrow> bool" where
  "user_message S etype u t0 ob \<longleftrightarrow> ob_topic ob = is_topic S \<and> ob_key ob = iu_id u \<and> ob_published ob = None \<and>
     (\<exists>i. ob_payload ob = user_event_json i etype t0 u)"

lemma write_user_event_Inr:
  assumes "write_user_event S etype u t0 s = (Inr w, t)"
  obtains n ob where "t = s\<lparr>tick := n, outbox_seq := outbox_seq s + 1, outbox_rows := outbox_rows s @ [ob]\<rparr>"
    "ob_id ob = outbox_seq s" "user_message S etype u t0 ob"
proof -
  let ?ob = "\<lparr>ob_id = outbox_seq s, ob_topic = is_topic S, ob_key = iu_id u,
     ob_payload = user_event_json (uuid_at (is_env S) (tick s)) etype t0 u,
     ob_created = db_time (is_env S) (clock (is_env S) (tick (step_tick s))), ob_published = None\<rparr>"
  have "t = s\<lparr>tick := Suc (Suc (Suc (tick s))), outbox_seq := outbox_seq s + 1, outbox_rows := outbox_rows s @ [?ob]\<rparr>"
    using assms by (auto simp: write_user_event_def on_ok_Inr new_uuid_run outbox_create_Inr new_message_def step_tick_def)
  moreover have "user_message S etype u t0 ?ob" by (simp add: user_message_def) (rule exI, rule refl)
  ultimately show thesis by (intro that) simp_all
qed

lemma first_user_Inr:
  assumes "first_user S P s = (Inr x, t)"
  obtains r where "r \<in> set (user_rows s)" "P r" "x = to_user S r" "t = step_tick s"
proof -
  let ?rs = "sort_key au_id (filter P (user_rows s))"
  obtain r rs where r: "take 1 ?rs = r # rs" "x = to_user S r" "t = step_tick s"
    using assms by (auto simp: first_user_def on_ok_Inr query_Inr split: list.splits)
  have "r \<in> set (take 1 ?rs)" unfolding r(1) by simp
  then have "r \<in> set ?rs" by (rule in_set_takeD)
  then have "r \<in> set (user_rows s)" "P r" by auto
  then show thesis using r(2,3) by (rule that)
qed

lemma first_user_missing:
  assumes "first_user S P s = (Inl IErrNotFound, t)"
  shows "t = step_tick s" "\<forall>r \<in> set (user_rows s). \<not> P r"
proof -
  let ?rs = "sort_key au_id (filter P (user_rows s))"
  have n: "take 1 ?rs = []" "t = step_tick s"
    using assms by (auto simp: first_user_def on_ok_Inl query_Inr map_err_Inl split: list.splits)
  then show "t = step_tick s" by simp
  have "?rs = []" using n(1) by (cases ?rs) simp_all
  then have "set ?rs = {}" by (simp only: list.set)
  then show "\<forall>r \<in> set (user_rows s). \<not> P r" by auto
qed

lemma first_with_id_Inr:
  assumes "first_with_id S i s = (Inr x, t)"
  obtains r where "r \<in> set (user_rows s)" "is_uuid S i = Some (au_id r)" "x = to_user S r" "t = step_tick s"
proof (cases "is_uuid S i")
  case (Some u)
  then have "first_user S (\<lambda>r. au_id r = u) s = (Inr x, t)" using assms by (simp add: first_with_id_def)
  then show thesis by (rule first_user_Inr) (rule that, use Some in simp_all)
qed (use assms in \<open>auto simp: first_with_id_def sql_Inr\<close>)

lemma get_user_by_id_Inr:
  assumes "get_user_by_id S i s = (Inr x, t)"
  obtains r where "r \<in> set (user_rows s)" "is_uuid S i = Some (au_id r)" "x = to_user S r" "t = step_tick s"
  using assms by (auto simp: get_user_by_id_def split: if_splits elim: first_with_id_Inr)

lemma get_by_id_for_update_Inr:
  assumes "get_by_id_for_update S i s = (Inr x, t)"
  obtains r where "r \<in> set (user_rows s)" "is_uuid S i = Some (au_id r)" "x = to_user S r" "t = step_tick s"
  using assms by (auto simp: get_by_id_for_update_def split: if_splits elim: first_with_id_Inr)

lemma get_user_by_email_Inr:
  assumes "get_user_by_email S e s = (Inr x, t)"
  obtains r where "r \<in> set (user_rows s)" "to_lower (au_email r) = to_lower e" "x = to_user S r" "t = step_tick s"
  using assms unfolding get_user_by_email_def by (rule first_user_Inr)

lemma to_user_sel [simp]:
  "iu_id (to_user S r) = au_id r" "iu_email (to_user S r) = au_email r" "iu_role (to_user S r) = au_role r"
  "iu_status (to_user S r) = au_status r" "iu_hash (to_user S r) = au_hash r"
  by (simp_all add: to_user_def)

lemma require_admin_Inr:
  assumes "require_admin S actor s = (Inr u, t)"
  obtains r where "r \<in> set (user_rows s)" "is_uuid S actor = Some (au_id r)" "au_role r = role_admin" "au_status r = user_active"
    "t = step_tick s"
proof -
  obtain x t' where g: "get_user_by_id S actor s = (Inr x, t')" "iu_role x = role_admin" "iu_status x = user_active" "t = t'"
    using assms by (auto simp: require_admin_def split: prod.splits sum.splits if_splits)
  obtain r where "r \<in> set (user_rows s)" "is_uuid S actor = Some (au_id r)" "x = to_user S r" "t' = step_tick s"
    by (rule get_user_by_id_Inr [OF g(1)])
  then show thesis using g(2-4) by (intro that) simp_all
qed

section \<open>Rows\<close>

lemma user_violation_None:
  "user_violation r others = None \<longleftrightarrow> role_valid (au_role r) \<and> user_status_valid (au_status r) \<and>
     au_id r \<notin> au_id ` set others \<and> to_lower (au_email r) \<notin> (\<lambda>q. to_lower (au_email q)) ` set others"
  by (simp add: user_violation_def)

lemma users_ok_new:
  "users_ok rows \<Longrightarrow> user_violation r rows = None \<Longrightarrow> au_email r = normalize_email (au_email r) \<Longrightarrow> users_ok (rows @ [r])"
  by (auto simp: users_ok_def user_violation_None)

lemma only_id: "users_ok rows \<Longrightarrow> q \<in> set rows \<Longrightarrow> r \<in> set rows \<Longrightarrow> au_id q = au_id r \<Longrightarrow> q = r"
  by (simp add: users_ok_def distinct_map inj_on_def)

lemma only_user_email: "users_ok rows \<Longrightarrow> q \<in> set rows \<Longrightarrow> r \<in> set rows \<Longrightarrow> to_lower (au_email q) = to_lower (au_email r) \<Longrightarrow> q = r"
  by (simp add: users_ok_def distinct_map inj_on_def)

lemma set_status_columns_sel [simp]:
  "au_id (set_status_columns E status t r) = au_id r" "au_email (set_status_columns E status t r) = au_email r"
  "au_role (set_status_columns E status t r) = au_role r" "au_status (set_status_columns E status t r) = status"
  "au_hash (set_status_columns E status t r) = au_hash r" "au_created (set_status_columns E status t r) = au_created r"
  by (simp_all add: set_status_columns_def)

lemma map_status_columns:
  "(\<And>q. f (set_status_columns E status t q) = f q) \<Longrightarrow>
    map f (map (\<lambda>q. if au_id q = i then set_status_columns E status t q else q) rows) = map f rows"
  by simp

lemma users_ok_status:
  assumes "users_ok rows" "user_status_valid status"
  shows "users_ok (map (\<lambda>q. if au_id q = i then set_status_columns E status t q else q) rows)"
proof -
  let ?f = "\<lambda>q. if au_id q = i then set_status_columns E status t q else q"
  have "map au_id (map ?f rows) = map au_id rows"
    "map (\<lambda>r. to_lower (au_email r)) (map ?f rows) = map (\<lambda>r. to_lower (au_email r)) rows"
    by (rule map_status_columns, simp)+
  moreover have "\<forall>r \<in> set (map ?f rows). role_valid (au_role r) \<and> user_status_valid (au_status r) \<and>
      au_email r = normalize_email (au_email r)" using assms by (simp only: users_ok_def set_map ball_simps) simp
  ultimately show ?thesis using assms(1) unfolding users_ok_def by (simp only:)
qed

lemma normalize_email_idem [simp]: "normalize_email (normalize_email e) = normalize_email e"
  by (simp add: normalize_email_def to_lower_trim)

lemma lower_normalized: "e = normalize_email e \<Longrightarrow> to_lower e = e"
  by (metis normalize_email_def to_lower_idem)

section \<open>Announcements\<close>

lemma said_json [simp]:
  "said ''email'' (user_event_json i etype t u) = Some (JStr (iu_email u))"
  "said ''role'' (user_event_json i etype t u) = Some (JStr (iu_role u))"
  "said ''status'' (user_event_json i etype t u) = Some (JStr (iu_status u))"
  "creation (user_event_json i etype t u) \<longleftrightarrow> etype = UserCreated"
  by (cases etype; simp add: said_def creation_def user_event_json_def user_event_payload_def)+

lemma announced_new:
  assumes "announced rows ps" "iu_email u = au_email r" "iu_role u = au_role r" "iu_status u = au_status r"
    and "au_email r \<notin> au_email ` set rows"
  shows "announced (rows @ [r]) (ps @ [user_event_json i UserCreated t u])"
proof -
  have "\<not> about (au_email q) (user_event_json i UserCreated t u)" if "q \<in> set rows" for q
    using assms(2,5) that by (auto simp: about_def)
  moreover have "about (au_email r) (user_event_json i UserCreated t u)" using assms(2) by (simp add: about_def)
  ultimately show ?thesis using assms by (auto simp: announced_def)
qed

lemma announced_status:
  assumes "announced rows ps" "users_ok rows" "r \<in> set rows" "iu_email u = au_email r" "iu_status u = status"
  shows "announced (map (\<lambda>q. if au_id q = au_id r then set_status_columns E status t' q else q) rows)
    (ps @ [user_event_json i UserUpdated t u])" (is "announced (map ?f rows) (ps @ [?p])")
proof -
  have last: "said ''status'' (last (filter (about (au_email (?f q))) (ps @ [?p]))) = Some (JStr (au_status (?f q)))" if q: "q \<in> set rows" for q
  proof (cases "q = r")
    case True
    have "about (au_email r) ?p" using assms(4) by (simp add: about_def)
    then show ?thesis using True assms(5) by simp
  next
    case False
    then have "au_id q \<noteq> au_id r" "to_lower (au_email q) \<noteq> to_lower (au_email r)"
      using only_id [OF assms(2) q assms(3)] only_user_email [OF assms(2) q assms(3)] by blast+
    then have "\<not> about (au_email q) ?p" "au_status (?f q) = au_status q" using assms(4) by (auto simp: about_def)
    then show ?thesis using assms(1) q by (simp add: announced_def)
  qed
  then have "\<forall>r \<in> set (map ?f rows). said ''status'' (last (filter (about (au_email r)) (ps @ [?p]))) = Some (JStr (au_status r))"
    by (simp only: set_map ball_simps) blast
  moreover have "map (\<lambda>r. (Some (JStr (au_email r)), Some (JStr (au_role r)))) (map ?f rows) =
      map (\<lambda>r. (Some (JStr (au_email r)), Some (JStr (au_role r)))) rows" by (rule map_status_columns) simp
  moreover have "filter creation (ps @ [?p]) = filter creation ps" by simp
  ultimately show ?thesis using assms(1) unfolding announced_def by (simp only:)
qed

end
