(* ===== verification/IdentityEffects.thy ===== *)
theory IdentityEffects
  imports IdentityProofs
begin

text \<open>What login, refresh, logout and the rate limits can do to a state, once and for all: whatever relation between the
  states before and after allows the clock to move, sessions to close, and sessions to open for the tokens the service
  makes, is kept by the session operations, and by the rate-limited handlers if it also allows counters to change. The
  contracts are locales, one extending the other, which the relations needed later interpret.\<close>

definition session_key :: "string \<Rightarrow> string" where
  "session_key h = refresh_token_key_prefix @ h"

definition attempt_key :: "string \<Rightarrow> string" where
  "attempt_key k = attempt_key_prefix @ k"

lemma session_key_eq [simp]: "session_key a = session_key b \<longleftrightarrow> a = b" "attempt_key a = attempt_key b \<longleftrightarrow> a = b"
  "session_key a \<noteq> attempt_key b" "attempt_key a \<noteq> session_key b"
  by (simp_all add: session_key_def attempt_key_def refresh_token_key_prefix_def attempt_key_prefix_def)

text \<open>A round trip took effect or did not.\<close>

lemma redis_call_cases:
  assumes "redis_call S f s = (r, t)"
  obtains (lost) "t = step_tick s" "\<exists>msg. r = Inl msg"
    | (ran) "t = step_tick (s\<lparr>redis := snd (f (redis_ms (clock (is_env S) (tick s))) (redis s))\<rparr>)"
      "r = fst (f (redis_ms (clock (is_env S) (tick s))) (redis s)) \<or> (\<exists>msg. r = Inl msg)"
  using assms by (auto simp: redis_call_def split: prod.splits delivery.splits)

locale session_steps =
  fixes R :: "identity_db \<Rightarrow> identity_db \<Rightarrow> bool" and allowed :: "identity_service \<Rightarrow> string \<Rightarrow> bool"
  assumes R_refl: "R s s"
    and R_trans: "R s t \<Longrightarrow> R t u \<Longrightarrow> R s u"
    and R_tick: "R s (s\<lparr>tick := n\<rparr>)"
    and R_close: "R s (s\<lparr>redis := (redis s)(session_key h := None)\<rparr>)"
    and R_open: "allowed S h \<Longrightarrow> R s (s\<lparr>redis := (redis s)(session_key h \<mapsto> e)\<rparr>)"
begin

definition moves :: "(identity_db, 'e, 'a) prog \<Rightarrow> bool" where
  "moves m \<longleftrightarrow> (\<forall>s. R s (snd (m s)))"

text \<open>Every refresh token the service makes may be opened.\<close>

definition issues :: "identity_service \<Rightarrow> bool" where
  "issues S \<longleftrightarrow> (\<forall>n b. is_random S n = Inr b \<longrightarrow> allowed S (hash_refresh_token S (base64_raw_url b)))"

lemma movesI: "(\<And>s r t. m s = (r, t) \<Longrightarrow> R s t) \<Longrightarrow> moves m"
  by (simp add: moves_def) (metis surjective_pairing)

lemma movesD: "moves m \<Longrightarrow> m s = (r, t) \<Longrightarrow> R s t"
  unfolding moves_def by (metis snd_conv)

lemma R_step: "R s t \<Longrightarrow> R s (step_tick t)"
  unfolding step_tick_def by (rule R_trans [OF _ R_tick])

lemma moves_reads: "reads_only m \<Longrightarrow> moves m"
  unfolding reads_only_def moves_def by (metis R_tick)

lemma moves_on_ok: "moves m \<Longrightarrow> (\<And>x. moves (f x)) \<Longrightarrow> moves (on_ok m f)"
proof (rule movesI)
  fix s r u
  assume g: "moves m" "\<And>x. moves (f x)" and run: "on_ok m f s = (r, u)"
  obtain q t where q: "m s = (q, t)" by fastforce
  show "R s u"
  proof (cases q)
    case (Inr x)
    then have "f x t = (r, u)" using run q by (simp add: on_ok_def)
    then show ?thesis by (rule R_trans [OF movesD [OF g(1) q] movesD [OF g(2)]])
  qed (use run q movesD [OF g(1) q] in \<open>simp add: on_ok_def\<close>)
qed

lemma moves_map_err: "moves m \<Longrightarrow> moves (map_err h m)"
  by (auto simp: moves_def map_err_def split: prod.splits sum.splits) (metis snd_conv)+

lemma moves_ok: "moves (ok x)" "moves (fail e)"
  by (simp_all add: moves_def ok_def fail_def R_refl)

lemma moves_redis: "(\<And>t s. R s (s\<lparr>redis := snd (f t (redis s))\<rparr>)) \<Longrightarrow> moves (redis_call S f)"
proof (rule movesI)
  fix s r t
  assume f: "\<And>t s. R s (s\<lparr>redis := snd (f t (redis s))\<rparr>)" and run: "redis_call S f s = (r, t)"
  show "R s t" using run by (cases rule: redis_call_cases) (use f R_step R_refl in blast)+
qed

lemmas moves_intros = moves_on_ok moves_map_err moves_ok

lemma moves_store:
  "allowed S h \<Longrightarrow> moves (save_refresh S h u ttl)" "moves (consume_refresh S h)" "moves (delete_refresh S h)"
  unfolding save_refresh_def consume_refresh_def delete_refresh_def session_key_def [symmetric]
  by (intro moves_intros moves_redis; auto simp: redis_set_def redis_getdel_def redis_del_def R_open R_close
      intro: moves_ok split: option.splits)+

lemma moves_new_token:
  assumes i: "issues S" and f: "\<And>y x. moves (f y x)"
  shows "moves (on_ok (new_refresh_token S) (\<lambda>y. on_ok (save_refresh S (hash_refresh_token S y) u ttl) (f y)))"
proof (rule movesI)
  fix s r t
  assume run: "on_ok (new_refresh_token S) (\<lambda>y. on_ok (save_refresh S (hash_refresh_token S y) u ttl) (f y)) s = (r, t)"
  show "R s t"
  proof (cases "is_random S (tick s)")
    case (Inl e)
    then show ?thesis using run R_step [OF R_refl] by (auto simp: on_ok_def new_refresh_token_def)
  next
    case (Inr b)
    then have "on_ok (save_refresh S (hash_refresh_token S (base64_raw_url b)) u ttl)
      (f (base64_raw_url b)) (step_tick s) = (r, t)"
      using run by (simp add: on_ok_def new_refresh_token_def)
    moreover have "allowed S (hash_refresh_token S (base64_raw_url b))" using i Inr by (auto simp: issues_def)
    moreover have "moves (f (base64_raw_url b) x)" for x by (rule f)
    ultimately have "R (step_tick s) t" by (intro movesD [OF moves_on_ok [OF moves_store(1)]])
    then show ?thesis by (rule R_trans [OF R_step [OF R_refl]])
  qed
qed

lemma moves_pair: "issues S \<Longrightarrow> moves (issue_token_pair S u)"
  unfolding issue_token_pair_def
proof (rule moves_on_ok [OF moves_reads [OF reads_only_tokens(3)]])
  fix p :: "string \<times> int"
  assume "issues S"
  then show "moves (case p of (access, expires) \<Rightarrow> on_ok (new_refresh_token S) (\<lambda>refresh.
      on_ok (save_refresh S (hash_refresh_token S refresh) (iu_id u) (is_refresh_ttl S)) (\<lambda>_. on_ok (now (is_env S)) (\<lambda>t.
      ok \<lparr>tp_access = access, tp_access_expires = expires, tp_refresh = refresh, tp_refresh_expires = t + is_refresh_ttl S\<rparr>))))"
    unfolding split_beta by (rule moves_new_token) (intro moves_intros moves_reads [OF reads_only_now])
qed

lemma moves_checked:
  assumes "moves m" "\<And>u. moves (f u)"
  shows "moves (\<lambda>s. case m s of (Inl e, t) \<Rightarrow> (if P e then (Inl e1, t) else (Inl e, t)) | (Inr u, t) \<Rightarrow> f u t)"
proof (rule movesI)
  fix s r t
  assume run: "(case m s of (Inl e, t) \<Rightarrow> (if P e then (Inl e1, t) else (Inl e, t)) | (Inr u, t) \<Rightarrow> f u t) = (r, t)"
  obtain q t' where q: "m s = (q, t')" by fastforce
  have "R s t'" by (rule movesD [OF assms(1) q])
  then show "R s t"
    using run q R_trans movesD [OF assms(2)] by (cases q) (auto split: if_splits)
qed

lemma moves_if: "moves m \<Longrightarrow> moves (\<lambda>t. if b then (Inl e, t) else m t)"
  by (cases b) (simp_all add: moves_def R_refl)

lemma moves_services:
  "issues S \<Longrightarrow> moves (login S email pw)" "issues S \<Longrightarrow> moves (refresh_session S token)" "moves (logout S token)" "moves (me S i)"
proof -
  show "moves (login S email pw)" if "issues S" unfolding login_def
    by (rule moves_checked [OF moves_reads [OF reads_only_users(2)]]) (intro moves_if moves_pair that)
  show "moves (refresh_session S token)" if "issues S" unfolding refresh_session_def
    by (rule moves_on_ok [OF moves_store(2)],
        rule moves_checked [OF moves_reads [OF reads_only_users(1)]]) (intro moves_if moves_pair that)
  show "moves (logout S token)" unfolding logout_def by (rule moves_store(3))
  show "moves (me S i)" unfolding me_def by (rule moves_reads [OF reads_only_users(1)])
qed

lemma R_send_pair: "send_pair V p s = (resp, t) \<Longrightarrow> R s t"
  using R_step [OF R_step [OF R_refl [of s]]] by (simp add: send_pair_def Let_def)

lemma R_handle_sessions:
  "handle_refresh V r s = (resp, t) \<Longrightarrow> issues (hi_service V) \<Longrightarrow> R s t" "handle_logout V r s = (resp, t) \<Longrightarrow> R s t"
  "handle_me V p s = (resp, t) \<Longrightarrow> R s t"
proof -
  assume run: "handle_refresh V r s = (resp, t)" and i: "issues (hi_service V)"
  show "R s t"
  proof (cases "read_cookie r True")
    case (Inr token)
    obtain q u where q: "refresh_session (hi_service V) token s = (q, u)" by fastforce
    have u: "R s u" by (rule movesD [OF moves_services(2) [OF i] q])
    have "t = u \<or> (\<exists>p. send_pair V p u = (resp, t))" using run q Inr by (cases q) (auto simp: handle_refresh_def)
    then show ?thesis using u R_trans R_send_pair by blast
  qed (use run R_refl in \<open>simp add: handle_refresh_def\<close>)
next
  assume run: "handle_logout V r s = (resp, t)"
  show "R s t"
  proof (cases "read_cookie r False")
    case (Inr token)
    obtain q u where q: "logout (hi_service V) token s = (q, u)" by fastforce
    have u: "R s u" by (rule movesD [OF moves_services(3) q])
    have "t = s \<or> t = u" using run q Inr by (cases q) (auto simp: handle_logout_def Let_def split: if_splits)
    then show ?thesis using u R_refl by auto
  qed (use run R_refl in \<open>simp add: handle_logout_def\<close>)
next
  assume run: "handle_me V p s = (resp, t)"
  obtain q u where q: "me (hi_service V) (pr_user_id p) s = (q, u)" by fastforce
  have u: "R s u" by (rule movesD [OF moves_services(4) q])
  have "t = u" using run q by (auto simp: handle_me_def respond_with_def split: prod.splits sum.splits)
  then show "R s t" using u by simp
qed

end

section \<open>Limits and logins\<close>

locale redis_steps = session_steps +
  assumes R_count: "R s (s\<lparr>redis := (redis s)(attempt_key k := v)\<rparr>)"
begin

lemma R_incr: "R s (s\<lparr>redis := snd (redis_incr (attempt_key k) t (redis s))\<rparr>)"
proof -
  have "snd (redis_incr (attempt_key k) t (redis s)) = redis s \<or>
      (\<exists>v. snd (redis_incr (attempt_key k) t (redis s)) = (redis s)(attempt_key k := v))"
    by (auto simp: redis_incr_def split: option.splits)
  then show ?thesis using R_refl [of s] R_count [of s k] by (elim disjE exE) (simp_all add: fun_upd_def)
qed

lemma R_script: "R s (s\<lparr>redis := snd (add_attempt_script (attempt_key k) ms t (redis s))\<rparr>)"
proof -
  obtain r m where m: "redis_incr (attempt_key k) t (redis s) = (r, m)" by fastforce
  have i: "R s (s\<lparr>redis := m\<rparr>)" using R_incr [of s k t] m by simp
  obtain v where v: "redis_pexpire (attempt_key k) ms t m = m(attempt_key k := v)"
    by (rule that [of "redis_pexpire (attempt_key k) ms t m (attempt_key k)"]) (simp add: redis_pexpire_def fun_eq_iff)
  have "R (s\<lparr>redis := m\<rparr>) (s\<lparr>redis := redis_pexpire (attempt_key k) ms t m\<rparr>)"
    using R_count [of "s\<lparr>redis := m\<rparr>" k v] unfolding v by simp
  then show ?thesis using i R_trans m by (auto simp: add_attempt_script_def split: sum.splits)
qed

lemma moves_attempts: "moves (attempts S k)" "moves (add_attempt S k w)" "moves (reset_attempts S k)"
proof -
  show "moves (attempts S k)" unfolding attempts_def
    by (rule moves_redis) (simp add: redis_attempts_def R_refl)
  show "moves (add_attempt S k w)" unfolding add_attempt_def attempt_key_def [symmetric]
    by (intro moves_intros moves_redis R_script)
  show "moves (reset_attempts S k)" unfolding reset_attempts_def attempt_key_def [symmetric]
    by (rule moves_redis) (simp add: redis_del_def R_count)
qed

lemma R_blocked: "blocked_from S ls w b s = (r, t) \<Longrightarrow> R s t"
proof (induction S ls w b s rule: blocked_from.induct)
  case (2 S l ls w b s)
  obtain q u where q: "attempts S (li_key l) s = (q, u)" by fastforce
  have "R s u" by (rule movesD [OF moves_attempts(1) q])
  then show ?case using 2 q R_trans by (auto split: if_splits sum.splits prod.splits)
qed (simp add: R_refl)

lemma R_limits: "R s (add_attempts S ls w s)" "R s (reset_limit S k s)"
proof -
  show "R s (add_attempts S ls w s)"
  proof (induction S ls w s rule: add_attempts.induct)
    case (2 S l ls w s)
    have "R s (snd (add_attempt S (li_key l) w s))" by (rule movesD [OF moves_attempts(2) prod.collapse [symmetric]])
    then show ?case using 2 R_trans by auto
  qed (simp add: R_refl)
  show "R s (reset_limit S k s)" unfolding reset_limit_def by (rule movesD [OF moves_attempts(3) prod.collapse [symmetric]])
qed

lemma R_count_login: "R s (count_login S throttle ip email res s)"
  by (simp add: count_login_def R_limits R_refl split: option.splits sum.splits)

lemma R_login_checked:
  assumes "login_checked V r d s = (resp, t)" "issues (hi_service V)"
  shows "R s t"
proof -
  obtain q u where q: "login (hi_service V) (lg_email d) (lg_password d) s = (q, u)" by fastforce
  let ?v = "count_login (hi_service V) (hi_throttle V) (iq_ip r) (lg_email d) q u"
  have "R s ?v" by (rule R_trans [OF movesD [OF moves_services(1) [OF assms(2)] q] R_count_login])
  moreover have "t = ?v \<or> (\<exists>p. send_pair V p ?v = (resp, t))"
    using assms(1) q by (cases q) (auto simp: login_checked_def Let_def)
  ultimately show ?thesis using R_trans R_send_pair by blast
qed

lemma R_handle_login:
  assumes "handle_login V r s = (resp, t)" "issues (hi_service V)"
  shows "R s t"
proof (cases "Option.bind (hi_parse V (hq_body r)) decode_login")
  case d: (Some d)
  show ?thesis
  proof (cases "hi_throttle V")
    case None
    show ?thesis by (rule R_login_checked [OF _ assms(2)]) (use assms(1) d None in \<open>simp add: handle_login_def identity_bind_def\<close>)
  next
    case (Some cfg)
    obtain w b u where b: "blocked (hi_service V) (login_limits (hi_service V) cfg (iq_ip r) (lg_email d)) s = ((w, b), u)"
      by (metis surj_pair)
    have u: "R s u" by (rule R_blocked) (rule b [unfolded blocked_def])
    have "t = u \<or> login_checked V r d u = (resp, t)"
      using assms(1) b by (auto simp: handle_login_def identity_bind_def d Some split: if_splits)
    then show ?thesis using u R_trans R_login_checked [OF _ assms(2)] by blast
  qed
qed (use assms R_refl in \<open>simp add: handle_login_def identity_bind_def\<close>)

end

end
