(* ===== verification/IdentityRuns.thy ===== *)
theory IdentityRuns
  imports IdentityEffects
begin

text \<open>Whole operations of identity-service: the effect of each that succeeds, and that they keep the invariant.\<close>

section \<open>Operations that only use Redis\<close>

definition beside_redis :: "identity_db \<Rightarrow> identity_db \<Rightarrow> bool" where
  "beside_redis s t \<longleftrightarrow> user_rows t = user_rows s \<and> outbox_rows t = outbox_rows s \<and> outbox_seq t = outbox_seq s \<and>
     kafka_log t = kafka_log s"

lemma beside_refl [simp]: "beside_redis s s" "beside_redis s (step_tick t) = beside_redis s t"
  "beside_redis s (t\<lparr>tick := n\<rparr>) = beside_redis s t" "beside_redis s (t\<lparr>redis := m\<rparr>) = beside_redis s t"
  by (auto simp: beside_redis_def)

lemma beside_trans: "beside_redis s t \<Longrightarrow> beside_redis t u \<Longrightarrow> beside_redis s u"
  by (simp add: beside_redis_def)

interpretation beside: redis_steps beside_redis "\<lambda>S h. True"
  by unfold_locales (simp_all, rule beside_trans)

lemma beside_issues [simp]: "beside.issues S"
  by (simp add: beside.issues_def)

lemmas beside_services = beside.moves_services(1,2) [OF beside_issues] beside.moves_services(3,4)

section \<open>Writing users\<close>

lemma registered_user_sel [simp]:
  "iu_id (registered_user i h t reg) = i" "iu_email (registered_user i h t reg) = normalize_email (rg_email reg)"
  "iu_role (registered_user i h t reg) = rg_role reg" "iu_status (registered_user i h t reg) = user_active"
  "iu_hash (registered_user i h t reg) = h"
  by (simp_all add: registered_user_def)

lemma create_user_tx_Inr:
  assumes "create_user_tx S u t0 s = (Inr x, t)"
  obtains r ob n where "x = u" "to_user_model S u = Some r" "user_violation r (user_rows s) = None"
    "user_message S UserCreated u t0 ob" "ob_id ob = outbox_seq s"
    "t = s\<lparr>tick := n, outbox_seq := outbox_seq s + 1, outbox_rows := outbox_rows s @ [ob], user_rows := user_rows s @ [r]\<rparr>"
proof -
  obtain y t1 w where a: "create_user_row S u s = (Inr y, t1)" "write_user_event S UserCreated y t0 t1 = (Inr w, t)" "x = y"
    using assms unfolding create_user_tx_def run_simps by (auto simp: ok_run)
  obtain r where r: "y = u" "to_user_model S u = Some r" "user_violation r (user_rows s) = None"
    "t1 = s\<lparr>tick := Suc (tick s), user_rows := user_rows s @ [r]\<rparr>" by (rule create_user_row_Inr [OF a(1)])
  obtain n ob where o: "t = t1\<lparr>tick := n, outbox_seq := outbox_seq t1 + 1, outbox_rows := outbox_rows t1 @ [ob]\<rparr>"
    "ob_id ob = outbox_seq t1" "user_message S UserCreated y t0 ob" by (rule write_user_event_Inr [OF a(2)])
  show thesis by (rule that [of r ob n]) (use a(3) r o in simp_all)
qed

lemma create_user_Inr:
  assumes "create_user S reg s = (Inr x, t)"
  obtains i h t0 r ob n where "x = registered_user i h t0 reg" "is_hash S (tick s) (rg_password reg) = Inr h"
    "to_user_model S x = Some r" "user_violation r (user_rows s) = None" "user_message S UserCreated x t0 ob"
    "ob_id ob = outbox_seq s"
    "t = s\<lparr>tick := n, outbox_seq := outbox_seq s + 1, outbox_rows := outbox_rows s @ [ob], user_rows := user_rows s @ [r]\<rparr>"
proof -
  obtain h where h: "is_hash S (tick s) (rg_password reg) = Inr h"
    using assms by (cases "is_hash S (tick s) (rg_password reg)") (auto simp: create_user_def on_ok_def hash_password_def)
  define s1 where "s1 = step_tick (step_tick (step_tick s))"
  obtain i t0 where tx: "in_identity_tx S (create_user_tx S (registered_user i h t0 reg) t0) s1 = (Inr x, t)"
    using assms h by (auto simp: create_user_def on_ok_def hash_password_def now_def new_uuid_def s1_def)
  obtain t' where t': "create_user_tx S (registered_user i h t0 reg) t0 (step_tick s1) = (Inr x, t')" "t = step_tick t'"
    by (rule committed [OF tx])
  obtain r ob n where r: "x = registered_user i h t0 reg" "to_user_model S (registered_user i h t0 reg) = Some r"
    "user_violation r (user_rows (step_tick s1)) = None" "user_message S UserCreated (registered_user i h t0 reg) t0 ob"
    "ob_id ob = outbox_seq (step_tick s1)"
    "t' = (step_tick s1)\<lparr>tick := n, outbox_seq := outbox_seq (step_tick s1) + 1,
       outbox_rows := outbox_rows (step_tick s1) @ [ob], user_rows := user_rows (step_tick s1) @ [r]\<rparr>"
    by (rule create_user_tx_Inr [OF t'(1)])
  show thesis
    by (rule that [OF r(1) h, of r ob "Suc n"]) (use r t'(2) in \<open>simp_all add: s1_def step_tick_def\<close>)
qed

lemma to_user_model_sel:
  assumes "to_user_model S u = Some r"
  shows "is_uuid S (iu_id u) = Some (au_id r)" "au_email r = iu_email u" "au_role r = iu_role u" "au_status r = iu_status u"
    "au_hash r = iu_hash u"
  using assms by (auto simp: to_user_model_def)

lemma user_status_Inr:
  assumes "update_user_status S i status t0 s = (Inr x, t)" "users_ok (user_rows s)" "is_uuid S i = Some (au_id r)" "r \<in> set (user_rows s)"
  obtains n where "x = to_user S (set_status_columns (is_env S) status t0 r)" "user_status_valid status"
    "t = s\<lparr>tick := n, user_rows := map (\<lambda>q. if au_id q = au_id r then set_status_columns (is_env S) status t0 q else q) (user_rows s)\<rparr>"
proof -
  let ?f = "\<lambda>q. if au_id q = au_id r then set_status_columns (is_env S) status t0 q else q"
  obtain k t1 where k: "sql (is_env S) (status_statement S i status t0) s = (Inr k, t1)" "first_with_id S i t1 = (Inr x, t)"
    using assms(1) by (auto simp: update_user_status_def on_ok_Inr split: if_splits)
  have n: "0 < length (filter (\<lambda>q. au_id q = au_id r) (user_rows s))" using assms(4) by (auto simp: filter_empty_conv)
  have t1: "user_status_valid status" "t1 = (step_tick s)\<lparr>user_rows := map ?f (user_rows s)\<rparr>"
    using k(1) n by (auto simp: sql_Inr status_statement_def assms(3) Let_def split: if_splits)
  obtain q where q: "q \<in> set (user_rows t1)" "is_uuid S i = Some (au_id q)" "x = to_user S q" "t = step_tick t1"
    by (rule first_with_id_Inr [OF k(2)])
  have "q = set_status_columns (is_env S) status t0 r"
    using q(1,2) assms(3) only_id [OF assms(2) _ assms(4)] by (auto simp: t1(2) split: if_splits)
  then show thesis using q(3,4) t1 by (intro that [of "Suc (Suc (tick s))"]) (simp_all add: step_tick_def)
qed

lemma set_status_tx_Inr:
  assumes "set_status_tx S i status s = (Inr x, t)" "users_ok (user_rows s)"
  obtains (unchanged) r where "r \<in> set (user_rows s)" "is_uuid S i = Some (au_id r)" "au_status r = status" "x = to_user S r" "t = step_tick s"
    | (changed) r t0 ob n where "r \<in> set (user_rows s)" "is_uuid S i = Some (au_id r)" "au_status r \<noteq> status" "user_status_valid status"
      "x = to_user S (set_status_columns (is_env S) status t0 r)" "user_message S UserUpdated x t0 ob" "ob_id ob = outbox_seq s"
      "t = s\<lparr>tick := n, outbox_seq := outbox_seq s + 1, outbox_rows := outbox_rows s @ [ob],
         user_rows := map (\<lambda>q. if au_id q = au_id r then set_status_columns (is_env S) status t0 q else q) (user_rows s)\<rparr>"
proof -
  obtain y t1 where y: "get_by_id_for_update S i s = (Inr y, t1)"
    "(if iu_status y = status then ok y
      else on_ok (now (is_env S)) (\<lambda>t. on_ok (update_user_status S i status t) (\<lambda>updated.
           on_ok (write_user_event S UserUpdated updated t) (\<lambda>_. ok updated)))) t1 = (Inr x, t)"
    using assms(1) unfolding set_status_tx_def on_ok_Inr by blast
  obtain r where r: "r \<in> set (user_rows s)" "is_uuid S i = Some (au_id r)" "y = to_user S r" "t1 = step_tick s"
    by (rule get_by_id_for_update_Inr [OF y(1)])
  show thesis
  proof (cases "au_status r = status")
    case True
    show ?thesis by (rule unchanged [OF r(1,2) True]) (use y(2) r(3,4) True in simp_all)
  next
    case False
    define t0 where "t0 = clock (is_env S) (tick (step_tick s))"
    obtain up t2 w where u: "update_user_status S i status t0 (step_tick (step_tick s)) = (Inr up, t2)"
      "write_user_event S UserUpdated up t0 t2 = (Inr w, t)" "x = up"
      using y(2) r(3,4) False by (auto simp: on_ok_Inr now_run t0_def)
    obtain n where n: "up = to_user S (set_status_columns (is_env S) status t0 r)" "user_status_valid status"
      "t2 = (step_tick (step_tick s))\<lparr>tick := n, user_rows := map (\<lambda>q. if au_id q = au_id r
         then set_status_columns (is_env S) status t0 q else q) (user_rows (step_tick (step_tick s)))\<rparr>"
      by (rule user_status_Inr [OF u(1) _ r(2)]) (use assms(2) r(1) in simp_all)
    obtain k ob where o: "t = t2\<lparr>tick := k, outbox_seq := outbox_seq t2 + 1, outbox_rows := outbox_rows t2 @ [ob]\<rparr>"
      "ob_id ob = outbox_seq t2" "user_message S UserUpdated up t0 ob" by (rule write_user_event_Inr [OF u(2)])
    show ?thesis
      by (rule changed [OF r(1,2) False n(2), of t0 ob k]) (use n(1,3) o u(3) in \<open>simp_all add: step_tick_def\<close>)
  qed
qed

section \<open>The invariant\<close>

lemma identity_inv_append:
  assumes "identity_inv s" "ob_id ob = outbox_seq s" "ob_published ob = None" "users_ok rows"
    "announced rows (identity_payloads s @ [ob_payload ob])"
  shows "identity_inv (s\<lparr>tick := n, outbox_seq := outbox_seq s + 1, outbox_rows := outbox_rows s @ [ob], user_rows := rows\<rparr>)"
    (is "identity_inv ?t")
proof -
  have "outbox_ok ?t"
    by (rule outbox_ok_append [of s ?t ob]) (use assms in \<open>simp_all add: identity_inv_def\<close>)
  then show ?thesis using assms(4,5) by (simp add: identity_inv_def identity_payloads_alt)
qed

lemma identity_inv_create:
  assumes "create_user_tx S u t0 s = (Inr x, t)" "identity_inv s" "iu_email u = normalize_email (iu_email u)"
  shows "identity_inv t"
proof -
  obtain r ob n where r: "to_user_model S u = Some r" "user_violation r (user_rows s) = None"
    "user_message S UserCreated u t0 ob" "ob_id ob = outbox_seq s"
    "t = s\<lparr>tick := n, outbox_seq := outbox_seq s + 1, outbox_rows := outbox_rows s @ [ob], user_rows := user_rows s @ [r]\<rparr>"
    by (rule create_user_tx_Inr [OF assms(1)])
  note sel = to_user_model_sel [OF r(1)]
  have i: "users_ok (user_rows s)" "announced (user_rows s) (identity_payloads s)" using assms(2) by (simp_all add: identity_inv_def)
  have "users_ok (user_rows s @ [r])" by (rule users_ok_new [OF i(1) r(2)]) (use sel(2) assms(3) in simp)
  moreover obtain j where j: "ob_payload ob = user_event_json j UserCreated t0 u" using r(3) by (auto simp: user_message_def)
  have e: "au_email r \<notin> au_email ` set (user_rows s)" using r(2) by (force simp: user_violation_None)
  have "announced (user_rows s @ [r]) (identity_payloads s @ [ob_payload ob])" unfolding j
    by (rule announced_new [OF i(2) _ _ _ e]) (simp_all add: sel)
  moreover have "ob_published ob = None" using r(3) by (simp add: user_message_def)
  ultimately show ?thesis unfolding r(5) by (intro identity_inv_append [OF assms(2) r(4)])
qed

lemma identity_inv_status:
  assumes "set_status_tx S i status s = (Inr x, t)" "identity_inv s"
  shows "identity_inv t"
proof -
  have i: "users_ok (user_rows s)" "announced (user_rows s) (identity_payloads s)" using assms(2) by (simp_all add: identity_inv_def)
  show ?thesis
  proof (rule set_status_tx_Inr [OF assms(1) i(1)])
    fix r t0 ob n
    assume r: "r \<in> set (user_rows s)" "user_status_valid status" "x = to_user S (set_status_columns (is_env S) status t0 r)"
      "user_message S UserUpdated x t0 ob" "ob_id ob = outbox_seq s"
      "t = s\<lparr>tick := n, outbox_seq := outbox_seq s + 1, outbox_rows := outbox_rows s @ [ob],
         user_rows := map (\<lambda>q. if au_id q = au_id r then set_status_columns (is_env S) status t0 q else q) (user_rows s)\<rparr>"
    obtain j where j: "ob_payload ob = user_event_json j UserUpdated t0 x" using r(4) by (auto simp: user_message_def)
    show ?thesis unfolding r(6)
      by (rule identity_inv_append [OF assms(2) r(5) _ users_ok_status [OF i(1) r(2)]])
        (use r(3,4) announced_status [OF i(2,1) r(1)] in \<open>simp_all add: user_message_def j\<close>)
  qed (use assms(2) in simp)
qed

lemma identity_inv_beside:
  assumes "identity_inv s" "beside_redis s t"
  shows "identity_inv t"
proof -
  have e: "user_rows t = user_rows s" "outbox_rows t = outbox_rows s" "kafka_log t = kafka_log s" "outbox_seq s \<le> outbox_seq t"
    using assms(2) by (simp_all add: beside_redis_def)
  have "outbox_ok t" by (rule outbox_ok_cong [OF _ e(2-4)]) (use assms(1) in \<open>simp add: identity_inv_def\<close>)
  then show ?thesis using assms(1) by (simp add: identity_inv_def identity_payloads_alt e(1,2))
qed

lemma keeps_session: "beside.moves m \<Longrightarrow> keeps identity_inv m"
  by (rule keepsI) (rule identity_inv_beside, assumption, rule beside.movesD)

lemma keeps_create [keeps_intros]: "keeps identity_inv (create_user S reg)"
proof -
  have "keeps identity_inv (in_identity_tx S (create_user_tx S (registered_user i h t reg) t))" for i h t
    by (rule identity_tx.tx_keeps [OF grows_identity_bodies(1)], rule identity_inv_create) (assumption, assumption, simp)
  then show ?thesis unfolding create_user_def
    by (intro keeps_on_ok keeps_reads_only [OF _ reads_only_tokens(1)] keeps_now keeps_new_uuid tick_free_identity_inv)
qed

lemma keeps_admin [keeps_intros]:
  "keeps identity_inv (register_user S reg)" "keeps identity_inv (admin_create_user S actor reg)"
  "keeps identity_inv (set_user_status S actor i status)"
proof -
  show "keeps identity_inv (register_user S reg)" "keeps identity_inv (admin_create_user S actor reg)"
    unfolding register_user_def admin_create_user_def Let_def
    by (intro keeps_intros keeps_reads_only [OF _ reads_only_admin] tick_free_identity_inv)+
  have "keeps identity_inv (in_identity_tx S (set_status_tx S i status))"
    by (rule identity_tx.tx_keeps [OF grows_identity_bodies(2)]) (rule identity_inv_status)
  then show "keeps identity_inv (set_user_status S actor i status)"
    unfolding set_user_status_def by (intro keeps_intros keeps_reads_only [OF _ reads_only_admin] tick_free_identity_inv)
qed

end
