(* ===== verification/IdentityLifecycle.thy ===== *)
theory IdentityLifecycle
  imports IdentityRuns
begin

text \<open>What a failed operation leaves, what each operation can do to the users, and the states that requests, starts and
  relay rounds, in any order and with any faults, can reach.\<close>

section \<open>Failures\<close>

lemma identity_same_intros [simp]:
  "identity_same s s" "identity_same s (step_tick t) = identity_same s t" "identity_same s (t\<lparr>tick := n\<rparr>) = identity_same s t"
  "identity_same (s\<lparr>tick := n\<rparr>) t = identity_same s t" "identity_same (step_tick s) t = identity_same s t"
  by (auto simp: identity_same_def)

lemma identity_same_reads: "reads_only m \<Longrightarrow> m s = (r, t) \<Longrightarrow> identity_same s t"
  using reads_onlyD [of m s r t] by auto

lemma on_ok_fails:
  assumes "on_ok m f s = (Inl e, t)" "reads_only m" "\<And>x u e' t'. f x u = (Inl e', t') \<Longrightarrow> identity_same u t'"
  shows "identity_same s t"
  using assms(1) unfolding on_ok_Inl
proof (elim disjE exE conjE)
  fix x u assume a: "m s = (Inr x, u)" "f x u = (Inl e, t)"
  obtain n where "u = s\<lparr>tick := n\<rparr>" using reads_onlyD [OF assms(2) a(1)] by blast
  then show ?thesis using assms(3) [OF a(2)] by simp
qed (rule identity_same_reads [OF assms(2)])

lemma create_user_fails: "create_user S reg s = (Inl e, t) \<Longrightarrow> identity_same s t"
proof -
  have tx: "identity_same u t'" if "in_identity_tx S (create_user_tx S v t0) u = (Inl e', t')" for v t0 u e' t'
    by (rule identity_tx.tx_failed [OF grows_identity_bodies(1) that])
  have uuid: "reads_only (new_uuid E)" for E by (simp add: reads_only_def new_uuid_def step_tick_set)
  assume "create_user S reg s = (Inl e, t)"
  then show ?thesis unfolding create_user_def
    by (rule on_ok_fails [OF _ reads_only_tokens(1)])
      (erule on_ok_fails [OF _ reads_only_now], erule on_ok_fails [OF _ uuid], rule tx)
qed

lemma register_user_fails: "register_user S reg s = (Inl e, t) \<Longrightarrow> identity_same s t"
  by (auto simp: register_user_def Let_def split: if_splits dest: create_user_fails)

lemma admin_create_fails: "admin_create_user S actor reg s = (Inl e, t) \<Longrightarrow> identity_same s t"
  unfolding admin_create_user_def
  by (auto split: if_splits elim!: on_ok_fails [OF _ reads_only_admin] dest: create_user_fails)

lemma set_status_fails: "set_user_status S actor i status s = (Inl e, t) \<Longrightarrow> identity_same s t"
  unfolding set_user_status_def
  by (auto split: if_splits elim!: on_ok_fails [OF _ reads_only_admin] dest: identity_tx.tx_failed [OF grows_identity_bodies(2)])

section \<open>What becomes of the users\<close>

text \<open>Nothing; or one new active user, or one user's status, each with the reason why it may.\<close>

definition active_admin :: "(user_row \<Rightarrow> bool) \<Rightarrow> user_row list \<Rightarrow> user_row \<Rightarrow> bool" where
  "active_admin A rows a \<longleftrightarrow> a \<in> set rows \<and> au_role a = role_admin \<and> au_status a = user_active \<and> A a"

definition new_user_allowed :: "(user_row \<Rightarrow> bool) \<Rightarrow> bool \<Rightarrow> user_row list \<Rightarrow> user_row \<Rightarrow> bool" where
  "new_user_allowed A starting rows r \<longleftrightarrow> au_status r = user_active \<and>
     (au_role r = role_customer \<or> starting \<and> au_role r = role_admin \<and> role_admin \<notin> au_role ` set rows \<or>
      (\<exists>a. active_admin A rows a))"

definition users_step :: "(user_row \<Rightarrow> bool) \<Rightarrow> bool \<Rightarrow> user_row list \<Rightarrow> user_row list \<Rightarrow> bool" where
  "users_step A starting rows rows' \<longleftrightarrow> rows' = rows \<or> (\<exists>r. rows' = rows @ [r] \<and> new_user_allowed A starting rows r) \<or>
     (\<exists>a r E status t. active_admin A rows a \<and> r \<in> set rows \<and> user_status_valid status \<and>
        rows' = map (\<lambda>q. if au_id q = au_id r then set_status_columns E status t q else q) rows)"

lemma users_step_refl [simp]: "users_step A b rows rows"
  by (simp add: users_step_def)

text \<open>The user an id given by a caller names.\<close>

definition names_user :: "identity_service \<Rightarrow> string \<Rightarrow> user_row \<Rightarrow> bool" where
  "names_user S i r \<longleftrightarrow> is_uuid S i = Some (au_id r)"

lemma create_user_rows:
  assumes "create_user S reg s = (r, t)"
  shows "user_rows t = user_rows s \<or> (\<exists>q. user_rows t = user_rows s @ [q] \<and> au_role q = rg_role reg \<and> au_status q = user_active)"
proof (cases r)
  case (Inl e)
  then show ?thesis using create_user_fails assms by (simp add: identity_same_def)
next
  case (Inr x)
  obtain i h t0 q ob n where c: "x = registered_user i h t0 reg" "is_hash S (tick s) (rg_password reg) = Inr h"
    "to_user_model S x = Some q" "user_violation q (user_rows s) = None" "user_message S UserCreated x t0 ob"
    "ob_id ob = outbox_seq s"
    "t = s\<lparr>tick := n, outbox_seq := outbox_seq s + 1, outbox_rows := outbox_rows s @ [ob], user_rows := user_rows s @ [q]\<rparr>"
    by (rule create_user_Inr [OF assms [unfolded Inr]])
  have "au_role q = rg_role reg" "au_status q = user_active" using to_user_model_sel [OF c(3)] by (simp_all add: c(1))
  then show ?thesis by (simp add: c(7))
qed

lemma register_user_step:
  assumes "register_user S reg s = (r, t)"
  shows "users_step A b (user_rows s) (user_rows t)"
proof (cases "self_registerable (if rg_role reg = '''' then role_customer else rg_role reg)")
  case True
  define reg' where "reg' = (if rg_role reg = '''' then reg\<lparr>rg_role := role_customer\<rparr> else reg)"
  have "rg_role reg' = role_customer" "create_user S reg' s = (r, t)"
    using assms True by (cases "rg_role reg = ''''"; simp add: register_user_def Let_def self_registerable_def reg'_def)+
  then show ?thesis using create_user_rows [of S reg' s r t] by (auto simp: users_step_def new_user_allowed_def)
next
  case False
  then have "t = s" using assms by (auto simp: register_user_def Let_def split: if_splits)
  then show ?thesis by (simp add: users_step_def)
qed

lemma admin_create_step:
  assumes "admin_create_user S actor reg s = (r, t)"
  shows "users_step (names_user S actor) b (user_rows s) (user_rows t)"
proof (cases "user_rows t = user_rows s")
  case False
  obtain x where x: "r = Inr x" using assms False admin_create_fails [of S actor reg s _ t] by (cases r) (auto simp: identity_same_def)
  obtain u t1 where a: "require_admin S actor s = (Inr u, t1)" "create_user S reg t1 = (r, t)"
    using assms x by (auto simp: admin_create_user_def on_ok_Inr split: if_splits)
  obtain q where q: "q \<in> set (user_rows s)" "is_uuid S actor = Some (au_id q)" "au_role q = role_admin" "au_status q = user_active"
    "t1 = step_tick s" by (rule require_admin_Inr [OF a(1)])
  then have "active_admin (names_user S actor) (user_rows s) q" by (simp add: active_admin_def names_user_def)
  then show ?thesis using create_user_rows [OF a(2)] False q(5) by (auto simp: users_step_def new_user_allowed_def)
qed (simp add: users_step_def)

lemma set_user_status_Inr:
  assumes "set_user_status S actor i status s = (Inr x, t)" "users_ok (user_rows s)"
  obtains a t1 t' where "a \<in> set (user_rows s)" "is_uuid S actor = Some (au_id a)" "au_role a = role_admin" "au_status a = user_active"
    "actor \<noteq> i" "user_status_valid status" "t1 = step_tick (step_tick s)" "set_status_tx S i status t1 = (Inr x, t')" "t = step_tick t'"
proof -
  obtain u t1 where a: "require_admin S actor s = (Inr u, t1)" "in_identity_tx S (set_status_tx S i status) t1 = (Inr x, t)"
    "actor \<noteq> i" "user_status_valid status"
    using assms by (auto simp: set_user_status_def on_ok_Inr split: if_splits)
  obtain q where q: "q \<in> set (user_rows s)" "is_uuid S actor = Some (au_id q)" "au_role q = role_admin" "au_status q = user_active"
    "t1 = step_tick s" by (rule require_admin_Inr [OF a(1)])
  obtain t' where t': "set_status_tx S i status (step_tick t1) = (Inr x, t')" "t = step_tick t'" by (rule committed [OF a(2)])
  show thesis by (rule that [OF q(1-4) a(3,4) refl t'(1) [unfolded q(5)] t'(2)])
qed

lemma set_user_status_step:
  assumes "set_user_status S actor i status s = (r, t)" "users_ok (user_rows s)"
  shows "users_step (names_user S actor) b (user_rows s) (user_rows t)"
proof (cases r)
  case (Inl e)
  then show ?thesis using set_status_fails assms(1) by (simp add: identity_same_def users_step_def)
next
  case (Inr x)
  obtain a t1 t' where a: "a \<in> set (user_rows s)" "au_role a = role_admin" "au_status a = user_active"
    "user_status_valid status" "is_uuid S actor = Some (au_id a)" "t1 = step_tick (step_tick s)" "set_status_tx S i status t1 = (Inr x, t')" "t = step_tick t'"
    by (rule set_user_status_Inr [OF assms(1) [unfolded Inr] assms(2)])
  have adm: "active_admin (names_user S actor) (user_rows s) a" using a(1-3,5) by (simp add: active_admin_def names_user_def)
  note a = a(1-4,6-8)
  have ok: "users_ok (user_rows t1)" using assms(2) a(5) by simp
  show ?thesis
  proof (rule set_status_tx_Inr [OF a(6) ok])
    fix q t0 ob n
    assume q: "q \<in> set (user_rows t1)"
      "t' = t1\<lparr>tick := n, outbox_seq := outbox_seq t1 + 1, outbox_rows := outbox_rows t1 @ [ob],
         user_rows := map (\<lambda>p. if au_id p = au_id q then set_status_columns (is_env S) status t0 p else p) (user_rows t1)\<rparr>"
    have "user_rows t = map (\<lambda>p. if au_id p = au_id q then set_status_columns (is_env S) status t0 p else p) (user_rows s)"
      by (simp add: a(5,7) q(2))
    moreover have "q \<in> set (user_rows s)" using q(1) a(5) by simp
    ultimately show ?thesis using adm a(4) unfolding users_step_def by (intro disjI2 exI conjI)
  qed (simp add: users_step_def a(5,7))
qed

text \<open>\<open>BootstrapAdmin\<close> creates where there is no admin, then at most reads.\<close>

lemma bootstrap_cases:
  assumes "bootstrap_admin S email pw s = (r, t)"
  obtains (idle) n where "t = s\<lparr>tick := n\<rparr>"
    | (create) q u where "role_admin \<notin> au_role ` set (user_rows s)"
      "create_user S \<lparr>rg_email = email, rg_password = pw, rg_role = role_admin\<rparr> (step_tick s) = (q, u)" "beside_redis u t" "redis t = redis u"
proof -
  let ?reg = "\<lparr>rg_email = email, rg_password = pw, rg_role = role_admin\<rparr>"
  obtain e t1 where e: "exists_with_role S role_admin s = (e, t1)" by fastforce
  have t1: "t1 = step_tick s" using e by (cases e) (auto simp: exists_with_role_def prog_simps)
  show thesis
  proof (cases "e = Inr False")
    case False
    then have "t = t1" using assms e by (cases e) (auto simp: bootstrap_admin_def on_ok_def)
    then show thesis by (intro idle [of "Suc (tick s)"]) (simp add: t1 step_tick_def)
  next
    case True
    then have no: "role_admin \<notin> au_role ` set (user_rows s)"
      using e by (auto simp: exists_with_role_def prog_simps filter_empty_conv)
    obtain q u where q: "create_user S ?reg (step_tick s) = (q, u)" by fastforce
    obtain g v where g: "get_user_by_email S (normalize_email email) u = (g, v)" by fastforce
    have "beside_redis u v" "redis v = redis u" using reads_onlyD [OF reads_only_users(2) g] by auto
    moreover have "t = u \<or> t = v"
      using assms e True t1 q g by (cases q; cases g) (auto simp: bootstrap_admin_def on_ok_def split: if_splits)
    ultimately show thesis by (intro create [OF no q]) auto
  qed
qed

lemma bootstrap_step:
  assumes "bootstrap_admin S email pw s = (r, t)"
  shows "users_step A True (user_rows s) (user_rows t)"
  using assms
proof (cases rule: bootstrap_cases)
  case (create q u)
  have "user_rows t = user_rows u" using create(3) by (simp add: beside_redis_def)
  then show ?thesis using create_user_rows [OF create(2)] create(1) by (auto simp: users_step_def new_user_allowed_def)
qed (simp add: users_step_def)

lemma start_bootstrap_step: "users_step A True (user_rows s) (user_rows (start_bootstrap S email pw s))"
  using bootstrap_step [of S email pw s, OF prod.collapse [symmetric]]
  by (auto simp: start_bootstrap_def)

lemma start_bootstrap_inv:
  assumes "identity_inv s"
  shows "identity_inv (start_bootstrap S email pw s)"
proof -
  obtain r t where b: "bootstrap_admin S email pw s = (r, t)" by fastforce
  have "identity_inv t" using b
  proof (cases rule: bootstrap_cases)
    case (create q u)
    have "identity_inv u" by (rule keepsD [OF keeps_create create(2)]) (use assms in simp)
    then show ?thesis by (rule identity_inv_beside [OF _ create(3)])
  qed (use assms identity_inv_beside in simp)
  then show ?thesis using assms b by (simp add: start_bootstrap_def)
qed

section \<open>Requests\<close>

lemma identity_answer_state: "identity_answer status enc m s = (resp, t) \<Longrightarrow> t = snd (m s)"
  by (auto simp: identity_answer_def split: prod.splits dest: respond_with_state)

text \<open>What a request can do: use Redis; register; or, behind the bearer token of an ADMIN, create a user or set a status.\<close>

definition request_effect :: "identity_server \<Rightarrow> identity_request \<Rightarrow> identity_db \<Rightarrow> identity_db \<Rightarrow> bool" where
  "request_effect V r s t \<longleftrightarrow> beside_redis s t \<or>
     (\<exists>d u. hq_method r = ''POST'' \<and> hq_path r = [''auth'', ''register''] \<and> beside_redis s u \<and> t = snd (register_user (hi_service V) d u)) \<or>
     (\<exists>p. require_auth V (http_request.truncate r) = Inr p \<and> pr_role p = role_admin \<and>
        ((\<exists>d. hq_method r = ''POST'' \<and> hq_path r = [''admin'', ''users''] \<and> t = snd (admin_create_user (hi_service V) (pr_user_id p) d s)) \<or>
         (\<exists>i st. hq_method r = ''PATCH'' \<and> hq_path r = [''admin'', ''users'', i] \<and>
            t = snd (set_user_status (hi_service V) (pr_user_id p) i st s))))"

lemma handle_register_effect:
  assumes "handle_register V r s = (resp, t)"
  shows "beside_redis s t \<or> (\<exists>d u. beside_redis s u \<and> t = snd (register_user (hi_service V) d u))"
proof (cases "Option.bind (hi_parse V (hq_body r)) (decode_registration V)")
  case d: (Some d)
  show ?thesis
  proof (cases "hi_throttle V")
    case None
    have "identity_answer 201 user_response (register_user (hi_service V) d) s = (resp, t)"
      using assms by (simp add: handle_register_def identity_bind_def d None)
    from identity_answer_state [OF this] show ?thesis using beside_refl(1) by blast
  next
    case (Some cfg)
    let ?limits = "register_limits cfg (iq_ip r)"
    obtain w b u where b: "blocked (hi_service V) ?limits s = ((w, b), u)" by (metis surj_pair)
    have u: "beside_redis s u" by (rule beside.R_blocked) (rule b [unfolded blocked_def])
    let ?v = "add_attempts (hi_service V) ?limits (rl_register_window cfg) u"
    have v: "beside_redis s ?v" by (rule beside_trans [OF u beside.R_limits(1)])
    have "t = u \<or> identity_answer 201 user_response (register_user (hi_service V) d) ?v = (resp, t)"
      using assms b by (auto simp: handle_register_def identity_bind_def d Some Let_def split: if_splits)
    then show ?thesis using u v identity_answer_state by metis
  qed
qed (use assms in \<open>simp add: handle_register_def identity_bind_def\<close>)

lemma as_admin_cases:
  assumes "as_admin V r f s = (resp, t)"
  shows "t = s \<or> (\<exists>p. require_auth V (http_request.truncate r) = Inr p \<and> pr_role p = role_admin \<and> f p s = (resp, t))"
  using assms by (auto simp: as_admin_def authenticated_def identity_require_role_def split: sum.splits if_splits)

lemma auth_route_Some:
  "auth_route m path = Some e \<Longrightarrow> (e = Register \<and> m = ''POST'' \<and> path = [''auth'', ''register'']) \<or> e \<in> {Login, Refresh, Logout, Me}"
  by (auto simp: auth_route_def split: if_splits)

lemma admin_route_Some:
  "admin_route m path = Some e \<Longrightarrow> (e = AdminCreate \<and> m = ''POST'' \<and> path = [''admin'', ''users'']) \<or>
     (\<exists>i. e = AdminStatus i \<and> m = ''PATCH'' \<and> path = [''admin'', ''users'', i])"
  by (auto simp: admin_route_def split: list.splits if_splits)

lemma handle_admin_effect:
  "handle_create_user V p r s = (resp, t) \<Longrightarrow> beside_redis s t \<or> (\<exists>d. t = snd (admin_create_user (hi_service V) (pr_user_id p) d s))"
  "handle_user_status V p i r s = (resp, t) \<Longrightarrow> beside_redis s t \<or> (\<exists>st. t = snd (set_user_status (hi_service V) (pr_user_id p) i st s))"
  by (auto simp: handle_create_user_def handle_user_status_def identity_bind_def split: option.splits dest: identity_answer_state)

lemma handle_identity_effect:
  assumes "handle_identity V r e s = (resp, t)"
    and "(e = Register \<and> hq_method r = ''POST'' \<and> hq_path r = [''auth'', ''register'']) \<or> e \<in> {Login, Refresh, Logout, Me} \<or>
      (e = AdminCreate \<and> hq_method r = ''POST'' \<and> hq_path r = [''admin'', ''users'']) \<or>
      (\<exists>i. e = AdminStatus i \<and> hq_method r = ''PATCH'' \<and> hq_path r = [''admin'', ''users'', i])"
  shows "request_effect V r s t"
proof (cases e)
  case Register
  then show ?thesis using assms handle_register_effect [of V r s resp t] by (auto simp: request_effect_def)
next
  case Me
  then show ?thesis using assms(1) by (auto simp: request_effect_def authenticated_def split: sum.splits dest: beside.R_handle_sessions(3))
next
  case AdminCreate
  have "t = s \<or> (\<exists>p. require_auth V (http_request.truncate r) = Inr p \<and> pr_role p = role_admin \<and> handle_create_user V p r s = (resp, t))"
    by (rule as_admin_cases) (use assms(1) AdminCreate in simp)
  then show ?thesis using assms(2) AdminCreate handle_admin_effect(1) [of V _ r s resp t]
    by (simp add: request_effect_def) (metis beside_refl(1))
next
  case (AdminStatus i)
  have "t = s \<or> (\<exists>p. require_auth V (http_request.truncate r) = Inr p \<and> pr_role p = role_admin \<and> handle_user_status V p i r s = (resp, t))"
    by (rule as_admin_cases) (use assms(1) AdminStatus in simp)
  then show ?thesis using assms(2) AdminStatus handle_admin_effect(2) [of V _ i r s resp t]
    by (simp add: request_effect_def) (metis beside_refl(1))
qed (use assms(1) in \<open>auto simp: request_effect_def dest: beside.R_handle_login beside.R_handle_sessions\<close>)

lemma serve_identity_effect:
  assumes "serve_identity V r s = Some (resp, t)"
  shows "request_effect V r s t"
proof (cases "hq_method r = ''OPTIONS''")
  case True
  then show ?thesis using assms by (simp add: serve_identity_def request_effect_def)
next
  case False
  obtain e resp' where e: "handle_identity V r e s = (resp', t)"
    "auth_route (hq_method r) (hq_path r) = Some e \<or> admin_route (hq_method r) (hq_path r) = Some e"
    using assms False by (auto simp: serve_identity_def split: option.splits prod.splits)
  show ?thesis
    by (rule handle_identity_effect [OF e(1)]) (use e(2) auth_route_Some admin_route_Some in blast)
qed

section \<open>Reachable states\<close>

datatype identity_operation =
    IServe identity_server identity_request
  | IRegister identity_service register_input
  | ILogin identity_service string string
  | IRefresh identity_service string
  | ILogout identity_service string
  | IAdminCreate identity_service string register_input
  | ISetStatus identity_service string string string
  | IStart identity_service string string
  | IRelay env

fun run_identity :: "identity_operation \<Rightarrow> identity_db \<Rightarrow> identity_db" where
  "run_identity (IServe V r) s = (case serve_identity V r s of None \<Rightarrow> s | Some (resp, t) \<Rightarrow> t)"
| "run_identity (IRegister S reg) s = snd (register_user S reg s)"
| "run_identity (ILogin S email pw) s = snd (login S email pw s)"
| "run_identity (IRefresh S token) s = snd (refresh_session S token s)"
| "run_identity (ILogout S token) s = snd (logout S token s)"
| "run_identity (IAdminCreate S actor reg) s = snd (admin_create_user S actor reg s)"
| "run_identity (ISetStatus S actor i st) s = snd (set_user_status S actor i st s)"
| "run_identity (IStart S email pw) s = start_bootstrap S email pw s"
| "run_identity (IRelay E) s = relay_once (fetch_unpublished E) (mark_published E) (publish E) s"

text \<open>A database as the migrations leave it: no user, no event.\<close>

definition empty_identity_tables :: "identity_db \<Rightarrow> bool" where
  "empty_identity_tables s \<longleftrightarrow> user_rows s = [] \<and> outbox_rows s = [] \<and> kafka_log s = []"

inductive identity_reachable :: "identity_db \<Rightarrow> bool" where
  migrated: "empty_identity_tables s \<Longrightarrow> identity_reachable s"
| operate: "identity_reachable s \<Longrightarrow> identity_reachable (run_identity x s)"

lemma empty_identity_inv: "empty_identity_tables s \<Longrightarrow> identity_inv s"
  by (simp add: empty_identity_tables_def identity_inv_def users_ok_def announced_def identity_payloads_alt
      outbox_ok_def outbox_valid_def outbox.delivered_def outbox_messages_def)

lemma relay_keeps_identity:
  assumes "identity_inv s"
  shows "identity_inv (relay_once (fetch_unpublished E) (mark_published E) (publish E) s)" (is "identity_inv ?t")
proof -
  obtain n rows l where "?t = s\<lparr>tick := n, outbox_rows := rows, kafka_log := l\<rparr>"
    using outbox_frame_update [OF relay_once_frame] by blast
  then have "user_rows ?t = user_rows s" by simp
  moreover have "identity_payloads ?t = identity_payloads s" by (simp add: identity_payloads_def relay_once_facts)
  moreover have "outbox_ok ?t" by (rule relay_once_ok) (use assms in \<open>simp add: identity_inv_def\<close>)
  ultimately show ?thesis using assms by (simp add: identity_inv_def)
qed

lemma relay_users: "user_rows (relay_once (fetch_unpublished E) (mark_published E) (publish E) s) = user_rows s"
proof -
  obtain n rows l where "relay_once (fetch_unpublished E) (mark_published E) (publish E) s = s\<lparr>tick := n, outbox_rows := rows, kafka_log := l\<rparr>"
    using outbox_frame_update [OF relay_once_frame] by blast
  then show ?thesis by simp
qed

lemma request_effect_inv:
  assumes "identity_inv s" "request_effect V r s t"
  shows "identity_inv t"
  using assms(2) unfolding request_effect_def
  by (auto intro: identity_inv_beside [OF assms(1)] keeps_snd [OF keeps_admin(1)] keeps_snd [OF keeps_admin(2) assms(1)]
      keeps_snd [OF keeps_admin(3) assms(1)])

definition acting_admin :: "identity_server \<Rightarrow> identity_request \<Rightarrow> user_row \<Rightarrow> bool" where
  "acting_admin V r a \<longleftrightarrow> (\<exists>p. require_auth V (http_request.truncate r) = Inr p \<and> pr_role p = role_admin \<and>
     names_user (hi_service V) (pr_user_id p) a)"

lemma users_step_mono: "users_step A b rows rows' \<Longrightarrow> (\<And>a. A a \<Longrightarrow> B a) \<Longrightarrow> users_step B b rows rows'"
  unfolding users_step_def new_user_allowed_def active_admin_def by blast

lemma request_effect_step:
  assumes "identity_inv s" "request_effect V r s t"
  shows "users_step (acting_admin V r) b (user_rows s) (user_rows t)"
proof -
  let ?S = "hi_service V"
  have ok: "users_ok (user_rows s)" using assms(1) by (simp add: identity_inv_def)
  have beside: "users_step (acting_admin V r) b (user_rows s) (user_rows t)" if "beside_redis s t"
    using that by (simp add: beside_redis_def)
  have reg: "users_step (acting_admin V r) b (user_rows s) (user_rows (snd (register_user ?S d u)))" if "beside_redis s u" for d u
    using register_user_step [of ?S d u, OF prod.collapse [symmetric]] that by (simp add: beside_redis_def)
  have act: "users_step (names_user ?S (pr_user_id p)) b (user_rows s) rows \<Longrightarrow> users_step (acting_admin V r) b (user_rows s) rows"
    if "require_auth V (http_request.truncate r) = Inr p" "pr_role p = role_admin" for p rows
    by (erule users_step_mono) (use that in \<open>auto simp: acting_admin_def\<close>)
  from assms(2) show ?thesis
    unfolding request_effect_def
    by (auto intro: beside reg act [OF _ _ admin_create_step [OF prod.collapse [symmetric]]]
        act [OF _ _ set_user_status_step [OF prod.collapse [symmetric] ok]])
qed

lemma reachable_identity_inv: "identity_reachable s \<Longrightarrow> identity_inv s"
proof (induction rule: identity_reachable.induct)
  case (operate s x)
  note i = operate(2)
  show ?case
  proof (cases x)
    case (IServe V r)
    then show ?thesis using i request_effect_inv [OF i serve_identity_effect] by (auto split: option.splits)
  qed (use i in \<open>simp_all add: keeps_snd keeps_admin keeps_session beside_services start_bootstrap_inv relay_keeps_identity\<close>)
qed (rule empty_identity_inv)

text \<open>Who an operation acts for, and whether it is a start.\<close>

fun acts_for :: "identity_operation \<Rightarrow> user_row \<Rightarrow> bool" where
  "acts_for (IServe V r) a \<longleftrightarrow> acting_admin V r a"
| "acts_for (IAdminCreate S actor reg) a \<longleftrightarrow> names_user S actor a"
| "acts_for (ISetStatus S actor i st) a \<longleftrightarrow> names_user S actor a"
| "acts_for _ a \<longleftrightarrow> False"

fun is_start :: "identity_operation \<Rightarrow> bool" where
  "is_start (IStart S email pw) \<longleftrightarrow> True"
| "is_start _ \<longleftrightarrow> False"

lemma run_identity_step:
  assumes "identity_inv s"
  shows "users_step (acts_for x) (is_start x) (user_rows s) (user_rows (run_identity x s))"
proof -
  have ok: "users_ok (user_rows s)" using assms by (simp add: identity_inv_def)
  have same: "users_step A b (user_rows s) (user_rows (snd (m s)))" if "beside.moves m" for A b and m :: "(identity_db, identity_error, 'a) prog"
    using beside.movesD [OF that prod.collapse [symmetric], of s] by (simp add: beside_redis_def users_step_def)
  show ?thesis
  proof (cases x)
    case (IServe V r)
    have a: "acts_for (IServe V r) = acting_admin V r" by (rule ext) simp
    show ?thesis
    proof (cases "serve_identity V r s")
      case (Some p)
      then show ?thesis using IServe a request_effect_step [OF assms serve_identity_effect [of V r s "fst p" "snd p"]]
        by (cases p) simp
    qed (simp add: IServe users_step_def)
  qed (simp_all add: same beside_services register_user_step [OF prod.collapse [symmetric]]
      admin_create_step [OF prod.collapse [symmetric]] set_user_status_step [OF prod.collapse [symmetric] ok] start_bootstrap_step
      relay_users users_step_mono [OF admin_create_step [OF prod.collapse [symmetric]]]
      users_step_mono [OF set_user_status_step [OF prod.collapse [symmetric] ok]])
qed

end
