(* ===== verification/IdentitySessions.thy ===== *)
theory IdentitySessions
  imports IdentityLifecycle
begin

text \<open>Sessions: the refresh tokens' store as the map it stands for (from a token's hash to the user it was issued to), what
  login, refresh and logout do to that map, and that a token once spent stays spent.\<close>

section \<open>The store\<close>

definition open_sessions :: "identity_db \<Rightarrow> string \<Rightarrow> string option" where
  "open_sessions s h = map_option fst (redis s (session_key h))"

lemma open_sessions_tick [simp]: "open_sessions (step_tick s) = open_sessions s" "open_sessions (s\<lparr>tick := n\<rparr>) = open_sessions s"
  by (simp_all add: open_sessions_def fun_eq_iff)

lemma open_sessions_upd [simp]:
  "open_sessions (s\<lparr>redis := (redis s)(session_key h := v)\<rparr>) = (open_sessions s)(h := map_option fst v)"
  by (simp add: open_sessions_def fun_eq_iff)

text \<open>What \<open>ports.RefreshTokenStore\<close> promises; a call that fails may have taken effect.\<close>

locale refresh_token_store =
  fixes opened :: "'s \<Rightarrow> string \<Rightarrow> string option"
    and save :: "string \<Rightarrow> string \<Rightarrow> int \<Rightarrow> ('s, 'e, unit) prog"
    and consume :: "string \<Rightarrow> ('s, 'e, string) prog"
    and revoke :: "string \<Rightarrow> ('s, 'e, unit) prog"
  assumes save_ok: "save h u ttl s = (Inr x, t) \<Longrightarrow> opened t = (opened s)(h \<mapsto> u)"
    and save_err: "save h u ttl s = (Inl e, t) \<Longrightarrow> opened t = opened s \<or> opened t = (opened s)(h \<mapsto> u)"
    and consume_ok: "consume h s = (Inr u, t) \<Longrightarrow> opened s h = Some u \<and> opened t = (opened s)(h := None)"
    and consume_err: "consume h s = (Inl e, t) \<Longrightarrow> opened t = opened s \<or> opened t = (opened s)(h := None)"
    and revoke_ok: "revoke h s = (Inr x, t) \<Longrightarrow> opened t = (opened s)(h := None)"
    and revoke_err: "revoke h s = (Inl e, t) \<Longrightarrow> opened t = opened s \<or> opened t = (opened s)(h := None)"
begin

lemma closed_not_consumed: "opened s h = None \<Longrightarrow> consume h s = (r, t) \<Longrightarrow> \<exists>e. r = Inl e"
  by (cases r) (auto dest: consume_ok)

lemma spent: "consume h s = (Inr u, t) \<or> revoke h s = (Inr (), t) \<Longrightarrow> opened t h = None"
  by (auto dest: consume_ok revoke_ok)

end

lemma sessions_after:
  assumes "redis_call S f s = (r, t)"
  shows "let q = f (redis_ms (clock (is_env S) (tick s))) (redis s)
    in (open_sessions t = open_sessions s \<and> (\<exists>msg. r = Inl msg)) \<or>
       (open_sessions t = open_sessions (s\<lparr>redis := snd q\<rparr>) \<and> (r = fst q \<or> (\<exists>msg. r = Inl msg)))"
  using assms by (cases rule: redis_call_cases) (auto simp: Let_def)

lemma open_sessions_get: "redis_get n (redis s) (session_key h) = Some (u, e) \<Longrightarrow> open_sessions s h = Some u"
  by (auto simp: redis_get_def open_sessions_def split: option.splits if_splits)

interpretation tokens: refresh_token_store open_sessions "save_refresh S" "consume_refresh S" "delete_refresh S" for S
proof unfold_locales
  fix h u e x ttl and s t :: identity_db
  show "save_refresh S h u ttl s = (Inr x, t) \<Longrightarrow> open_sessions t = (open_sessions s)(h \<mapsto> u)"
    unfolding save_refresh_def map_err_Inr session_key_def [symmetric] by (drule sessions_after) (auto simp: redis_set_def)
  show "consume_refresh S h s = (Inr u, t) \<Longrightarrow> open_sessions s h = Some u \<and> open_sessions t = (open_sessions s)(h := None)"
    unfolding consume_refresh_def on_ok_Inr map_err_Inr session_key_def [symmetric]
    by (elim exE conjE, drule sessions_after) (auto simp: redis_getdel_def open_sessions_get split: option.splits)
  show "delete_refresh S h s = (Inr x, t) \<Longrightarrow> open_sessions t = (open_sessions s)(h := None)"
    unfolding delete_refresh_def map_err_Inr session_key_def [symmetric] by (drule sessions_after) (auto simp: redis_del_def)
  show "save_refresh S h u ttl s = (Inl e, t) \<Longrightarrow> open_sessions t = open_sessions s \<or> open_sessions t = (open_sessions s)(h \<mapsto> u)"
    unfolding save_refresh_def map_err_Inl session_key_def [symmetric]
    by (elim exE conjE, drule sessions_after) (auto simp: redis_set_def)
  show "consume_refresh S h s = (Inl e, t) \<Longrightarrow> open_sessions t = open_sessions s \<or> open_sessions t = (open_sessions s)(h := None)"
    unfolding consume_refresh_def on_ok_Inl map_err_Inl map_err_Inr session_key_def [symmetric]
    by (elim disjE exE conjE; drule sessions_after) (auto simp: redis_getdel_def split: option.splits)
  show "delete_refresh S h s = (Inl e, t) \<Longrightarrow> open_sessions t = open_sessions s \<or> open_sessions t = (open_sessions s)(h := None)"
    unfolding delete_refresh_def map_err_Inl session_key_def [symmetric]
    by (elim exE conjE, drule sessions_after) (auto simp: redis_del_def)
qed

section \<open>Issuing tokens\<close>

lemma issue_access_token_Inr:
  assumes "issue_access_token S u s = (Inr (token, expires), t)"
  shows "is_sign S (is_secret S) (access_claims_for S u (clock (is_env S) (tick s))) = Inr token"
    "expires = clock (is_env S) (tick s) + is_access_ttl S" "t = step_tick s"
  using assms by (auto simp: issue_access_token_def on_ok_Inr now_run split: sum.splits)

lemma issue_token_pair_Inr:
  assumes "issue_token_pair S u s = (Inr p, t)"
  shows "open_sessions t = (open_sessions s)(hash_refresh_token S (tp_refresh p) \<mapsto> iu_id u)"
    "is_sign S (is_secret S) (access_claims_for S u (clock (is_env S) (tick s))) = Inr (tp_access p)"
    "tp_access_expires p = clock (is_env S) (tick s) + is_access_ttl S"
proof -
  obtain access expires t1 token t2 x t3 where a: "issue_access_token S u s = (Inr (access, expires), t1)"
    "new_refresh_token S t1 = (Inr token, t2)"
    "save_refresh S (hash_refresh_token S token) (iu_id u) (is_refresh_ttl S) t2 = (Inr x, t3)"
    "tp_access p = access" "tp_access_expires p = expires" "tp_refresh p = token" "t = step_tick t3"
    using assms by (auto simp: issue_token_pair_def on_ok_Inr now_run split: prod.splits)
  note acc = issue_access_token_Inr [OF a(1)]
  have "open_sessions t2 = open_sessions s" using a(2) acc(3) by (auto simp: new_refresh_token_def)
  then show "open_sessions t = (open_sessions s)(hash_refresh_token S (tp_refresh p) \<mapsto> iu_id u)"
    using tokens.save_ok [OF a(3)] a(6,7) by simp
  show "is_sign S (is_secret S) (access_claims_for S u (clock (is_env S) (tick s))) = Inr (tp_access p)"
    "tp_access_expires p = clock (is_env S) (tick s) + is_access_ttl S" using acc a(4,5) by simp_all
qed

lemma issue_token_pair_Inl:
  assumes "issue_token_pair S u s = (Inl e, t)"
  shows "open_sessions t = open_sessions s \<or> (\<exists>h. open_sessions t = (open_sessions s)(h \<mapsto> iu_id u))"
proof -
  obtain q t1 where q: "issue_access_token S u s = (q, t1)" by fastforce
  obtain g t2 where g: "new_refresh_token S t1 = (g, t2)" by fastforce
  have t1: "open_sessions t1 = open_sessions s" using reads_onlyD [OF reads_only_tokens(3) q] by auto
  have t2: "open_sessions t2 = open_sessions s" using reads_onlyD [OF reads_only_tokens(2) g] t1 by auto
  show ?thesis
  proof (cases q)
    case (Inl e')
    then show ?thesis using assms q t1 by (simp add: issue_token_pair_def on_ok_def)
  next
    case (Inr a)
    show ?thesis
    proof (cases g)
      case (Inl e')
      then show ?thesis using assms q g Inr t2 by (cases a) (simp add: issue_token_pair_def on_ok_def)
    next
      case (Inr token)
      obtain v t3 where v: "save_refresh S (hash_refresh_token S token) (iu_id u) (is_refresh_ttl S) t2 = (v, t3)" by fastforce
      have "open_sessions t = open_sessions t3"
        using assms q \<open>q = Inr a\<close> g Inr v by (cases a; cases v) (auto simp: issue_token_pair_def on_ok_def now_def ok_def)
      moreover have "open_sessions t3 = open_sessions t2 \<or>
          open_sessions t3 = (open_sessions t2)(hash_refresh_token S token \<mapsto> iu_id u)"
        using v by (cases v) (auto dest: tokens.save_ok tokens.save_err)
      ultimately show ?thesis using t2 by auto
    qed
  qed
qed

lemma open_sessions_read: "reads_only m \<Longrightarrow> m s = (r, t) \<Longrightarrow> open_sessions t = open_sessions s"
  using reads_onlyD [of m s r t] by auto

lemma login_cases:
  assumes "login S email pw s = (res, t)"
  obtains (refused) e where "res = Inl e" "open_sessions t = open_sessions s"
    | (checked) r t1 where "r \<in> set (user_rows s)" "to_lower (au_email r) = normalize_email email" "is_compare S (au_hash r) pw"
      "au_status r = user_active" "t1 = step_tick s" "issue_token_pair S (to_user S r) t1 = (res, t)"
proof -
  obtain g t1 where g: "get_user_by_email S (normalize_email email) s = (g, t1)" by fastforce
  have o: "open_sessions t1 = open_sessions s" by (rule open_sessions_read [OF reads_only_users(2) g])
  show thesis
  proof (cases g)
    case (Inl e)
    then show thesis using assms g o refused [of "if e = IErrNotFound then IErrInvalidCredentials else e"]
      by (auto simp: login_def split: if_splits)
  next
    case (Inr u)
    obtain r where r: "r \<in> set (user_rows s)" "to_lower (au_email r) = to_lower (normalize_email email)" "u = to_user S r" "t1 = step_tick s"
      by (rule get_user_by_email_Inr [OF g [unfolded Inr]])
    have n: "to_lower (normalize_email email) = normalize_email email" by (simp add: normalize_email_def)
    show thesis
    proof (cases "is_compare S (au_hash r) pw \<and> au_status r = user_active")
      case True
      then show thesis using assms g Inr r n by (intro checked [of r t1]) (auto simp: login_def)
    next
      case False
      then show thesis
        using assms g Inr r o refused [of "if is_compare S (au_hash r) pw then IErrUserInactive else IErrInvalidCredentials"]
        by (auto simp: login_def split: if_splits)
    qed
  qed
qed

lemma refresh_cases:
  assumes "refresh_session S token s = (res, t)"
  obtains (unspent) e where "res = Inl e" "open_sessions t = open_sessions s"
    | (spent) e where "res = Inl e" "open_sessions t = (open_sessions s)(hash_refresh_token S token := None)"
    | (checked) u r t1 where "open_sessions s (hash_refresh_token S token) = Some u" "r \<in> set (user_rows s)" "is_uuid S u = Some (au_id r)"
      "au_status r = user_active" "open_sessions t1 = (open_sessions s)(hash_refresh_token S token := None)"
      "issue_token_pair S (to_user S r) t1 = (res, t)"
proof -
  let ?h = "hash_refresh_token S token"
  obtain c t0 where c: "consume_refresh S ?h s = (c, t0)" by fastforce
  show thesis
  proof (cases c)
    case (Inl e)
    then have "res = Inl e" "t = t0" using assms c by (simp_all add: refresh_session_def on_ok_def)
    then show thesis using tokens.consume_err [OF c [unfolded Inl]] unspent spent by blast
  next
    case (Inr u)
    note k = tokens.consume_ok [OF c [unfolded Inr]]
    have rows: "user_rows t0 = user_rows s" using beside.movesD [OF beside.moves_store(2) c] by (simp add: beside_redis_def)
    obtain g t1 where g: "get_user_by_id S u t0 = (g, t1)" by fastforce
    have o: "open_sessions t1 = (open_sessions s)(?h := None)" using open_sessions_read [OF reads_only_users(1) g] k by simp
    have run: "(case g of Inl e \<Rightarrow> if e = IErrNotFound then (Inl IErrInvalidToken, t1) else (Inl e, t1)
        | Inr u \<Rightarrow> if iu_status u \<noteq> user_active then (Inl IErrUserInactive, t1) else issue_token_pair S u t1) = (res, t)"
      using assms c Inr g by (cases g) (auto simp: refresh_session_def on_ok_def)
    show thesis
    proof (cases g)
      case (Inl e)
      then show thesis using run o spent [of "if e = IErrNotFound then IErrInvalidToken else e"] by (auto split: if_splits)
    next
      case (Inr x)
      obtain r where r: "r \<in> set (user_rows t0)" "is_uuid S u = Some (au_id r)" "x = to_user S r"
        by (rule get_user_by_id_Inr [OF g [unfolded Inr]])
      show thesis
      proof (cases "au_status r = user_active")
        case True
        then show thesis using run Inr r k rows o by (intro checked [of u r t1]) auto
      next
        case False
        then show thesis using run Inr r o spent [of IErrUserInactive] by auto
      qed
    qed
  qed
qed

section \<open>The session calls and their specification\<close>

datatype session_call = CallLogin string string | CallRefresh string | CallLogout string

fun session_run :: "identity_service \<Rightarrow> session_call \<Rightarrow> (identity_db, identity_error, token_pair option) prog" where
  "session_run S (CallLogin email pw) = on_ok (login S email pw) (\<lambda>p. ok (Some p))"
| "session_run S (CallRefresh token) = on_ok (refresh_session S token) (\<lambda>p. ok (Some p))"
| "session_run S (CallLogout token) = on_ok (logout S token) (\<lambda>_. ok None)"

text \<open>Over the map of open sessions and the users: who may be given a session, and what becomes of the map. A call that
  fails opens no session anyone holds the token of: at most one whose token was lost with the answer.\<close>

fun may_enter :: "identity_service \<Rightarrow> user_row list \<Rightarrow> (string \<Rightarrow> string option) \<Rightarrow> session_call \<Rightarrow> user_row \<Rightarrow> bool" where
  "may_enter S rows M (CallLogin email pw) r \<longleftrightarrow> r \<in> set rows \<and> au_status r = user_active \<and>
     to_lower (au_email r) = normalize_email email \<and> is_compare S (au_hash r) pw"
| "may_enter S rows M (CallRefresh token) r \<longleftrightarrow> r \<in> set rows \<and> au_status r = user_active \<and>
     (\<exists>u. M (hash_refresh_token S token) = Some u \<and> is_uuid S u = Some (au_id r))"
| "may_enter S rows M (CallLogout token) r \<longleftrightarrow> False"

fun without_presented :: "identity_service \<Rightarrow> session_call \<Rightarrow> (string \<Rightarrow> string option) \<Rightarrow> string \<Rightarrow> string option" where
  "without_presented S (CallLogin email pw) M = M"
| "without_presented S (CallRefresh token) M = M(hash_refresh_token S token := None)"
| "without_presented S (CallLogout token) M = M(hash_refresh_token S token := None)"

definition session_spec ::
    "identity_service \<Rightarrow> user_row list \<Rightarrow> session_call \<Rightarrow> identity_error + token_pair option \<Rightarrow>
     (string \<Rightarrow> string option) \<Rightarrow> (string \<Rightarrow> string option) \<Rightarrow> bool" where
  "session_spec S rows c res M M' \<longleftrightarrow> (case res of
       Inr (Some p) \<Rightarrow> (\<exists>r. may_enter S rows M c r \<and> M' = (without_presented S c M)(hash_refresh_token S (tp_refresh p) \<mapsto> au_id r))
     | Inr None \<Rightarrow> M' = without_presented S c M
     | Inl e \<Rightarrow> M' = M \<or> M' = without_presented S c M \<or>
         (\<exists>r h. may_enter S rows M c r \<and> M' = (without_presented S c M)(h \<mapsto> au_id r)))"

lemma login_refines:
  assumes "login S email pw s = (res, t)"
  shows "session_spec S (user_rows s) (CallLogin email pw) (map_sum id Some res) (open_sessions s) (open_sessions t)"
  using assms
proof (cases rule: login_cases)
  case (checked r t1)
  have m: "may_enter S (user_rows s) M (CallLogin email pw) r" for M using checked by simp
  have o: "open_sessions t1 = open_sessions s" using checked(5) by simp
  show ?thesis
  proof (cases res)
    case (Inl e)
    then show ?thesis using issue_token_pair_Inl [of S "to_user S r" t1 e t] checked(6) o m by (auto simp: session_spec_def)
  next
    case (Inr p)
    then show ?thesis using issue_token_pair_Inr(1) [of S "to_user S r" t1 p t] checked(6) o m by (auto simp: session_spec_def)
  qed
qed (simp add: session_spec_def)

lemma refresh_refines:
  assumes "refresh_session S token s = (res, t)"
  shows "session_spec S (user_rows s) (CallRefresh token) (map_sum id Some res) (open_sessions s) (open_sessions t)"
  using assms
proof (cases rule: refresh_cases)
  case (checked u r t1)
  have m: "may_enter S (user_rows s) (open_sessions s) (CallRefresh token) r" using checked by simp
  show ?thesis
  proof (cases res)
    case (Inl e)
    then show ?thesis using issue_token_pair_Inl [of S "to_user S r" t1 e t] checked(5,6) m by (auto simp: session_spec_def)
  next
    case (Inr p)
    then show ?thesis using issue_token_pair_Inr(1) [of S "to_user S r" t1 p t] checked(5,6) m by (auto simp: session_spec_def)
  qed
qed (simp_all add: session_spec_def)

lemma logout_refines:
  assumes "logout S token s = (res, t)"
  shows "session_spec S (user_rows s) (CallLogout token) (map_sum id (\<lambda>_. None) res) (open_sessions s) (open_sessions t)"
  using assms by (cases res) (auto simp: logout_def session_spec_def dest: tokens.revoke_ok tokens.revoke_err)

lemma session_run_result:
  assumes "on_ok m (\<lambda>x. ok (f x)) s = (res, t)"
  obtains q where "m s = (q, t)" "res = map_sum id f q"
proof -
  obtain q u where q: "m s = (q, u)" by fastforce
  then show thesis using assms by (intro that [of q]; cases q; simp add: on_ok_def ok_def)
qed

section \<open>Spent tokens\<close>

definition stays_closed :: "string \<Rightarrow> identity_db \<Rightarrow> identity_db \<Rightarrow> bool" where
  "stays_closed h s t \<longleftrightarrow> (open_sessions s h = None \<longrightarrow> open_sessions t h = None)"

interpretation closed: redis_steps "stays_closed h" "\<lambda>S k. k \<noteq> h" for h
  by unfold_locales (auto simp: stays_closed_def open_sessions_def)

text \<open>The service of an operation that makes refresh tokens.\<close>

fun token_maker :: "identity_operation \<Rightarrow> identity_service option" where
  "token_maker (IServe V r) = Some (hi_service V)"
| "token_maker (ILogin S email pw) = Some S"
| "token_maker (IRefresh S token) = Some S"
| "token_maker _ = None"

text \<open>No refresh token it makes has this hash.\<close>

definition never_makes :: "string \<Rightarrow> identity_service \<Rightarrow> bool" where
  "never_makes h S \<longleftrightarrow> (\<forall>n b. is_random S n = Inr b \<longrightarrow> hash_refresh_token S (base64_raw_url b) \<noteq> h)"

lemma closed_issues: "never_makes h S \<Longrightarrow> closed.issues h S"
  by (simp add: never_makes_def closed.issues_def)

inductive identity_run :: "(identity_operation \<Rightarrow> bool) \<Rightarrow> identity_db \<Rightarrow> identity_db \<Rightarrow> bool" for P where
  idle: "identity_run P s s"
| step: "identity_run P s t \<Longrightarrow> P x \<Longrightarrow> identity_run P s (run_identity x t)"

lemma stays_closed_redis: "redis t = redis s \<Longrightarrow> stays_closed h s t"
  by (simp add: stays_closed_def open_sessions_def)

lemma create_user_redis: "create_user S reg s = (r, t) \<Longrightarrow> redis t = redis s"
  by (cases r) (auto dest: create_user_fails simp: identity_same_def elim!: create_user_Inr)

lemma users_redis:
  "redis (snd (register_user S reg s)) = redis s" "redis (snd (admin_create_user S actor reg s)) = redis s"
  "redis (start_bootstrap S email pw s) = redis s"
proof -
  show "redis (snd (register_user S reg s)) = redis s"
    using create_user_redis [of S _ s, OF prod.collapse [symmetric]] by (simp add: register_user_def Let_def fail_def)
  obtain q u where q: "require_admin S actor s = (q, u)" by fastforce
  have u: "redis u = redis s" using reads_onlyD [OF reads_only_admin q] by auto
  show "redis (snd (admin_create_user S actor reg s)) = redis s"
    using q u create_user_redis [of S reg u, OF prod.collapse [symmetric]] by (cases q) (auto simp: admin_create_user_def on_ok_def fail_def dest: sym)
  obtain r t where b: "bootstrap_admin S email pw s = (r, t)" by fastforce
  have "redis t = redis s" using b by (cases rule: bootstrap_cases) (auto dest: create_user_redis)
  then show "redis (start_bootstrap S email pw s) = redis s" using b by (simp add: start_bootstrap_def)
qed

lemma set_status_redis:
  assumes "users_ok (user_rows s)"
  shows "redis (snd (set_user_status S actor i st s)) = redis s"
proof -
  obtain r t where run: "set_user_status S actor i st s = (r, t)" by fastforce
  have "redis t = redis s"
  proof (cases r)
    case (Inl e)
    then show ?thesis using set_status_fails run by (simp add: identity_same_def)
  next
    case (Inr x)
    obtain t1 t' where a: "t1 = step_tick (step_tick s)" "set_status_tx S i st t1 = (Inr x, t')" "t = step_tick t'"
      by (rule set_user_status_Inr [OF run [unfolded Inr] assms])
    have "users_ok (user_rows t1)" using assms a(1) by simp
    with a(2) show ?thesis by (rule set_status_tx_Inr) (simp_all add: a(1,3))
  qed
  then show ?thesis using run by simp
qed

lemma serve_closed:
  assumes "serve_identity V r s = Some (resp, t)" "never_makes h (hi_service V)" "users_ok (user_rows s)"
  shows "stays_closed h s t"
proof (cases "hq_method r = ''OPTIONS''")
  case True
  then show ?thesis using assms(1) closed.R_refl by (auto simp: serve_identity_def)
next
  case False
  obtain e resp' where e: "handle_identity V r e s = (resp', t)"
    using assms(1) False by (auto simp: serve_identity_def split: option.splits prod.splits)
  note i = closed_issues [OF assms(2)]
  have red: "stays_closed h s u" if "redis u = redis s" for u using that by (rule stays_closed_redis)
  show ?thesis
  proof (cases e)
    case Register
    have b: "stays_closed h s w" if "blocked S ls s = (q, w)" for S ls q w
      using that closed.R_blocked [of S ls 0 False s q w h] by (simp add: blocked_def)
    have a: "stays_closed h s (add_attempts S ls x w)" if "blocked S ls s = (q, w)" for S ls q w x
      by (rule closed.R_trans [OF b [OF that] closed.R_limits(1)])
    have reg: "stays_closed h s (snd (register_user S d w))" if "stays_closed h s w" for S d w
      by (rule closed.R_trans [OF that stays_closed_redis [OF users_redis(1)]])
    show ?thesis using e Register
      by (auto simp: handle_register_def identity_bind_def Let_def closed.R_refl b a reg
          split: option.splits prod.splits if_splits dest!: identity_answer_state)
  next
    case Me
    then show ?thesis using e by (auto simp: authenticated_def closed.R_refl split: sum.splits dest: closed.R_handle_sessions(3))
  next
    case AdminCreate
    have "t = s \<or> (\<exists>p. handle_create_user V p r s = (resp', t))"
      using as_admin_cases [of V r "\<lambda>p. handle_create_user V p r" s resp' t] e AdminCreate by auto
    then show ?thesis using users_redis(2)
      by (auto simp: closed.R_refl handle_create_user_def identity_bind_def split: option.splits
          dest!: identity_answer_state intro!: red)
  next
    case (AdminStatus j)
    have "t = s \<or> (\<exists>p. handle_user_status V p j r s = (resp', t))"
      using as_admin_cases [of V r "\<lambda>p. handle_user_status V p j r" s resp' t] e AdminStatus by auto
    then show ?thesis using set_status_redis [OF assms(3)]
      by (auto simp: closed.R_refl handle_user_status_def identity_bind_def split: option.splits
          dest!: identity_answer_state intro!: red)
  qed (use e i in \<open>auto dest: closed.R_handle_login closed.R_handle_sessions\<close>)
qed

lemma operation_closed:
  assumes "identity_inv s" "\<forall>S. token_maker x = Some S \<longrightarrow> never_makes h S"
  shows "stays_closed h s (run_identity x s)"
proof (cases x)
  case (IServe V r)
  then show ?thesis using serve_closed assms closed.R_refl by (auto simp: identity_inv_def split: option.splits)
next
  case (IRelay E)
  obtain n rows l where "relay_once (fetch_unpublished E) (mark_published E) (publish E) s = s\<lparr>tick := n, outbox_rows := rows, kafka_log := l\<rparr>"
    using outbox_frame_update [OF relay_once_frame] by blast
  then show ?thesis using IRelay by (simp add: stays_closed_redis)
next
  case (ISetStatus S actor i st)
  then show ?thesis using set_status_redis assms(1) by (simp add: stays_closed_redis identity_inv_def)
qed (use assms(2) in \<open>auto simp: stays_closed_redis users_redis
      intro: closed.movesD [OF closed.moves_services(1) [OF closed_issues] prod.collapse [symmetric]]
        closed.movesD [OF closed.moves_services(2) [OF closed_issues] prod.collapse [symmetric]]
        closed.movesD [OF closed.moves_services(3) prod.collapse [symmetric]]\<close>)

lemma identity_run_inv: "identity_run P s t \<Longrightarrow> identity_reachable s \<Longrightarrow> identity_reachable t"
  by (induction rule: identity_run.induct) (auto intro: identity_reachable.operate)

lemma run_closed:
  assumes "identity_run P s t" "identity_reachable s" "\<And>x S. P x \<Longrightarrow> token_maker x = Some S \<Longrightarrow> never_makes h S"
  shows "stays_closed h s t"
  using assms(1,2)
proof (induction rule: identity_run.induct)
  case (step s t x)
  have "identity_inv t" by (rule reachable_identity_inv [OF identity_run_inv [OF step(1,4)]])
  then have "stays_closed h t (run_identity x t)" by (rule operation_closed) (use assms(3) step(2) in blast)
  then show ?case by (rule closed.R_trans [OF step(3) [OF step(4)]])
qed (rule closed.R_refl)

end
