(* ===== verification/IdentitySample.thy ===== *)
theory IdentitySample
  imports IdentitySessions
begin

text \<open>A concrete run of identity-service: it starts and makes its first admin, a customer registers, logs in and refreshes
  the session, the admin locks the account. The witnesses of the properties are steps of this run.\<close>

definition i_env :: env where
  "i_env = \<lparr>clock = (\<lambda>n. int n * second_ns), fault = (\<lambda>n. None), uuid_at = (\<lambda>n. if n = 3 then ''root'' else if n = 12 then ''ann'' else ''e''),
     collation = (\<lambda>x. x), db_time = (\<lambda>t. t), broker = (\<lambda>n. Acked)\<rparr>"

text \<open>A stand-in for the libraries: a hash is the password behind a mark, a digest the text itself, the random bytes are
  one byte of the tick, a token shows its claims.\<close>

definition i_sign :: "string \<Rightarrow> jwt_claims \<Rightarrow> string + string" where
  "i_sign secret c =
     (if CHR ''|'' \<in> set (jw_role c @ jw_subject c @ jw_issuer c) \<or> \<not> in_int64 (jw_expires c) then Inl ''cannot sign''
      else Inr (jw_role c @ CHR ''|'' # jw_subject c @ CHR ''|'' # jw_issuer c @ CHR ''|'' # format_int (jw_expires c)))"

definition i_parse :: "int \<Rightarrow> string \<Rightarrow> string \<Rightarrow> string \<Rightarrow> access_claims option" where
  "i_parse t secret issuer token =
     Option.bind (cut_at CHR ''|'' token) (\<lambda>(role, r1).
     Option.bind (cut_at CHR ''|'' r1) (\<lambda>(subject, r2).
     Option.bind (cut_at CHR ''|'' r2) (\<lambda>(iss, e).
     Option.bind (parse_int64 e) (\<lambda>x.
       if iss = issuer \<and> t < x * second_ns then Some \<lparr>cl_subject = subject, cl_role = role\<rparr> else None))))"

definition i_service :: identity_service where
  "i_service = \<lparr>is_env = i_env, is_redis = (\<lambda>n. Acked), is_local = UTC, is_topic = user_events_topic,
     is_refresh_ttl = 604800 * second_ns, is_access_ttl = 900 * second_ns, is_secret = replicate 32 CHR ''k'', is_issuer = ''id'',
     is_dummy_hash = ''#identity-service-timing-equalizer'', is_hash = (\<lambda>n pw. Inr (CHR ''#'' # pw)), is_compare = (\<lambda>h pw. h = CHR ''#'' # pw), is_sha256 = (\<lambda>x. x),
     is_random = (\<lambda>n. Inr [if n = 21 then 1 else if n = 27 then 2 else 3]), is_sign = i_sign, is_uuid_valid = (\<lambda>i. i \<noteq> ''''), is_uuid = Some\<rparr>"

definition i_empty :: identity_db where
  "i_empty = \<lparr>tick = 0, outbox_rows = [], outbox_seq = 1, kafka_log = [], user_rows = [], redis = (\<lambda>k. None)\<rparr>"

lemmas irun_defs = on_ok_def ok_def fail_def map_err_def now_def new_uuid_def sql_def query_def step_tick_def run_in_tx_def
  hash_password_def i_env_def i_service_def

definition i_row :: "string \<Rightarrow> string \<Rightarrow> string \<Rightarrow> int \<Rightarrow> user_row" where
  "i_row i email role t = \<lparr>au_id = i, au_email = email, au_hash = ''#password'', au_role = role, au_status = user_active,
     au_created = t, au_updated = t\<rparr>"

definition i_admin :: identity_db where
  "i_admin = start_bootstrap i_service ''Root@x'' ''password'' i_empty"

lemma i_texts:
  "normalize_email ''Root@x'' = ''root@x''" "normalize_email '' Ann@x'' = ''ann@x''" "to_lower ''root@x'' = ''root@x''"
  "to_lower ''ann@x'' = ''ann@x''" "role_valid role_admin" "role_valid role_customer"
  "user_status_valid user_active" "user_status_valid user_locked"
  by code_simp+

lemmas create_defs = create_user_def create_user_tx_def create_user_row_def insert_user_def to_user_model_def user_violation_def
  registered_user_def write_user_event_def outbox_create_def

lemma i_admin_run:
  "\<exists>ob. i_admin = i_empty\<lparr>tick := 10, outbox_seq := 2, outbox_rows := [ob],
     user_rows := [i_row ''root'' ''root@x'' role_admin (2 * second_ns)]\<rparr>"
  unfolding i_admin_def
  by (simp add: start_bootstrap_def bootstrap_admin_def exists_with_role_def create_defs i_texts i_row_def irun_defs i_empty_def)

definition i_msg :: outbox_row where
  "i_msg = hd (outbox_rows i_admin)"

lemma i_admin_eq: "i_admin = i_empty\<lparr>tick := 10, outbox_seq := 2, outbox_rows := [i_msg],
     user_rows := [i_row ''root'' ''root@x'' role_admin (2 * second_ns)]\<rparr>"
proof -
  obtain ob where e: "i_admin = i_empty\<lparr>tick := 10, outbox_seq := 2, outbox_rows := [ob],
     user_rows := [i_row ''root'' ''root@x'' role_admin (2 * second_ns)]\<rparr>" using i_admin_run by blast
  have "i_msg = ob" unfolding i_msg_def by (subst e) simp
  with e show ?thesis by simp
qed

definition i_ann :: register_input where
  "i_ann = \<lparr>rg_email = '' Ann@x'', rg_password = ''password'', rg_role = ''''\<rparr>"

definition i_uid :: string where
  "i_uid = ''ann''"

definition i_registered :: identity_db where
  "i_registered = snd (register_user i_service i_ann i_admin)"

lemma i_register_run:
  "\<exists>x ob. register_user i_service i_ann i_admin = (Inr x, i_registered) \<and>
     i_registered = i_admin\<lparr>tick := 19, outbox_seq := 3, outbox_rows := [i_msg, ob],
       user_rows := user_rows i_admin @ [i_row i_uid ''ann@x'' role_customer (11 * second_ns)]\<rparr> \<and>
     x = registered_user i_uid ''#password'' (11 * second_ns) (i_ann\<lparr>rg_role := role_customer\<rparr>)"
  unfolding i_registered_def
  by (simp add: i_admin_eq register_user_def Let_def i_ann_def self_registerable_def create_defs i_texts i_row_def irun_defs
      i_empty_def i_uid_def)

definition i_users :: "user_row list" where
  "i_users = [i_row ''root'' ''root@x'' role_admin (2 * second_ns), i_row ''ann'' ''ann@x'' role_customer (11 * second_ns)]"

definition i_msgs :: "outbox_row list" where
  "i_msgs = outbox_rows i_registered"

lemma i_registered_eq: "i_registered = i_empty\<lparr>tick := 19, outbox_seq := 3, outbox_rows := i_msgs, user_rows := i_users\<rparr>"
proof -
  obtain ob where e: "i_registered = i_admin\<lparr>tick := 19, outbox_seq := 3, outbox_rows := [i_msg, ob],
       user_rows := user_rows i_admin @ [i_row i_uid ''ann@x'' role_customer (11 * second_ns)]\<rparr>"
    using i_register_run by blast
  have "i_msgs = [i_msg, ob]" unfolding i_msgs_def by (subst e) simp
  moreover have "user_rows i_admin @ [i_row i_uid ''ann@x'' role_customer (11 * second_ns)] = i_users"
    by (simp add: i_admin_eq i_uid_def i_users_def)
  ultimately show ?thesis using e by (simp add: i_admin_eq)
qed

definition i_token :: "nat \<Rightarrow> string" where
  "i_token n = base64_raw_url [n]"

definition i_logged_in :: identity_db where
  "i_logged_in = snd (login i_service ''ANN@x'' ''password'' i_registered)"

lemmas session_defs = issue_token_pair_def issue_access_token_def new_refresh_token_def save_refresh_def redis_call_def
  redis_set_def first_user_def first_with_id_def get_user_by_id_def get_user_by_email_def to_user_def i_sign_def identity_stamp_def
  access_claims_for_def role_customer_def unix_seconds_def in_int64_def min_int64_def max_int64_def
  session_key_def hash_refresh_token_def redis_ms_def ttl_ms_def second_ns_def millisecond_def

lemma i_texts2: "to_lower (normalize_email ''ANN@x'') = ''ann@x''"
  by code_simp

lemma i_login_run:
  "\<exists>p. login i_service ''ANN@x'' ''password'' i_registered = (Inr p, i_logged_in) \<and> tp_refresh p = i_token 1 \<and>
     i_logged_in = i_registered\<lparr>tick := 24, redis := (\<lambda>k. None)(session_key (hash_refresh_token i_service (i_token 1)) \<mapsto>
       (''ann'', Some (22000 + 604800000)))\<rparr>"
  unfolding i_logged_in_def
  by (simp add: i_registered_eq i_empty_def i_users_def login_def session_defs i_texts i_texts2 i_row_def irun_defs i_token_def Let_def
      del: base64_raw_url.simps)

lemma i_reachable: "identity_reachable i_empty" "identity_reachable i_admin" "identity_reachable i_registered" "identity_reachable i_logged_in"
proof -
  show e: "identity_reachable i_empty" by (rule identity_reachable.migrated) (simp add: empty_identity_tables_def i_empty_def)
  show a: "identity_reachable i_admin"
    using identity_reachable.operate [OF e, of "IStart i_service ''Root@x'' ''password''"] by (simp add: i_admin_def)
  show r: "identity_reachable i_registered"
    using identity_reachable.operate [OF a, of "IRegister i_service i_ann"] by (simp add: i_registered_def)
  show "identity_reachable i_logged_in"
    using identity_reachable.operate [OF r, of "ILogin i_service ''ANN@x'' ''password''"] by (simp add: i_logged_in_def)
qed

definition i_refreshed :: identity_db where
  "i_refreshed = snd (refresh_session i_service (i_token 1) i_logged_in)"

lemma i_refresh_run:
  "\<exists>p. refresh_session i_service (i_token 1) i_logged_in = (Inr p, i_refreshed) \<and> tp_refresh p = i_token 2"
proof -
  obtain p where e: "i_logged_in = i_registered\<lparr>tick := 24, redis := (\<lambda>k. None)(session_key (hash_refresh_token i_service (i_token 1)) \<mapsto>
       (''ann'', Some (22000 + 604800000)))\<rparr>" using i_login_run by blast
  show ?thesis
    unfolding i_refreshed_def e
    by (simp add: i_registered_eq i_empty_def i_users_def refresh_session_def consume_refresh_def redis_getdel_def redis_get_def
        session_defs i_texts i_row_def irun_defs i_token_def del: base64_raw_url.simps)
qed

end
