(* ===== verification/IdentityThrottle.thy ===== *)
theory IdentityThrottle
  imports IdentitySample
begin

text \<open>The counters behind the login limit: what each step of a request does to one of them while Redis answers.\<close>

definition email_counter :: "identity_service \<Rightarrow> string \<Rightarrow> string" where
  "email_counter S email = attempt_key (login_email_key S email)"

text \<open>The counter holds \<open>n\<close> at every moment of the run: there is none for 0, and it does not expire during the run.\<close>

definition holds_count :: "identity_service \<Rightarrow> string \<Rightarrow> int \<Rightarrow> redis_store \<Rightarrow> bool" where
  "holds_count S k n m \<longleftrightarrow>
     (if n = 0 then \<forall>i. redis_get (redis_ms (clock (is_env S) i)) m k = None
      else 0 < n \<and> (\<exists>x. m k = Some (format_int n, Some x) \<and> (\<forall>i. redis_ms (clock (is_env S) i) < x)))"

text \<open>Redis answers, and the run lies within one window.\<close>

definition one_window :: "identity_service \<Rightarrow> int \<Rightarrow> bool" where
  "one_window S window \<longleftrightarrow> (\<forall>i. is_redis S i = Acked) \<and>
     (\<forall>i j. redis_ms (clock (is_env S) i) < redis_ms (clock (is_env S) j) + quot window millisecond)"

lemma holds_count_cong: "m' k = m k \<Longrightarrow> holds_count S k n m' = holds_count S k n m"
  by (simp add: holds_count_def redis_get_def)

lemma redis_call_acked:
  "\<forall>i. is_redis S i = Acked \<Longrightarrow> redis_call S f s =
     (fst (f (redis_ms (clock (is_env S) (tick s))) (redis s)), step_tick (s\<lparr>redis := snd (f (redis_ms (clock (is_env S) (tick s))) (redis s))\<rparr>))"
  by (simp add: redis_call_def split: prod.splits)

lemma attempts_redis: "redis (snd (attempts S key s)) = redis s"
  by (auto simp: attempts_def redis_call_def redis_attempts_def split: prod.splits delivery.splits)

lemma attempts_count:
  assumes "holds_count S (attempt_key key) n (redis s)" "one_window S window" "in_int64 n"
  shows "\<exists>w. attempts S key s = (Inr (n, w), step_tick (s\<lparr>redis := redis s\<rparr>))"
proof (cases "n = 0")
  case True
  then show ?thesis using assms(1,2)
    by (simp add: attempts_def redis_call_acked one_window_def redis_attempts_def holds_count_def attempt_key_def)
next
  case False
  then show ?thesis using assms parse_format_int [OF assms(3)]
    by (auto simp: attempts_def redis_call_acked one_window_def redis_attempts_def holds_count_def attempt_key_def redis_get_def)
qed

section \<open>Blocking\<close>

lemma blocked_from_redis: "blocked_from S ls w b s = (r, t) \<Longrightarrow> redis t = redis s"
proof (induction S ls w b s rule: blocked_from.induct)
  case (2 S l ls w b s)
  obtain q u where q: "attempts S (li_key l) s = (q, u)" by fastforce
  have "redis u = redis s" using attempts_redis [of S "li_key l" s] q by simp
  then show ?case using 2 q by (auto split: if_splits sum.splits prod.splits)
qed simp

lemma blocked_from_stop: "blocked_from S ls w True s = ((wait, b), t) \<Longrightarrow> b"
proof (induction ls arbitrary: w s)
  case (Cons l ls)
  obtain q u where q: "attempts S (li_key l) s = (q, u)" by fastforce
  show ?case using Cons q by (auto split: if_splits sum.splits)
qed simp

lemma blocked_from_used_up:
  assumes "blocked_from S ls w b s = ((wait, stop), t)" "l \<in> set ls" "0 < li_max l" "li_max l \<le> n"
    and "holds_count S (attempt_key (li_key l)) n (redis s)" "one_window S window" "in_int64 n"
  shows "stop"
  using assms
proof (induction ls arbitrary: w b s)
  case (Cons k ls)
  obtain q u where q: "attempts S (li_key k) s = (q, u)" by fastforce
  have u: "redis u = redis s" using attempts_redis [of S "li_key k" s] q by simp
  show ?case
  proof (cases "l = k")
    case True
    obtain d where "attempts S (li_key k) s = (Inr (n, d), step_tick (s\<lparr>redis := redis s\<rparr>))"
      using attempts_count [OF Cons.prems(5-7)] True by blast
    then show ?thesis using Cons.prems(1,3,4) True blocked_from_stop by (simp split: if_splits) blast
  next
    case False
    then have l: "l \<in> set ls" using Cons.prems(2) by simp
    have "stop" if "blocked_from S ls w' b' v = ((wait, stop), t)" "redis v = redis s" for w' b' v
      by (rule Cons.IH [OF that(1) l Cons.prems(3,4) _ Cons.prems(6,7)]) (use Cons.prems(5) that(2) in simp)
    note this [OF _ u] this [OF _ refl]
    then show ?thesis using Cons.prems(1) q by (auto split: if_splits sum.splits)
  qed
qed simp

section \<open>Counting\<close>

lemma script_other: "k \<noteq> k' \<Longrightarrow> snd (add_attempt_script k' ms t m) k = m k"
  by (auto simp: add_attempt_script_def redis_incr_def redis_pexpire_def split: option.splits)

lemma script_same:
  assumes "holds_count S k n m" "one_window S window" "in_int64 n" "n < max_int64"
  shows "holds_count S k (n + 1) (snd (add_attempt_script k (quot window millisecond) (redis_ms (clock (is_env S) i)) m))"
proof (cases "n = 0")
  case True
  have w: "redis_ms (clock (is_env S) j) < redis_ms (clock (is_env S) i) + quot window millisecond" for i j
    using assms(2) unfolding one_window_def by blast
  then have "0 < quot window millisecond" using w [of i i] by simp
  with w show ?thesis using assms(1) True
    by (simp add: holds_count_def add_attempt_script_def redis_incr_def redis_pexpire_def)
next
  case False
  then show ?thesis using assms(1,3,4) parse_format_int [OF assms(3)]
    by (auto simp: holds_count_def add_attempt_script_def redis_incr_def redis_get_def redis_integer_def)
qed

lemma add_attempt_redis:
  "one_window S window \<Longrightarrow> redis (snd (add_attempt S key w s)) =
     snd (add_attempt_script (attempt_key key) (quot w millisecond) (redis_ms (clock (is_env S) (tick s))) (redis s))"
  by (simp add: add_attempt_def attempt_key_def redis_call_acked one_window_def on_ok_def ok_def split: sum.splits)

lemma add_attempts_other:
  assumes "one_window S window" "k \<notin> (\<lambda>l. attempt_key (li_key l)) ` set ls"
  shows "redis (add_attempts S ls w s) k = redis s k"
  using assms(2)
proof (induction ls arbitrary: s)
  case (Cons l ls)
  then show ?case using add_attempt_redis [OF assms(1), of "li_key l" w s] by (simp add: script_other)
qed simp

text \<open>Everything a session operation does to Redis leaves the counters alone.\<close>

definition same_counters :: "identity_db \<Rightarrow> identity_db \<Rightarrow> bool" where
  "same_counters s t \<longleftrightarrow> (\<forall>k. redis t (attempt_key k) = redis s (attempt_key k))"

interpretation counters: session_steps same_counters "\<lambda>S h. True"
  by unfold_locales (auto simp: same_counters_def)

lemma counters_issues [simp]: "counters.issues S"
  by (simp add: counters.issues_def)

lemma same_counters_redis: "redis t = redis s \<Longrightarrow> same_counters s t"
  by (simp add: same_counters_def)

lemma count_kept: "same_counters s t \<Longrightarrow> holds_count S (attempt_key k) n (redis t) = holds_count S (attempt_key k) n (redis s)"
  by (rule holds_count_cong) (simp add: same_counters_def)

section \<open>Requests\<close>

text \<open>A login request that names the email, and what a wrong guess at its password is answered with.\<close>

definition aims_at :: "identity_server \<Rightarrow> string \<Rightarrow> identity_request \<Rightarrow> bool" where
  "aims_at V email r \<longleftrightarrow> hq_method r = ''POST'' \<and> hq_path r = [''auth'', ''login''] \<and>
     (\<exists>d. Option.bind (hi_parse V (hq_body r)) decode_login = Some d \<and>
        login_email_key (hi_service V) (lg_email d) = login_email_key (hi_service V) email)"

lemma login_never_invalid_token: "login S email pw s = (Inl e, t) \<Longrightarrow> e \<noteq> IErrInvalidToken"
proof
  assume run: "login S email pw s = (Inl e, t)" and e: "e = IErrInvalidToken"
  obtain g t1 where g: "get_user_by_email S (normalize_email email) s = (g, t1)" by fastforce
  have "g \<noteq> Inl IErrInvalidToken"
    using g by (auto simp: get_user_by_email_def first_user_def on_ok_def map_err_def fail_def ok_def query_def
        split: sum.splits prod.splits list.splits option.splits)
  moreover have "issue_token_pair S u v \<noteq> (Inl IErrInvalidToken, w)" for u v w
    by (auto simp: issue_token_pair_def issue_access_token_def new_refresh_token_def save_refresh_def on_ok_def map_err_def
        ok_def fail_def now_def split: sum.splits prod.splits)
  ultimately show False using run g e by (auto simp: login_def split: sum.splits if_splits)
qed

lemma refused_login_status:
  assumes "login S email pw s = (Inl e, t)"
  shows "hs_status (plain (identity_refusal e)) = 401 \<longleftrightarrow> e = IErrInvalidCredentials" "hs_status (plain (identity_refusal e)) \<noteq> 200"
  using login_never_invalid_token [OF assms] by (cases e; simp add: plain_def reply_def http_response.defs)+

lemma login_email_key_not_ip [simp]:
  "login_email_key S email \<noteq> CHR ''l'' # CHR ''o'' # CHR ''g'' # CHR ''i'' # CHR ''n'' # CHR '':'' # CHR ''i'' # CHR ''p'' # CHR '':'' # ip"
  "login_email_key S email \<noteq> CHR ''r'' # w"
  by (simp_all add: login_email_key_def)

lemma count_failed:
  assumes "one_window S (rl_login_window cfg)" "holds_count S (email_counter S email) n (redis s)" "in_int64 n" "n < max_int64"
    and "0 < rl_login_per_email cfg" "login_email_key S email' = login_email_key S email"
  shows "holds_count S (email_counter S email) (n + 1) (redis (add_attempts S (login_limits S cfg ip email') (rl_login_window cfg) s))"
proof -
  let ?w = "rl_login_window cfg"
  define s1 where "s1 = add_attempts S [\<lparr>li_key = ''login:ip:'' @ ip, li_max = rl_login_per_ip cfg\<rparr>] ?w s"
  have "redis s1 (email_counter S email) = redis s (email_counter S email)" unfolding s1_def
    by (rule add_attempts_other [OF assms(1)]) (simp add: email_counter_def login_email_key_not_ip)
  then have "holds_count S (email_counter S email) n (redis s1)" using assms(2) holds_count_cong by blast
  note script_same [OF this assms(1,3,4), of "tick s1"]
  moreover have "add_attempts S (login_limits S cfg ip email') ?w s = snd (add_attempt S (login_email_key S email) ?w s1)"
    using assms(5,6) by (simp add: login_limits_def s1_def)
  ultimately show ?thesis using add_attempt_redis [OF assms(1)] by (simp add: email_counter_def)
qed

lemma login_other:
  assumes "one_window S (rl_login_window cfg)" "login_email_key S email' \<noteq> login_email_key S email"
  shows "redis (count_login S (Some cfg) ip email' res s) (email_counter S email) = redis s (email_counter S email)"
proof (cases res)
  case (Inl e)
  have "redis (add_attempts S (login_limits S cfg ip email') (rl_login_window cfg) s) (email_counter S email) = redis s (email_counter S email)"
    by (rule add_attempts_other [OF assms(1)]) (use assms(2) [symmetric] in \<open>simp add: email_counter_def login_limits_def\<close>)
  then show ?thesis using Inl by (simp add: count_login_def)
next
  case (Inr p)
  then show ?thesis using assms
    by (simp add: count_login_def reset_limit_def reset_attempts_def redis_call_acked one_window_def redis_del_def email_counter_def
        attempt_key_def [symmetric])
qed

lemma send_pair_redis: "send_pair V p s = (resp, t) \<Longrightarrow> redis t = redis s \<and> hs_status resp = 200"
  by (auto simp: send_pair_def Let_def plain_def reply_def http_response.defs)

lemma login_checked_counters:
  assumes "login_checked V r d s = (resp, t)"
  obtains res t1 where "login (hi_service V) (lg_email d) (lg_password d) s = (res, t1)" "same_counters s t1"
    "redis t = redis (count_login (hi_service V) (hi_throttle V) (iq_ip r) (lg_email d) res t1)"
    "case res of Inl e \<Rightarrow> resp = plain (identity_refusal e) | Inr p \<Rightarrow> hs_status resp = 200"
proof -
  obtain res t1 where run: "login (hi_service V) (lg_email d) (lg_password d) s = (res, t1)" by fastforce
  have "same_counters s t1" by (rule counters.movesD [OF counters.moves_services(1) [OF counters_issues] run])
  then show thesis
    using assms run by (intro that [OF run]) (auto simp: login_checked_def Let_def dest: send_pair_redis split: sum.splits)
qed

text \<open>What a login request does to the counter of the email.\<close>

lemma handle_login_counter:
  assumes run: "handle_login V r s = (resp, t)" and d: "Option.bind (hi_parse V (hq_body r)) decode_login = Some d"
    and V: "hi_throttle V = Some cfg" "S = hi_service V" "m = rl_login_per_email cfg" "0 < m" "in_int64 m"
    and w: "one_window S (rl_login_window cfg)"
    and n: "holds_count S (email_counter S email) n (redis s)" "0 \<le> n" "n \<le> m"
  shows "login_email_key S (lg_email d) \<noteq> login_email_key S email \<Longrightarrow> holds_count S (email_counter S email) n (redis t)"
    and "login_email_key S (lg_email d) = login_email_key S email \<Longrightarrow> (n < m \<Longrightarrow> hs_status resp \<noteq> 200) \<Longrightarrow>
      (n = m \<longrightarrow> hs_status resp = 429) \<and> (if hs_status resp = 401 then n < m else True) \<and>
      holds_count S (email_counter S email) (if hs_status resp = 401 then n + 1 else n) (redis t)"
proof -
  let ?k = "email_counter S email"
  obtain wait stop u where b: "blocked S (login_limits S cfg (iq_ip r) (lg_email d)) s = ((wait, stop), u)" by (metis surj_pair)
  have u: "redis u = redis s" by (rule blocked_from_redis) (rule b [unfolded blocked_def])
  have n64: "in_int64 n" using n V(5) by (simp add: in_int64_def min_int64_def)
  have full: "stop" if "login_email_key S (lg_email d) = login_email_key S email" "n = m"
    by (rule blocked_from_used_up [OF b [unfolded blocked_def], of "\<lparr>li_key = login_email_key S (lg_email d), li_max = m\<rparr>" n, OF _ _ _ _ w n64])
      (use that V n(1) in \<open>simp_all add: login_limits_def email_counter_def\<close>)
  have stopped: "hs_status resp = 429 \<and> redis t = redis s" if "stop"
    using run d V(1,2) b u that by (auto simp: handle_login_def identity_bind_def too_many_requests_def plain_def reply_def http_response.defs)
  have checked: "login_checked V r d u = (resp, t)" if "\<not> stop"
    using run d V(1,2) b that by (simp add: handle_login_def identity_bind_def)
  show "holds_count S ?k n (redis t)" if other: "login_email_key S (lg_email d) \<noteq> login_email_key S email"
  proof (cases stop)
    case False
    show ?thesis
    proof (rule login_checked_counters [OF checked [OF False]])
      fix res t1
      assume "same_counters u t1" and t: "redis t = redis (count_login (hi_service V) (hi_throttle V) (iq_ip r) (lg_email d) res t1)"
      then have "holds_count S ?k n (redis t1)" using n(1) u count_kept by (simp add: email_counter_def)
      then show ?thesis
        using login_other [OF w other, of "iq_ip r" res t1] holds_count_cong unfolding t V(1,2) [symmetric] by blast
    qed
  qed (use stopped n(1) in simp)
  show "(n = m \<longrightarrow> hs_status resp = 429) \<and> (if hs_status resp = 401 then n < m else True) \<and>
      holds_count S ?k (if hs_status resp = 401 then n + 1 else n) (redis t)"
    if same: "login_email_key S (lg_email d) = login_email_key S email" and ne: "n < m \<Longrightarrow> hs_status resp \<noteq> 200"
  proof (cases stop)
    case False
    then have nm: "n < m" using full [OF same] n(3) by fastforce
    show ?thesis
    proof (rule login_checked_counters [OF checked [OF False]])
      fix res t1
      assume l: "login (hi_service V) (lg_email d) (lg_password d) u = (res, t1)" "same_counters u t1"
        and t: "redis t = redis (count_login (hi_service V) (hi_throttle V) (iq_ip r) (lg_email d) res t1)"
        and resp: "case res of Inl e \<Rightarrow> resp = plain (identity_refusal e) | Inr p \<Rightarrow> hs_status resp = 200"
      have h: "holds_count S ?k n (redis t1)" using n(1) u l(2) count_kept by (simp add: email_counter_def)
      obtain e where e: "res = Inl e" "resp = plain (identity_refusal e)" using resp ne [OF nm] by (cases res) auto
      have st: "hs_status resp = 401 \<longleftrightarrow> e = IErrInvalidCredentials" using refused_login_status(1) l(1) e by simp
      have "n < max_int64" using nm V(5) by (simp add: in_int64_def)
      note inc = count_failed [OF w h n64 this _ same, of "iq_ip r"]
      show ?thesis
        using nm st h inc V unfolding t by (simp add: count_login_def e(1))
    qed
  qed (use stopped full n in simp)
qed

text \<open>Any other request leaves it as it is.\<close>

lemma handle_register_counter:
  assumes "handle_register V r s = (resp, t)" "hi_throttle V = Some cfg" "one_window (hi_service V) window"
  shows "redis t (email_counter S email) = redis s (email_counter S email)"
proof (cases "Option.bind (hi_parse V (hq_body r)) (decode_registration V)")
  case d: (Some d)
  let ?limits = "register_limits cfg (iq_ip r)"
  obtain w b u where b: "blocked (hi_service V) ?limits s = ((w, b), u)" by (metis surj_pair)
  have u: "redis u = redis s" by (rule blocked_from_redis) (rule b [unfolded blocked_def])
  let ?v = "add_attempts (hi_service V) ?limits (rl_register_window cfg) u"
  have v: "redis ?v (email_counter S email) = redis u (email_counter S email)"
    by (rule add_attempts_other [OF assms(3)]) (simp add: register_limits_def email_counter_def)
  have "t = u \<or> identity_answer 201 user_response (register_user (hi_service V) d) ?v = (resp, t)"
    using assms(1,2) b by (auto simp: handle_register_def identity_bind_def d Let_def split: if_splits)
  then show ?thesis using u v users_redis(1) identity_answer_state by metis
qed (use assms(1) in \<open>simp add: handle_register_def identity_bind_def\<close>)

lemma handle_admin_redis:
  assumes "users_ok (user_rows s)"
  shows "handle_identity V r AdminCreate s = (resp, t) \<Longrightarrow> redis t = redis s"
    and "handle_identity V r (AdminStatus i) s = (resp, t) \<Longrightarrow> redis t = redis s"
proof -
  assume "handle_identity V r AdminCreate s = (resp, t)"
  then have "t = s \<or> (\<exists>p. handle_create_user V p r s = (resp, t))"
    using as_admin_cases [of V r "\<lambda>p. handle_create_user V p r" s resp t] by auto
  then show "redis t = redis s" using users_redis(2)
    by (auto simp: handle_create_user_def identity_bind_def split: option.splits dest!: identity_answer_state)
next
  assume "handle_identity V r (AdminStatus i) s = (resp, t)"
  then have "t = s \<or> (\<exists>p. handle_user_status V p i r s = (resp, t))"
    using as_admin_cases [of V r "\<lambda>p. handle_user_status V p i r" s resp t] by auto
  then show "redis t = redis s" using set_status_redis [OF assms]
    by (auto simp: handle_user_status_def identity_bind_def split: option.splits dest!: identity_answer_state)
qed

text \<open>So each request keeps the count or, answering 401 to one that aims at the email, adds to it, below the limit.\<close>

lemma serve_counter:
  assumes run: "serve_identity V r s = Some (resp, t)" and s: "identity_reachable s"
    and V: "hi_throttle V = Some cfg" "S = hi_service V" "m = rl_login_per_email cfg" "0 < m" "in_int64 m"
    and w: "one_window S (rl_login_window cfg)"
    and n: "holds_count S (email_counter S email) n (redis s)" "0 \<le> n" "n \<le> m"
    and fails: "aims_at V email r \<Longrightarrow> n < m \<Longrightarrow> hs_status resp \<noteq> 200"
  shows "(aims_at V email r \<and> n = m \<longrightarrow> hs_status resp = 429) \<and>
    (let n' = (if aims_at V email r \<and> hs_status resp = 401 then n + 1 else n)
     in n' \<le> m \<and> holds_count S (email_counter S email) n' (redis t))"
proof -
  let ?k = "email_counter S email"
  have users: "users_ok (user_rows s)" using reachable_identity_inv [OF s] by (simp add: identity_inv_def)
  have not_aimed: ?thesis if "\<not> aims_at V email r" "holds_count S ?k n (redis t)" using that n(3) by simp
  show ?thesis
  proof (cases "hq_method r = ''OPTIONS''")
    case True
    then show ?thesis using run n(1) by (intro not_aimed) (auto simp: serve_identity_def aims_at_def)
  next
    case False
    obtain e resp' where e: "handle_identity V r e s = (resp', t)" "hs_status resp = hs_status resp'"
      and route: "(case auth_route (hq_method r) (hq_path r) of None \<Rightarrow> admin_route (hq_method r) (hq_path r) | Some e \<Rightarrow> Some e) = Some e"
      using run False by (auto simp: serve_identity_def allow_origin_def split: option.splits prod.splits)
    have login: "e = Login" if "aims_at V email r" using route that by (simp add: aims_at_def auth_route_def)
    have kept: ?thesis if "e \<noteq> Login" "redis t ?k = redis s ?k"
      by (rule not_aimed) (use login that n(1) holds_count_cong in blast)+
    have counters: "redis t ?k = redis s ?k" if "same_counters s t" using that by (simp add: same_counters_def email_counter_def)
    show ?thesis
    proof (cases e)
      case Login
      have path: "hq_method r = ''POST'' \<and> hq_path r = [''auth'', ''login'']"
        using route Login by (auto simp: auth_route_def admin_route_def split: if_splits list.splits)
      show ?thesis
      proof (cases "Option.bind (hi_parse V (hq_body r)) decode_login")
        case None
        then show ?thesis using e(1) Login n(1) by (intro not_aimed) (auto simp: aims_at_def handle_login_def identity_bind_def)
      next
        case (Some d)
        have aims: "aims_at V email r \<longleftrightarrow> login_email_key S (lg_email d) = login_email_key S email"
          using Some path V(2) by (simp add: aims_at_def)
        note c = handle_login_counter [OF e(1) [unfolded Login handle_identity.simps(2)] Some V w n]
        show ?thesis using c aims fails n(3) not_aimed unfolding e(2) by (auto simp: Let_def)
      qed
    next
      case Register
      then show ?thesis using e(1) handle_register_counter [OF _ V(1) w [unfolded V(2)]] by (intro kept) simp_all
    next
      case Me
      then show ?thesis using e(1)
        by (intro kept counters) (auto simp: authenticated_def counters.R_refl split: sum.splits dest: counters.R_handle_sessions(3))
    next
      case AdminCreate
      then show ?thesis using e(1) handle_admin_redis(1) [OF users] by (intro kept) auto
    next
      case (AdminStatus i)
      then show ?thesis using e(1) handle_admin_redis(2) [OF users] by (intro kept) auto
    next
      case Refresh
      then have "same_counters s t" using e(1) by (simp add: counters.R_handle_sessions(1) [OF _ counters_issues])
      then show ?thesis using Refresh by (intro kept counters) simp_all
    next
      case Logout
      then have "same_counters s t" using e(1) by (simp add: counters.R_handle_sessions(2))
      then show ?thesis using Logout by (intro kept counters) simp_all
    qed
  qed
qed

section \<open>Runs of requests\<close>

text \<open>The requests one after another, each with its response; one that no route takes changes nothing.\<close>

fun serve_all :: "identity_server \<Rightarrow> identity_request list \<Rightarrow> identity_db \<Rightarrow> (identity_request \<times> identity_response) list \<times> identity_db" where
  "serve_all V [] s = ([], s)"
| "serve_all V (r # rs) s = (case serve_identity V r s of
       None \<Rightarrow> serve_all V rs s
     | Some (resp, t) \<Rightarrow> (let (answers, u) = serve_all V rs t in ((r, resp) # answers, u)))"

definition wrong_guesses :: "identity_server \<Rightarrow> string \<Rightarrow> (identity_request \<times> identity_response) list \<Rightarrow> int" where
  "wrong_guesses V email answers =
     int (length (filter (\<lambda>(r, resp). aims_at V email r \<and> hs_status resp = 401) answers))"

lemma serve_reachable: "identity_reachable s \<Longrightarrow> serve_identity V r s = Some (resp, t) \<Longrightarrow> identity_reachable t"
  using identity_reachable.operate [of s "IServe V r"] by simp

lemma serve_all_counter:
  assumes "serve_all V rs s = (answers, t)" "identity_reachable s"
    and V: "hi_throttle V = Some cfg" "S = hi_service V" "m = rl_login_per_email cfg" "0 < m" "in_int64 m"
    and w: "one_window S (rl_login_window cfg)"
    and "holds_count S (email_counter S email) n (redis s)" "0 \<le> n" "n \<le> m"
    and "\<And>r resp. (r, resp) \<in> set answers \<Longrightarrow> aims_at V email r \<Longrightarrow> hs_status resp \<noteq> 200"
  shows "n + wrong_guesses V email answers \<le> m \<and> identity_reachable t \<and>
    holds_count S (email_counter S email) (n + wrong_guesses V email answers) (redis t)"
  using assms(1,2,9-)
proof (induction rs arbitrary: s n answers)
  case (Cons r rs)
  show ?case
  proof (cases "serve_identity V r s")
    case None
    then show ?thesis using Cons by simp
  next
    case (Some a)
    obtain resp u where a: "a = (resp, u)" by fastforce
    obtain later where later: "serve_all V rs u = (later, t)" "answers = (r, resp) # later"
      using Cons.prems(1) Some a by (auto split: prod.splits)
    define n' where "n' = (if aims_at V email r \<and> hs_status resp = 401 then n + 1 else n)"
    have n': "n' \<le> m \<and> holds_count S (email_counter S email) n' (redis u)"
      using serve_counter [OF Some [unfolded a] Cons.prems(2) V w Cons.prems(3-5)] Cons.prems(6) [of r resp] later(2)
      by (simp add: n'_def Let_def)
    have "n' + wrong_guesses V email later \<le> m \<and> identity_reachable t \<and>
        holds_count S (email_counter S email) (n' + wrong_guesses V email later) (redis t)"
      by (rule Cons.IH [OF later(1) serve_reachable [OF Cons.prems(2) Some [unfolded a]]])
        (use n' Cons.prems(4,6) later(2) in \<open>auto simp: n'_def\<close>)
    moreover have "n + wrong_guesses V email answers = n' + wrong_guesses V email later"
      by (simp add: wrong_guesses_def later(2) n'_def)
    ultimately show ?thesis by simp
  qed
qed (simp add: wrong_guesses_def)

end
