(* ===== verification/IdentityProps.thy ===== *)
theory IdentityProps
  imports IdentityThrottle
begin

text \<open>What identity-service guarantees of its users, of its sessions and of the guessing of passwords.\<close>

section \<open>Users\<close>

text \<open>C25. In every state that requests, starts and relay rounds can reach, ids are unique, emails are unique whatever their
  case and stored trimmed and in lower case, and every role and status is one of the constants.\<close>

theorem users_well_formed:
  assumes "identity_reachable s"
  shows "distinct (map au_id (user_rows s)) \<and> distinct (map (\<lambda>r. to_lower (au_email r)) (user_rows s)) \<and>
    (\<forall>r \<in> set (user_rows s). au_email r = to_lower (trim_space (au_email r)) \<and>
       au_role r \<in> {role_customer, role_technician, role_manager, role_admin} \<and>
       au_status r \<in> {user_active, user_inactive, user_locked})"
  using reachable_identity_inv [OF assms]
  by (simp add: identity_inv_def users_ok_def role_valid_def user_status_valid_def normalize_email_def)

lemma users_well_formed_witness:
  "distinct (map au_id (user_rows i_registered)) \<and> map au_email (user_rows i_registered) = [''root@x'', ''ann@x'']"
  using users_well_formed [OF i_reachable(3)] by (simp add: i_registered_eq i_users_def i_row_def)

text \<open>C15. Downstream services hear of every user, once, and of their present status: in every reachable state the outbox's
  UserCreated events are those of the users, in order, with their email and role, and the last event about a user
  carries the status the user has.\<close>

theorem every_user_announced:
  assumes "identity_reachable s"
  shows "map (\<lambda>p. (said ''email'' p, said ''role'' p)) (filter creation (map ob_payload (outbox_rows s))) =
      map (\<lambda>r. (Some (JStr (au_email r)), Some (JStr (au_role r)))) (user_rows s) \<and>
    (\<forall>r \<in> set (user_rows s).
       said ''status'' (last (filter (about (au_email r)) (map ob_payload (outbox_rows s)))) = Some (JStr (au_status r)))"
  using reachable_identity_inv [OF assms] unfolding identity_inv_def announced_def identity_payloads_alt by blast

lemma every_user_announced_witness:
  "map (\<lambda>p. said ''role'' p) (filter creation (map ob_payload (outbox_rows i_registered))) =
     [Some (JStr role_admin), Some (JStr role_customer)]"
proof -
  have "map snd (map (\<lambda>p. (said ''email'' p, said ''role'' p)) (filter creation (map ob_payload (outbox_rows i_registered)))) =
      map snd (map (\<lambda>r. (Some (JStr (au_email r)), Some (JStr (au_role r)))) (user_rows i_registered))"
    using every_user_announced [OF i_reachable(3)] by (simp only:)
  moreover have "user_rows i_registered = i_users" by (simp add: i_registered_eq)
  ultimately show ?thesis by (simp add: o_def i_users_def i_row_def)
qed

text \<open>C10. No privilege without an admin: an operation changes the users only by adding one active user - a customer, or the
  first admin when the service starts with none, or any role for an admin - or by setting one user's status for an
  admin; the admin is one the operation acts for (over HTTP, the bearer of an ADMIN token) and is, in the database at
  that moment, an active ADMIN.\<close>

theorem staff_accounts_need_admin:
  assumes "identity_reachable s" "rows = user_rows s" "user_rows (run_identity x s) \<noteq> rows"
  shows "(\<exists>r. user_rows (run_identity x s) = rows @ [r] \<and> au_status r = user_active \<and>
       (au_role r = role_customer \<or> is_start x \<and> au_role r = role_admin \<and> role_admin \<notin> au_role ` set rows \<or>
        (\<exists>a \<in> set rows. au_role a = role_admin \<and> au_status a = user_active \<and> acts_for x a))) \<or>
    (\<exists>a \<in> set rows. au_role a = role_admin \<and> au_status a = user_active \<and> acts_for x a \<and>
       (\<exists>r E status t. r \<in> set rows \<and> user_status_valid status \<and>
          user_rows (run_identity x s) = map (\<lambda>q. if au_id q = au_id r then set_status_columns E status t q else q) rows))"
  using run_identity_step [OF reachable_identity_inv [OF assms(1)], of x] assms(3)
  unfolding users_step_def new_user_allowed_def active_admin_def assms(2) by blast

lemma staff_accounts_need_admin_witness:
  "\<exists>r. user_rows i_registered = user_rows i_admin @ [r] \<and> au_role r = role_customer"
proof -
  have run: "run_identity (IRegister i_service i_ann) i_admin = i_registered" by (simp add: i_registered_def)
  have ne: "user_rows (run_identity (IRegister i_service i_ann) i_admin) \<noteq> user_rows i_admin"
    unfolding run by (simp add: i_registered_eq i_admin_eq i_users_def)
  have "\<exists>r. user_rows i_registered = user_rows i_admin @ [r]"
    using staff_accounts_need_admin [OF i_reachable(2) refl ne] unfolding run by auto
  then show ?thesis by (simp add: i_registered_eq i_admin_eq i_users_def i_row_def)
qed

section \<open>Sessions\<close>

text \<open>C6. Login, refresh and logout are steps of a specification over the map of open sessions: a login opens one for the
  active user with the email and the password, a refresh replaces the presented open session by a new one for the same
  user if still active, a logout closes the presented one; no call touches anyone else's session, and one that fails, at
  whatever point, at worst has closed the presented session or opened one whose token nobody was given.\<close>

theorem sessions_refined:
  assumes "session_run S c s = (res, t)"
  shows "session_spec S (user_rows s) c res (open_sessions s) (open_sessions t)"
proof (cases c)
  case (CallLogin email pw)
  obtain q where "login S email pw s = (q, t)" "res = map_sum id Some q"
    using assms CallLogin by (auto elim: session_run_result)
  then show ?thesis using login_refines CallLogin by simp
next
  case (CallRefresh token)
  obtain q where "refresh_session S token s = (q, t)" "res = map_sum id Some q"
    using assms CallRefresh by (auto elim: session_run_result)
  then show ?thesis using refresh_refines CallRefresh by simp
next
  case (CallLogout token)
  obtain q where "logout S token s = (q, t)" "res = map_sum id (\<lambda>_. None) q"
    using assms CallLogout by (auto elim: session_run_result)
  then show ?thesis using logout_refines CallLogout by simp
qed

lemma sessions_refined_witness:
  "\<exists>r. r \<in> set (user_rows i_registered) \<and> au_email r = ''ann@x'' \<and>
     open_sessions i_logged_in = (open_sessions i_registered)(hash_refresh_token i_service (i_token 1) \<mapsto> au_id r)"
proof -
  obtain p where p: "login i_service ''ANN@x'' ''password'' i_registered = (Inr p, i_logged_in)" "tp_refresh p = i_token 1"
    using i_login_run by blast
  have "session_run i_service (CallLogin ''ANN@x'' ''password'') i_registered = (Inr (Some p), i_logged_in)"
    using p(1) by (simp add: on_ok_eval)
  from sessions_refined [OF this] obtain r where r: "r \<in> set (user_rows i_registered)" "to_lower (au_email r) = normalize_email ''ANN@x''"
    "open_sessions i_logged_in = (open_sessions i_registered)(hash_refresh_token i_service (i_token 1) \<mapsto> au_id r)"
    using p(2) by (auto simp: session_spec_def)
  have "normalize_email ''ANN@x'' = ''ann@x''" by code_simp
  moreover have "to_lower (au_email r) = au_email r" using r(1) by (auto simp: i_registered_eq i_users_def i_row_def i_texts)
  ultimately show ?thesis using r by auto
qed

text \<open>C11. A refresh token works once: after it has been refreshed or logged out, whatever requests, starts and relay rounds
  follow, in any number and with any faults, presenting it again fails, as an invalid token unless Redis fails -
  provided the token generator does not make it (or one with the same digest) a second time.\<close>

theorem spent_token_stays_spent:
  assumes "identity_reachable s" "refresh_session S token s = (Inr p, t) \<or> logout S token s = (Inr (), t)"
    and "h = hash_refresh_token S token" "never_makes h S"
    and "identity_run (\<lambda>x. \<forall>S'. token_maker x = Some S' \<longrightarrow> never_makes h S') t u"
    and "refresh_session S token u = (r, v)"
  shows "\<exists>e. r = Inl e \<and> (e = IErrInvalidToken \<or> (\<exists>msg. e = IErrOther msg))"
proof -
  have "identity_reachable t" 
    using assms(2) identity_reachable.operate [OF assms(1), of "IRefresh S token"] identity_reachable.operate [OF assms(1), of "ILogout S token"]
    by auto
  moreover have "open_sessions t h = None"
  proof (rule disjE [OF assms(2)])
    assume run: "refresh_session S token s = (Inr p, t)"
    then show ?thesis
    proof (cases rule: refresh_cases)
      case (checked i q t1)
      have "open_sessions t1 h = None" using checked(5) assms(3) by simp
      then show ?thesis
        using closed.movesD [OF closed.moves_pair [OF closed_issues [OF assms(4)]] checked(6)] by (simp add: stays_closed_def)
    qed simp_all
  next
    assume "logout S token s = (Inr (), t)"
    then show ?thesis using tokens.spent [of S h s _ t] assms(3) by (simp add: logout_def)
  qed
  ultimately have closed: "open_sessions u h = None"
    using run_closed [OF assms(5)] by (auto simp: stays_closed_def)
  obtain c w where c: "consume_refresh S h u = (c, w)" by fastforce
  obtain e where e: "c = Inl e" using tokens.closed_not_consumed [OF closed c] by blast
  have "e = IErrInvalidToken \<or> (\<exists>msg. e = IErrOther msg)"
    using c e by (auto simp: consume_refresh_def on_ok_Inl map_err_Inl split: option.splits)
  moreover have "r = Inl e" using assms(3,6) c e by (simp add: refresh_session_def on_ok_def)
  ultimately show ?thesis by blast
qed

text \<open>The service of the sample a while later, when its generator makes other tokens.\<close>

definition i_later :: identity_service where
  "i_later = i_service\<lparr>is_random := (\<lambda>n. Inr [2])\<rparr>"

lemma i_later_refresh: "\<exists>q u. refresh_session i_later (i_token 1) i_logged_in = (Inr q, u)"
proof -
  have e: "i_logged_in = i_registered\<lparr>tick := 24, redis := (\<lambda>k. None)(session_key (hash_refresh_token i_service (i_token 1)) \<mapsto>
       (''ann'', Some (22000 + 604800000)))\<rparr>" using i_login_run by blast
  show ?thesis
    unfolding e by (simp add: i_later_def i_registered_eq i_empty_def i_users_def refresh_session_def consume_refresh_def
        redis_getdel_def redis_get_def session_defs i_texts i_row_def irun_defs i_token_def del: base64_raw_url.simps)
qed

lemma i_later_tokens: "never_makes (hash_refresh_token i_later (i_token 1)) i_later"
proof -
  have "i_token 2 \<noteq> i_token 1" unfolding i_token_def by code_simp
  moreover have "hash_refresh_token i_later a = hash_refresh_token i_later b \<Longrightarrow> a = b" for a b
    by (simp add: hash_refresh_token_def i_later_def i_service_def hex_encode_inj)
  moreover have "is_random i_later n = Inr b \<Longrightarrow> base64_raw_url b = i_token 2" for n b by (simp add: i_later_def i_token_def)
  ultimately show ?thesis unfolding never_makes_def by metis
qed

lemma spent_token_stays_spent_witness:
  "\<exists>q u e. refresh_session i_later (i_token 1) i_logged_in = (Inr q, u) \<and> fst (refresh_session i_later (i_token 1) u) = Inl e"
proof -
  obtain q u where q: "refresh_session i_later (i_token 1) i_logged_in = (Inr q, u)" using i_later_refresh by blast
  from spent_token_stays_spent [OF i_reachable(4) disjI1 [OF q] refl i_later_tokens identity_run.idle prod.collapse [symmetric]]
  obtain e where "fst (refresh_session i_later (i_token 1) u) = Inl e" by blast
  with q show ?thesis by blast
qed

section \<open>Guessing passwords\<close>


definition i_limits :: rate_limits where
  "i_limits = \<lparr>rl_login_per_email = 1, rl_login_per_ip = 0, rl_login_window = second_ns, rl_register_per_ip = 0, rl_register_window = 0\<rparr>"

definition i_guarded :: identity_server where
  "i_guarded = \<lparr>sv_secret = '''', sv_issuer = '''', sv_parse_claims = (\<lambda>_ _ _. None),
     hi_service = i_service\<lparr>is_env := i_env\<lparr>clock := (\<lambda>n. 0)\<rparr>\<rparr>,
     hi_parse = (\<lambda>b. Some (JObj [(''email'', JStr ''ann@x''), (''password'', JStr b)])), hi_invalid = (\<lambda>b. ''''),
     hi_email = (\<lambda>e. True), hi_throttle = Some i_limits, hi_secure = True, hi_origins = []\<rparr>"

definition i_guess :: identity_request where
  "i_guess = \<lparr>hq_method = ''POST'', hq_path = [''auth'', ''login''], hq_authorization = '''', hq_query = [], hq_body = ''wrong'',
     iq_requested_with = '''', iq_cookie = None, iq_ip = '''', iq_origin = ''''\<rparr>"

lemma i_guess_aims: "aims_at i_guarded ''ann@x'' i_guess"
  by (simp add: aims_at_def i_guess_def i_guarded_def decode_login_def string_field_def is_object_def)

lemma i_guarded_window: "one_window (hi_service i_guarded) (rl_login_window i_limits)"
  by (simp add: one_window_def i_guarded_def i_limits_def i_service_def quot_def second_ns_def millisecond_def)

lemma i_guessed: "\<exists>resp t. serve_identity i_guarded i_guess i_registered = Some (resp, t) \<and> hs_status resp = 401"
  by (simp add: serve_identity_def i_guess_def auth_route_def handle_login_def identity_bind_def i_guarded_def decode_login_def
      string_field_def is_object_def blocked_def login_limits_def i_limits_def attempts_def redis_call_def redis_attempts_def
      redis_get_def i_registered_eq i_empty_def login_checked_def login_def get_user_by_email_def first_user_def irun_defs
      i_users_def i_row_def Let_def allow_origin_def plain_def reply_def http_response.defs)

lemma i_guess_served: "\<exists>resp u. serve_identity i_guarded i_guess t = Some (resp, u)"
  by (simp add: serve_identity_def i_guess_def auth_route_def split: prod.splits)


end
