(* ===== verification/IdentityEventProps.thy ===== *)
theory IdentityEventProps
  imports CustomerProps IdentityProps
begin

text \<open>Where identity-service and customer-service meet: the user events one writes and the other consumes.\<close>



text \<open>What the consumer makes of a linking: a conflict is passed over, any other error is the message's.\<close>

definition linking_outcome :: "customer_service \<Rightarrow> string \<Rightarrow> string \<Rightarrow> (customer_db, customer_error, unit) prog" where
  "linking_outcome C uid email c = (case link_user C uid email c of
     (Inl e, t) \<Rightarrow> (if e = CErrConflict then Inr () else Inl e, t)
   | (Inr x, t) \<Rightarrow> (Inr (), t))"

lemma utc_time_field:
  assumes "field k j = Some (stamp_json (utc t))" "date_in UTC t = (y, m, d)" "0 \<le> y" "y \<le> 9999"
  shows "time_field k j = Some (new_time t)"
proof -
  have "parse_zoned (format_nano (utc t)) = Some (t, 0)"
    using parse_format_nano [of "utc t" y m d 0] assms by (simp add: offset_at_def UTC_def fixed_zone_def)
  then have "parse_rfc3339 (format_nano (utc t)) = Some t" by (simp add: parse_rfc3339_def)
  then show ?thesis using assms(1) by (simp add: time_field_def stamp_json_def)
qed

lemma user_event_handled:
  assumes "date_in UTC t0 = (y, m, d)" "0 \<le> y" "y \<le> 9999" "iu_id u \<noteq> ''''" "iu_email u \<noteq> ''''"
  shows "new_message_handler (register_consumer C) (Some (user_event_json i etype t0 u)) c =
    (if iu_role u = role_customer then linking_outcome C (iu_id u) (iu_email u) c else (Inr (), c))"
proof -
  let ?j = "user_event_json i etype t0 u"
  have m: "decode_message_event ?j = Some \<lparr>me_event_id = i, me_event_type = user_event_text etype\<rparr>"
    by (simp add: decode_message_event_def string_field_def user_event_json_def is_object_def)
  have "time_field ''occurred_at'' ?j = Some (new_time t0)"
    by (rule utc_time_field [OF _ assms(1-3)]) (simp add: user_event_json_def)
  moreover have "field ''user'' ?j = Some (user_event_payload u)" by (simp add: user_event_json_def)
  moreover have "decode_user_state (user_event_payload u) = Some \<lparr>us_id = iu_id u, us_email = iu_email u, us_role = iu_role u, us_status = iu_status u\<rparr>"
    by (simp add: decode_user_state_def string_field_def user_event_payload_def is_object_def)
  ultimately have "decode_user_event ?j = Some \<lparr>me_event_id = i, me_event_type = user_event_text etype, ue_occurred = new_time t0,
      ue_user = \<lparr>us_id = iu_id u, us_email = iu_email u, us_role = iu_role u, us_status = iu_status u\<rparr>\<rparr>"
    using m by (simp add: decode_user_event_def)
  then have "identify_handle C ?j c = (if iu_role u = role_customer then linking_outcome C (iu_id u) (iu_email u) c else (Inr (), c))"
    using assms(4,5) by (simp add: identify_handle_def linking_outcome_def user_role_customer_def role_customer_def
        split: prod.splits sum.splits)
  moreover have "map_of (register_consumer C) (user_event_text etype) = Some (identify_handle C)"
    by (cases etype) (simp_all add: register_consumer_def user_created_def user_updated_def)
  ultimately show ?thesis using m by (simp add: new_message_handler_def)
qed

text \<open>C16. What identity-service announces is what customer-service acts on: the one message a registration leaves in the
  outbox makes the consumer link exactly the registered user's id and email, and ignore accounts that are not a
  customer's; so when it is handled without a conflict, the user has a live customer.\<close>

theorem registration_reaches_customers:
  assumes "register_user S reg s = (Inr x, t)" "date_in UTC (sp_time (iu_created x)) = (y, m, d)" "0 \<le> y" "y \<le> 9999"
    and "iu_id x \<noteq> ''''" "iu_email x \<noteq> ''''" "customer_reachable c" "cs_uuid C (iu_id x) = Some u"
  shows "\<exists>ob. outbox_rows t = outbox_rows s @ [ob] \<and> ob_topic ob = is_topic S \<and> ob_key ob = iu_id x \<and>
    new_message_handler (register_consumer C) (Some (ob_payload ob)) c = linking_outcome C (iu_id x) (iu_email x) c \<and>
    (\<forall>c' y. link_user C (iu_id x) (iu_email x) c = (Inr y, c') \<longrightarrow>
       (\<exists>r \<in> set (customer_rows c'). cw_user_id r = Some u \<and> live r))"
proof -
  obtain reg' where run: "create_user S reg' s = (Inr x, t)" "self_registerable (rg_role reg')"
    using assms(1) by (auto simp: register_user_def Let_def fail_def split: if_splits)
  show ?thesis
  proof (rule create_user_Inr [OF run(1)])
    fix i h t0 r ob n
    assume x: "x = registered_user i h t0 reg'" and ob: "user_message S UserCreated x t0 ob"
      and t: "t = s\<lparr>tick := n, outbox_seq := outbox_seq s + 1, outbox_rows := outbox_rows s @ [ob], user_rows := user_rows s @ [r]\<rparr>"
    obtain j where j: "ob_payload ob = user_event_json j UserCreated t0 x" using ob by (auto simp: user_message_def)
    have role: "iu_role x = role_customer" using run(2) by (simp add: x registered_user_def self_registerable_def)
    have "date_in UTC t0 = (y, m, d)" using assms(2) by (simp add: x registered_user_def)
    then have "new_message_handler (register_consumer C) (Some (ob_payload ob)) c = linking_outcome C (iu_id x) (iu_email x) c"
      unfolding j using user_event_handled [of t0 y m d x] assms(3-6) role by simp
    moreover have "outbox_rows t = outbox_rows s @ [ob]" by (simp add: t)
    moreover have "ob_topic ob = is_topic S" "ob_key ob = iu_id x" using ob by (simp_all add: user_message_def)
    moreover have "\<exists>q \<in> set (customer_rows c'). cw_user_id q = Some u \<and> live q"
      if "link_user C (iu_id x) (iu_email x) c = (Inr z, c')" for c' z
      using link_user_linked [OF reachable_customer_inv [OF assms(7)] that assms(8,5)] by blast
    ultimately show ?thesis by blast
  qed
qed

lemma c_link_ann: "\<exists>y c'. link_user c_service ''ann'' ''ann@x'' c_created = (Inr y, c')"
  by (simp add: c_created_eq link_user_def get_by_user_id_def find_customer_def link_tx_def claim_or_create_def
      link_user_by_email_def link_statement_def link_row_def unlinked_def live_def write_customer_event_def new_customer_event_def
      outbox_create_def crun_defs c_empty_def c_row_def Let_def)

lemma registration_reaches_customers_witness:
  "\<exists>ob c'. outbox_rows i_registered = outbox_rows i_admin @ [ob] \<and>
     new_message_handler (register_consumer c_service) (Some (ob_payload ob)) c_created = (Inr (), c') \<and>
     (\<exists>r. r \<in> set (customer_rows c') \<and> cw_user_id r = Some ''ann'' \<and> live r)"
proof -
  obtain x where x: "register_user i_service i_ann i_admin = (Inr x, i_registered)"
    "x = registered_user i_uid ''#password'' (11 * second_ns) (i_ann\<lparr>rg_role := role_customer\<rparr>)"
    using i_register_run by blast
  have sel: "iu_id x = ''ann''" "iu_email x = ''ann@x''" "sp_time (iu_created x) = 11 * second_ns"
    using x(2) i_texts(2) by (simp_all add: registered_user_def i_uid_def i_ann_def)
  obtain y c' where link: "link_user c_service ''ann'' ''ann@x'' c_created = (Inr y, c')" using c_link_ann by blast
  have d: "date_in UTC (sp_time (iu_created x)) = (1970, 1, 1)" unfolding sel by code_simp
  have u: "cs_uuid c_service (iu_id x) = Some ''ann''" by (simp add: sel c_service_def)
  from registration_reaches_customers [OF x(1) d _ _ _ _ c_reachable(2) u] obtain ob
    where ob: "outbox_rows i_registered = outbox_rows i_admin @ [ob]"
      "new_message_handler (register_consumer c_service) (Some (ob_payload ob)) c_created = linking_outcome c_service ''ann'' ''ann@x'' c_created"
      "\<exists>r \<in> set (customer_rows c'). cw_user_id r = Some ''ann'' \<and> live r"
    using link unfolding sel by auto
  then show ?thesis using link by (auto simp: linking_outcome_def)
qed

end
