(* ===== verification/Config.thy ===== *)
theory Config
  imports IdentityHttp SchedEvents
begin

text \<open>The configuration of the four services (\<open>config/config.go\<close> of each): what \<open>LoadConfig\<close> makes of the environment
  variables. The helpers are the same in all four; \<open>getEnvList\<close> is identity-service's alone.\<close>

section \<open>Environment variables\<close>

text \<open>What \<open>os.Getenv\<close> returns: the empty string for an unset variable.\<close>

type_synonym environment = "string \<Rightarrow> string"

definition get_env :: "environment \<Rightarrow> string \<Rightarrow> string \<Rightarrow> string" where
  "get_env E key fallback = (if E key \<noteq> '''' then E key else fallback)"

definition get_env_int :: "environment \<Rightarrow> string \<Rightarrow> int \<Rightarrow> int" where
  "get_env_int E key fallback =
     (if E key = '''' then fallback else case parse_int64 (E key) of None \<Rightarrow> fallback | Some n \<Rightarrow> n)"

text \<open>\<open>strconv.ParseBool\<close>.\<close>

definition parse_bool :: "string \<Rightarrow> bool option" where
  "parse_bool s =
     (if s \<in> {''1'', ''t'', ''T'', ''true'', ''TRUE'', ''True''} then Some True
      else if s \<in> {''0'', ''f'', ''F'', ''false'', ''FALSE'', ''False''} then Some False else None)"

definition get_env_bool :: "environment \<Rightarrow> string \<Rightarrow> bool \<Rightarrow> bool" where
  "get_env_bool E key fallback =
     (if E key = '''' then fallback else case parse_bool (E key) of None \<Rightarrow> fallback | Some b \<Rightarrow> b)"

text \<open>\<open>strings.Split\<close> at a character.\<close>

fun split_on :: "char \<Rightarrow> string \<Rightarrow> string list" where
  "split_on c [] = [[]]"
| "split_on c (x # xs) =
     (if x = c then [] # split_on c xs
      else case split_on c xs of [] \<Rightarrow> [[x]] | w # ws \<Rightarrow> (x # w) # ws)"

definition get_env_list :: "environment \<Rightarrow> string \<Rightarrow> string list" where
  "get_env_list E key = filter (\<lambda>v. v \<noteq> '''') (map trim_space (split_on CHR '','' (E key)))"

definition get_env_list_default :: "environment \<Rightarrow> string \<Rightarrow> string list \<Rightarrow> string list" where
  "get_env_list_default E key fallback =
     (let l = get_env_list E key in if 0 < length l then l else fallback)"

text \<open>\<open>time.Duration(getEnvInt(...)) * time.Second\<close>, in 64 bits.\<close>

definition get_env_seconds :: "environment \<Rightarrow> string \<Rightarrow> int \<Rightarrow> int" where
  "get_env_seconds E key fallback = wrap64 (get_env_int E key fallback * second_ns)"

section \<open>Shared parts\<close>

record database_config =
  db_host :: string
  db_port :: int
  db_username :: string
  db_password :: string
  db_database :: string
  db_ssl_mode :: string
  db_max_open :: int
  db_max_idle :: int
  db_max_lifetime :: int
  db_auto_migrate :: bool

record api_config =
  api_port :: string
  api_read_timeout :: int
  api_write_timeout :: int

record redis_config =
  rd_host :: string
  rd_port :: string
  rd_password :: string
  rd_db :: int

definition redis_addr :: "redis_config \<Rightarrow> string" where
  "redis_addr r = rd_host r @ '':'' @ rd_port r"

record logger_config =
  lo_level :: string
  lo_format :: string
  lo_source :: bool

text \<open>What a service that verifies tokens needs, and identity-service beside it.\<close>

record jwt_config =
  jc_secret :: string
  jc_issuer :: string

record issuer_config = jwt_config +
  jc_access_ttl :: int
  jc_refresh_ttl :: int

definition load_database :: "environment \<Rightarrow> string \<Rightarrow> database_config" where
  "load_database E name =
     \<lparr>db_host = get_env E ''DB_HOST'' ''localhost'', db_port = get_env_int E ''DB_PORT'' 5432,
      db_username = get_env E ''DB_USERNAME'' ''postgres'', db_password = get_env E ''DB_PASSWORD'' '''',
      db_database = get_env E ''DB_NAME'' name, db_ssl_mode = get_env E ''DB_SSLMODE'' ''disable'',
      db_max_open = get_env_int E ''DB_MAX_OPEN_CONNS'' 25, db_max_idle = get_env_int E ''DB_MAX_IDLE_CONNS'' 10,
      db_max_lifetime = get_env_seconds E ''DB_CONN_MAX_LIFETIME_SEC'' 1800,
      db_auto_migrate = get_env_bool E ''DB_AUTO_MIGRATE'' True\<rparr>"

definition load_api :: "environment \<Rightarrow> string \<Rightarrow> api_config" where
  "load_api E port =
     \<lparr>api_port = get_env E ''API_PORT'' port, api_read_timeout = get_env_seconds E ''API_READ_TIMEOUT_SEC'' 30,
      api_write_timeout = get_env_seconds E ''API_WRITE_TIMEOUT_SEC'' 30\<rparr>"

definition load_redis :: "environment \<Rightarrow> redis_config" where
  "load_redis E =
     \<lparr>rd_host = get_env E ''REDIS_HOST'' ''localhost'', rd_port = get_env E ''REDIS_PORT'' ''6379'',
      rd_password = get_env E ''REDIS_PASSWORD'' '''', rd_db = get_env_int E ''REDIS_DB'' 0\<rparr>"

definition load_logger :: "environment \<Rightarrow> logger_config" where
  "load_logger E =
     \<lparr>lo_level = get_env E ''LOG_LEVEL'' ''info'', lo_format = get_env E ''LOG_FORMAT'' ''json'',
      lo_source = get_env_bool E ''LOG_ADD_SOURCE'' False\<rparr>"

definition load_jwt :: "environment \<Rightarrow> jwt_config" where
  "load_jwt E = \<lparr>jc_secret = get_env E ''JWT_SECRET'' '''', jc_issuer = get_env E ''JWT_ISSUER'' ''identity-service''\<rparr>"

section \<open>identity-service\<close>

record identity_api = api_config +
  api_trusted_proxies :: "string list"
  api_allowed_origins :: "string list"
  api_cookie_secure :: bool

record identity_kafka =
  ik_brokers :: "string list"
  ik_producer_topic :: string

record admin_config =
  ad_email :: string
  ad_password :: string

record identity_config =
  ic_database :: database_config
  ic_api :: identity_api
  ic_kafka :: identity_kafka
  ic_redis :: redis_config
  ic_logger :: logger_config
  ic_jwt :: issuer_config
  ic_limits :: rate_limits
  ic_admin :: admin_config

definition load_identity_config :: "environment \<Rightarrow> identity_config" where
  "load_identity_config E =
     \<lparr>ic_database = load_database E ''identity_db'',
      ic_api = api_config.extend (load_api E ''8083'') (identity_api.fields (get_env_list E ''API_TRUSTED_PROXIES'')
        (get_env_list_default E ''CORS_ALLOWED_ORIGINS'' [''http://localhost:5173'']) (get_env_bool E ''AUTH_COOKIE_SECURE'' True)),
      ic_kafka = \<lparr>ik_brokers = [get_env E ''KAFKA_BROKERS'' ''localhost:9092''],
        ik_producer_topic = get_env E ''KAFKA_PRODUCER_TOPIC'' user_events_topic\<rparr>,
      ic_redis = load_redis E,
      ic_logger = load_logger E,
      ic_jwt = jwt_config.extend (load_jwt E)
        (issuer_config.fields (get_env_seconds E ''JWT_ACCESS_TTL_SEC'' 900) (get_env_seconds E ''JWT_REFRESH_TTL_SEC'' 604800)),
      ic_limits =
        \<lparr>rl_login_per_email = get_env_int E ''RATE_LIMIT_LOGIN_PER_EMAIL'' 10,
         rl_login_per_ip = get_env_int E ''RATE_LIMIT_LOGIN_PER_IP'' 100,
         rl_login_window = get_env_seconds E ''RATE_LIMIT_LOGIN_WINDOW_SEC'' 900,
         rl_register_per_ip = get_env_int E ''RATE_LIMIT_REGISTER_PER_IP'' 20,
         rl_register_window = get_env_seconds E ''RATE_LIMIT_REGISTER_WINDOW_SEC'' 3600\<rparr>,
      ic_admin = \<lparr>ad_email = get_env E ''ADMIN_EMAIL'' '''', ad_password = get_env E ''ADMIN_PASSWORD'' ''''\<rparr>\<rparr>"

section \<open>scheduler-service\<close>

record upstream_config =
  up_customer_url :: string
  up_vehicle_url :: string
  up_timeout :: int

record scheduler_config =
  sc_database :: database_config
  sc_api :: api_config
  sc_brokers :: "string list"
  sc_upstream :: upstream_config
  sc_logger :: logger_config
  sc_jwt :: jwt_config
  sc_catalog_currency :: string

definition load_scheduler_config :: "environment \<Rightarrow> scheduler_config" where
  "load_scheduler_config E =
     \<lparr>sc_database = load_database E ''scheduler_db'',
      sc_api = load_api E ''8085'',
      sc_brokers = [get_env E ''KAFKA_BROKERS'' ''localhost:9092''],
      sc_upstream =
        \<lparr>up_customer_url = get_env E ''CUSTOMER_API_URL'' ''http://localhost:8080/api/v1'',
         up_vehicle_url = get_env E ''VEHICLE_API_URL'' ''http://localhost:8081/api/v1'',
         up_timeout = get_env_seconds E ''UPSTREAM_TIMEOUT_SEC'' 5\<rparr>,
      sc_logger = load_logger E,
      sc_jwt = load_jwt E,
      sc_catalog_currency = get_env E ''CATALOG_CURRENCY'' ''USD''\<rparr>"

section \<open>customer-service and vehicle-service\<close>

record consumer_kafka =
  ck_brokers :: "string list"
  ck_producer_topic :: string
  ck_consumer_topic :: string
  ck_consumer_group :: string

record vehicle_kafka = consumer_kafka +
  ck_completed_topic :: string

record customer_config =
  cc_database :: database_config
  cc_api :: api_config
  cc_kafka :: consumer_kafka
  cc_redis :: redis_config
  cc_logger :: logger_config
  cc_jwt :: jwt_config

record vehicle_config =
  vc_database :: database_config
  vc_api :: api_config
  vc_kafka :: vehicle_kafka
  vc_redis :: redis_config
  vc_logger :: logger_config
  vc_jwt :: jwt_config

definition load_customer_config :: "environment \<Rightarrow> customer_config" where
  "load_customer_config E =
     \<lparr>cc_database = load_database E ''customer_service'',
      cc_api = load_api E ''8080'',
      cc_kafka =
        \<lparr>ck_brokers = [get_env E ''KAFKA_BROKERS'' ''localhost:9092''],
         ck_producer_topic = get_env E ''KAFKA_PRODUCER_TOPIC'' ''customer.events'',
         ck_consumer_topic = get_env E ''KAFKA_CONSUMER_TOPIC'' ''identity.user-events'',
         ck_consumer_group = get_env E ''KAFKA_CONSUMER_GROUP'' ''customer-service''\<rparr>,
      cc_redis = load_redis E,
      cc_logger = load_logger E,
      cc_jwt = load_jwt E\<rparr>"

definition load_vehicle_config :: "environment \<Rightarrow> vehicle_config" where
  "load_vehicle_config E =
     \<lparr>vc_database = load_database E ''vehicle_service'',
      vc_api = load_api E ''8080'',
      vc_kafka =
        \<lparr>ck_brokers = [get_env E ''KAFKA_BROKERS'' ''localhost:9092''],
         ck_producer_topic = get_env E ''KAFKA_PRODUCER_TOPIC'' ''vehicle.events'',
         ck_consumer_topic = get_env E ''KAFKA_CONSUMER_TOPIC'' ''identity.user-events'',
         ck_consumer_group = get_env E ''KAFKA_CONSUMER_GROUP'' ''vehicle-service'',
         ck_completed_topic = get_env E ''KAFKA_SERVICE_COMPLETED_TOPIC'' ''scheduler.appointment.service-completed.v1''\<rparr>,
      vc_redis = load_redis E,
      vc_logger = load_logger E,
      vc_jwt = load_jwt E\<rparr>"

end
