(* ===== verification/Startup.thy ===== *)
theory Startup
  imports Config SchedClient SchedHttp VehicleHttp VehicleConsumer CustomerHttp
begin

text \<open>How each service starts (\<open>application/application.go\<close>): the configuration, the calls that have to succeed, in their
  order, and the service with what the configuration decides. What the outside answers is a parameter, and so are the
  libraries a service uses, as the fields of a service that start-up does not set. The health checks, the metrics and
  the shutdown are left out; the relay is \<open>Outbox\<close>'s.\<close>

text \<open>The calls that can fail: connecting to the database, migrating it, its handle, the Kafka producer and consumer, Redis,
  the trusted proxies. \<open>None\<close> is success.\<close>

record startup_calls =
  su_database :: "database_config \<Rightarrow> string option"
  su_migrate :: "string option"
  su_handle :: "string option"
  su_producer :: "string list \<Rightarrow> string option"
  su_consumer :: "consumer_kafka \<Rightarrow> string list \<Rightarrow> string option"
  su_redis :: "redis_config \<Rightarrow> string option"
  su_proxies :: "string list \<Rightarrow> string option"

text \<open>\<open>logger.Fatal\<close>: what was being done and the error; the process ends.\<close>

type_synonym fatal = "string \<times> string"

definition fatal_if :: "string \<Rightarrow> string option \<Rightarrow> fatal + 'a \<Rightarrow> fatal + 'a" where
  "fatal_if what err rest = (case err of None \<Rightarrow> rest | Some e \<Rightarrow> Inl (what, e))"

definition open_database :: "startup_calls \<Rightarrow> database_config \<Rightarrow> fatal + 'a \<Rightarrow> fatal + 'a" where
  "open_database U c rest =
     fatal_if ''failed to init database'' (su_database U c)
       (fatal_if ''failed to migrate database'' (if db_auto_migrate c then su_migrate U else None) rest)"

definition with_verifier :: "jwt_config \<Rightarrow> (string \<times> string \<Rightarrow> fatal + 'a) \<Rightarrow> fatal + 'a" where
  "with_verifier c rest = (case new_jwt_verifier (jc_secret c) (jc_issuer c) of
       Inl e \<Rightarrow> Inl (''failed to init JWT verifier'', e)
     | Inr v \<Rightarrow> rest v)"

section \<open>scheduler-service\<close>

text \<open>The upstream timeout is the HTTP client's, so the network depends on it.\<close>

definition start_scheduler ::
    "startup_calls \<Rightarrow> environment \<Rightarrow> (int \<Rightarrow> network) \<Rightarrow> 'd http_server \<Rightarrow> fatal + 'd http_server" where
  "start_scheduler U E N L =
     (let c = load_scheduler_config E; up = sc_upstream c; B = sv_service L
      in with_verifier (sc_jwt c) (\<lambda>(secret, issuer).
         open_database U (sc_database c)
         (fatal_if ''failed to init Kafka producer'' (su_producer U (sc_brokers c))
         (fatal_if ''failed to get database handle'' (su_handle U)
         (Inr (L\<lparr>sv_secret := secret, sv_issuer := issuer,
            sv_service := wired_service (bs_env B) (bs_dec B) (bs_load_location B) (N (up_timeout up))
              (up_customer_url up) (up_vehicle_url up) (sc_catalog_currency c)\<rparr>))))))"

section \<open>customer-service\<close>

text \<open>The server, with the topic it consumes and the handlers of its messages.\<close>

definition start_customer ::
    "startup_calls \<Rightarrow> environment \<Rightarrow> customer_server \<Rightarrow>
     fatal + customer_server \<times> string \<times> (json option \<Rightarrow> (customer_db, customer_error, unit) prog)" where
  "start_customer U E L =
     (let c = load_customer_config E; k = cc_kafka c
      in with_verifier (cc_jwt c) (\<lambda>(secret, issuer).
         open_database U (cc_database c)
         (fatal_if ''failed to init Kafka producer'' (su_producer U (ck_brokers k))
         (fatal_if ''failed to init Redis'' (su_redis U (cc_redis c))
         (fatal_if ''failed to init Kafka consumer'' (su_consumer U k [ck_consumer_topic k])
         (fatal_if ''failed to get database handle'' (su_handle U)
         (Inr (L\<lparr>sv_secret := secret, sv_issuer := issuer\<rparr>, ck_consumer_topic k,
            new_message_handler (register_consumer (hc_service L))))))))))"

section \<open>vehicle-service\<close>

definition start_vehicle ::
    "startup_calls \<Rightarrow> environment \<Rightarrow> vehicle_server \<Rightarrow>
     fatal + vehicle_server \<times> string list \<times> (string \<times> json option \<Rightarrow> (vehicle_db, vehicle_error, unit) prog)" where
  "start_vehicle U E L =
     (let c = load_vehicle_config E; k = vc_kafka c; topics = [ck_consumer_topic k, ck_completed_topic k]
      in with_verifier (vc_jwt c) (\<lambda>(secret, issuer).
         open_database U (vc_database c)
         (fatal_if ''failed to init Kafka producer'' (su_producer U (ck_brokers k))
         (fatal_if ''failed to init Redis'' (su_redis U (vc_redis c))
         (fatal_if ''failed to init Kafka consumer'' (su_consumer U (consumer_kafka.truncate k) topics)
         (fatal_if ''failed to get database handle'' (su_handle U)
         (Inr (L\<lparr>sv_secret := secret, sv_issuer := issuer\<rparr>, topics, dispatch (hv_service L) (ck_completed_topic k)))))))))"

section \<open>identity-service\<close>

definition timing_equalizer :: string where
  "timing_equalizer = ''identity-service-timing-equalizer''"

definition configured_identity :: "identity_config \<Rightarrow> string \<times> string \<times> int \<Rightarrow> string \<Rightarrow> identity_service \<Rightarrow> identity_service" where
  "configured_identity c = (\<lambda>(secret, issuer, ttl) dummy L.
     L\<lparr>is_topic := ik_producer_topic (ic_kafka c), is_refresh_ttl := jc_refresh_ttl (ic_jwt c), is_access_ttl := ttl,
       is_secret := secret, is_issuer := issuer, is_dummy_hash := dummy\<rparr>)"

text \<open>The first admin is made before the HTTP server is.\<close>

definition start_identity ::
    "startup_calls \<Rightarrow> environment \<Rightarrow> identity_server \<Rightarrow> identity_db \<Rightarrow> (fatal + identity_server) \<times> identity_db" where
  "start_identity U E L s =
     (let c = load_identity_config E; j = ic_jwt c; a = ic_admin c;
          checked = (case new_jwt_issuer (jc_secret j) (jc_issuer j) (jc_access_ttl j) of
              Inl e \<Rightarrow> Inl (''failed to init JWT issuer'', e)
            | Inr signer \<Rightarrow>
                open_database U (ic_database c)
                (fatal_if ''failed to init Kafka producer'' (su_producer U (ik_brokers (ic_kafka c)))
                (fatal_if ''failed to init Redis'' (su_redis U (ic_redis c)) (Inr signer))))
      in case checked of
          Inl e \<Rightarrow> (Inl e, s)
        | Inr signer \<Rightarrow>
            (case hash_password (hi_service L) timing_equalizer s of
               (Inl e, t) \<Rightarrow> (Inl (''failed to init auth service'', case e of IErrOther m \<Rightarrow> m | _ \<Rightarrow> ''''), t)
             | (Inr dummy, t) \<Rightarrow>
                 (let S = configured_identity c signer dummy (hi_service L)
                  in (fatal_if ''failed to get database handle'' (su_handle U)
                      (fatal_if ''failed to init HTTP server'' (su_proxies U (api_trusted_proxies (ic_api c)))
                      (Inr (L\<lparr>sv_secret := is_secret S, sv_issuer := is_issuer S, hi_service := S, hi_throttle := Some (ic_limits c),
                         hi_secure := api_cookie_secure (ic_api c), hi_origins := api_allowed_origins (ic_api c)\<rparr>))),
                      start_bootstrap S (ad_email a) (ad_password a) t))))"

end
