(* ===== verification/StartupProps.thy ===== *)
theory StartupProps
  imports Startup IdentityEventProps SchedWireProps VehicleEventProps
begin

text \<open>The access tokens of identity-service at the services started beside it, from environments that agree on the secret
  and the issuer.\<close>

section \<open>Starting\<close>

lemma fatal_if_Inr [simp]: "fatal_if what err rest = Inr x \<longleftrightarrow> err = None \<and> rest = Inr x"
  by (simp add: fatal_if_def split: option.splits)

lemma open_database_Inr: "open_database U c rest = Inr x \<Longrightarrow> rest = Inr x"
  by (simp add: open_database_def)

text \<open>A service that has started verifies with the secret and the issuer of its environment.\<close>

lemma with_verifier_Inr:
  assumes "with_verifier c rest = Inr x"
  shows "32 \<le> length (jc_secret c)" "rest (jc_secret c, jc_issuer c) = Inr x"
  using assms by (auto simp: with_verifier_def new_jwt_verifier_def min_secret_length_def split: if_splits)

definition verifies_with :: "'z auth_server_scheme \<Rightarrow> jwt_config \<Rightarrow> bool" where
  "verifies_with V c \<longleftrightarrow> sv_secret V = jc_secret c \<and> sv_issuer V = jc_issuer c"

lemma started_scheduler:
  "start_scheduler U E N L = Inr V \<Longrightarrow> verifies_with V (load_jwt E) \<and> sv_parse_claims V = sv_parse_claims L"
  by (auto simp: start_scheduler_def Let_def load_scheduler_config_def verifies_with_def dest!: with_verifier_Inr(2) open_database_Inr)

lemma started_customer:
  "start_customer U E L = Inr (V, topic, consume) \<Longrightarrow> verifies_with V (load_jwt E) \<and> sv_parse_claims V = sv_parse_claims L"
  by (auto simp: start_customer_def Let_def load_customer_config_def verifies_with_def dest!: with_verifier_Inr(2) open_database_Inr)

lemma started_vehicle:
  "start_vehicle U E L = Inr (V, topics, consume) \<Longrightarrow> verifies_with V (load_jwt E) \<and> sv_parse_claims V = sv_parse_claims L"
  by (auto simp: start_vehicle_def Let_def load_vehicle_config_def verifies_with_def dest!: with_verifier_Inr(2) open_database_Inr)

lemma started_identity:
  assumes "start_identity U E L s = (Inr V, t)"
  shows "verifies_with V (load_jwt E) \<and> sv_parse_claims V = sv_parse_claims L \<and> is_secret (hi_service V) = sv_secret V \<and>
    is_issuer (hi_service V) = sv_issuer V \<and> is_sign (hi_service V) = is_sign (hi_service L)"
  using assms
  by (auto simp: start_identity_def Let_def verifies_with_def load_identity_config_def configured_identity_def new_jwt_issuer_def
      jwt_config.defs split: sum.splits prod.splits if_splits dest!: open_database_Inr)

section \<open>Access tokens\<close>

text \<open>What the JWT library is documented to do with a token it signed: verifying it with the same key gives back its subject
  and role, if the issuer is the expected one and its expiry is in the future, and nothing otherwise.\<close>

definition jwt_library ::
    "(string \<Rightarrow> jwt_claims \<Rightarrow> string + string) \<Rightarrow> (int \<Rightarrow> string \<Rightarrow> string \<Rightarrow> string \<Rightarrow> access_claims option) \<Rightarrow> bool" where
  "jwt_library sign parse \<longleftrightarrow> (\<forall>key c token issuer t. sign key c = Inr token \<longrightarrow> token \<noteq> '''' \<and>
     parse t key issuer token = (if jw_issuer c = issuer \<and> t < jw_expires c * second_ns
       then Some \<lparr>cl_subject = jw_subject c, cl_role = jw_role c\<rparr> else None))"

text \<open>What verifying the access token of a login or a refresh answers: the user it was issued to, in the role the user had,
  until the last whole second of the announced expiry, and 401 from there on.\<close>

definition token_verdict :: "int \<Rightarrow> token_pair \<Rightarrow> user_row \<Rightarrow> http_response + principal" where
  "token_verdict n p u =
     (if n < unix_seconds (tp_access_expires p) * second_ns
      then Inr \<lparr>pr_user_id = au_id u, pr_role = au_role u, pr_token = tp_access p\<rparr>
      else Inl (unauthorized ''Bearer error=\"invalid_token\"'' invalid_token))"

lemma issued_token_verified:
  assumes "jwt_library (is_sign S) parse" "'''' \<notin> au_id ` set (user_rows s)"
    and "login S email pw s = (Inr p, t) \<or> refresh_session S token s = (Inr p, t)"
  obtains u where "u \<in> set (user_rows s)" "au_status u = user_active"
    "tp_access p \<noteq> ''''" "parse n (is_secret S) (is_issuer S) (tp_access p) =
      (if n < unix_seconds (tp_access_expires p) * second_ns then Some \<lparr>cl_subject = au_id u, cl_role = au_role u\<rparr> else None)"
proof -
  obtain u t1 where u: "u \<in> set (user_rows s)" "au_status u = user_active" "issue_token_pair S (to_user S u) t1 = (Inr p, t)"
    using assms(3)
  proof
    assume run: "login S email pw s = (Inr p, t)"
    then show ?thesis by (cases rule: login_cases) (use that in auto)
  next
    assume run: "refresh_session S token s = (Inr p, t)"
    then show ?thesis by (cases rule: refresh_cases) (use that in auto)
  qed
  note i = issue_token_pair_Inr [OF u(3)]
  let ?c = "access_claims_for S (to_user S u) (clock (is_env S) (tick t1))"
  have lib: "tp_access p \<noteq> ''''" "parse n (is_secret S) (is_issuer S) (tp_access p) =
      (if n < unix_seconds (tp_access_expires p) * second_ns then Some \<lparr>cl_subject = au_id u, cl_role = au_role u\<rparr> else None)"
    using assms(1) i(2,3) unfolding jwt_library_def by (auto simp: access_claims_for_def)
  show thesis by (rule that [OF u(1,2) lib])
qed

lemma verdict_of:
  assumes "tp_access p \<noteq> []" "sv_parse_claims V (sv_secret V) (sv_issuer V) (tp_access p) =
      (if n < unix_seconds (tp_access_expires p) * second_ns then Some \<lparr>cl_subject = au_id u, cl_role = au_role u\<rparr> else None)"
    and "au_id u \<noteq> []" "hq_authorization r = ''Bearer '' @ tp_access p"
  shows "require_auth V r = token_verdict n p u"
proof -
  have cut: "cut_at CHR '' '' (hq_authorization r) = Some (''Bearer'', tp_access p)" by (simp add: assms(4))
  have "equal_fold ''Bearer'' ''Bearer''" by (simp add: equal_fold_def)
  then show ?thesis
    using assms(1-3) by (simp add: require_auth_def cut parse_access_token_def token_verdict_def)
qed

text \<open>C24. One sign-on: when the services are started from environments with the same JWT_SECRET and JWT_ISSUER, the access token
  of a login or a refresh at identity-service is accepted by every one of them as the user it was issued to, in the role
  the user had, from then until the last whole second of the announced expiry, and answered with 401 from there on.\<close>

theorem tokens_cross_services:
  assumes "start_identity U E L s0 = (Inr V, s1)" "start_scheduler U1 E1 N L1 = Inr V1"
    and "start_customer U2 E2 L2 = Inr (V2, topic, consume)" "start_vehicle U3 E3 L3 = Inr (V3, topics, consume')"
    and "load_jwt E1 = load_jwt E" "load_jwt E2 = load_jwt E" "load_jwt E3 = load_jwt E"
    and "jwt_library (is_sign (hi_service L)) parse" "sv_parse_claims L = parse n" "sv_parse_claims L1 = parse n"
    and "sv_parse_claims L2 = parse n" "sv_parse_claims L3 = parse n"
    and "'''' \<notin> au_id ` set (user_rows s)" "S = hi_service V"
    and "login S email pw s = (Inr p, t) \<or> refresh_session S token s = (Inr p, t)"
    and "hq_authorization r = ''Bearer '' @ tp_access p"
  shows "\<exists>u \<in> set (user_rows s). au_status u = user_active \<and> require_auth V r = token_verdict n p u \<and>
    require_auth V1 r = token_verdict n p u \<and> require_auth V2 r = token_verdict n p u \<and> require_auth V3 r = token_verdict n p u"
proof -
  note i = started_identity [OF assms(1)]
  have lib: "jwt_library (is_sign S) parse" using assms(8,14) i by simp
  show ?thesis
  proof (rule issued_token_verified [OF lib assms(13) assms(15), of n])
    fix u
    assume u: "u \<in> set (user_rows s)" "au_status u = user_active" "tp_access p \<noteq> []"
      "parse n (is_secret S) (is_issuer S) (tp_access p) =
        (if n < unix_seconds (tp_access_expires p) * second_ns then Some \<lparr>cl_subject = au_id u, cl_role = au_role u\<rparr> else None)"
    have id: "au_id u \<noteq> []" using assms(13) u(1) by (metis image_eqI)
    note v = verdict_of [OF u(3) _ id assms(16)]
    have "require_auth V r = token_verdict n p u" using u(4) i assms(9,14) by (intro v) (simp add: verifies_with_def)
    moreover have "require_auth V1 r = token_verdict n p u"
      using u(4) i assms(5,10,14) started_scheduler [OF assms(2)] by (intro v) (simp add: verifies_with_def)
    moreover have "require_auth V2 r = token_verdict n p u"
      using u(4) i assms(6,11,14) started_customer [OF assms(3)] by (intro v) (simp add: verifies_with_def)
    moreover have "require_auth V3 r = token_verdict n p u"
      using u(4) i assms(7,12,14) started_vehicle [OF assms(4)] by (intro v) (simp add: verifies_with_def)
    ultimately show ?thesis using u(1,2) by blast
  qed
qed

lemma i_library: "jwt_library i_sign i_parse"
proof -
  have cut: "CHR ''|'' \<notin> set a \<Longrightarrow> cut_at CHR ''|'' (a @ CHR ''|'' # b) = Some (a, b)" for a b by (simp add: cut_at_Some)
  show ?thesis
    unfolding jwt_library_def i_sign_def i_parse_def by (auto simp: cut parse_format_int split: if_splits)
qed

definition i_request :: "string \<Rightarrow> http_request" where
  "i_request token = \<lparr>hq_method = ''GET'', hq_path = [], hq_authorization = ''Bearer '' @ token, hq_query = [], hq_body = ''''\<rparr>"

lemma i_asks: "hq_authorization (i_request token) = ''Bearer '' @ token"
  by (simp add: i_request_def)

text \<open>A deployment of the four services: everything answers, and the variables set are the secret, the issuer and the first
  admin's.\<close>

definition all_up :: startup_calls where
  "all_up = \<lparr>su_database = (\<lambda>_. None), su_migrate = None, su_handle = None, su_producer = (\<lambda>_. None), su_consumer = (\<lambda>_ _. None),
     su_redis = (\<lambda>_. None), su_proxies = (\<lambda>_. None)\<rparr>"

definition i_variables :: environment where
  "i_variables key = (if key = ''JWT_SECRET'' then is_secret i_service else if key = ''JWT_ISSUER'' then ''id''
     else if key = ''ADMIN_EMAIL'' then ''Root@x'' else if key = ''ADMIN_PASSWORD'' then ''password'' else '''')"

definition i_jwt :: jwt_config where
  "i_jwt = \<lparr>jc_secret = is_secret i_service, jc_issuer = ''id''\<rparr>"

lemma i_variables_jwt: "load_jwt i_variables = i_jwt" "new_jwt_verifier (jc_secret i_jwt) (jc_issuer i_jwt) = Inr (jc_secret i_jwt, jc_issuer i_jwt)"
  by (simp_all add: load_jwt_def i_jwt_def get_env_def i_variables_def i_service_def new_jwt_verifier_def min_secret_length_def)

definition i_server :: identity_server where
  "i_server = i_guarded\<lparr>sv_parse_claims := i_parse 0, hi_service := i_service\<rparr>"

definition c_server :: customer_server where
  "c_server = \<lparr>sv_secret = '''', sv_issuer = '''', sv_parse_claims = i_parse 0, hc_service = c_service, hc_parse = (\<lambda>b. None),
     hc_invalid = (\<lambda>b. ''''), hc_db_text = (\<lambda>e. ''''), hc_email = (\<lambda>e. True)\<rparr>"

definition i_network :: "int \<Rightarrow> network" where
  "i_network timeout = \<lparr>nw_path = Inr, nw_get = (\<lambda>_ _ _. Inl ''timeout''), nw_decode = (\<lambda>_. Inl ''timeout'')\<rparr>"

lemma i_started_scheduler: "\<exists>V. start_scheduler all_up i_variables N (sample_server\<lparr>sv_parse_claims := i_parse 0\<rparr>) = Inr V"
  by (simp add: start_scheduler_def load_scheduler_config_def with_verifier_def i_variables_jwt open_database_def fatal_if_def all_up_def
      Let_def)

lemma i_started_customer: "\<exists>V topic consume. start_customer all_up i_variables c_server = Inr (V, topic, consume)"
  by (simp add: start_customer_def load_customer_config_def with_verifier_def i_variables_jwt open_database_def fatal_if_def all_up_def
      Let_def)

lemma i_started_vehicle:
  "\<exists>V topics consume. start_vehicle all_up i_variables (v_server\<lparr>sv_parse_claims := i_parse 0\<rparr>) = Inr (V, topics, consume)"
  by (simp add: start_vehicle_def load_vehicle_config_def with_verifier_def i_variables_jwt open_database_def fatal_if_def all_up_def
      Let_def)

lemma i_started_identity: "\<exists>V t. start_identity all_up i_variables i_server i_empty = (Inr V, t) \<and> hi_service V = i_service"
proof -
  have env: "get_env_int i_variables ''JWT_ACCESS_TTL_SEC'' 900 = 900" "get_env_int i_variables ''JWT_REFRESH_TTL_SEC'' 604800 = 604800"
    "get_env i_variables ''KAFKA_PRODUCER_TOPIC'' user_events_topic = user_events_topic"
    by (simp_all add: get_env_int_def get_env_def i_variables_def)
  have ttl: "wrap64 (900 * second_ns) = 900 * second_ns" "wrap64 (604800 * second_ns) = 604800 * second_ns" by code_simp+
  have jwt: "new_jwt_issuer (is_secret i_service) ''id'' t = Inr (is_secret i_service, ''id'', t)" for t
    by (simp add: new_jwt_issuer_def i_service_def identity_min_secret_length_def)
  have "configured_identity (load_identity_config i_variables) (is_secret i_service, ''id'', 900 * second_ns)
      (CHR ''#'' # timing_equalizer) i_service = i_service"
    by (simp add: configured_identity_def load_identity_config_def get_env_seconds_def env ttl jwt_config.defs issuer_config.defs i_service_def timing_equalizer_def)
  moreover have "hash_password i_service timing_equalizer i_empty = (Inr (CHR ''#'' # timing_equalizer), step_tick i_empty)"
    by (simp add: hash_password_def i_service_def)
  moreover have "jc_secret (ic_jwt (load_identity_config i_variables)) = is_secret i_service"
    "jc_issuer (ic_jwt (load_identity_config i_variables)) = ''id''"
    "jc_access_ttl (ic_jwt (load_identity_config i_variables)) = 900 * second_ns"
    by (simp_all add: load_identity_config_def i_variables_jwt i_jwt_def jwt_config.defs issuer_config.defs get_env_seconds_def env ttl)
  ultimately show ?thesis
    by (simp add: start_identity_def Let_def jwt open_database_def fatal_if_def all_up_def i_server_def)
qed

lemma tokens_cross_services_witness:
  "\<exists>(p :: token_pair) u V1. u \<in> set i_users \<and>
     start_scheduler all_up i_variables i_network (sample_server\<lparr>sv_parse_claims := i_parse 0\<rparr>) = Inr V1 \<and>
     require_auth V1 (i_request (tp_access p)) = Inr \<lparr>pr_user_id = au_id u, pr_role = au_role u, pr_token = tp_access p\<rparr>"
proof -
  obtain p where p: "login i_service ''ANN@x'' ''password'' i_registered = (Inr p, i_logged_in)" using i_login_run by blast
  have rows: "user_rows i_registered = i_users" by (simp add: i_registered_eq)
  have ids: "'''' \<notin> au_id ` set (user_rows i_registered)" by (simp add: rows i_users_def i_row_def)
  obtain V t where i: "start_identity all_up i_variables i_server i_empty = (Inr V, t)" "hi_service V = i_service"
    using i_started_identity by blast
  obtain V1 where s: "start_scheduler all_up i_variables i_network (sample_server\<lparr>sv_parse_claims := i_parse 0\<rparr>) = Inr V1"
    using i_started_scheduler by blast
  obtain V2 topic consume where c: "start_customer all_up i_variables c_server = Inr (V2, topic, consume)" using i_started_customer by blast
  obtain V3 topics consume' where v: "start_vehicle all_up i_variables (v_server\<lparr>sv_parse_claims := i_parse 0\<rparr>) = Inr (V3, topics, consume')"
    using i_started_vehicle by blast
  have lib: "jwt_library (is_sign (hi_service i_server)) i_parse" using i_library by (simp add: i_server_def i_service_def)
  have parse: "sv_parse_claims i_server = i_parse 0" "sv_parse_claims (sample_server\<lparr>sv_parse_claims := i_parse 0\<rparr>) = i_parse 0"
    "sv_parse_claims c_server = i_parse 0" "sv_parse_claims (v_server\<lparr>sv_parse_claims := i_parse 0\<rparr>) = i_parse 0"
    by (simp_all add: i_server_def c_server_def)
  have "tp_access_expires p = 920 * second_ns"
    using p by (auto simp: i_registered_eq i_empty_def i_users_def login_def session_defs i_texts i_texts2 i_row_def irun_defs
        simp del: base64_raw_url.simps)
  then have "0 < unix_seconds (tp_access_expires p) * second_ns" by (simp add: unix_seconds_def second_ns_def)
  then obtain u where "u \<in> set (user_rows i_registered)" "require_auth V1 (i_request (tp_access p)) =
      Inr \<lparr>pr_user_id = au_id u, pr_role = au_role u, pr_token = tp_access p\<rparr>"
    using tokens_cross_services [OF i(1) s c v refl refl refl lib parse ids i(2) [symmetric] disjI1 [OF p] i_asks]
    by (auto simp: token_verdict_def)
  then show ?thesis using s unfolding rows by blast
qed

end
