(* ===== verification/SchedConcurrency.thy ===== *)
theory SchedConcurrency
  imports SchedLifecycle
begin

text \<open>Bookings that interleave. The transaction of \<open>BookingService.Book\<close> is cut at its statements, and the statements
  of several sessions run in any order over the committed rows, as PostgreSQL runs them at read committed: a session
  sees what others have committed and not what they have only written. Two waits are PostgreSQL's and are written out:
  \<open>pg_advisory_xact_lock\<close> waits while another open transaction holds the same key, and an insert into
  \<open>appointment_bay\<close> waits while another open transaction has written a row that excludes it. A session alone is the
  transaction of the sequential model, and no interleaving books a bay or a vehicle twice.\<close>

section \<open>Sessions\<close>

text \<open>How far a session has got: \<open>Asked\<close> before BEGIN, \<open>Open\<close> after it, then one constructor per statement. Rows written
  but not committed are the session's own.\<close>

datatype 'd session =
    Idle
  | Asked "'d appointment"
  | Open "'d appointment"
  | Locked "'d appointment"
  | Checked "'d appointment"
  | Placed "'d appointment"
  | Written "'d appointment" "'d booking_rows"
  | Announced "'d appointment" "'d booking_rows" outbox_row
  | Answered "sched_error + 'd appointment"

text \<open>The rows a run of \<open>Create\<close> added to the tables, and the tables with them.\<close>

definition written_rows :: "'d sched_db \<Rightarrow> 'd sched_db \<Rightarrow> 'd booking_rows" where
  "written_rows s t = \<lparr>bk_appointment = last (appointments t), bk_vehicle = last (appt_vehicles t),
     bk_bay = last (appt_bays t), bk_services = drop (length (appt_services s)) (appt_services t)\<rparr>"

definition commit_rows :: "'d booking_rows \<Rightarrow> outbox_row \<Rightarrow> 'd sched_db \<Rightarrow> 'd sched_db" where
  "commit_rows k m s = s\<lparr>appointments := appointments s @ [bk_appointment k], appt_vehicles := appt_vehicles s @ [bk_vehicle k],
     appt_bays := appt_bays s @ [bk_bay k], appt_services := appt_services s @ bk_services k, outbox_rows := outbox_rows s @ [m]\<rparr>"

text \<open>ROLLBACK and the error the call answers with.\<close>

definition aborted :: "sched_error \<Rightarrow> 'd sched_db \<Rightarrow> 'd sched_db \<Rightarrow> 'd session \<times> 'd sched_db" where
  "aborted e s t = (Answered (Inl e), sched_restore s (step_tick t))"

text \<open>The next statement of a session over the committed rows \<open>s\<close>.\<close>

fun advance :: "'d booking_service \<Rightarrow> 'd session \<Rightarrow> 'd sched_db \<Rightarrow> 'd session \<times> 'd sched_db" where
  "advance S (Asked a) s =
     (case fault (bs_env S) (tick s) of
        Some msg \<Rightarrow> (Answered (Inl (ErrDb (DriverError msg))), step_tick s)
      | None \<Rightarrow> (Open a, step_tick s))"
| "advance S (Open a) s =
     (case lock_vehicle (bs_env S) (ap_vehicle_id a) s of
        (Inl e, t) \<Rightarrow> aborted e s t
      | (Inr _, t) \<Rightarrow> (Locked a, t))"
| "advance S (Locked a) s =
     (case vehicle_busy (bs_env S) (ap_vehicle_id a) (ap_start a) (ap_end a) s of
        (Inl e, t) \<Rightarrow> aborted e s t
      | (Inr busy, t) \<Rightarrow>
          if busy then aborted (ErrConflict ''this vehicle already has a booking at that time'') s t else (Checked a, t))"
| "advance S (Checked a) s =
     (case free_bay (bs_env S) (ap_hub_id a) (ap_start a) (ap_end a) s of
        (Inl e, t) \<Rightarrow> aborted e s t
      | (Inr bid, t) \<Rightarrow> (Placed (a\<lparr>ap_bay_id := bid\<rparr>), t))"
| "advance S (Placed a) s =
     (case create_appointment (bs_env S) a s of
        (Inl e, t) \<Rightarrow> aborted e s t
      | (Inr c, t) \<Rightarrow> (Written (c\<lparr>ap_services := ap_services a\<rparr>) (written_rows s t), sched_restore s t))"
| "advance S (Written a k) s =
     (case write_event S AppointmentBooked topic_appointment_booked a s of
        (Inl e, t) \<Rightarrow> aborted e s t
      | (Inr _, t) \<Rightarrow> (Announced a k (last (outbox_rows t)), sched_restore s t))"
| "advance S (Announced a k m) s =
     (case fault (bs_env S) (tick s) of
        Some msg \<Rightarrow> aborted (ErrDb (DriverError msg)) s s
      | None \<Rightarrow> (Answered (Inr a), commit_rows k m (step_tick s)))"
| "advance S Idle s = (Idle, s)"
| "advance S (Answered r) s = (Answered r, s)"

section \<open>Waiting\<close>

text \<open>The vehicle whose lock a session holds, and the rows it has written.\<close>

fun locked_vehicle :: "'d session \<Rightarrow> int option" where
  "locked_vehicle (Locked a) = Some (ap_vehicle_id a)"
| "locked_vehicle (Checked a) = Some (ap_vehicle_id a)"
| "locked_vehicle (Placed a) = Some (ap_vehicle_id a)"
| "locked_vehicle (Written a k) = Some (ap_vehicle_id a)"
| "locked_vehicle (Announced a k m) = Some (ap_vehicle_id a)"
| "locked_vehicle _ = None"

fun pending_rows :: "'d session \<Rightarrow> 'd booking_rows option" where
  "pending_rows (Written a k) = Some k"
| "pending_rows (Announced a k m) = Some k"
| "pending_rows _ = None"

text \<open>The session holds the lock with this key. \<open>key\<close> is PostgreSQL's \<open>hashtext\<close> of the id: different vehicles may share one.\<close>

definition holds_key :: "(int \<Rightarrow> int) \<Rightarrow> int \<Rightarrow> 'd session \<Rightarrow> bool" where
  "holds_key key h x \<longleftrightarrow> (case locked_vehicle x of None \<Rightarrow> False | Some v \<Rightarrow> key v = h)"

text \<open>The session has written a bay row that \<open>no_bay_double_booking\<close> would compare with this one.\<close>

definition reserves :: "int \<Rightarrow> int \<Rightarrow> int \<Rightarrow> 'd session \<Rightarrow> bool" where
  "reserves bid a b x \<longleftrightarrow> (case pending_rows x of None \<Rightarrow> False
     | Some k \<Rightarrow> br_bay_id (bk_bay k) = bid \<and> overlaps (br_start (bk_bay k)) (br_end (bk_bay k)) a b)"

text \<open>Whether the next statement of a session runs, given the other sessions.\<close>

fun runs_beside :: "(int \<Rightarrow> int) \<Rightarrow> 'd booking_service \<Rightarrow> 'd session \<Rightarrow> 'd session \<Rightarrow> bool" where
  "runs_beside key S (Open a) y \<longleftrightarrow> \<not> holds_key key (key (ap_vehicle_id a)) y"
| "runs_beside key S (Placed a) y \<longleftrightarrow>
     \<not> reserves (ap_bay_id a) (db_time (bs_env S) (ap_start a)) (db_time (bs_env S) (ap_end a)) y"
| "runs_beside key S x y \<longleftrightarrow> True"

section \<open>The system\<close>

record 'd cluster =
  cl_db :: "'d sched_db"
  cl_sessions :: "'d session list"

definition others :: "nat \<Rightarrow> 'a list \<Rightarrow> 'a list" where
  "others i xs = take i xs @ drop (Suc i) xs"

fun books :: "'d operation \<Rightarrow> bool" where
  "books (OpBook S caller req) = True"
| "books _ = False"

text \<open>Session \<open>i\<close> is served by \<open>svc i\<close>. A call starts with any appointment whose status is \<open>Booked\<close>: those \<open>Book\<close>'s checks give are among them. Every
  other operation is one step.\<close>

inductive cluster_step :: "(int \<Rightarrow> int) \<Rightarrow> (nat \<Rightarrow> 'd booking_service) \<Rightarrow> 'd cluster \<Rightarrow> 'd cluster \<Rightarrow> bool" for key svc where
  ask: "i < length (cl_sessions c) \<Longrightarrow> cl_sessions c ! i = Idle \<or> (\<exists>r. cl_sessions c ! i = Answered r) \<Longrightarrow> ap_status a = Booked \<Longrightarrow>
     cluster_step key svc c (c\<lparr>cl_sessions := (cl_sessions c)[i := Asked a]\<rparr>)"
| step: "i < length (cl_sessions c) \<Longrightarrow> list_all (runs_beside key (svc i) (cl_sessions c ! i)) (others i (cl_sessions c)) \<Longrightarrow>
     advance (svc i) (cl_sessions c ! i) (cl_db c) = (x, t) \<Longrightarrow>
     cluster_step key svc c (c\<lparr>cl_sessions := (cl_sessions c)[i := x], cl_db := t\<rparr>)"
| other: "op_allowed op \<Longrightarrow> \<not> books op \<Longrightarrow> cluster_step key svc c (c\<lparr>cl_db := run_op op (cl_db c)\<rparr>)"

inductive cluster_reachable :: "(int \<Rightarrow> int) \<Rightarrow> (nat \<Rightarrow> 'd booking_service) \<Rightarrow> 'd cluster \<Rightarrow> bool" for key svc where
  migrated: "empty_tables (cl_db c) \<Longrightarrow> list_all (\<lambda>x. x = Idle) (cl_sessions c) \<Longrightarrow> cluster_reachable key svc c"
| move: "cluster_reachable key svc c \<Longrightarrow> cluster_step key svc c d \<Longrightarrow> cluster_reachable key svc d"

section \<open>A session alone\<close>

text \<open>\<open>n\<close> statements of one session with nothing in between.\<close>

primrec advances :: "nat \<Rightarrow> 'd booking_service \<Rightarrow> 'd session \<times> 'd sched_db \<Rightarrow> 'd session \<times> 'd sched_db" where
  "advances 0 S p = p"
| "advances (Suc n) S p = advances n S (advance S (fst p) (snd p))"

lemma advances_answered [simp]: "advances n S (Answered r, t) = (Answered r, t)"
  by (induction n) simp_all

text \<open>\<open>write_event\<close> does not read the tables: what it adds depends on the tick and the outbox only.\<close>

lemma write_event_apart:
  assumes "write_event S et tp a t = (r, u)" "outbox_rows t = outbox_rows s"
  shows "write_event S et tp a (sched_restore s t) = (r, (sched_restore s u)\<lparr>outbox_rows := outbox_rows u\<rparr>)"
  using assms
  by (auto simp: write_event_def new_appointment_event_def outbox_create_def on_ok_def map_err_def now_def new_uuid_def ok_def
      sql_def step_tick_def sched_restore_def split: option.splits)

lemma write_event_Inr_frame:
  assumes "write_event S et tp a t = (Inr v, u)"
  shows "\<exists>m n. u = t\<lparr>tick := n, outbox_seq := outbox_seq t + 1, outbox_rows := outbox_rows t @ [m]\<rparr>"
  using assms
  by (auto simp: write_event_def new_appointment_event_def outbox_create_def on_ok_def map_err_def now_def new_uuid_def ok_def
      sql_def step_tick_def split: option.splits)

lemma written_committed:
  assumes "created E a t0 s t row vrow brow" "u = t\<lparr>tick := n, outbox_seq := j, outbox_rows := outbox_rows t @ [m]\<rparr>"
  shows "commit_rows (written_rows s t) m (step_tick (sched_restore s u)) = step_tick u"
  using createdD [OF assms(1)]
  by (intro sched_db.equality) (simp_all add: commit_rows_def written_rows_def assms(2) sched_restore_def step_tick_def)

text \<open>COMMIT after the body of a transaction begun at \<open>s\<close>, or ROLLBACK.\<close>

definition finish :: "'d booking_service \<Rightarrow> 'd sched_db \<Rightarrow> (sched_error + 'd appointment) \<times> 'd sched_db \<Rightarrow> 'd session \<times> 'd sched_db" where
  "finish S s p = (case p of
       (Inl e, t) \<Rightarrow> (Answered (Inl e), sched_restore s (step_tick t))
     | (Inr a, t) \<Rightarrow> (case fault (bs_env S) (tick t) of
           Some msg \<Rightarrow> (Answered (Inl (ErrDb (DriverError msg))), sched_restore s (step_tick t))
         | None \<Rightarrow> (Answered (Inr a), step_tick t)))"

lemma sched_restore_restore [simp]: "sched_restore (sched_restore s t) u = sched_restore s u"
  by (simp add: sched_restore_def)

lemma sched_restore_tick [simp]: "sched_restore (step_tick s) u = sched_restore s u" "sched_restore s (step_tick u) = step_tick (sched_restore s u)"
  by (simp_all add: sched_restore_def step_tick_def)

lemma sched_restore_outbox [simp]: "sched_restore s (u\<lparr>outbox_rows := l\<rparr>) = sched_restore s u" "sched_restore s (sched_restore r u) = sched_restore s u"
  by (simp_all add: sched_restore_def)

lemma finish_tick [simp]: "finish S (step_tick s) p = finish S s p"
  by (simp add: finish_def split: prod.split sum.split option.split)

lemma alone_written:
  assumes c: "created E a0 t0 s t row vrow brow"
  shows "advances 2 S (Written a (written_rows s t), sched_restore s t) =
    finish S s (on_ok (write_event S AppointmentBooked topic_appointment_booked a) (\<lambda>_. ok a) t)"
proof -
  obtain r u where w: "write_event S AppointmentBooked topic_appointment_booked a t = (r, u)" by fastforce
  note w' = write_event_apart [OF w createdD(25) [OF c]]
  show ?thesis
  proof (cases r)
    case (Inl e)
    then show ?thesis using w w' by (simp add: numeral_2_eq_2 aborted_def finish_def on_ok_def)
  next
    case (Inr v)
    obtain m n where u: "u = t\<lparr>tick := n, outbox_seq := outbox_seq t + 1, outbox_rows := outbox_rows t @ [m]\<rparr>"
      using write_event_Inr_frame [OF w [unfolded Inr]] by (elim exE)
    then have "last (outbox_rows u) = m" by simp
    then show ?thesis using w w' Inr written_committed [OF c u]
      by (simp add: numeral_2_eq_2 aborted_def finish_def on_ok_def ok_def split: option.splits)
  qed
qed

lemma alone_open:
  "advances 6 S (Open a, s) = finish S s (book_tx S a s)"
proof -
  obtain r0 s0 where l: "lock_vehicle (bs_env S) (ap_vehicle_id a) s = (r0, s0)" by fastforce
  obtain r1 s1 where v: "vehicle_busy (bs_env S) (ap_vehicle_id a) (ap_start a) (ap_end a) s0 = (r1, s1)" by fastforce
  obtain r2 s2 where b: "free_bay (bs_env S) (ap_hub_id a) (ap_start a) (ap_end a) s1 = (r2, s2)" by fastforce
  have s: "s0 = step_tick s" "s1 = step_tick (step_tick s)" "s2 = step_tick (step_tick (step_tick s))"
    using lock_vehicle_run [OF l] range_query_state [OF v [unfolded vehicle_busy_def]] free_bay_state [OF b] by simp_all
  show ?thesis
  proof (cases "(\<exists>u. r0 = Inr u) \<and> r1 = Inr False \<and> (\<exists>bid. r2 = Inr bid)")
    case False
    then show ?thesis using l v b s
      by (cases r0; cases r1; cases r2) (simp_all add: eval_nat_numeral aborted_def finish_def book_tx_def on_ok_def fail_def)
  next
    case True
    then obtain u bid where r: "r0 = Inr u" "r1 = Inr False" "r2 = Inr bid" by (elim exE conjE)
    obtain r3 s3 where c: "create_appointment (bs_env S) (a\<lparr>ap_bay_id := bid\<rparr>) s2 = (r3, s3)" by fastforce
    show ?thesis
    proof (cases r3)
      case (Inl e)
      then show ?thesis using l v b r c s
        by (simp add: eval_nat_numeral aborted_def finish_def book_tx_def on_ok_def)
    next
      case (Inr x)
      obtain row vrow brow where cr: "created (bs_env S) (a\<lparr>ap_bay_id := bid\<rparr>) (clock (bs_env S) (tick s2)) s2 s3 row vrow brow"
        using create_appointment_Inr [OF c [unfolded Inr]] .
      have "advances 6 S (Open a, s) = advances 2 S (Written (x\<lparr>ap_services := ap_services a\<rparr>) (written_rows s2 s3), sched_restore s2 s3)"
        using l v b r c Inr by (simp add: eval_nat_numeral)
      moreover have "book_tx S a s = on_ok (write_event S AppointmentBooked topic_appointment_booked (x\<lparr>ap_services := ap_services a\<rparr>))
          (\<lambda>_. ok (x\<lparr>ap_services := ap_services a\<rparr>)) s3"
        using l v b r c Inr by (simp add: book_tx_def Let_def on_ok_def [of "lock_vehicle _ _"] on_ok_def [of "vehicle_busy _ _ _ _"]
          on_ok_def [of "free_bay _ _ _ _"] on_ok_def [of "create_appointment _ _"])
      moreover have "finish S s2 p = finish S s p" for p by (simp add: s)
      ultimately show ?thesis using alone_written [OF cr] by simp
    qed
  qed
qed

lemma session_alone:
  "advances 7 S (Asked a, s) = (case in_tx S (book_tx S a) s of (r, t) \<Rightarrow> (Answered r, t))"
proof -
  have *: "advances 7 S (Asked a, s) = advances 6 S (advance S (Asked a) s)" by (simp add: eval_nat_numeral)
  show ?thesis
  proof (cases "fault (bs_env S) (tick s)")
    case None
    moreover have "finish S (step_tick s) p = finish S s p" for p by simp
    ultimately have "advances 7 S (Asked a, s) = finish S s (book_tx S a (step_tick s))"
      using alone_open [of S a "step_tick s"] by (simp add: *)
    then show ?thesis using None
      by (simp add: run_in_tx_def finish_def split: prod.splits sum.splits option.splits)
  qed (simp add: * run_in_tx_def)
qed

section \<open>The invariant of the interleavings\<close>

text \<open>What a session has found out still holds of the committed rows: a checked vehicle is free, and written rows can be
  added.\<close>

fun session_ok :: "'d booking_service \<Rightarrow> 'd sched_db \<Rightarrow> 'd session \<Rightarrow> bool" where
  "session_ok S s (Checked a) \<longleftrightarrow>
     \<not> vehicle_taken s (ap_vehicle_id a) (db_time (bs_env S) (ap_start a)) (db_time (bs_env S) (ap_end a))"
| "session_ok S s (Placed a) \<longleftrightarrow>
     \<not> vehicle_taken s (ap_vehicle_id a) (db_time (bs_env S) (ap_start a)) (db_time (bs_env S) (ap_end a))"
| "session_ok S s (Written a k) \<longleftrightarrow>
     fits k s \<and> ar_id (bk_appointment k) < appt_seq s \<and> vr_vehicle_id (bk_vehicle k) = ap_vehicle_id a"
| "session_ok S s (Announced a k m) \<longleftrightarrow>
     fits k s \<and> ar_id (bk_appointment k) < appt_seq s \<and> vr_vehicle_id (bk_vehicle k) = ap_vehicle_id a"
| "session_ok S s x \<longleftrightarrow> True"

text \<open>Two sessions hold different locks, and what they have written can be committed in either order.\<close>

definition rows_apart :: "'d booking_rows \<Rightarrow> 'd booking_rows \<Rightarrow> bool" where
  "rows_apart k l \<longleftrightarrow> ar_id (bk_appointment k) \<noteq> ar_id (bk_appointment l) \<and>
     \<not> (br_bay_id (bk_bay k) = br_bay_id (bk_bay l) \<and> overlaps (br_start (bk_bay k)) (br_end (bk_bay k)) (br_start (bk_bay l)) (br_end (bk_bay l)))"

definition compatible :: "(int \<Rightarrow> int) \<Rightarrow> 'd session \<Rightarrow> 'd session \<Rightarrow> bool" where
  "compatible key x y \<longleftrightarrow>
     (\<forall>v w. locked_vehicle x = Some v \<longrightarrow> locked_vehicle y = Some w \<longrightarrow> key v \<noteq> key w) \<and>
     (\<forall>k l. pending_rows x = Some k \<longrightarrow> pending_rows y = Some l \<longrightarrow> rows_apart k l)"

definition cluster_inv :: "(int \<Rightarrow> int) \<Rightarrow> (nat \<Rightarrow> 'd booking_service) \<Rightarrow> 'd cluster \<Rightarrow> bool" where
  "cluster_inv key svc c \<longleftrightarrow> tables_ok (cl_db c) \<and>
     (\<forall>i < length (cl_sessions c). session_ok (svc i) (cl_db c) (cl_sessions c ! i)) \<and>
     (\<forall>i < length (cl_sessions c). \<forall>j < length (cl_sessions c). i \<noteq> j \<longrightarrow> compatible key (cl_sessions c ! i) (cl_sessions c ! j))"

lemma rows_apart_sym: "rows_apart k l = rows_apart l k"
  by (auto simp: rows_apart_def overlaps_sym)

lemma compatible_sym: "compatible key x y = compatible key y x"
  by (auto simp: compatible_def rows_apart_sym)

lemma fits_subsided: "fits k s \<Longrightarrow> subsides s t \<Longrightarrow> fits k t"
  unfolding fits_def using subsided_taken [of s t] arg_cong [OF subsided_ids(1) [of s t], of set] by (auto simp: image_def)

lemma session_ok_subsided:
  assumes "session_ok S s x" "subsides s t"
  shows "session_ok S t x"
  using assms subsided_taken(1) [OF assms(2)] fits_subsided [OF _ assms(2)] subsided_ids(5) [OF assms(2)] by (cases x) force+

lemma appended_taken:
  assumes "rows_aligned s" "fits k s" "appends k s t"
  shows "vr_vehicle_id (bk_vehicle k) \<noteq> v \<Longrightarrow> vehicle_taken t v a b \<Longrightarrow> vehicle_taken s v a b"
    "\<not> (br_bay_id (bk_bay k) = i \<and> overlaps (br_start (bk_bay k)) (br_end (bk_bay k)) a b) \<Longrightarrow> bay_taken t i a b \<Longrightarrow> bay_taken s i a b"
  using assms(3) fits_new_ids(2) [OF assms(1,2)] by (auto simp: vehicle_taken_def bay_taken_def appends_def)

lemma fits_appended:
  assumes "rows_aligned s" "fits k s" "appends k s t" "fits l s" "rows_apart k l" "vr_vehicle_id (bk_vehicle k) \<noteq> vr_vehicle_id (bk_vehicle l)"
  shows "fits l t"
proof -
  have "appointments t = appointments s @ [bk_appointment k]" using assms(3) by (simp add: appends_def)
  then show ?thesis using assms(4-6) appended_taken [OF assms(1-3)] unfolding fits_def rows_apart_def by auto
qed

text \<open>When one session commits, what the others know stays true.\<close>

lemma session_ok_appended:
  assumes al: "rows_aligned s" and fit: "fits k s" and app: "appends k s t"
    and c: "compatible key x y" and x: "pending_rows x = Some k" "locked_vehicle x = Some (vr_vehicle_id (bk_vehicle k))"
    and y: "session_ok S s y"
  shows "session_ok S t y"
proof -
  have v: "vr_vehicle_id (bk_vehicle k) \<noteq> w" if "locked_vehicle y = Some w" for w
    using c x(2) that unfolding compatible_def by metis
  have r: "rows_apart k l" if "pending_rows y = Some l" for l using c x(1) that unfolding compatible_def by metis
  have seq: "appt_seq s \<le> appt_seq t" using app by (simp add: appends_def)
  show ?thesis
    using y v r seq appended_taken(1) [OF al fit app] fits_appended [OF al fit app] by (cases y) force+
qed

section \<open>Steps keep it\<close>

lemma sched_restore_subsides: "appt_seq s \<le> appt_seq t \<Longrightarrow> subsides s (sched_restore s t)"
  by (rule subsides_same) simp_all

lemma grows_seq: "sched_tx.grows m \<Longrightarrow> m s = (r, t) \<Longrightarrow> appt_seq s \<le> appt_seq t"
  using sched_tx.growsD [of m s r t] by (simp add: sched_later_def)

lemmas create_seq = grows_seq [OF grows_programs(3)]
lemmas write_event_seq = grows_seq [OF grows_event]

text \<open>Only COMMIT shows rows to others.\<close>

lemma subsides_tick [simp]: "subsides s (step_tick t) = subsides s t" "subsides s s"
  by (simp_all add: subsides_def) (use subsides_same [of s s] in \<open>simp add: subsides_def\<close>)

lemma vehicle_busy_state: "vehicle_busy E v a b s = (r, t) \<Longrightarrow> t = step_tick s"
  unfolding vehicle_busy_def by (rule range_query_state)

lemma sched_restore_self [simp]: "sched_restore s s = s"
  by (simp add: sched_restore_def)

lemma advance_subsides:
  assumes "advance S x s = (y, t)" "\<not> (\<exists>a k m. x = Announced a k m \<and> fault (bs_env S) (tick s) = None)"
  shows "subsides s t"
  using assms
  by (cases x) (auto simp: aborted_def split: prod.splits sum.splits option.splits if_splits
    dest!: lock_vehicle_run vehicle_busy_state free_bay_state create_seq write_event_seq intro: sched_restore_subsides)

text \<open>What a statement can change of the locks held and the rows written.\<close>

lemma advance_locks:
  assumes "advance S x s = (y, t)" "locked_vehicle y \<noteq> None"
  shows "locked_vehicle y = locked_vehicle x \<or> (\<exists>a. x = Open a \<and> y = Locked a)"
  using assms by (cases x) (auto simp: aborted_def split: prod.splits sum.splits option.splits if_splits elim!: create_appointment_Inr)

lemma advance_rows:
  assumes "advance S x s = (y, t)" "pending_rows y \<noteq> None"
  shows "pending_rows y = pending_rows x \<or>
    (\<exists>a u. x = Placed a \<and> pending_rows y = Some (written_rows s u) \<and> (\<exists>c. create_appointment (bs_env S) a s = (Inr c, u)))"
  using assms by (cases x) (auto simp: aborted_def split: prod.splits sum.splits option.splits if_splits)

lemma written_fits:
  assumes al: "rows_aligned s" and c: "create_appointment E a s = (Inr c, t)"
    and free: "\<not> vehicle_taken s (ap_vehicle_id a) (db_time E (ap_start a)) (db_time E (ap_end a))"
  shows "fits (written_rows s t) s" "ar_id (bk_appointment (written_rows s t)) = appt_seq s" "appt_seq s < appt_seq t"
    "vr_vehicle_id (bk_vehicle (written_rows s t)) = ap_vehicle_id a" "ap_vehicle_id c = ap_vehicle_id a"
    "br_bay_id (bk_bay (written_rows s t)) = ap_bay_id a" "br_start (bk_bay (written_rows s t)) = db_time E (ap_start a)"
    "br_end (bk_bay (written_rows s t)) = db_time E (ap_end a)"
proof -
  from c obtain row vrow brow where k: "created E a (clock E (tick s)) s t row vrow brow"
    and a: "c = a\<lparr>ap_id := appt_seq s, ap_created := clock E (tick s), ap_updated := clock E (tick s)\<rparr>"
    by (rule create_appointment_Inr)
  note d = createdD [OF k]
  have "written_rows s t = created_rows a s row vrow brow"
    by (simp add: written_rows_def created_rows_def d(1-4))
  then show "fits (written_rows s t) s" "ar_id (bk_appointment (written_rows s t)) = appt_seq s" "appt_seq s < appt_seq t"
    "vr_vehicle_id (bk_vehicle (written_rows s t)) = ap_vehicle_id a" "ap_vehicle_id c = ap_vehicle_id a"
    "br_bay_id (bk_bay (written_rows s t)) = ap_bay_id a" "br_start (bk_bay (written_rows s t)) = db_time E (ap_start a)"
    "br_end (bk_bay (written_rows s t)) = db_time E (ap_end a)"
    using created_appends(1) [OF al k free] d(5-7,13,15-17,21) a by (simp_all add: created_rows_def)
qed

lemma commit_appends:
  assumes "session_ok S s (Announced a k m)"
  shows "fits k s" "appends k s (commit_rows k m (step_tick s))"
  using assms by (simp_all add: appends_def commit_rows_def)

lemma advance_tables_ok:
  assumes "tables_ok s" "session_ok S s x" "advance S x s = (y, t)"
  shows "tables_ok t"
proof (cases "\<exists>a k m. x = Announced a k m \<and> fault (bs_env S) (tick s) = None")
  case True
  then obtain a k m where x: "x = Announced a k m" and f: "fault (bs_env S) (tick s) = None" by (elim exE conjE)
  have "t = commit_rows k m (step_tick s)" using assms(3) x f by simp
  then show ?thesis using appended_tables_ok [OF assms(1) commit_appends [OF assms(2) [unfolded x]]] by simp
qed (use subsided_tables_ok [OF assms(1) advance_subsides [OF assms(3)]] in simp)

lemma advance_self_ok:
  assumes "tables_ok s" "session_ok S s x" "advance S x s = (y, t)"
  shows "session_ok S t y"
proof (cases "\<exists>a. x = Placed a")
  case True
  then obtain a where x: "x = Placed a" ..
  have al: "rows_aligned s" using assms(1) by (simp add: tables_ok_def)
  obtain r u where c: "create_appointment (bs_env S) a s = (r, u)" by fastforce
  show ?thesis
  proof (cases r)
    case (Inl e)
    then show ?thesis using assms(3) x c by (auto simp: aborted_def)
  next
    case (Inr b)
    note w = written_fits [OF al c [unfolded Inr] assms(2) [unfolded x session_ok.simps]]
    have "fits (written_rows s u) (sched_restore s u)"
      using w(1,3) by (intro fits_subsided [OF w(1)] sched_restore_subsides) simp
    then show ?thesis using assms(3) x c Inr w(2-5) by auto
  qed
next
  case False
  then show ?thesis
    using assms(2,3) session_ok_subsided [OF assms(2) advance_subsides [OF assms(3)]]
    by (cases x) (auto simp: aborted_def vehicle_busy_Inr split: prod.splits sum.splits option.splits if_splits
      dest!: lock_vehicle_run free_bay_Inr)
qed

lemma session_ok_rows:
  assumes "session_ok S s z" "pending_rows z = Some l"
  shows "fits l s" "ar_id (bk_appointment l) < appt_seq s" "locked_vehicle z = Some (vr_vehicle_id (bk_vehicle l))"
  using assms by (cases z; auto)+

lemma advance_beside_ok:
  assumes "tables_ok s" "session_ok S s x" "advance S x s = (y, t)" "session_ok S' s z" "compatible key x z"
  shows "session_ok S' t z"
proof (cases "\<exists>a k m. x = Announced a k m \<and> fault (bs_env S) (tick s) = None")
  case True
  then obtain a k m where x: "x = Announced a k m" and f: "fault (bs_env S) (tick s) = None" by (elim exE conjE)
  have t: "t = commit_rows k m (step_tick s)" using assms(3) x f by simp
  have al: "rows_aligned s" using assms(1) by (simp add: tables_ok_def)
  have p: "pending_rows x = Some k" using x by simp
  show ?thesis unfolding t
    by (rule session_ok_appended [OF al commit_appends [OF assms(2) [unfolded x]] assms(5) p session_ok_rows(3) [OF assms(2) p] assms(4)])
qed (use session_ok_subsided [OF assms(4) advance_subsides [OF assms(3)]] in simp)

lemma advance_compatible:
  assumes "tables_ok s" "session_ok S s x" "advance S x s = (y, t)" "session_ok S' s z" "compatible key x z" "runs_beside key S x z"
  shows "compatible key y z"
  unfolding compatible_def
proof (intro conjI allI impI)
  fix v w
  assume v: "locked_vehicle y = Some v" and w: "locked_vehicle z = Some w"
  then consider "locked_vehicle x = Some v" | a where "x = Open a" "y = Locked a"
    using advance_locks [OF assms(3)] by auto
  then show "key v \<noteq> key w"
  proof cases
    case 1
    then show ?thesis using assms(5) w unfolding compatible_def by blast
  next
    case 2
    then show ?thesis using assms(6) v w by (auto simp: holds_key_def)
  qed
next
  fix k l
  assume k: "pending_rows y = Some k" and l: "pending_rows z = Some l"
  then consider "pending_rows x = Some k"
    | a u c where "x = Placed a" "k = written_rows s u" "create_appointment (bs_env S) a s = (Inr c, u)"
    using advance_rows [OF assms(3)] by auto
  then show "rows_apart k l"
  proof cases
    case 1
    then show ?thesis using assms(5) l unfolding compatible_def by blast
  next
    case 2
    have al: "rows_aligned s" using assms(1) by (simp add: tables_ok_def)
    note w = written_fits [OF al 2(3) assms(2) [unfolded 2(1) session_ok.simps]]
    show ?thesis
      using session_ok_rows(2) [OF assms(4) l] assms(6) l 2(1) unfolding rows_apart_def 2(2) w(2,6-8)
      by (auto simp: reserves_def overlaps_sym)
  qed
qed

section \<open>Other operations\<close>

lemma subsides_then:
  assumes "subsides s w" "appointments t = appointments w" "appt_bays t = appt_bays w" "appt_services t = appt_services w"
    "appt_vehicles t = appt_vehicles w" "appt_seq w \<le> appt_seq t"
  shows "subsides s t"
proof -
  have "subsides s t = subsides s (w\<lparr>appt_seq := appt_seq t\<rparr>)" using assms(2-5) by (simp add: subsides_def)
  then show ?thesis using assms(1,6) unfolding subsides_def by (auto intro: order_trans)
qed

lemma subsides_enqueued: "subsides s w \<Longrightarrow> enqueued w t topic key p \<Longrightarrow> subsides s t"
  by (erule subsides_then) (auto simp: enqueued_def)

lemma unchanged_subsides: "unchanged s t \<Longrightarrow> appt_seq s \<le> appt_seq t \<Longrightarrow> subsides s t"
  by (rule subsides_same) (simp_all add: unchanged_def)

lemma grows_tx:
  assumes "sched_tx.grows body"
  shows "sched_tx.grows (in_tx S body)"
proof (rule sched_tx.growsI)
  fix s r t
  assume run: "in_tx S body s = (r, t)"
  have l: "sched_later s (step_tick u)" if "body (step_tick s) = (q, u)" for q u
    using sched_tx.growsD [OF assms that] by (simp add: sched_later_def)
  show "sched_later s t"
    using run l by (auto simp: run_in_tx_def sched_later_def split: option.splits prod.splits sum.splits)
qed

lemma cancel_seq:
  assumes "directories_read_only S" "cancel S caller aid s = (r, t)"
  shows "appt_seq s \<le> appt_seq t"
proof -
  have d: "sched_tx.grows (bs_customers S tok)" for tok
    using assms(1) by (simp add: directories_read_only_def sched_tx.grows_reads_only)
  have "sched_tx.grows (cancel S caller aid)" unfolding cancel_def
    by (intro sched_tx.grows_intros d grows_tx grows_booking_bodies sched_tx.grows_reads_only [OF reads_only_loads(2)])
  then show ?thesis using assms(2) by (rule grows_seq)
qed

lemma complete_seq:
  assumes "complete S aid s = (r, t)"
  shows "appt_seq s \<le> appt_seq t"
proof -
  have e: "sched_tx.grows (new_service_completed_event E D occ a cur :: ('d sched_db, sched_error, service_completed_event) prog)" for E D occ a cur
    unfolding new_service_completed_event_def by (intro sched_tx.grows_intros)
  have "sched_tx.grows (complete S aid)" unfolding complete_def
    by (intro sched_tx.grows_intros e grows_tx grows_booking_bodies sched_tx.grows_reads_only [OF reads_only_loads(2)])
  then show ?thesis using assms by (rule grows_seq)
qed

lemma cancels_subsides: "cancels aid s w \<Longrightarrow> subsides s w"
  by (elim exE) (erule restated_subsides; simp add: live_statuses_def)

lemma completes_subsides: "completes aid s w \<Longrightarrow> subsides s w"
  by (elim exE) (erule restated_subsides; auto simp: live_statuses_def)

lemma subsides_snd: "reads_only m \<Longrightarrow> subsides s (snd (m s))"
  using reads_onlyD [of m s "fst (m s)" "snd (m s)"] by (auto intro!: subsides_same)

lemma run_op_subsides:
  assumes al: "rows_aligned s" and ok: "op_allowed x" and "\<not> books x"
  shows "subsides s (run_op x s)"
proof (cases x)
  case (OpCancel S caller aid)
  have dir: "directories_read_only S" using ok OpCancel by simp
  obtain r t where run: "cancel S caller aid s = (r, t)" by fastforce
  show ?thesis
  proof (cases r)
    case (Inl e)
    have "unchanged s t" by (rule cancel_Inl_unchanged [OF dir run [unfolded Inl]])
    then show ?thesis using OpCancel run unchanged_subsides cancel_seq [OF dir run] by simp
  next
    case (Inr a)
    from run [unfolded Inr] obtain w ev where c: "cancels aid s w"
      and e: "\<exists>ev. enqueued w t topic_appointment_cancelled (format_int aid) (appointment_event_json ev) \<and>
       ev_event_type ev = AppointmentCancelled \<and> st_id (ev_appointment ev) = aid \<and> st_status (ev_appointment ev) = Cancelled"
      by (rule cancel_Inr [OF dir])
    then show ?thesis using OpCancel run subsides_enqueued [OF cancels_subsides [OF c]] by auto
  qed
next
  case (OpComplete S aid)
  obtain r t where run: "complete S aid s = (r, t)" by fastforce
  show ?thesis
  proof (cases r)
    case (Inl e)
    have "unchanged s t" by (rule complete_Inl_unchanged [OF run [unfolded Inl]])
    then show ?thesis using OpComplete run unchanged_subsides complete_seq [OF run] by simp
  next
    case (Inr a)
    from run [unfolded Inr] obtain w ev where c: "completes aid s w"
      and e: "enqueued w t topic_service_completed (format_int aid) (service_completed_json ev)"
      by (rule complete_Inr [OF al])
    then show ?thesis using OpComplete run subsides_enqueued [OF completes_subsides [OF c]] by auto
  qed
next
  case (OpRelay E)
  then show ?thesis using relay_tables [of E s] by (simp add: sched_tables_def subsides_same)
qed (use assms in \<open>simp_all add: subsides_snd reads_only_queries reads_only_hub_day reads_only_availability subsides_same\<close>)

lemma beside_nth: "list_all P (others i xs) \<Longrightarrow> i < length xs \<Longrightarrow> j < length xs \<Longrightarrow> i \<noteq> j \<Longrightarrow> P (xs ! j)"
proof -
  assume "list_all P (others i xs)" "i < length xs" "j < length xs" "i \<noteq> j"
  moreover from this have "xs ! j \<in> set (others i xs)"
    by (cases "j < i") (auto simp: others_def in_set_conv_nth intro: exI [of _ j] exI [of _ "j - Suc i"])
  ultimately show ?thesis by (simp add: list_all_iff)
qed

section \<open>No double booking\<close>

lemma cluster_step_inv:
  assumes "cluster_step key svc c d" "cluster_inv key svc c"
  shows "cluster_inv key svc d"
  using assms(1)
proof cases
  case (ask i a)
  then show ?thesis using assms(2) by (auto simp: cluster_inv_def nth_list_update compatible_def)
next
  case (step i x t)
  let ?ss = "cl_sessions c"
  have ok: "tables_ok (cl_db c)" "session_ok (svc j) (cl_db c) (?ss ! j)" "i \<noteq> j \<Longrightarrow> compatible key (?ss ! i) (?ss ! j)"
    "i \<noteq> j \<Longrightarrow> runs_beside key (svc i) (?ss ! i) (?ss ! j)" if "j < length ?ss" for j
    using assms(2) step(2,3) that by (auto simp: cluster_inv_def beside_nth)
  note mine = ok(1,2) [OF step(2)]
  have a: "tables_ok t" "session_ok (svc i) t x"
    using advance_tables_ok [OF mine step(4)] advance_self_ok [OF mine step(4)] by simp_all
  have b: "session_ok (svc j) t (?ss ! j)" "compatible key x (?ss ! j)" if "j < length ?ss" "i \<noteq> j" for j
    using advance_beside_ok [OF mine step(4) ok(2,3)] advance_compatible [OF mine step(4) ok(2-4)] that by simp_all
  have d: "cl_db d = t" "cl_sessions d = ?ss[i := x]" using step(1) by simp_all
  have "compatible key (?ss[i := x] ! j) (?ss[i := x] ! l)" if "j < length ?ss" "l < length ?ss" "j \<noteq> l" for j l
    using assms(2) b(2) [of j] b(2) [of l] that step(2) compatible_sym by (cases "i = j"; cases "i = l") (auto simp: cluster_inv_def)
  moreover have "session_ok (svc j) t (?ss[i := x] ! j)" if "j < length ?ss" for j
    using a(2) b(1) [of j] that by (cases "i = j") simp_all
  ultimately show ?thesis using a(1) by (simp add: cluster_inv_def d)
next
  case (other op)
  have sub: "subsides (cl_db c) (run_op op (cl_db c))"
    by (rule run_op_subsides [OF _ other(2,3)]) (use assms(2) in \<open>simp add: cluster_inv_def tables_ok_def\<close>)
  then show ?thesis
    using assms(2) subsided_tables_ok [OF _ sub] session_ok_subsided [OF _ sub] by (simp add: cluster_inv_def other(1))
qed

lemma cluster_reachable_inv: "cluster_reachable key svc c \<Longrightarrow> cluster_inv key svc c"
proof (induction rule: cluster_reachable.induct)
  case (migrated c)
  have "tables_ok (cl_db c)" using empty_tables_inv [OF migrated(1)] by (simp add: sched_inv_def tables_ok_def)
  then show ?case using migrated(2) by (auto simp: cluster_inv_def list_all_length compatible_def)
qed (rule cluster_step_inv)

text \<open>While the other sessions have not begun a transaction, one session can run on alone.\<close>

lemma waits_for_none: "list_all (\<lambda>y. locked_vehicle y = None) ys \<Longrightarrow> list_all (runs_beside key S x) ys"
proof (induction ys)
  case (Cons y ys)
  have "pending_rows y = None" if "locked_vehicle y = None" using that by (cases y) auto
  then have "runs_beside key S x y" using Cons(2) by (cases x) (auto simp: holds_key_def reserves_def)
  then show ?case using Cons by simp
qed simp

lemma advances_reachable:
  assumes "cluster_reachable key svc c" "i < length (cl_sessions c)" "list_all (\<lambda>y. locked_vehicle y = None) (others i (cl_sessions c))"
    "advances n (svc i) (cl_sessions c ! i, cl_db c) = (x, t)"
  shows "cluster_reachable key svc (c\<lparr>cl_sessions := (cl_sessions c)[i := x], cl_db := t\<rparr>)"
  using assms
proof (induction n arbitrary: c)
  case (Suc n)
  obtain y u where y: "advance (svc i) (cl_sessions c ! i) (cl_db c) = (y, u)" by fastforce
  let ?d = "c\<lparr>cl_sessions := (cl_sessions c)[i := y], cl_db := u\<rparr>"
  have "cluster_reachable key svc ?d"
    by (rule cluster_reachable.move [OF Suc.prems(1)])
      (rule cluster_step.step [where svc = svc and c = c, OF Suc.prems(2) waits_for_none [OF Suc.prems(3)] y])
  then have "cluster_reachable key svc (?d\<lparr>cl_sessions := (cl_sessions ?d)[i := x], cl_db := t\<rparr>)"
    by (rule Suc.IH) (use Suc.prems y in \<open>simp_all add: others_def\<close>)
  then show ?case by simp
next
  case 0
  have "c\<lparr>cl_sessions := (cl_sessions c)[i := x], cl_db := t\<rparr> = c" using 0(4) by (intro cluster.equality) auto
  then show ?case using 0(1) by simp
qed

section \<open>Every call answers\<close>

text \<open>How many statements a session has left at most.\<close>

fun statements_left :: "'d session \<Rightarrow> nat" where
  "statements_left Idle = 0"
| "statements_left (Answered r) = 0"
| "statements_left (Asked a) = 7"
| "statements_left (Open a) = 6"
| "statements_left (Locked a) = 5"
| "statements_left (Checked a) = 4"
| "statements_left (Placed a) = 3"
| "statements_left (Written a k) = 2"
| "statements_left (Announced a k m) = 1"

text \<open>\<open>n\<close> statements of sessions that have not answered, in any order the waits allow.\<close>

inductive session_run ::
    "(int \<Rightarrow> int) \<Rightarrow> (nat \<Rightarrow> 'd booking_service) \<Rightarrow> nat \<Rightarrow> 'd cluster \<Rightarrow> 'd cluster \<Rightarrow> bool" for key svc where
  stay: "session_run key svc 0 c c"
| advance: "session_run key svc n c d \<Longrightarrow> i < length (cl_sessions d) \<Longrightarrow> 0 < statements_left (cl_sessions d ! i) \<Longrightarrow>
     list_all (runs_beside key (svc i) (cl_sessions d ! i)) (others i (cl_sessions d)) \<Longrightarrow>
     advance (svc i) (cl_sessions d ! i) (cl_db d) = (x, t) \<Longrightarrow>
     session_run key svc (Suc n) c (d\<lparr>cl_sessions := (cl_sessions d)[i := x], cl_db := t\<rparr>)"

lemma advance_statements:
  "advance S x s = (y, t) \<Longrightarrow> 0 < statements_left x \<Longrightarrow> statements_left y < statements_left x"
  by (cases x) (auto simp: aborted_def split: prod.splits sum.splits option.splits if_splits)

lemma sum_list_update_less: "i < length xs \<Longrightarrow> (f y :: nat) < f (xs ! i) \<Longrightarrow> sum_list (map f (xs[i := y])) < sum_list (map f xs)"
  by (induction xs arbitrary: i) (auto split: nat.splits simp: less_Suc_eq_0_disj)

lemma session_run_bound:
  assumes "session_run key svc n c d"
  shows "n + sum_list (map statements_left (cl_sessions d)) \<le> sum_list (map statements_left (cl_sessions c))"
  using assms
proof induction
  case (advance n c d i x t)
  then have "sum_list (map statements_left ((cl_sessions d)[i := x])) < sum_list (map statements_left (cl_sessions d))"
    by (intro sum_list_update_less advance_statements) auto
  then show ?case using advance.IH by simp
qed simp

lemma statements_left_le: "sum_list (map statements_left xs) \<le> 7 * length xs"
proof (induction xs)
  case (Cons x xs)
  moreover have "statements_left x \<le> 7" by (cases x) simp_all
  ultimately show ?case by simp
qed simp

text \<open>Whoever waits for a lock waits for a session that has not answered, whoever waits for a bay row waits for one that waits
  for nobody: some session can always go on.\<close>

lemma others_in: "list_all P xs \<Longrightarrow> list_all P (others i xs)"
  by (auto simp: others_def list_all_iff dest: in_set_takeD in_set_dropD)

lemma no_rows_runs: "list_all (\<lambda>y. pending_rows y = None) ys \<Longrightarrow> list_all (runs_beside key S (Placed a)) ys"
  by (simp add: list_all_iff reserves_def)

lemma never_stuck:
  assumes "\<exists>x \<in> set xs. 0 < statements_left x"
  shows "\<exists>i < length xs. 0 < statements_left (xs ! i) \<and> list_all (runs_beside key (svc i) (xs ! i)) (others i xs)"
proof -
  have "\<exists>x \<in> set xs. 0 < statements_left x \<and> (\<forall>S. list_all (runs_beside key S x) xs)"
  proof (cases "\<exists>x \<in> set xs. 0 < statements_left x \<and> (\<nexists>a. x = Open a) \<and> (\<nexists>a. x = Placed a)")
    case True
    then obtain x where x: "x \<in> set xs" "0 < statements_left x" "\<nexists>a. x = Open a" "\<nexists>a. x = Placed a" by blast
    have "runs_beside key S x y" for S y using x(3,4) by (cases x) auto
    then show ?thesis using x(1,2) by (auto simp: list_all_iff)
  next
    case rest: False
    then have rows: "list_all (\<lambda>y. pending_rows y = None) xs"
      unfolding list_all_iff by (metis (no_types, lifting) pending_rows.simps statements_left.simps session.exhaust zero_less_one zero_less_numeral)
    show ?thesis
    proof (cases "\<exists>x \<in> set xs. \<exists>a. x = Placed a")
      case True
      then obtain a where a: "Placed a \<in> set xs" by blast
      then show ?thesis using no_rows_runs [OF rows, of key _ a] by (intro bexI [OF _ a]) simp
    next
      case False
      then have "list_all (\<lambda>y. locked_vehicle y = None) xs"
        unfolding list_all_iff using rest
        by (metis (no_types, lifting) locked_vehicle.simps statements_left.simps session.exhaust zero_less_one zero_less_numeral)
      then show ?thesis using assms waits_for_none by blast
    qed
  qed
  then obtain x where x: "x \<in> set xs" "0 < statements_left x" "\<And>S. list_all (runs_beside key S x) xs" by blast
  then obtain i where "i < length xs" "xs ! i = x" by (auto simp: in_set_conv_nth)
  then show ?thesis using x others_in by metis
qed

lemma can_go_on: "(\<exists>e. session_run key svc 1 d e) \<or> list_all (\<lambda>x. statements_left x = 0) (cl_sessions d)"
proof (cases "list_all (\<lambda>x. statements_left x = 0) (cl_sessions d)")
  case False
  then have "\<exists>x \<in> set (cl_sessions d). 0 < statements_left x" by (auto simp: list_all_iff)
  then obtain i where i: "i < length (cl_sessions d)" "0 < statements_left (cl_sessions d ! i)"
      "list_all (runs_beside key (svc i) (cl_sessions d ! i)) (others i (cl_sessions d))"
    using never_stuck by blast
  obtain x t where "advance (svc i) (cl_sessions d ! i) (cl_db d) = (x, t)" by fastforce
  from session_run.advance [where svc = svc, OF session_run.stay i this] show ?thesis by auto
qed simp

end
