(* ===== verification/SchedConcurrencyProps.thy ===== *)
theory SchedConcurrencyProps
  imports SchedConcurrency SchedSample
begin

text \<open>The properties of interleaved bookings.\<close>

section \<open>One session\<close>


section \<open>Several sessions\<close>

text \<open>C2. Whatever transactions of \<open>Book\<close> interleave with each other and with the other operations, whichever statements fail
  and whichever vehicles share a lock key, the committed rows never reserve a bay twice at a time and never hold two live
  appointments of one vehicle at a time.\<close>

theorem interleaved_no_double_booking:
  assumes "cluster_reachable key svc c"
  shows "bays_exclusive (cl_db c) \<and> vehicles_exclusive (cl_db c)"
  using cluster_reachable_inv [OF assms] by (simp add: cluster_inv_def tables_ok_def)

text \<open>Two sessions ask for the same appointment; the first has committed.\<close>

definition sample_cluster :: "dec session list \<Rightarrow> dec sched_db \<Rightarrow> dec cluster" where
  "sample_cluster xs s = \<lparr>cl_db = s, cl_sessions = xs\<rparr>"

lemma sample_in_tx:
  "in_tx sample_service (book_tx sample_service sample_entity) (sample_db\<lparr>tick := Suc (Suc (Suc 0))\<rparr>) = (Inr sample_booked, sample_booked_db)"
  using sample_book unfolding book_def on_ok_def sample_check prod.case sum.case .

lemma sample_cluster_reachable:
  "cluster_reachable key (\<lambda>_. sample_service)
     (sample_cluster [Answered (Inr sample_booked), Asked sample_entity] sample_booked_db)"
proof -
  let ?s = "sample_db\<lparr>tick := Suc (Suc (Suc 0))\<rparr>" and ?svc = "\<lambda>_. sample_service" and ?a = sample_entity
  have st: "ap_status ?a = Booked" by (simp add: sample_entity_def booking_entity_def)
  have "cluster_reachable key ?svc (sample_cluster [Idle, Idle] ?s)"
    by (rule cluster_reachable.migrated) (use sample_migrated in \<open>simp_all add: sample_cluster_def empty_tables_def\<close>)
  then have "cluster_reachable key ?svc (sample_cluster [Asked ?a, Idle] ?s)"
    by (rule cluster_reachable.move) (use cluster_step.ask [of 0 "sample_cluster [Idle, Idle] ?s" ?a key ?svc] st in \<open>simp add: sample_cluster_def\<close>)
  then have "cluster_reachable key ?svc (sample_cluster [Asked ?a, Asked ?a] ?s)"
    by (rule cluster_reachable.move) (use cluster_step.ask [of 1 "sample_cluster [Asked ?a, Idle] ?s" ?a key ?svc] st in \<open>simp add: sample_cluster_def\<close>)
  then show ?thesis
    using advances_reachable [of key ?svc "sample_cluster [Asked ?a, Asked ?a] ?s" 0 7 "Answered (Inr sample_booked)" sample_booked_db]
      session_alone [of sample_service ?a ?s] sample_in_tx
    by (simp add: sample_cluster_def others_def)
qed

theorem interleaved_no_double_booking_witness:
  "appointments sample_booked_db = [sample_row] \<and> bays_exclusive sample_booked_db \<and> vehicles_exclusive sample_booked_db"
  using interleaved_no_double_booking [OF sample_cluster_reachable [of id]]
  by (simp add: sample_cluster_def) (simp add: sample_booked_db_def)



end
