(* ===== verification/TimeRanges.thy ===== *)
theory TimeRanges
  imports WireTime
begin

text \<open>The date helpers of \<open>pkg/times/times.go\<close> (the same file in vehicle-service and customer-service): the day, week and
  month of an instant in UTC+7, and Unix milliseconds. Not modelled of the file: \<open>ConvertFormat\<close> and
  \<open>ConvertToUnixMilli\<close>, which go through time layouts and floating point the other theories do not need.\<close>

section \<open>The helpers\<close>

definition offset_days :: "location \<Rightarrow> int \<Rightarrow> int \<Rightarrow> int" where
  "offset_days loc date day = add_date loc date 0 0 day"

definition utc7 :: location where
  "utc7 = fixed_zone ''UTC+7'' (7 * 60 * 60)"

text \<open>\<open>t.Weekday()\<close>, Sunday 0.\<close>

definition weekday :: "location \<Rightarrow> int \<Rightarrow> int" where
  "weekday loc t = (local_seconds loc t div 86400 + 4) mod 7"

text \<open>\<open>time.Parse("2006-01-02T15:04:05", s)\<close>; a fraction may follow the seconds.\<close>

definition parse_unzoned :: "string \<Rightarrow> int option" where
  "parse_unzoned s =
     Option.bind (get_date s) (\<lambda>((y, mo, d), s).
     Option.bind (expect CHR ''T'' s) (\<lambda>s.
     Option.bind (get_clock s) (\<lambda>((h, mi), s).
     Option.bind (expect CHR '':'' s) (\<lambda>s.
     Option.bind (getnum True s) (\<lambda>(sec, s).
       if 60 \<le> sec then None
       else let (ns, s) = get_fraction s
            in if s = [] then Some (time_date y mo d h mi sec ns UTC) else None)))))"

definition format_time_rfc3339 :: "string \<Rightarrow> string" where
  "format_time_rfc3339 date = (case parse_unzoned date of None \<Rightarrow> '''' | Some t \<Rightarrow> format_wire t)"

definition week_range :: "string \<Rightarrow> int \<times> int" where
  "week_range date =
     (case parse_rfc3339 date of
        None \<Rightarrow> (zero_time, zero_time)
      | Some t \<Rightarrow>
          let (year, month, day) = date_in utc7 t;
              start_of_day = time_date year month day 0 0 0 0 utc7;
              days_to_monday = weekday UTC start_of_day;
              days_to_monday = (if days_to_monday = - 1 then 6 else days_to_monday);
              start = add_date UTC start_of_day 0 0 (- days_to_monday);
              sunday = add_date UTC start 0 0 6;
              (y, m, d) = date_in UTC sunday
          in (start, time_date y m d 23 59 59 999999999 utc7))"

definition month_range :: "string \<Rightarrow> int \<times> int" where
  "month_range date =
     (case parse_rfc3339 date of
        None \<Rightarrow> (zero_time, zero_time)
      | Some t \<Rightarrow>
          let (year, month, _) = date_in utc7 t
          in (time_date year month 1 0 0 0 0 utc7, time_date year (month + 1) 0 0 0 0 0 utc7 - 1))"

definition day_range :: "string \<Rightarrow> int \<times> int" where
  "day_range date =
     (case parse_rfc3339 date of
        None \<Rightarrow> (zero_time, zero_time)
      | Some t \<Rightarrow>
          let (year, month, day) = date_in utc7 t;
              start = time_date year month day 0 0 0 0 utc7;
              start_of_next_day = add_date UTC start 0 0 1
          in (start, start_of_next_day - 1))"

definition parse_unix_milli :: "int \<Rightarrow> int" where
  "parse_unix_milli unix_milli = quot unix_milli 1000 * second_ns + rem unix_milli 1000 * 1000000"

definition get_time_now_utc_unix_milli :: "env \<Rightarrow> ('z world_scheme, 'e, int) prog" where
  "get_time_now_utc_unix_milli E = on_ok (now E) (\<lambda>t. ok (t div millisecond))"

section \<open>What the parser can return\<close>

lemma digit_of_less: "digit_of c = Some d \<Longrightarrow> d < 10"
  by (auto simp: digit_of_def Let_def split: if_splits)

lemma parse_nat_acc_less: "parse_nat_acc a s = Some n \<Longrightarrow> n < (a + 1) * 10 ^ length s"
proof (induction s arbitrary: a)
  case (Cons c s)
  then obtain d where d: "digit_of c = Some d" "n < (10 * a + d + 1) * 10 ^ length s" by (auto split: option.splits)
  have "10 * a + d + 1 \<le> (a + 1) * 10" using digit_of_less [OF d(1)] by simp
  then have "(10 * a + d + 1) * 10 ^ length s \<le> (a + 1) * 10 * 10 ^ length s" by (rule mult_le_mono1)
  then have "n < (a + 1) * 10 * 10 ^ length s" using d(2) by (rule less_le_trans [rotated])
  then show ?case by (simp only: list.size power_Suc mult.assoc add_0_right add_Suc_right)
qed simp

lemma parse_digits_some: "list_all (\<lambda>c. digit_of c \<noteq> None) s \<Longrightarrow> \<exists>n. parse_nat_acc a s = Some n"
  by (induction s arbitrary: a) auto

lemma get_date_bounds:
  assumes "get_date s = Some ((y, m, d), r)"
  shows "0 \<le> y" "y \<le> 9999" "valid_date y m d"
proof -
  from assms obtain s' where gy: "get_year s = Some (y, s')" and v: "valid_date y m d"
    by (auto simp: get_date_def bind_eq_Some_conv split: if_splits)
  then show "valid_date y m d" by simp
  have l: "4 \<le> length s" using gy by (auto simp: get_year_def split: if_splits)
  obtain n where n: "parse_nat_acc 0 (take 4 s) = Some n" "y = int n"
    using gy by (auto simp: get_year_def split: if_splits option.splits)
  have "n < 10000" using parse_nat_acc_less [OF n(1)] l by (simp add: min_def split: if_splits)
  then show "0 \<le> y" "y \<le> 9999" using n(2) by simp_all
qed

lemma days_of_civil_bounds:
  assumes "valid_date y m d" "0 \<le> y" "y \<le> 9999"
  shows "- 1000000 \<le> days_of_civil y m d" "days_of_civil y m d \<le> 3700000"
proof -
  let ?i = "nat (m - 1)"
  have i: "?i < 12" "d - 1 < month_lengths y ! ?i" "0 \<le> d - 1" using assms(1) by (auto simp: valid_date_def days_in_month_def)
  have "0 \<le> sum_list (take ?i (month_lengths y))"
    by (intro sum_list_nonneg) (metis in_set_takeD month_lengths_pos less_imp_le)
  moreover have "days_before_month y m + (d - 1) < 367"
    using sum_take_month_lt [OF i(1,2)] by (simp add: days_before_month_def sum_month_lengths split: if_splits)
  ultimately show "- 1000000 \<le> days_of_civil y m d" "days_of_civil y m d \<le> 3700000"
    using days_before_year_linear [of y] assms(2,3) i(3) unfolding days_of_civil_def days_before_month_def by linarith+
qed

lemma getnum_bounds:
  assumes "getnum b s = Some (n, r)"
  shows "0 \<le> n \<and> n < 100"
proof (cases s)
  case (Cons c cs)
  obtain x where x: "digit_of c = Some x" using assms Cons by (auto split: option.splits)
  show ?thesis
  proof (cases cs)
    case Nil
    then show ?thesis using assms Cons x digit_of_less [OF x] by (simp split: if_splits)
  next
    case (Cons d ds)
    then show ?thesis using assms \<open>s = c # cs\<close> x digit_of_less [OF x] digit_of_less [of d]
      by (cases "digit_of d") (auto split: if_splits)
  qed
qed (use assms in simp)

lemma get_fraction_bounds: "0 \<le> fst (get_fraction s)" "fst (get_fraction s) < second_ns"
proof -
  have "0 \<le> fst (get_fraction s) \<and> fst (get_fraction s) < second_ns"
  proof (cases "\<exists>p d ds. s = p # d # ds \<and> (p = CHR ''.'' \<or> p = CHR '','') \<and> digit_of d \<noteq> None")
    case True
    then obtain p d ds where s: "s = p # d # ds" "p = CHR ''.'' \<or> p = CHR '',''" "digit_of d \<noteq> None" by (elim exE conjE)
    define f where "f = take 9 (takeWhile (\<lambda>c. digit_of c \<noteq> None) (d # ds))"
    have "list_all (\<lambda>c. digit_of c \<noteq> None) f"
      unfolding f_def list_all_iff by (metis in_set_takeD set_takeWhileD)
    then obtain n where n: "parse_nat_acc 0 f = Some n" using parse_digits_some by blast
    have l: "length f \<le> 9" by (simp add: f_def)
    have "n < 10 ^ length f" using parse_nat_acc_less [OF n] by simp
    then have "n * 10 ^ (9 - length f) < 10 ^ length f * 10 ^ (9 - length f)" by (intro mult_less_mono1) auto
    also have "\<dots> = 10 ^ 9" using l by (simp only: power_add [symmetric] le_add_diff_inverse)
    finally have "int (n * 10 ^ (9 - length f)) < int (10 ^ 9)" by (simp only: of_nat_less_iff)
    then have "int n * 10 ^ (9 - length f) < 10 ^ 9" by (simp only: of_nat_mult of_nat_power of_nat_numeral)
    moreover have "fst (get_fraction s) = int n * 10 ^ (9 - length f)"
      using s(2,3) n unfolding s(1) f_def get_fraction_def Let_def list.case by (simp only: simp_thms if_True fst_conv option.sel)
    ultimately show ?thesis by (simp add: second_ns_def)
  next
    case False
    then have "fst (get_fraction s) = 0" by (auto simp: get_fraction_def Let_def split: list.splits)
    then show ?thesis by (simp add: second_ns_def)
  qed
  then show "0 \<le> fst (get_fraction s)" "fst (get_fraction s) < second_ns" by simp_all
qed

lemma get_zone_bounds:
  assumes "get_zone s = Some (off, r)"
  shows "\<bar>off\<bar> \<le> 90000"
proof (cases s)
  case (Cons c rest)
  have *: "\<bar>off\<bar> \<le> 90000" if "\<not> 24 < h" "\<not> 60 < m" "0 \<le> h" "0 \<le> m" "off = (h * 60 + m) * 60 \<or> off = - ((h * 60 + m) * 60)" for h m
  proof -
    have "0 \<le> h * 60 + m" "h * 60 + m \<le> 1500" using that by linarith+
    then show ?thesis using that(5) by (elim disjE) (simp_all add: abs_le_iff)
  qed
  show ?thesis
    using assms Cons unfolding get_zone_def
    by (auto simp: bind_eq_Some_conv split: if_splits dest!: getnum_bounds intro: *)
qed (use assms in \<open>simp add: get_zone_def\<close>)

lemma get_clock_bounds: "get_clock s = Some ((h, m), r) \<Longrightarrow> 0 \<le> h \<and> h < 24 \<and> 0 \<le> m \<and> m < 60"
  by (auto simp: get_clock_def bind_eq_Some_conv split: if_splits dest!: getnum_bounds)

lemma parsed_bounds:
  assumes "parse_rfc3339 s = Some t"
  shows "\<bar>t div second_ns\<bar> \<le> 10 ^ 12"
proof -
  obtain off0 where "parse_zoned s = Some (t, off0)" using assms by (auto simp: parse_rfc3339_def)
  then obtain y m d s1 h mi s2 s3 sec s4 s5 off where
    d: "get_date s = Some ((y, m, d), s1)" and c: "get_clock s2 = Some ((h, mi), s3)" and n: "getnum True s4 = Some (sec, s5)" "sec < 60"
    and z: "get_zone (snd (get_fraction s5)) = Some (off, [])"
    and t: "t = time_date y m d h mi sec (fst (get_fraction s5)) UTC - off * second_ns"
    unfolding parse_zoned_def bind_eq_Some_conv by (auto simp: Let_def bind_eq_Some_conv split: prod.splits if_splits)
  note b = get_date_bounds [OF d]
  note c' = get_clock_bounds [OF c] and n' = getnum_bounds [OF n(1)] and z' = get_zone_bounds [OF z] and f = get_fraction_bounds [of s5]
  let ?u = "days_of_civil y m d * 86400 + h * 3600 + mi * 60 + sec - off"
  have "t = fst (get_fraction s5) + ?u * second_ns"
    unfolding t time_date_utc [OF b(3)] by (simp add: algebra_simps)
  then have "t div second_ns = ?u" using f by simp
  moreover have "\<bar>?u\<bar> \<le> 10 ^ 12" using days_of_civil_bounds [OF b(3,1,2)] c' n(2) n' z' by (simp add: abs_le_iff)
  ultimately show ?thesis by simp
qed

section \<open>Days of UTC+7\<close>

text \<open>The number of the local day of an instant, and the instant a local day begins.\<close>

definition local_day :: "int \<Rightarrow> int" where
  "local_day t = (t div second_ns + 25200) div 86400"

definition midnight :: "int \<Rightarrow> int" where
  "midnight n = (n * 86400 - 25200) * second_ns"

lemma midnight_add: "midnight (n + k) = midnight n + k * 86400 * second_ns"
  by (simp add: midnight_def algebra_simps)

lemma utc7_fields: "local_seconds utc7 t div 86400 = local_day t"
  by (simp add: local_seconds_def unix_seconds_def offset_at_def utc7_def fixed_zone_def local_day_def)

lemma local_day_midnight: "midnight (local_day t) \<le> t \<and> t < midnight (local_day t + 1)"
proof -
  define q where "q = t div second_ns"
  have "q * second_ns \<le> t" "t < q * second_ns + second_ns"
    using div_mult_mod_eq [of t second_ns] pos_mod_bound [of second_ns t] pos_mod_sign [of second_ns t] unfolding q_def second_ns_def by linarith+
  moreover have "local_day t * 86400 \<le> q + 25200" "q + 25200 < local_day t * 86400 + 86400"
    unfolding local_day_def q_def [symmetric] by linarith+
  ultimately show ?thesis unfolding midnight_def second_ns_def by (intro conjI; simp)
qed

lemma midnight_le_iff: "t < midnight n \<longleftrightarrow> local_day t < n"
proof -
  have "midnight m \<le> midnight n" if "m \<le> n" for m n using that by (simp add: midnight_def second_ns_def)
  then show ?thesis using local_day_midnight [of t] by (metis linorder_not_less order.strict_trans2 zless_imp_add1_zle)
qed

lemma zone_adjust_utc7: "\<bar>u\<bar> \<le> 10 ^ 15 \<Longrightarrow> zone_adjust utc7 u = u - 25200"
  by (auto simp: zone_adjust_def utc7_def fixed_zone_def Let_def min_int64_def max_int64_def offset_at_def)

lemma time_date_utc7:
  assumes "1 \<le> m" "m \<le> 12" "\<bar>days_of_civil y m d\<bar> \<le> 10 ^ 9"
  shows "time_date y m d 0 0 0 0 utc7 = midnight (days_of_civil y m d)"
    "time_date y m d 23 59 59 999999999 utc7 = midnight (days_of_civil y m d + 1) - 1"
proof -
  have m: "(m - 1) div 12 = 0" "(m - 1) mod 12 = m - 1" using assms by auto
  show "time_date y m d 0 0 0 0 utc7 = midnight (days_of_civil y m d)"
    using assms(3) by (simp add: time_date_def m Let_def zone_adjust_utc7 midnight_def second_ns_def)
  show "time_date y m d 23 59 59 999999999 utc7 = midnight (days_of_civil y m d + 1) - 1"
    using assms(3) by (simp add: time_date_def m Let_def zone_adjust_utc7 midnight_def second_ns_def)
qed

lemma civil_midnight:
  assumes "civil_of_days n = (y, m, d)" "\<bar>n\<bar> \<le> 10 ^ 9"
  shows "time_date y m d 0 0 0 0 utc7 = midnight n" "time_date y m d 23 59 59 999999999 utc7 = midnight (n + 1) - 1"
  using days_of_civil_of_days [OF assms(1)] time_date_utc7 [of m y d] assms(2) by (auto simp: valid_date_def)

lemma clock_sum: "r div 3600 * 3600 + r mod 3600 div 60 * 60 + r mod 60 = (r::int)"
proof -
  have "r mod 3600 mod 60 = r mod 60" by (rule mod_mod_cancel) simp
  then have "r mod 3600 div 60 * 60 + r mod 60 = r mod 3600" by (metis div_mult_mod_eq)
  then show ?thesis by (metis add.assoc div_mult_mod_eq)
qed

lemma add_date_days: "add_date UTC t 0 0 k = t + k * 86400 * second_ns"
proof -
  obtain y m d where c: "civil_of_days (t div second_ns div 86400) = (y, m, d)" by (metis prod_cases3)
  note v = days_of_civil_of_days [OF c]
  have m: "(m - 1) div 12 = 0" "(m - 1) mod 12 = m - 1" using v by (auto simp: valid_date_def)
  define L where "L = t div second_ns"
  have z: "zone_adjust UTC u = u" for u by (simp add: zone_adjust_def UTC_def fixed_zone_def Let_def)
  have date: "date_in UTC t = (y, m, d)" and sod: "second_of_day UTC t = L mod 86400"
    using c by (simp_all only: date_in_def second_of_day_def utc_fields L_def)
  have s: "t mod second_ns div second_ns = 0" "t mod second_ns mod second_ns = t mod second_ns" by (simp_all add: second_ns_def)
  have "days_of_civil y m (d + k) * 86400 + L mod 86400 div 3600 * 3600 + L mod 86400 mod 3600 div 60 * 60 + L mod 86400 mod 60 = L + k * 86400"
  proof -
    have "days_of_civil y m (d + k) = L div 86400 + k" using v by (simp add: days_of_civil_def L_def)
    then show ?thesis using clock_sum [of "L mod 86400"] div_mult_mod_eq [of L 86400] by (simp only: distrib_right)
  qed
  then have "add_date UTC t 0 0 k = (L + k * 86400) * second_ns + t mod second_ns"
    by (simp only: add_date_def date sod Let_def prod.case time_date_def m z s add_0_right diff_add_cancel)
  then show ?thesis using div_mult_mod_eq [of t second_ns] by (simp only: L_def distrib_right)
qed

lemma weekday_midnight: "weekday UTC (midnight n) = (n + 3) mod 7"
proof -
  have "midnight n div second_ns = n * 86400 - 25200" by (simp add: midnight_def second_ns_def)
  moreover have "(n * 86400 - 25200) div 86400 = n - 1" by linarith
  ultimately show ?thesis by (simp only: weekday_def utc_fields) (simp add: add.commute)
qed

lemma date_in_midnight: "date_in UTC (midnight n) = civil_of_days (n - 1)"
proof -
  have "midnight n div second_ns = n * 86400 - 25200" by (simp add: midnight_def second_ns_def)
  moreover have "(n * 86400 - 25200) div 86400 = n - 1" by linarith
  ultimately show ?thesis by (simp only: date_in_def utc_fields)
qed

lemma parsed_local_day: "parse_rfc3339 s = Some t \<Longrightarrow> \<bar>local_day t\<bar> \<le> 10 ^ 8"
  using parsed_bounds [of s t] unfolding local_day_def by (simp add: abs_le_iff) linarith

section \<open>The ranges\<close>

lemma day_range_run:
  assumes "parse_rfc3339 s = Some t"
  shows "day_range s = (midnight (local_day t), midnight (local_day t + 1) - 1)"
proof -
  obtain y m d where c: "civil_of_days (local_day t) = (y, m, d)" by (metis prod_cases3)
  have "time_date y m d 0 0 0 0 utc7 = midnight (local_day t)" using civil_midnight(1) [OF c] parsed_local_day [OF assms] by simp
  then show ?thesis by (simp add: day_range_def assms date_in_def utc7_fields c add_date_days midnight_add Let_def)
qed

text \<open>The week starts on the local Monday, as the weekday is taken of the instant in UTC, which is on the day before; its
  end is computed from the same shifted date and falls a day short.\<close>

lemma week_range_run:
  assumes "parse_rfc3339 s = Some t"
  shows "week_range s = (let n = local_day t; monday = n - (n + 3) mod 7 in (midnight monday, midnight (monday + 6) - 1))"
proof -
  let ?n = "local_day t"
  let ?monday = "?n - (?n + 3) mod 7"
  obtain y m d where c: "civil_of_days ?n = (y, m, d)" by (metis prod_cases3)
  obtain y' m' d' where c': "civil_of_days (?monday + 5) = (y', m', d')" by (metis prod_cases3)
  note b = parsed_local_day [OF assms]
  have day: "time_date y m d 0 0 0 0 utc7 = midnight ?n" using civil_midnight(1) [OF c] b by simp
  have w: "0 \<le> (?n + 3) mod 7" "(?n + 3) mod 7 < 7" by simp_all
  have "\<bar>n - k + 5\<bar> \<le> 10 ^ 9" if "\<bar>n\<bar> \<le> 10 ^ 8" "0 \<le> k" "k < 7" for n k :: int using that by simp
  then have "\<bar>?monday + 5\<bar> \<le> 10 ^ 9" using b w by blast
  then have fin: "time_date y' m' d' 23 59 59 999999999 utc7 = midnight (?monday + 6) - 1"
    using civil_midnight(2) [OF c'] by (simp add: add.assoc)
  let ?w = "(?n + 3) mod 7"
  have start: "add_date UTC (midnight ?n) 0 0 (- ?w) = midnight ?monday"
    using midnight_add [of ?n "- ?w"] by (simp add: add_date_days)
  have sunday: "add_date UTC (midnight ?monday) 0 0 6 = midnight (?monday + 6)"
    using midnight_add [of ?monday 6] by (simp only: add_date_days)
  have last: "date_in UTC (midnight (?monday + 6)) = (y', m', d')"
    unfolding date_in_midnight using c' by (simp add: algebra_simps)
  have k: "(if ?w = - 1 then 6 else ?w) = ?w" using w by simp
  have civ: "date_in utc7 t = (y, m, d)" using c by (simp only: date_in_def utc7_fields)
  show ?thesis
    unfolding week_range_def assms option.case civ Let_def prod.case day weekday_midnight k start sunday last fin ..
qed

lemma days_in_next_month:
  assumes "1 \<le> m" "m \<le> 12"
  shows "days_of_civil (y + m div 12) (m mod 12 + 1) 0 = days_of_civil y m (days_in_month y m)"
proof (cases "m = 12")
  case True
  then show ?thesis using year_length [of y]
    by (simp add: days_of_civil_def days_before_month_def days_in_month_def month_lengths_def)
next
  case False
  let ?i = "nat (m - 1)"
  have i: "?i < length (month_lengths y)" "nat m = Suc ?i" "m div 12 = 0" "m mod 12 = m" using assms False by auto
  have "days_before_month y (m + 1) = days_before_month y m + days_in_month y m"
    unfolding days_before_month_def days_in_month_def using i(1) by (simp add: i(2) take_Suc_conv_app_nth)
  then show ?thesis by (simp add: i(3,4) days_of_civil_def)
qed

text \<open>The month ends where its last day begins, not where it ends.\<close>

lemma month_range_run:
  assumes s: "parse_rfc3339 s = Some t" and c: "date_in utc7 t = (y, m, d)"
  shows "month_range s = (let first = local_day t - (d - 1) in (midnight first, midnight (first + (days_in_month y m - 1)) - 1))"
proof -
  let ?n = "local_day t"
  have v: "days_of_civil y m d = ?n" "valid_date y m d"
    using days_of_civil_of_days [of ?n y m d] c by (simp_all only: date_in_def utc7_fields)
  have m: "1 \<le> m" "m \<le> 12" "1 \<le> d" "d \<le> days_in_month y m" "days_in_month y m \<le> 31"
    using v(2) days_in_month_le [of m y] by (auto simp: valid_date_def)
  have first: "days_of_civil y m 1 = ?n - (d - 1)" using v(1) by (simp add: days_of_civil_def)
  have final: "days_of_civil y m (days_in_month y m) = ?n - (d - 1) + (days_in_month y m - 1)"
    using v(1) by (simp add: days_of_civil_def)
  have b: "\<bar>?n\<bar> \<le> 10 ^ 8" by (rule parsed_local_day [OF s])
  have start: "time_date y m 1 0 0 0 0 utc7 = midnight (?n - (d - 1))"
    using time_date_utc7(1) [of m y 1] m b unfolding first by simp
  have "time_date y (m + 1) 0 0 0 0 0 utc7 = time_date (y + m div 12) (m mod 12 + 1) 0 0 0 0 0 utc7"
    by (simp add: time_date_def Let_def)
  also have "\<dots> = midnight (?n - (d - 1) + (days_in_month y m - 1))"
    using time_date_utc7(1) [of "m mod 12 + 1" "y + m div 12" 0] m b unfolding days_in_next_month [OF m(1,2)] final by simp
  finally show ?thesis unfolding month_range_def s option.case c Let_def prod.case start by simp
qed

lemma parse_unix_milli_exact: "parse_unix_milli n = n * millisecond"
proof -
  have "quot n 1000 * 1000 + rem n 1000 = n" unfolding quot_def rem_def by (simp add: abs_mult sgn_mult_abs)
  then have "(quot n 1000 * 1000 + rem n 1000) * 1000000 = n * 1000000" by simp
  then show ?thesis by (simp add: parse_unix_milli_def duration_units algebra_simps)
qed

text \<open>Which instants the ranges of an instant hold: its day holds it, its week holds it unless it is a Sunday, and its month
  unless it is the last day.\<close>

lemma ranges_hold:
  assumes s: "parse_rfc3339 s = Some t" and c: "date_in utc7 t = (y, m, d)"
  shows "fst (day_range s) \<le> t \<and> t \<le> snd (day_range s)"
    "fst (week_range s) \<le> t \<and> (t \<le> snd (week_range s) \<longleftrightarrow> weekday utc7 t \<noteq> 0)"
    "fst (month_range s) \<le> t \<and> (t \<le> snd (month_range s) \<longleftrightarrow> d < days_in_month y m)"
proof -
  let ?n = "local_day t"
  have le: "midnight k \<le> t \<longleftrightarrow> k \<le> ?n" and lt: "t \<le> midnight k - 1 \<longleftrightarrow> ?n < k" for k
    using midnight_le_iff [of t k] by linarith+
  show "fst (day_range s) \<le> t \<and> t \<le> snd (day_range s)"
    unfolding day_range_run [OF s] fst_conv snd_conv le lt by simp
  have "weekday utc7 t = (?n + 4) mod 7" by (simp only: weekday_def utc7_fields)
  moreover have "(?n + 3) mod 7 = 6 \<longleftrightarrow> (?n + 4) mod 7 = 0" "0 \<le> (?n + 3) mod 7" "(?n + 3) mod 7 < 7" by presburger+
  ultimately show "fst (week_range s) \<le> t \<and> (t \<le> snd (week_range s) \<longleftrightarrow> weekday utc7 t \<noteq> 0)"
    unfolding week_range_run [OF s] Let_def fst_conv snd_conv le lt by linarith
  have v: "days_of_civil y m d = ?n" "valid_date y m d"
    using days_of_civil_of_days [of ?n y m d] c by (simp_all only: date_in_def utc7_fields)
  show "fst (month_range s) \<le> t \<and> (t \<le> snd (month_range s) \<longleftrightarrow> d < days_in_month y m)"
    using v(2) unfolding month_range_run [OF s c] Let_def fst_conv snd_conv le lt valid_date_def by auto
qed

section \<open>The property\<close>

text \<open>The ranges of an instant given in RFC3339, taken in UTC+7: its day holds it; its week starts before it and holds it
  except on a Sunday; its month starts before it and holds it except on the month's last day. So \<open>WeekRange\<close> and
  \<open>MonthRange\<close> leave out the last day of what they name.\<close>

theorem ranges_of_an_instant:
  assumes "parse_rfc3339 s = Some t" "date_in utc7 t = (y, m, d)"
  shows "fst (day_range s) \<le> t \<and> t \<le> snd (day_range s) \<and>
    fst (week_range s) \<le> t \<and> (t \<le> snd (week_range s) \<longleftrightarrow> weekday utc7 t \<noteq> 0) \<and>
    fst (month_range s) \<le> t \<and> (t \<le> snd (month_range s) \<longleftrightarrow> d < days_in_month y m)"
  using ranges_hold [OF assms] by simp

text \<open>Sunday 30 June 2024, noon.\<close>

theorem ranges_of_an_instant_witness:
  "snd (week_range ''2024-06-30T12:00:00Z'') < 1719748800000000000 \<and> snd (month_range ''2024-06-30T12:00:00Z'') < 1719748800000000000"
proof -
  have "parse_rfc3339 ''2024-06-30T12:00:00Z'' = Some 1719748800000000000" by code_simp
  moreover have "date_in utc7 1719748800000000000 = (2024, 6, 30)" by code_simp
  moreover have "weekday utc7 1719748800000000000 = 0" by code_simp
  moreover have "days_in_month 2024 6 = 30" by code_simp
  ultimately show ?thesis
    using ranges_of_an_instant [of "''2024-06-30T12:00:00Z''" 1719748800000000000 2024 6 30] by simp
qed

end
