(* ===== verification/Spec2Isabelle.thy ===== *)
theory Spec2Isabelle
  imports SchedWireProps VehicleProps VehicleEventProps CustomerQueryProps IdentityEventProps StartupProps
    SchedConcurrencyProps TimeRanges
begin

text \<open>A verification development for the Go services of the service-bay scheduler.

\<^bold>\<open>The program.\<close> Four Go services of the same hexagonal layout: HTTP handlers and Kafka consumers call a domain service, which
calls repositories over PostgreSQL (and Redis) inside transactions and leaves its events in an outbox table that a relay
sends to Kafka.
  \<^item> identity-service keeps user accounts, logs them in with short-lived access tokens and rotating refresh tokens, limits
    guessing, and announces every user (\<open>identity.user-events\<close>).
  \<^item> customer-service keeps customers, links them to users when it consumes those events, and serves cached listings.
  \<^item> vehicle-service keeps vehicles, their owners and their service history; it consumes scheduler-service's
    \<open>ServiceCompleted\<close> events.
  \<^item> scheduler-service books appointments: it asks customer-service who the caller is and vehicle-service which vehicles are
    theirs, picks a free bay, and writes the appointment and its event in one transaction.

\<^bold>\<open>How code is modelled.\<close> A function that touches the world is a \<open>prog\<close> of \<open>Prelude\<close>: from a state to an error or a result and
the next state; \<open>on_ok\<close> is \<open>if err != nil { return err }\<close>. A Go struct is a record, an enumeration a datatype or the
constants it is, a sentinel error a constructor of the service's error type with the detail \<open>fmt.Errorf\<close> adds. A table is the
list of its rows; a SQL statement is one atomic step that checks the constraints of the migrations it can violate, and any
statement may fail instead (\<open>fault\<close>). \<open>run_in_tx\<close> is BEGIN, the body, COMMIT or ROLLBACK: the tables are put back, the
sequences and the broker are not. \<open>int64\<close> arithmetic that can overflow wraps (\<open>wrap64\<close>), division truncates (\<open>quot\<close>,
\<open>rem\<close>). Each read of the clock, the id generator, the database or the broker happens at its own tick, so the environment can
answer differently every time.

\<^bold>\<open>What is a parameter.\<close> The clock, faults, generated ids, the database's collation and its rounding of times, and what the
broker does with each send (\<open>env\<close>); the tz database; the decimal library (contract \<open>decimal_library\<close>, an instance in
\<open>Decimal\<close>); JSON parsing of a body, the validator's email syntax and the texts of binding errors; signing and parsing of
JWTs, bcrypt and SHA-256; the HTTP transport between services; \<open>os.Getenv\<close>; PostgreSQL's \<open>hashtext\<close>.

\<^bold>\<open>Shared theories\<close> (the same files in every service, mapped to one copy each).
  \<^item> \<open>Prelude\<close>: programs, invariants kept by programs (\<open>keeps\<close>, collection \<open>keeps_intros\<close>), transactions, 64-bit arithmetic.
    \<open>Transactions\<close>: the contract of a service's database with its transactions (locale \<open>transactional\<close>), from which each
    service gets that a transaction keeps its invariant (\<open>tx_keeps\<close>) and that a failed one changes nothing (\<open>tx_failed\<close>).
  \<^item> \<open>GoText\<close>, \<open>GoTime\<close>: the parts of \<open>strconv\<close>, \<open>strings\<close>, \<open>time\<close> in use, with the Gregorian calendar and time zones;
    \<open>WireTime\<close> and \<open>Stamps\<close>: timestamps in JSON; \<open>TimeRanges\<close>: \<open>pkg/times/times.go\<close>; \<open>Json\<close>; \<open>HttpAuth\<close>: requests,
    the token verifier and the role middleware.
  \<^item> \<open>Outbox\<close>: the outbox repository, the producer and the relay, proved against the port it is written to (locale
    \<open>outbox_port\<close>): every message is sent at least once, the first sends in order. \<open>RelayProgress\<close>: with working dependencies the
    backlog drains. \<open>Claims\<close>: the loop over a Kafka claim.

\<^bold>\<open>scheduler-service.\<close> \<open>Decimal\<close> and \<open>Money\<close> (\<open>pkg/money\<close>); \<open>SchedData\<close> (entities, rows, errors), \<open>SchedCatalog\<close> and \<open>SchedRepo\<close>
(the repositories), \<open>SchedEvents\<close> (\<open>domain/events\<close>), \<open>Booking\<close> (\<open>domain/services/booking-service.go\<close>), \<open>SchedHttp\<close>
(\<open>http/handler\<close>, \<open>http/dto\<close>), \<open>SchedClient\<close> (\<open>adapters/client\<close>; locale \<open>caller_directories\<close>).
  \<^item> \<open>SchedInvariant\<close>: the invariant of the appointment tables: rows belong together, no bay and no vehicle is held by two
    appointments at a time. What a booking adds fits; what a cancellation or completion does only frees.
  \<^item> \<open>BookingProofs\<close>, \<open>BookingSpec\<close>, \<open>BookingQueries\<close>, \<open>SchedLifecycle\<close>: every operation keeps the invariant with any faults; what
    each success has checked and written and that failures change nothing; the slot grid and its agreement with booking; the
    status changes and events of an appointment over all reachable states.
  \<^item> \<open>SchedConcurrency\<close>: the transaction of \<open>Book\<close> cut at its statements, several sessions interleaved with PostgreSQL's two waits
    written out. A session alone is the sequential transaction, no interleaving double-books, and every call is answered.
  \<^item> \<open>SchedSample\<close>: the concrete deployment of the witnesses; \<open>SchedProps\<close>, \<open>SchedQueryProps\<close>, \<open>SchedWireProps\<close>,
    \<open>SchedConcurrencyProps\<close>: the properties.

\<^bold>\<open>vehicle-service.\<close> \<open>VehicleRules\<close>, \<open>VehicleData\<close>, \<open>VehicleRepo\<close>, \<open>VehicleService\<close> and \<open>VehicleHttp\<close> follow the code's files;
\<open>VehicleConsumer\<close> is the Kafka side. \<open>VehicleProofs\<close>: identities unique and canonical, at most one current owner, one history
entry per appointment, kept by every operation. \<open>VehicleSample\<close>, \<open>VehicleProps\<close>, \<open>VehicleEventProps\<close>: a concrete run and the
properties, among them that scheduler-service's event decodes to the facts it was built from.

\<^bold>\<open>customer-service.\<close> \<open>CustomerData\<close>, \<open>CustomerRepo\<close> (with the Redis cache), \<open>CustomerService\<close>, \<open>CustomerHttp\<close> (with the consumer of
user events); \<open>CustomerProofs\<close>: the invariant; \<open>CustomerSample\<close>, \<open>CustomerProps\<close>, \<open>CustomerQueryProps\<close>: identities, linking,
the age of a cached page, the search.

\<^bold>\<open>identity-service.\<close> \<open>IdentityData\<close>, \<open>IdentityRepo\<close> (with the Redis stores), \<open>IdentityService\<close>, \<open>IdentityHttp\<close> (rate limits and
cookie included).
  \<^item> \<open>IdentityProofs\<close>, \<open>IdentityEffects\<close>, \<open>IdentityRuns\<close>, \<open>IdentityLifecycle\<close>: the invariant of the users; what the session
    operations can do to a state, once for every relation that allows it (locales \<open>session_steps\<close>, \<open>redis_steps\<close>); the effect of
    whole operations; the states requests can reach.
  \<^item> \<open>IdentitySessions\<close>: the refresh-token store refines a map from token hashes to users (locale \<open>refresh_token_store\<close>), and a token
    once spent stays spent. \<open>IdentityThrottle\<close>: the counters behind the login limit.
  \<^item> \<open>IdentitySample\<close>, \<open>IdentityProps\<close>; \<open>IdentityEventProps\<close>: a registration reaches customer-service.

\<^bold>\<open>Start-up.\<close> \<open>Config\<close> is \<open>config/config.go\<close> of each service, \<open>Startup\<close> the order of the calls in \<open>application/application.go\<close> that
have to succeed and what the configuration decides; \<open>StartupProps\<close>: services started with the same secret and issuer accept
identity-service's tokens until they expire.

\<^bold>\<open>Bounds and termination.\<close> No definition runs on fuel. The slot loop ends because each slot starts half an hour later and must end
by closing time (\<open>slots_from\<close>); the relay takes one bounded batch per pass; the decimal and calendar loops are structural; a
session has at most seven statements. The consumers' and the relay's outer loops are not unrolled: a theorem about them
speaks of every sequence of passes.

\<^bold>\<open>Not modelled.\<close> billing-service (Java) and the frontend (TypeScript) are other languages; logging, metrics, health checks,
connection set-up, the migration runner and the shutdown sequence are calls of libraries (the constraints the migrations
create are in the repositories); \<open>pkg/csv\<close> (reflection, file output), \<open>pkg/types\<close> and the layout-guessing half of \<open>pkg/times\<close> are
called by no service. The copies of the outbox, the relay, the producer and the transaction manager in the other services, and of the
token verifier in customer- and vehicle-service, are the scheduler's files with another module path; the model has them once,
over any service's database.
Interleaving is modelled for bookings, where the code relies on locks; elsewhere an operation's transaction is one step.\<close>

end
